(* ===== verification/Prelude.thy ===== *)
theory Prelude
  imports Complex_Main "HOL-Library.Char_ord" "HOL-Library.List_Lexorder"
begin

text \<open>
  Shared vocabulary of the development: the effect type of stateful operations and its laws, the
  results of fallible pure code, keyed tables (a JavaScript \<^verbatim>\<open>Map\<close>), and the fencing
  contract that the versioned records of the product layer (runs, approvals, deliveries) share.
\<close>

named_theorems op_simps \<open>unfolding one operation of an effectful program\<close>
named_theorems keeps_intros \<open>rules that carry an invariant through an effectful program\<close>

section \<open>Fallible and stateful operations\<close>

text \<open>
  An \<^verbatim>\<open>async\<close> method that may throw and that mutates a store is a state transformer
  whose result is a sum. The state is kept on both sides of the sum: what was written before the
  \<^verbatim>\<open>throw\<close> stays written.
\<close>

type_synonym ('s, 'e, 'a) op = "'s \<Rightarrow> ('e + 'a) \<times> 's"

definition ok :: "'a \<Rightarrow> ('s, 'e, 'a) op" where
  "ok x = (\<lambda>s. (Inr x, s))"

definition throw :: "'e \<Rightarrow> ('s, 'e, 'a) op" where
  "throw e = (\<lambda>s. (Inl e, s))"

definition andThen :: "('s, 'e, 'a) op \<Rightarrow> ('a \<Rightarrow> ('s, 'e, 'b) op) \<Rightarrow> ('s, 'e, 'b) op" where
  "andThen m f = (\<lambda>s. case m s of (Inl e, t) \<Rightarrow> (Inl e, t) | (Inr x, t) \<Rightarrow> f x t)"

definition catch :: "('s, 'e, 'a) op \<Rightarrow> ('e \<Rightarrow> ('s, 'e, 'a) op) \<Rightarrow> ('s, 'e, 'a) op" where
  "catch m h = (\<lambda>s. case m s of (Inl e, t) \<Rightarrow> h e t | (Inr x, t) \<Rightarrow> (Inr x, t))"

definition reads :: "('s \<Rightarrow> 'a) \<Rightarrow> ('s, 'e, 'a) op" where
  "reads f = (\<lambda>s. (Inr (f s), s))"

definition modifies :: "('s \<Rightarrow> 's) \<Rightarrow> ('s, 'e, unit) op" where
  "modifies f = (\<lambda>s. (Inr (), f s))"

definition lift_res :: "'e + 'a \<Rightarrow> ('s, 'e, 'a) op" where
  "lift_res r = (\<lambda>s. (r, s))"

text \<open>\<^verbatim>\<open>for (const x of xs) await f(x)\<close>.\<close>

primrec for_each :: "'x list \<Rightarrow> ('x \<Rightarrow> ('s, 'e, unit) op) \<Rightarrow> ('s, 'e, unit) op" where
  "for_each [] f = ok ()"
| "for_each (x # xs) f = andThen (f x) (\<lambda>_. for_each xs f)"

lemma ok_app [simp, op_simps]: "ok x s = (Inr x, s)"
  by (simp add: ok_def)

lemma throw_app [simp, op_simps]: "throw e s = (Inl e, s)"
  by (simp add: throw_def)

lemma reads_app [simp, op_simps]: "reads f s = (Inr (f s), s)"
  by (simp add: reads_def)

lemma modifies_app [simp, op_simps]: "modifies f s = (Inr (), f s)"
  by (simp add: modifies_def)

lemma lift_res_app [simp, op_simps]: "lift_res r s = (r, s)"
  by (simp add: lift_res_def)

lemma andThen_Inr [op_simps]: "m s = (Inr x, t) \<Longrightarrow> andThen m f s = f x t"
  by (simp add: andThen_def)

lemma andThen_Inl [op_simps]: "m s = (Inl e, t) \<Longrightarrow> andThen m f s = (Inl e, t)"
  by (simp add: andThen_def)

lemma andThen_ok [simp]: "andThen (ok x) f = f x"
  by (simp add: andThen_def ok_def)

lemma andThen_throw [simp]: "andThen (throw e) f = throw e"
  by (simp add: andThen_def throw_def)

lemma andThen_reads [simp]: "andThen (reads f) g s = g (f s) s"
  by (simp add: andThen_def)

lemma andThen_modifies [simp]: "andThen (modifies f) g s = g () (f s)"
  by (simp add: andThen_def)

lemma andThen_lift_res [simp]: "andThen (lift_res r) g s = (case r of Inl e \<Rightarrow> (Inl e, s) | Inr x \<Rightarrow> g x s)"
  by (cases r) (simp_all add: andThen_def)

lemma andThen_Inr_iff:
  "andThen m f s = (Inr y, u) \<longleftrightarrow> (\<exists>x t. m s = (Inr x, t) \<and> f x t = (Inr y, u))"
  by (auto simp: andThen_def split: prod.splits sum.splits)

lemma andThen_Inl_iff:
  "andThen m f s = (Inl e, u) \<longleftrightarrow>
     m s = (Inl e, u) \<or> (\<exists>x t. m s = (Inr x, t) \<and> f x t = (Inl e, u))"
  by (auto simp: andThen_def split: prod.splits sum.splits)

lemma andThen_assoc: "andThen (andThen m f) g = andThen m (\<lambda>x. andThen (f x) g)"
  by (auto simp: andThen_def fun_eq_iff split: prod.splits sum.splits)

subsection \<open>Invariants of operations\<close>

text \<open>
  \<open>keeps I m\<close>: the operation \<open>m\<close> takes a state with \<open>I\<close> to a state with \<open>I\<close>, whether
  it returns or throws.
\<close>

definition keeps :: "('s \<Rightarrow> bool) \<Rightarrow> ('s, 'e, 'a) op \<Rightarrow> bool" where
  "keeps I m \<longleftrightarrow> (\<forall>s. I s \<longrightarrow> I (snd (m s)))"

lemma keepsD: "keeps I m \<Longrightarrow> I s \<Longrightarrow> m s = (r, t) \<Longrightarrow> I t"
  by (metis keeps_def snd_conv)

lemma keepsI: "(\<And>s r t. I s \<Longrightarrow> m s = (r, t) \<Longrightarrow> I t) \<Longrightarrow> keeps I m"
  by (metis keeps_def prod.collapse)

lemma keeps_ok [keeps_intros]: "keeps I (ok x)"
  by (simp add: keeps_def)

lemma keeps_throw [keeps_intros]: "keeps I (throw e)"
  by (simp add: keeps_def)

lemma keeps_reads [keeps_intros]: "keeps I (reads f)"
  by (simp add: keeps_def)

lemma keeps_lift_res [keeps_intros]: "keeps I (lift_res r)"
  by (simp add: keeps_def)

lemma keeps_modifies: "(\<And>s. I s \<Longrightarrow> I (f s)) \<Longrightarrow> keeps I (modifies f)"
  by (simp add: keeps_def)

lemma keeps_andThen [keeps_intros]:
  "keeps I m \<Longrightarrow> (\<And>x. keeps I (f x)) \<Longrightarrow> keeps I (andThen m f)"
  by (fastforce simp: keeps_def andThen_def split: prod.splits sum.splits)

lemma keeps_catch [keeps_intros]:
  "keeps I m \<Longrightarrow> (\<And>e. keeps I (h e)) \<Longrightarrow> keeps I (catch m h)"
  by (fastforce simp: keeps_def catch_def split: prod.splits sum.splits)

lemma keeps_if [keeps_intros]:
  "(b \<Longrightarrow> keeps I m) \<Longrightarrow> (\<not> b \<Longrightarrow> keeps I n) \<Longrightarrow> keeps I (if b then m else n)"
  by simp

lemma keeps_case_option [keeps_intros]:
  "keeps I m \<Longrightarrow> (\<And>x. keeps I (f x)) \<Longrightarrow> keeps I (case o' of None \<Rightarrow> m | Some x \<Rightarrow> f x)"
  by (cases o') simp_all

lemma keeps_for_each [keeps_intros]:
  "(\<And>x. x \<in> set xs \<Longrightarrow> keeps I (f x)) \<Longrightarrow> keeps I (for_each xs f)"
  by (induction xs) (auto intro: keeps_intros)

section \<open>Relations along operations\<close>

text \<open>
  A reflexive and transitive relation between the state before and after an operation is carried
  through the composition of operations that respect it.
\<close>

locale op_relation =
  fixes R :: "'s \<Rightarrow> 's \<Rightarrow> bool"
  assumes R_refl: "R s s"
    and R_trans: "R s t \<Longrightarrow> R t u \<Longrightarrow> R s u"
begin

definition obeys :: "('s, 'e, 'a) op \<Rightarrow> bool" where
  "obeys m \<longleftrightarrow> (\<forall>s. R s (snd (m s)))"

lemma obeysI: "(\<And>s r t. m s = (r, t) \<Longrightarrow> R s t) \<Longrightarrow> obeys m"
  by (metis obeys_def prod.collapse)

lemma obeysD: "obeys m \<Longrightarrow> m s = (r, t) \<Longrightarrow> R s t"
  by (metis obeys_def snd_conv)

lemma obeys_pure: "(\<And>s. snd (m s) = s) \<Longrightarrow> obeys m"
  by (simp add: obeys_def R_refl)

lemma obeys_basic:
  "obeys (ok x)" "obeys (throw e)" "obeys (reads f)" "obeys (lift_res r)"
  by (simp_all add: obeys_def R_refl)

lemma obeys_andThen: "obeys m \<Longrightarrow> (\<And>x. obeys (f x)) \<Longrightarrow> obeys (andThen m f)"
proof (rule obeysI)
  fix s r t
  assume "obeys m" "\<And>x. obeys (f x)" "andThen m f s = (r, t)"
  then show "R s t"
    by (cases "m s"; cases "fst (m s)") (auto simp: andThen_def dest: obeysD intro: R_trans)
qed

lemma obeys_catch: "obeys m \<Longrightarrow> (\<And>e. obeys (h e)) \<Longrightarrow> obeys (catch m h)"
proof (rule obeysI)
  fix s r t
  assume "obeys m" "\<And>e. obeys (h e)" "catch m h s = (r, t)"
  then show "R s t"
    by (cases "m s"; cases "fst (m s)") (auto simp: catch_def dest: obeysD intro: R_trans)
qed

lemma obeys_if: "obeys m \<Longrightarrow> obeys n \<Longrightarrow> obeys (if b then m else n)"
  by simp

lemma obeys_option: "obeys m \<Longrightarrow> (\<And>x. obeys (f x)) \<Longrightarrow> obeys (case o' of None \<Rightarrow> m | Some x \<Rightarrow> f x)"
  by (cases o') simp_all

lemma obeys_sum: "(\<And>x. obeys (f x)) \<Longrightarrow> (\<And>x. obeys (g x)) \<Longrightarrow> obeys (case r of Inl x \<Rightarrow> f x | Inr x \<Rightarrow> g x)"
  by (cases r) simp_all

lemma obeys_prod: "(\<And>x y. obeys (f x y)) \<Longrightarrow> obeys (case r of (x, y) \<Rightarrow> f x y)"
  by (cases r) simp

lemma obeys_let: "obeys (f x) \<Longrightarrow> obeys (Let x f)"
  by simp

lemma obeys_for_each: "(\<And>x. obeys (f x)) \<Longrightarrow> obeys (for_each xs f)"
  by (induction xs) (auto intro: obeys_basic obeys_andThen)

lemmas obeys_intros = obeys_basic obeys_andThen obeys_catch obeys_if obeys_option
  obeys_sum obeys_prod obeys_let obeys_for_each

end

section \<open>Fallible pure code\<close>

text \<open>
  A synchronous function that throws returns a sum. \<open>check b e k\<close> is
  \<^verbatim>\<open>if (b) throw e\<close> followed by \<open>k\<close>; \<open>seq_res\<close> runs two checks in order;
  \<open>check_all\<close> is a \<^verbatim>\<open>for\<close> loop of checks that stops at the first error.
\<close>

definition check :: "bool \<Rightarrow> 'e \<Rightarrow> 'e + 'a \<Rightarrow> 'e + 'a" where
  "check b e k = (if b then Inl e else k)"

definition seq_res :: "'e + 'a \<Rightarrow> ('a \<Rightarrow> 'e + 'b) \<Rightarrow> 'e + 'b" where
  "seq_res r f = (case r of Inl e \<Rightarrow> Inl e | Inr x \<Rightarrow> f x)"

primrec check_all :: "('x \<Rightarrow> 'e + unit) \<Rightarrow> 'x list \<Rightarrow> 'e + unit" where
  "check_all f [] = Inr ()"
| "check_all f (x # xs) = seq_res (f x) (\<lambda>_. check_all f xs)"

lemma check_Inr [simp]: "check b e k = Inr x \<longleftrightarrow> \<not> b \<and> k = Inr x"
  by (simp add: check_def)

lemma seq_res_Inr [simp]: "seq_res r f = Inr y \<longleftrightarrow> (\<exists>x. r = Inr x \<and> f x = Inr y)"
  by (cases r) (simp_all add: seq_res_def)

lemma seq_res_simps [simp]: "seq_res (Inl e) f = Inl e" "seq_res (Inr x) f = f x"
  by (simp_all add: seq_res_def)

lemma check_all_Inr [simp]: "check_all f xs = Inr () \<longleftrightarrow> (\<forall>x \<in> set xs. f x = Inr ())"
  by (induction xs) auto

section \<open>Text\<close>

text \<open>Decimal digits, and \<^verbatim>\<open>s.split(c)\<close> with a one-character separator.\<close>

definition digit_value :: "char \<Rightarrow> nat" where
  "digit_value c = of_char c - 48"

definition is_digit :: "char \<Rightarrow> bool" where
  "is_digit c \<longleftrightarrow> 48 \<le> (of_char c :: nat) \<and> (of_char c :: nat) \<le> 57"

text \<open>The white space of \<^verbatim>\<open>\\s\<close> among the code units a character holds.\<close>

definition is_space :: "char \<Rightarrow> bool" where
  "is_space c \<longleftrightarrow> of_char c \<in> {9, 10, 11, 12, 13, 32, 160 :: nat}"

definition decimal_value :: "string \<Rightarrow> nat" where
  "decimal_value s = foldl (\<lambda>n c. 10 * n + digit_value c) 0 s"

fun split_acc :: "(char \<Rightarrow> bool) \<Rightarrow> string \<Rightarrow> string \<Rightarrow> string list" where
  "split_acc sep acc [] = [acc]"
| "split_acc sep acc (c # cs) = (if sep c then acc # split_acc sep [] cs else split_acc sep (acc @ [c]) cs)"

definition split_on :: "char \<Rightarrow> string \<Rightarrow> string list" where
  "split_on d s = split_acc (\<lambda>c. c = d) [] s"

section \<open>Tables\<close>

text \<open>
  A JavaScript \<^verbatim>\<open>Map\<close> iterates in insertion order, and \<^verbatim>\<open>set\<close> on a present
  key replaces the value in place. A table is the list of its entries in that order.
\<close>

type_synonym ('k, 'v) table = "('k \<times> 'v) list"

primrec tput :: "'k \<Rightarrow> 'v \<Rightarrow> ('k, 'v) table \<Rightarrow> ('k, 'v) table" where
  "tput k v [] = [(k, v)]"
| "tput k v (e # es) = (if fst e = k then (k, v) # es else e # tput k v es)"

abbreviation tget :: "('k, 'v) table \<Rightarrow> 'k \<Rightarrow> 'v option" where
  "tget \<equiv> map_of"

abbreviation thas :: "('k, 'v) table \<Rightarrow> 'k \<Rightarrow> bool" where
  "thas t k \<equiv> tget t k \<noteq> None"

abbreviation tvals :: "('k, 'v) table \<Rightarrow> 'v list" where
  "tvals t \<equiv> map snd t"

abbreviation tkeys :: "('k, 'v) table \<Rightarrow> 'k list" where
  "tkeys t \<equiv> map fst t"

lemma tget_tput [simp]: "tget (tput k v t) = (tget t)(k \<mapsto> v)"
  by (induction t) (auto simp: fun_eq_iff)

lemma tkeys_tput: "tkeys (tput k v t) = (if k \<in> set (tkeys t) then tkeys t else tkeys t @ [k])"
  by (induction t) auto

lemma distinct_tput [simp]: "distinct (tkeys (tput k v t)) \<longleftrightarrow> distinct (tkeys t)"
  by (simp add: tkeys_tput)

lemma set_tput_subset: "set (tput k v t) \<subseteq> insert (k, v) (set t)"
  by (induction t) auto

lemma set_tput:
  "distinct (tkeys t) \<Longrightarrow> set (tput k v t) = insert (k, v) {e \<in> set t. fst e \<noteq> k}"
  by (induction t) (auto simp: rev_image_eqI)

lemma tvals_tput_mem: "x \<in> set (tvals (tput k v t)) \<Longrightarrow> x = v \<or> x \<in> set (tvals t)"
  using set_tput_subset [of k v t] by auto

lemma tget_in_tvals: "tget t k = Some v \<Longrightarrow> v \<in> set (tvals t)"
  by (force dest: map_of_SomeD)

lemma tput_new: "k \<notin> set (tkeys t) \<Longrightarrow> tput k v t = t @ [(k, v)]"
  by (induction t) auto

lemma tget_Some_iff: "distinct (tkeys t) \<Longrightarrow> tget t k = Some v \<longleftrightarrow> (k, v) \<in> set t"
  by (auto dest: map_of_SomeD)

lemma tget_Some_key: "tget t k = Some v \<Longrightarrow> k \<in> fst ` set t"
  by (force dest: map_of_SomeD)

lemma thas_iff: "thas t k \<longleftrightarrow> k \<in> set (tkeys t)"
  by (induction t) auto

text \<open>Two indexes of the same records: by identity and by a second key.\<close>

definition indexed :: "('a \<Rightarrow> 'i) \<Rightarrow> ('a \<Rightarrow> 'k) \<Rightarrow> ('i \<Rightarrow> 'a option) \<Rightarrow> ('k \<Rightarrow> 'a option) \<Rightarrow> bool" where
  "indexed idf keyf t u \<longleftrightarrow>
     (\<forall>i a. t i = Some a \<longrightarrow> idf a = i \<and> u (keyf a) = Some a) \<and>
     (\<forall>k a. u k = Some a \<longrightarrow> keyf a = k \<and> t (idf a) = Some a)"

lemma indexedD:
  "indexed idf keyf t u \<Longrightarrow> t i = Some a \<Longrightarrow> idf a = i" "indexed idf keyf t u \<Longrightarrow> t i = Some a \<Longrightarrow> u (keyf a) = Some a"
  "indexed idf keyf t u \<Longrightarrow> u k = Some a \<Longrightarrow> keyf a = k" "indexed idf keyf t u \<Longrightarrow> u k = Some a \<Longrightarrow> t (idf a) = Some a"
  by (simp_all add: indexed_def)

lemma indexed_empty [simp]: "indexed idf keyf (\<lambda>_. None) (\<lambda>_. None)"
  by (simp add: indexed_def)

lemma indexed_new:
  assumes "indexed idf keyf t u" "t (idf a) = None" "u (keyf a) = None"
  shows "indexed idf keyf (t(idf a \<mapsto> a)) (u(keyf a \<mapsto> a))"
proof -
  have "keyf b \<noteq> keyf a" if "t i = Some b" for i b
    using assms(3) indexedD(2) [OF assms(1) that] by auto
  moreover have "idf b \<noteq> idf a" if "u k = Some b" for k b
    using assms(2) indexedD(4) [OF assms(1) that] by auto
  ultimately show ?thesis
    using indexedD [OF assms(1)] unfolding indexed_def by simp
qed

lemma indexed_update:
  assumes "indexed idf keyf t u" "t i = Some a" "idf a' = idf a" "keyf a' = keyf a"
  shows "indexed idf keyf (t(i \<mapsto> a')) (u(keyf a' \<mapsto> a'))"
proof -
  have i: "idf a' = i"
    using indexedD(1) [OF assms(1,2)] assms(3) by simp
  have "keyf b \<noteq> keyf a'" if "t j = Some b" "j \<noteq> i" for j b
  proof
    assume "keyf b = keyf a'"
    then have "b = a"
      using indexedD(2) [OF assms(1) that(1)] indexedD(2) [OF assms(1,2)] assms(4) by (metis option.inject)
    then show False
      using indexedD(1) [OF assms(1) that(1)] indexedD(1) [OF assms(1,2)] that(2) by metis
  qed
  moreover have "idf b \<noteq> i" if "u k = Some b" "k \<noteq> keyf a'" for k b
  proof
    assume "idf b = i"
    then have "b = a"
      using indexedD(4) [OF assms(1) that(1)] assms(2) by (metis option.inject)
    then show False
      using indexedD(3) [OF assms(1) that(1)] assms(4) that(2) by metis
  qed
  ultimately show ?thesis
    using indexedD [OF assms(1)] i unfolding indexed_def by simp
qed

section \<open>Fenced records\<close>

text \<open>
  The contract of a record with a fencing token. A write names the version the writer believes
  current. A write that returns on a live record was made at the current version and moves the
  version up by one; a write that returns on a record in a terminal state leaves it as it is. The
  lemmas are what the product layer relies on under concurrent writers.
\<close>

locale fencing =
  fixes ver :: "'r \<Rightarrow> nat"
    and term_state :: "'r \<Rightarrow> bool"
    and wr :: "nat \<Rightarrow> 'c \<Rightarrow> 'r \<Rightarrow> 'e + 'r"
  assumes live_write_current: "wr v c r = Inr r' \<Longrightarrow> \<not> term_state r \<Longrightarrow> ver r = v"
    and write_bumps: "wr v c r = Inr r' \<Longrightarrow> \<not> term_state r \<Longrightarrow> ver r' = Suc (ver r)"
    and write_terminal: "wr v c r = Inr r' \<Longrightarrow> term_state r \<Longrightarrow> r' = r"
begin

text \<open>Writers in any order; a write that throws leaves the record as it was.\<close>

definition attempt :: "nat \<times> 'c \<Rightarrow> 'r \<Rightarrow> 'r" where
  "attempt w r = (case wr (fst w) (snd w) r of Inl _ \<Rightarrow> r | Inr r' \<Rightarrow> r')"

lemma attempt_ver_mono: "ver r \<le> ver (attempt w r)"
  by (cases "term_state r")
    (auto simp: attempt_def split: sum.splits dest: write_bumps write_terminal)

lemma attempts_ver_mono: "ver r \<le> ver (fold attempt ws r)"
  by (induction ws arbitrary: r) (auto intro: order_trans attempt_ver_mono)

lemma attempt_terminal: "term_state r \<Longrightarrow> attempt w r = r"
  by (auto simp: attempt_def split: sum.splits dest: write_terminal)

lemma attempts_terminal: "term_state r \<Longrightarrow> fold attempt ws r = r"
  by (induction ws arbitrary: r) (auto simp: attempt_terminal)

lemma stale_write_inert: "v \<noteq> ver r \<Longrightarrow> attempt (v, c) r = r"
  by (cases "term_state r") (auto simp: attempt_def split: sum.splits dest: live_write_current write_terminal)

text \<open>The records that writers can make of a record.\<close>

definition evolves :: "'r \<Rightarrow> 'r \<Rightarrow> bool" where
  "evolves r r' \<longleftrightarrow> (\<exists>ws. r' = fold attempt ws r)"

lemma evolves_refl [simp]: "evolves r r"
  by (auto simp: evolves_def intro: exI [of _ "[]"])

lemma evolves_write: "wr v c r = Inr r' \<Longrightarrow> evolves r r'"
  by (auto simp: evolves_def attempt_def intro: exI [of _ "[(v, c)]"])

lemma evolves_trans: "evolves r r' \<Longrightarrow> evolves r' r'' \<Longrightarrow> evolves r r''"
  by (metis evolves_def fold_append comp_apply)

lemma evolves_terminal: "evolves r r' \<Longrightarrow> term_state r \<Longrightarrow> r' = r"
  by (auto simp: evolves_def attempts_terminal)

lemma evolves_ver_mono: "evolves r r' \<Longrightarrow> ver r \<le> ver r'"
  by (auto simp: evolves_def attempts_ver_mono)

text \<open>Once a write at a version has been accepted, no other write at that version has any effect.\<close>

lemma evolves_winner_inert:
  assumes "wr v c r = Inr r'" "\<not> term_state r" "evolves r' r''"
  shows "attempt (v, d) r'' = r''"
  using live_write_current [OF assms(1,2)] write_bumps [OF assms(1,2)] evolves_ver_mono [OF assms(3)]
  by (intro stale_write_inert) simp

lemma evolves_same_ver:
  assumes "evolves r r'" "ver r' = ver r"
  shows "r' = r"
proof -
  obtain ws where "r' = fold attempt ws r"
    using assms(1) by (auto simp: evolves_def)
  then show ?thesis
    using assms(2)
  proof (induction ws arbitrary: r)
    case (Cons w ws)
    have "ver (attempt w r) = ver r"
      using attempt_ver_mono [of r w] attempts_ver_mono [of "attempt w r" ws] Cons.prems by simp
    then have "attempt w r = r"
      by (cases "term_state r") (auto simp: attempt_def split: sum.splits dest: write_bumps write_terminal)
    then show ?case using Cons by simp
  qed simp
qed

end

text \<open>
  The strict form, which checks the token of every write, also on a terminal record: a stale write
  is reported to its writer.
\<close>

locale fenced =
  fixes ver :: "'r \<Rightarrow> nat"
    and term_state :: "'r \<Rightarrow> bool"
    and wr :: "nat \<Rightarrow> 'c \<Rightarrow> 'r \<Rightarrow> 'e + 'r"
  assumes write_current: "wr v c r = Inr r' \<Longrightarrow> ver r = v"
    and fenced_bumps: "wr v c r = Inr r' \<Longrightarrow> \<not> term_state r \<Longrightarrow> ver r' = Suc (ver r)"
    and fenced_terminal: "wr v c r = Inr r' \<Longrightarrow> term_state r \<Longrightarrow> r' = r"

sublocale fenced \<subseteq> fencing ver term_state wr
  by unfold_locales (auto dest: write_current fenced_bumps fenced_terminal)

context fenced
begin

lemma stale_write_rejected: "v < ver r \<Longrightarrow> \<exists>e. wr v c r = Inl e"
  by (cases "wr v c r") (auto dest: write_current)

lemma single_winner:
  assumes "wr v c r = Inr r'" and "\<not> term_state r"
  shows "\<exists>e. wr v d (fold attempt ws r') = Inl e"
proof -
  have "v < ver r'"
    using write_current [OF assms(1)] write_bumps [OF assms] by simp
  also have "ver r' \<le> ver (fold attempt ws r')"
    by (rule attempts_ver_mono)
  finally show ?thesis
    by (rule stale_write_rejected)
qed

lemma evolves_single_winner:
  "wr v c r = Inr r' \<Longrightarrow> \<not> term_state r \<Longrightarrow> evolves r' r'' \<Longrightarrow> \<exists>e. wr v d r'' = Inl e"
  by (auto simp: evolves_def single_winner)

end

end
