(* ===== verification/Json.thy ===== *)
theory Json
  imports Prelude "HOL-Library.Multiset"
begin

text \<open>
  JavaScript data values as the product layer handles them: JSON trees extended with
  \<^verbatim>\<open>undefined\<close> and the non-finite numbers, the parts of \<^verbatim>\<open>JSON.stringify\<close> and
  \<^verbatim>\<open>JSON.parse\<close> the sources use, and \<^verbatim>\<open>stableString\<close> of
  \<^verbatim>\<open>version.ts\<close> (the same function is \<^verbatim>\<open>canonicalize\<close> in
  \<^verbatim>\<open>checkpoint.ts\<close>), over which every checksum of the system is computed.
\<close>

section \<open>Values\<close>

datatype js_number = Finite rat | NotANumber | Infinite bool

datatype json =
    JUndefined
  | JNull
  | JBool bool
  | JNum js_number
  | JStr string
  | JArr "json list"
  | JObj "(string \<times> json) list"

text \<open>An object is the list of its own enumerable properties in enumeration order.\<close>

text \<open>The two empty values of an optional field \<^verbatim>\<open>x?: T | null\<close>.\<close>

datatype 'a optional = Undefined | Null | Value (valueOf: 'a)

text \<open>\<^verbatim>\<open>x !== null && x !== undefined\<close>.\<close>

primrec present :: "'a optional \<Rightarrow> bool" where
  "present Undefined = False"
| "present Null = False"
| "present (Value x) = True"

primrec optional_json :: "('a \<Rightarrow> json) \<Rightarrow> 'a optional \<Rightarrow> json" where
  "optional_json f Undefined = JUndefined"
| "optional_json f Null = JNull"
| "optional_json f (Value x) = f x"

text \<open>
  The host functions the sources take from the platform: SHA-256 in hexadecimal, and the decimal
  rendering of a finite number.
\<close>

record host =
  sha256 :: "string \<Rightarrow> string"
  num_str :: "rat \<Rightarrow> string"

section \<open>String literals\<close>

definition hex_digit :: "nat \<Rightarrow> char" where
  "hex_digit n = char_of (if n < 10 then 48 + n else 87 + n)"

definition escape_char :: "char \<Rightarrow> string" where
  "escape_char c =
     (let n = of_char c :: nat in
      if n = 34 then [CHR 0x5C, c]
      else if n = 92 then [CHR 0x5C, c]
      else if n = 8 then [CHR 0x5C, CHR ''b'']
      else if n = 12 then [CHR 0x5C, CHR ''f'']
      else if n = 10 then [CHR 0x5C, CHR ''n'']
      else if n = 13 then [CHR 0x5C, CHR ''r'']
      else if n = 9 then [CHR 0x5C, CHR ''t'']
      else if n < 32 then [CHR 0x5C, CHR ''u'', CHR ''0'', CHR ''0'', hex_digit (n div 16), hex_digit (n mod 16)]
      else [c])"

definition quote :: "string \<Rightarrow> string" where
  "quote s = CHR 0x22 # concat (map escape_char s) @ [CHR 0x22]"

definition number_text :: "host \<Rightarrow> js_number \<Rightarrow> string" where
  "number_text h n = (case n of Finite q \<Rightarrow> num_str h q | _ \<Rightarrow> ''null'')"

section \<open>Canonical serialisation\<close>

primrec join :: "string list \<Rightarrow> string" where
  "join [] = []"
| "join (s # ss) = (if ss = [] then s else s @ CHR '','' # join ss)"

text \<open>
  The text of an \<^verbatim>\<open>undefined\<close> is empty: \<^verbatim>\<open>join\<close> renders it so inside an array, and
  an \<^verbatim>\<open>undefined\<close> property is filtered out. Properties are sorted by key.
\<close>

fun stableString :: "host \<Rightarrow> json \<Rightarrow> string" where
  "stableString h JUndefined = []"
| "stableString h JNull = ''null''"
| "stableString h (JBool b) = (if b then ''true'' else ''false'')"
| "stableString h (JNum n) = number_text h n"
| "stableString h (JStr s) = quote s"
| "stableString h (JArr vs) = CHR ''['' # join (map (stableString h) vs) @ '']''"
| "stableString h (JObj es) =
     CHR ''{'' #
     join (map (\<lambda>(k, t). quote k @ CHR '':'' # t)
       (sort_key fst (map (\<lambda>(k, v). (k, stableString h v))
         (filter (\<lambda>(k, v). v \<noteq> JUndefined) es)))) @ ''}''"

text \<open>\<^verbatim>\<open>JSON.stringify\<close>, as a template literal shows it.\<close>

fun json_stringify :: "host \<Rightarrow> json \<Rightarrow> string" where
  "json_stringify h JUndefined = ''undefined''"
| "json_stringify h JNull = ''null''"
| "json_stringify h (JBool b) = (if b then ''true'' else ''false'')"
| "json_stringify h (JNum n) = number_text h n"
| "json_stringify h (JStr s) = quote s"
| "json_stringify h (JArr vs) =
     CHR ''['' # join (map (\<lambda>v. if v = JUndefined then ''null'' else json_stringify h v) vs) @ '']''"
| "json_stringify h (JObj es) =
     CHR ''{'' # join (map (\<lambda>(k, v). quote k @ CHR '':'' # json_stringify h v)
       (filter (\<lambda>(k, v). v \<noteq> JUndefined) es)) @ ''}''"

text \<open>\<^verbatim>\<open>JSON.parse(JSON.stringify(v))\<close>: the deep copy the stores make.\<close>

fun json_clone :: "json \<Rightarrow> json" where
  "json_clone JUndefined = JUndefined"
| "json_clone JNull = JNull"
| "json_clone (JBool b) = JBool b"
| "json_clone (JNum n) = (case n of Finite q \<Rightarrow> JNum n | _ \<Rightarrow> JNull)"
| "json_clone (JStr s) = JStr s"
| "json_clone (JArr vs) = JArr (map (\<lambda>v. if v = JUndefined then JNull else json_clone v) vs)"
| "json_clone (JObj es) =
     JObj (map (\<lambda>(k, v). (k, json_clone v)) (filter (\<lambda>(k, v). v \<noteq> JUndefined) es))"

text \<open>No array element is \<^verbatim>\<open>undefined\<close>, and object keys are distinct, at every depth.\<close>

fun json_wf :: "json \<Rightarrow> bool" where
  "json_wf (JArr vs) = (\<forall>v \<in> set vs. v \<noteq> JUndefined \<and> json_wf v)"
| "json_wf (JObj es) = (distinct (map fst es) \<and> (\<forall>e \<in> set es. json_wf (snd e)))"
| "json_wf _ = True"

lemma json_clone_JUndefined [simp]: "json_clone v = JUndefined \<longleftrightarrow> v = JUndefined"
  by (cases v) (auto split: js_number.splits)

lemma filter_defined_clone:
  "filter (\<lambda>(k, v). v \<noteq> JUndefined) (map (\<lambda>(k, v). (k, json_clone v)) (filter (\<lambda>(k, v). v \<noteq> JUndefined) es))
   = map (\<lambda>(k, v). (k, json_clone v)) (filter (\<lambda>(k, v). v \<noteq> JUndefined) es)"
  by (auto simp: filter_id_conv)

lemma json_clone_idem: "json_clone (json_clone v) = json_clone v"
proof (induction v rule: json_clone.induct)
  case (4 n)
  then show ?case by (cases n) auto
next
  case (6 vs)
  then show ?case by auto
next
  case (7 es)
  let ?es = "filter (\<lambda>(k, v). v \<noteq> JUndefined) es"
  have "map (\<lambda>(k, v). (k, json_clone v)) (map (\<lambda>(k, v). (k, json_clone v)) ?es)
      = map (\<lambda>(k, v). (k, json_clone v)) ?es"
    using 7 by auto
  then show ?case by (simp add: filter_defined_clone del: map_map)
qed auto

text \<open>
  The copy has the canonical text of the original, so a checksum computed before the copy is
  stored verifies after it is loaded.
\<close>

lemma stableString_clone: "json_wf v \<Longrightarrow> stableString h (json_clone v) = stableString h v"
proof (induction v rule: json_clone.induct)
  case (4 n)
  then show ?case by (cases n) (auto simp: number_text_def)
next
  case (6 vs)
  then have "join (map (\<lambda>v. stableString h (if v = JUndefined then JNull else json_clone v)) vs)
      = join (map (stableString h) vs)"
    by (auto intro!: arg_cong [where f = join])
  then show ?case by (simp add: o_def)
next
  case (7 es)
  have "map (\<lambda>(k, v). (k, stableString h v))
          (filter (\<lambda>(k, v). v \<noteq> JUndefined)
            (map (\<lambda>(k, v). (k, json_clone v)) (filter (\<lambda>(k, v). v \<noteq> JUndefined) es)))
      = map (\<lambda>(k, v). (k, stableString h v)) (filter (\<lambda>(k, v). v \<noteq> JUndefined) es)"
    unfolding filter_defined_clone using 7 by fastforce
  then show ?case by (simp only: json_clone.simps stableString.simps)
qed auto

section \<open>Insensitivity to property order\<close>

text \<open>Equal values up to the order of object properties, at every depth.\<close>

inductive same_data :: "json \<Rightarrow> json \<Rightarrow> bool" where
  same_refl: "same_data v v"
| same_arr: "list_all2 same_data vs ws \<Longrightarrow> same_data (JArr vs) (JArr ws)"
| same_obj: "list_all2 (\<lambda>e f. fst e = fst f \<and> same_data (snd e) (snd f)) es fs \<Longrightarrow>
     mset fs = mset gs \<Longrightarrow> distinct (map fst es) \<Longrightarrow> same_data (JObj es) (JObj gs)"

lemma same_data_JUndefined: "same_data v w \<Longrightarrow> v = JUndefined \<longleftrightarrow> w = JUndefined"
  by (erule same_data.cases) auto

lemma sort_key_fst_perm:
  assumes "mset xs = mset ys" "distinct (map fst xs)"
  shows "sort_key fst xs = sort_key fst ys"
proof -
  have "inj_on fst (set xs)"
    using assms(2) by (simp add: distinct_map)
  moreover have "mset xs = mset (sort_key fst ys)"
    using assms(1) by simp
  ultimately show ?thesis
    by (intro sort_key_inj_key_eq) auto
qed

lemma filter_map_fst_distinct: "distinct (map fst es) \<Longrightarrow> distinct (map fst (filter P es))"
  by (induction es) auto

lemma entries_text_list_all2:
  "list_all2 (\<lambda>e f. fst e = fst f \<and> (snd e = JUndefined \<longleftrightarrow> snd f = JUndefined) \<and> stableString h (snd e) = stableString h (snd f)) es fs \<Longrightarrow>
   map (\<lambda>(k, v). (k, stableString h v)) (filter (\<lambda>(k, v). v \<noteq> JUndefined) es)
   = map (\<lambda>(k, v). (k, stableString h v)) (filter (\<lambda>(k, v). v \<noteq> JUndefined) fs)"
  by (induction rule: list_all2_induct) (auto simp: case_prod_beta)

lemma stableString_obj_cong:
  "list_all2 (\<lambda>e f. fst e = fst f \<and> (snd e = JUndefined \<longleftrightarrow> snd f = JUndefined) \<and> stableString h (snd e) = stableString h (snd f)) es fs \<Longrightarrow>
   stableString h (JObj es) = stableString h (JObj fs)"
  using entries_text_list_all2 [of h es fs] by (simp only: stableString.simps)

lemma keys_list_all2: "list_all2 (\<lambda>e f. fst e = fst f \<and> P e f) es fs \<Longrightarrow> map fst fs = map fst es"
  by (induction rule: list_all2_induct) auto

lemma stableString_same_data: "same_data v w \<Longrightarrow> stableString h v = stableString h w"
proof (induction rule: same_data.induct)
  case (same_arr vs ws)
  then have "map (stableString h) vs = map (stableString h) ws"
    by (induction rule: list_all2_induct) auto
  then show ?case by simp
next
  case (same_obj es fs gs)
  let ?txt = "\<lambda>es. map (\<lambda>(k, v). (k, stableString h v)) (filter (\<lambda>(k, v). v \<noteq> JUndefined) es)"
  have 1: "?txt es = ?txt fs"
    using same_obj.IH by (intro entries_text_list_all2) (auto elim!: list_all2_mono dest: same_data_JUndefined)
  have keys: "map fst fs = map fst es"
    using same_obj.IH by (rule keys_list_all2)
  have 2: "sort_key fst (?txt fs) = sort_key fst (?txt gs)"
  proof (rule sort_key_fst_perm)
    show "mset (?txt fs) = mset (?txt gs)"
      using same_obj.hyps by (simp add: mset_filter)
    have "map fst (?txt fs) = map fst (filter (\<lambda>(k, v). v \<noteq> JUndefined) fs)"
      by (auto simp: case_prod_beta)
    then show "distinct (map fst (?txt fs))"
      using filter_map_fst_distinct [of fs] keys same_obj.hyps by (simp del: map_map)
  qed
  show ?case by (simp only: stableString.simps 1 2)
qed auto

end
