(* ===== verification/Contracts.thy ===== *)
theory Contracts
  imports Json
begin

text \<open>
  The data of the automation product layer (\<^verbatim>\<open>vaulltcore-automation/src/contracts.ts\<close>), the
  job vocabulary it takes from the runner (\<^verbatim>\<open>vaulltcore-runner/src/contracts.ts\<close>), the
  principals it takes from the identity layer (\<^verbatim>\<open>vaulltcore-identity/src/contracts.ts\<close>),
  and the errors its operations raise. Fields keep the source's names; a name that two interfaces
  share carries a prefix in all but one. Timestamps are integers, counters and fencing tokens
  natural numbers.
\<close>

section \<open>Identity\<close>

record job_identity =
  tenantId :: string
  orgId :: string
  projectId :: string

datatype role = Owner | Admin | Developer | Operator | Viewer | ServiceAccount

primrec role_name :: "role \<Rightarrow> string" where
  "role_name Owner = ''owner''"
| "role_name Admin = ''admin''"
| "role_name Developer = ''developer''"
| "role_name Operator = ''operator''"
| "role_name Viewer = ''viewer''"
| "role_name ServiceAccount = ''service_account''"

primrec ROLE_RANK :: "role \<Rightarrow> nat" where
  "ROLE_RANK Owner = 50"
| "ROLE_RANK Admin = 40"
| "ROLE_RANK Developer = 30"
| "ROLE_RANK Operator = 20"
| "ROLE_RANK Viewer = 10"
| "ROLE_RANK ServiceAccount = 5"

text \<open>Roles are ordered by rank.\<close>

instantiation role :: linorder
begin

definition less_eq_role :: "role \<Rightarrow> role \<Rightarrow> bool" where
  "less_eq_role a b \<longleftrightarrow> ROLE_RANK a \<le> ROLE_RANK b"

definition less_role :: "role \<Rightarrow> role \<Rightarrow> bool" where
  "less_role a b \<longleftrightarrow> ROLE_RANK a < ROLE_RANK b"

instance
proof
  fix a b c :: role
  show "a < b \<longleftrightarrow> a \<le> b \<and> \<not> b \<le> a"
    by (auto simp: less_eq_role_def less_role_def)
  show "a \<le> a"
    by (simp add: less_eq_role_def)
  show "a \<le> b \<Longrightarrow> b \<le> c \<Longrightarrow> a \<le> c"
    by (simp add: less_eq_role_def)
  show "a \<le> b \<Longrightarrow> b \<le> a \<Longrightarrow> a = b"
    by (cases a; cases b) (simp_all add: less_eq_role_def)
  show "a \<le> b \<or> b \<le> a"
    by (auto simp: less_eq_role_def)
qed

end

text \<open>The lookup \<^verbatim>\<open>ROLE_RANK[name as keyof typeof ROLE_RANK] ?? 0\<close> by role name.\<close>

definition role_of_name :: "string \<Rightarrow> role option" where
  "role_of_name s = map_of (map (\<lambda>r. (role_name r, r)) [Owner, Admin, Developer, Operator, Viewer, ServiceAccount]) s"

definition approverRoleRank :: "string \<Rightarrow> nat" where
  "approverRoleRank s = (case role_of_name s of None \<Rightarrow> 0 | Some r \<Rightarrow> ROLE_RANK r)"

lemma role_of_name_role_name [simp]: "role_of_name (role_name r) = Some r"
  by (cases r) (simp_all add: role_of_name_def)

lemma approverRoleRank_role_name [simp]: "approverRoleRank (role_name r) = ROLE_RANK r"
  by (simp add: approverRoleRank_def)

record resolved_principal =
  principalId :: string
  kind :: string
  p_tenantId :: string
  p_orgId :: string
  role :: role
  projectScope :: "string list"
  admin :: bool

section \<open>Jobs\<close>

datatype job_status =
    JQueued | JLeased | JPreparing | JRunning | JCheckpointing | JSuspended | JResuming
  | JCompleted | JFailed | JCancelled

definition TERMINAL_STATUSES :: "job_status list" where
  "TERMINAL_STATUSES = [JCompleted, JFailed, JCancelled]"

definition isTerminal :: "job_status \<Rightarrow> bool" where
  "isTerminal s \<longleftrightarrow> s \<in> set TERMINAL_STATUSES"

datatype job_event_type =
    EvQueued | EvStarted | EvResumed | EvCheckpoint | EvMessage | EvToolRequest | EvToolResponse
  | EvUsage | EvWarning | EvError | EvBudgetExhausted | EvCompleted | EvCancelled

record job_event =
  je_jobId :: string
  je_seq :: nat
  je_timestamp :: int
  je_type :: job_event_type
  je_data :: json

text \<open>The part of \<^verbatim>\<open>JobState\<close> that the product layer reads.\<close>

record job_state =
  js_jobId :: string
  js_status :: job_status
  js_error :: "string option"

section \<open>Templates and input contracts\<close>

datatype template_status = TDraft | TActive | TArchived

record automation_template = job_identity +
  templateId :: string
  t_name :: string
  description :: "string option"
  t_status :: template_status
  t_createdAt :: int
  t_createdBy :: string
  archivedAt :: "int option"

record input_field =
  fieldId :: string
  if_type :: string
  required :: bool
  if_description :: "string option"
  min_bound :: "rat optional"
  max_bound :: "rat optional"
  enum_values :: "string list optional"

type_synonym input_contract = "input_field list"

record input_value =
  iv_fieldId :: string
  iv_value :: json

record run_input_revision =
  inputRevisionId :: string
  rev_runId :: string
  rev_checksum :: string
  rev_values :: "(string \<times> json) list"
  rev_createdAt :: int

section \<open>Definitions and versions\<close>

record step_execution_spec =
  engine :: string
  model :: string
  prompt :: string
  engineOptions :: "json optional"
  maxSteps :: "rat optional"
  maxTokens :: "rat optional"
  maxDurationMs :: "rat optional"
  allowedTools :: "string list optional"

record input_mapping =
  im_fieldId :: string
  placeholder :: string

record output_mapping =
  om_key :: string
  om_path :: string

record automation_step =
  stepId :: string
  execution :: step_execution_spec
  inputMappings :: "input_mapping list"
  outputMappings :: "output_mapping list"
  dependsOn :: "string list"

record artifact_spec =
  as_artifactId :: string
  as_type :: string
  as_name :: string
  as_stepId :: string
  as_path :: string

record approval_spec =
  ap_required :: bool
  ap_gateId :: string
  ap_minApproverRole :: string
  ap_expiresAfterMs :: "int optional"
  ap_contextArtifacts :: "string list"

record delivery_spec =
  ds_destination :: string
  ds_artifactIds :: "string list"

record automation_definition =
  steps :: "automation_step list"
  artifacts :: "artifact_spec list"
  approval :: approval_spec
  delivery :: delivery_spec

record automation_version = job_identity +
  versionId :: string
  v_templateId :: string
  v_version :: nat
  v_definition :: automation_definition
  inputContract :: input_contract
  v_checksum :: string
  v_createdAt :: int
  v_createdBy :: string

section \<open>Runs\<close>

datatype run_status =
    Created | ValidatingInput | Admitted | Running | Collecting | AwaitingApproval | Delivering
  | Completed | Failed | Cancelled | Rejected | Suspended

definition TERMINAL_RUN_STATUSES :: "run_status list" where
  "TERMINAL_RUN_STATUSES = [Completed, Failed, Cancelled, Rejected]"

definition isTerminalRun :: "run_status \<Rightarrow> bool" where
  "isTerminalRun s \<longleftrightarrow> s \<in> set TERMINAL_RUN_STATUSES"

datatype step_status = SPending | SRunning | SCompleted | SFailed | SSkipped

record run_step_state =
  st_runId :: string
  st_stepId :: string
  st_status :: step_status
  st_jobId :: "string option"
  outputs :: "(string \<times> json) list"
  startedAt :: "int option"
  st_completedAt :: "int option"
  st_error :: "string option"

record automation_run = job_identity +
  runId :: string
  r_templateId :: string
  r_versionId :: string
  r_version :: nat
  status :: run_status
  r_inputRevisionId :: string
  runVersion :: nat
  createdBy :: string
  error :: "string option"
  createdAt :: int
  updatedAt :: int
  suspendedAt :: "int option"
  completedAt :: "int option"

record job_mapping =
  mappingId :: string
  jm_runId :: string
  jm_versionId :: string
  jm_stepId :: string
  jm_jobId :: string
  jm_idempotencyKey :: string
  jm_inputRevisionId :: string
  jm_createdAt :: int

section \<open>Artifacts, approvals, deliveries\<close>

type_synonym bytes = string

record automation_artifact =
  artifactId :: string
  art_runId :: string
  art_versionId :: string
  art_stepId :: "string option"
  art_type :: string
  art_name :: string
  contentRef :: string
  art_checksum :: string
  art_size :: "nat option"
  art_createdAt :: int
  art_metadata :: json

datatype approval_status = APending | AApproved | ARejected | AChangesRequested | AExpired

definition TERMINAL_APPROVAL_STATUSES :: "approval_status list" where
  "TERMINAL_APPROVAL_STATUSES = [AApproved, ARejected, AChangesRequested, AExpired]"

record decision_actor =
  da_principalId :: string
  da_kind :: string

record approval_request =
  approvalId :: string
  apr_runId :: string
  apr_versionId :: string
  gateId :: string
  apr_status :: approval_status
  minApproverRole :: string
  contextArtifacts :: "string list"
  apr_createdAt :: int
  expiresAt :: "int option"
  decisionActor :: "decision_actor option"
  decisionTime :: "int option"
  decisionMetadata :: "json option"
  approvalVersion :: nat

datatype delivery_status = DPending | DInProgress | DDelivered | DFailed

definition TERMINAL_DELIVERY_STATUSES :: "delivery_status list" where
  "TERMINAL_DELIVERY_STATUSES = [DDelivered, DFailed]"

record delivery_attempt =
  deliveryId :: string
  dlv_runId :: string
  dlv_versionId :: string
  idempotencyKey :: string
  destination :: string
  dlv_status :: delivery_status
  attempts :: nat
  resultRef :: "string option"
  dlv_createdAt :: int
  dlv_updatedAt :: int
  lastError :: "string option"
  deliveryVersion :: nat

section \<open>Product events\<close>

datatype automation_event_type =
    RunCreated | RunAdmitted | StepStarted | StepProgress | StepCompleted | ArtifactCreated
  | ApprovalRequested | ApprovalApproved | ApprovalRejected | DeliveryStarted | DeliveryCompleted
  | RunCompleted | RunFailed

record automation_event =
  ev_runId :: string
  ev_seq :: nat
  ev_timestamp :: int
  ev_type :: automation_event_type
  ev_data :: json

section \<open>Errors\<close>

datatype definition_problem =
    NoSteps | NoStepId | DuplicateStep string | NoEngine string | NoModel string | NoPrompt string
  | MappingNoField string | MappingUnknownField string string | MappingNoPlaceholder string
  | DuplicatePlaceholder string string | OutputNoKey string | DuplicateOutputKey string string
  | OutputNoPath string | SelfDependency string | DuplicateDependency string string
  | UnknownDependency string string | Cycle | NoArtifactId | DuplicateArtifact string
  | ArtifactUnknownStep string string | ContextUnknownArtifact string
  | DeliveryUnknownArtifact string | GateWithoutApproval | ApprovalWithoutGate

datatype input_problem =
    UnknownField string | MissingField string | NotString string | TooShort string | TooLong string
  | NotInEnum string | NotFiniteNumber string | TooSmall string | TooLarge string | NotBoolean string
  | NotObject string | NotArtifactRef string | UnknownType string string | DuplicateField string

datatype error_code =
    ILLEGAL_RUN_TRANSITION string run_status run_status
  | RUN_FENCED string
  | VERSION_CHECKSUM_MISMATCH string
  | INVALID_DEFINITION definition_problem
  | INVALID_INPUT input_problem
  | INPUT_CHECKSUM_MISMATCH string
  | ARTIFACT_NOT_FOUND string
  | ARTIFACT_CHECKSUM_MISMATCH string
  | ILLEGAL_APPROVAL_TRANSITION string approval_status approval_status
  | APPROVAL_FENCED string
  | FORBIDDEN_APPROVER_ROLE string string
  | ILLEGAL_DELIVERY_TRANSITION string delivery_status delivery_status
  | DELIVERY_FENCED string
  | TEMPLATE_EXISTS string
  | VERSION_EXISTS nat string
  | RUN_EXISTS string
  | RUN_NOT_FOUND string
  | JOB_MAPPING_EXISTS string string
  | ARTIFACT_EXISTS string
  | APPROVAL_EXISTS string
  | APPROVAL_NOT_FOUND string
  | DELIVERY_EXISTS string
  | DELIVERY_NOT_FOUND string
  | TEMPLATE_NOT_FOUND string
  | TEMPLATE_ARCHIVED string
  | VERSION_NOT_FOUND string
  | VERSION_TEMPLATE_MISMATCH string string
  | VERSION_SCOPE_MISMATCH string
  | IDEMPOTENCY_CONFLICT
  | INPUT_NOT_FOUND string
  | JOB_STATE_LOST string
  | FORBIDDEN_ORG string
  | FORBIDDEN_PROJECT string

text \<open>
  An \<^verbatim>\<open>AutomationError\<close> is its code with the values its message interpolates, and its HTTP
  status. \<open>OtherError\<close> is an exception of a collaborator (a dispatcher, a delivery provider).
\<close>

datatype automation_error = AutomationError (code: error_code) (http_status: nat) | OtherError string

end
