(* ===== verification/Kahn.thy ===== *)
theory Kahn
  imports Prelude
begin

text \<open>
  Kahn's topological sort as \<^verbatim>\<open>vaulltcore-automation/src/version.ts\<close> runs it twice
  (\<^verbatim>\<open>validateStepGraph\<close> counts the nodes it visits, \<^verbatim>\<open>executionOrder\<close> collects
  them), over tables of in-degrees and successor lists. The loop is total; on a graph whose
  tables agree with its dependency relation it visits exactly the nodes that are on no path from
  a cycle, in dependency order.
\<close>

section \<open>The loop\<close>

abbreviation degree :: "('a, int) table \<Rightarrow> 'a \<Rightarrow> int" where
  "degree indeg x \<equiv> (case tget indeg x of None \<Rightarrow> 0 | Some d \<Rightarrow> d)"

fun relax :: "'a list \<Rightarrow> ('a, int) table \<Rightarrow> 'a list \<Rightarrow> ('a, int) table \<times> 'a list" where
  "relax [] indeg queue = (indeg, queue)"
| "relax (next # ns) indeg queue =
     (let indeg' = tput next (degree indeg next - 1) indeg
      in relax ns indeg' (if degree indeg' next = 0 then queue @ [next] else queue))"

definition positives :: "('a, int) table \<Rightarrow> nat" where
  "positives indeg = length (filter (\<lambda>e. 0 < snd e) indeg)"

lemma positives_tput:
  "positives (tput x d t) + (if 0 < degree t x then 1 else 0) = positives t + (if 0 < d then 1 else 0)"
  by (induction t) (auto simp: positives_def)

lemma positives_decrement:
  "degree t x = d + 1 \<Longrightarrow>
   length (if d = 0 then q @ [x] else q) + positives (tput x d t) \<le> length q + positives t"
  using positives_tput [of x d t] by (auto split: if_splits)

lemma relax_measure:
  "relax ns indeg queue = (indeg', queue') \<Longrightarrow>
   length queue' + positives indeg' \<le> length queue + positives indeg"
proof (induction ns indeg queue rule: relax.induct)
  case (2 x ns indeg queue)
  show ?case
    using 2 positives_decrement [of indeg x "degree indeg x - 1" queue]
    by (fastforce simp: Let_def)
qed simp

function kahn :: "('a, 'a list) table \<Rightarrow> ('a, int) table \<Rightarrow> 'a list \<Rightarrow> 'a list" where
  "kahn adj indeg [] = []"
| "kahn adj indeg (x # queue) =
     (let (indeg', queue') = relax (case tget adj x of None \<Rightarrow> [] | Some ns \<Rightarrow> ns) indeg queue
      in x # kahn adj indeg' queue')"
  by pat_completeness auto
termination
proof (relation "measure (\<lambda>(adj, indeg, queue). length queue + positives indeg)")
  fix adj :: "('a, 'a list) table" and indeg :: "('a, int) table" and x :: 'a and queue and p indeg' queue'
  assume "p = relax (case tget adj x of None \<Rightarrow> [] | Some ns \<Rightarrow> ns) indeg queue" "(indeg', queue') = p"
  then have "length queue' + positives indeg' \<le> length queue + positives indeg"
    by (metis relax_measure)
  then show "((adj, indeg', queue'), adj, indeg, x # queue) \<in> measure (\<lambda>(adj, indeg, queue). length queue + positives indeg)"
    by simp
qed simp

section \<open>Correctness\<close>

text \<open>The tables agree with the nodes \<open>V\<close> and the dependencies \<open>dp\<close>.\<close>

definition graph_ok :: "'a list \<Rightarrow> ('a \<Rightarrow> 'a set) \<Rightarrow> ('a, 'a list) table \<Rightarrow> bool" where
  "graph_ok V dp adj \<longleftrightarrow> distinct V \<and> (\<forall>s \<in> set V. dp s \<subseteq> set V) \<and>
     (\<forall>q \<in> set V. \<exists>ns. tget adj q = Some ns \<and> distinct ns \<and> set ns = {s \<in> set V. q \<in> dp s})"

text \<open>Every node of the list comes after its dependencies.\<close>

fun in_order :: "('a \<Rightarrow> 'a set) \<Rightarrow> 'a set \<Rightarrow> 'a list \<Rightarrow> bool" where
  "in_order dp done [] = True"
| "in_order dp done (x # xs) = (dp x \<subseteq> done \<and> in_order dp (insert x done) xs)"

text \<open>
  The loop invariant: \<open>P\<close> is processed, \<open>Q\<close> is queued; the in-degree of a node counts its
  unprocessed dependencies, and the nodes seen are those that have none.
\<close>

definition kahn_inv :: "'a list \<Rightarrow> ('a \<Rightarrow> 'a set) \<Rightarrow> ('a, int) table \<Rightarrow> 'a set \<Rightarrow> 'a list \<Rightarrow> bool" where
  "kahn_inv V dp indeg P Q \<longleftrightarrow>
     distinct Q \<and> set Q \<inter> P = {} \<and> set Q \<union> P \<subseteq> set V \<and>
     (\<forall>s \<in> set V. tget indeg s = Some (int (card (dp s - P)))) \<and>
     (\<forall>s \<in> set V. s \<in> set Q \<union> P \<longleftrightarrow> dp s \<subseteq> P)"

lemma relax_result:
  assumes "distinct ns" "\<forall>s \<in> set ns. \<exists>d. tget indeg s = Some d \<and> 0 < d"
    and "relax ns indeg queue = (indeg', queue')"
  shows "(\<forall>s. tget indeg' s = (if s \<in> set ns then map_option (\<lambda>d. d - 1) (tget indeg s) else tget indeg s))
    \<and> queue' = queue @ filter (\<lambda>s. tget indeg s = Some 1) ns"
  using assms
proof (induction ns indeg queue rule: relax.induct)
  case (2 x ns indeg queue)
  let ?t = "tput x (degree indeg x - 1) indeg"
  from 2 obtain d where d: "tget indeg x = Some d" "0 < d" by auto
  have "\<forall>s \<in> set ns. \<exists>d. tget ?t s = Some d \<and> 0 < d"
    using "2.prems" by auto
  moreover have "filter (\<lambda>s. tget ?t s = Some 1) ns = filter (\<lambda>s. tget indeg s = Some 1) ns"
    using "2.prems" by (auto intro!: filter_cong)
  ultimately show ?case
    using 2 d by (auto simp: Let_def)
qed simp

lemma kahn_inv_step:
  assumes g: "graph_ok V dp adj" and fin: "\<forall>s \<in> set V. finite (dp s)"
    and inv: "kahn_inv V dp indeg P (x # Q)"
    and r: "relax (case tget adj x of None \<Rightarrow> [] | Some ns \<Rightarrow> ns) indeg Q = (indeg', Q')"
  shows "kahn_inv V dp indeg' (insert x P) Q'"
proof -
  have x: "x \<in> set V" "x \<notin> P" "x \<notin> set Q"
    using inv by (auto simp: kahn_inv_def)
  obtain ns where ns: "tget adj x = Some ns" "distinct ns" "set ns = {s \<in> set V. x \<in> dp s}"
    using g x by (auto simp: graph_ok_def)
  have deg: "tget indeg s = Some (int (card (dp s - P)))" if "s \<in> set V" for s
    using inv that by (auto simp: kahn_inv_def)
  have card_insert: "card (dp s - insert x P) = (if x \<in> dp s then card (dp s - P) - 1 else card (dp s - P))"
    if "s \<in> set V" for s
  proof -
    have "dp s - insert x P = (dp s - P) - {x}" by auto
    then show ?thesis
      using x fin that by (simp add: card_Diff_singleton_if)
  qed
  have pos: "0 < card (dp s - P)" if "s \<in> set ns" for s
    using that ns(3) x fin by (auto simp: card_gt_0_iff)
  have res: "\<forall>s. tget indeg' s = (if s \<in> set ns then map_option (\<lambda>d. d - 1) (tget indeg s) else tget indeg s)"
    "Q' = Q @ filter (\<lambda>s. tget indeg s = Some 1) ns"
    using relax_result [of ns indeg Q indeg' Q'] r ns pos deg by auto
  have Q': "set Q' = set Q \<union> {s \<in> set V. x \<in> dp s \<and> card (dp s - P) = 1}"
    using res(2) ns(3) deg by auto
  have new: "s \<notin> set Q \<union> P" "s \<noteq> x" if "s \<in> set V" "x \<in> dp s" for s
    using inv that x by (auto simp: kahn_inv_def)
  have deg': "tget indeg' s = Some (int (card (dp s - insert x P)))" if s: "s \<in> set V" for s
  proof (cases "x \<in> dp s")
    case True
    then have "s \<in> set ns" using s ns(3) by simp
    then show ?thesis
      using res(1) deg [OF s] card_insert [OF s] pos [of s] True by (simp add: of_nat_diff)
  next
    case False
    then show ?thesis using res(1) deg [OF s] card_insert [OF s] ns(3) by simp
  qed
  have seen: "s \<in> set Q' \<union> insert x P \<longleftrightarrow> dp s \<subseteq> insert x P" if s: "s \<in> set V" for s
  proof (cases "x \<in> dp s")
    case True
    have "card (dp s - P) = 1 \<longleftrightarrow> dp s - P = {x}"
      using True x by (metis Diff_iff One_nat_def card_1_singletonE is_singletonI is_singleton_altdef singletonD)
    also have "\<dots> \<longleftrightarrow> dp s \<subseteq> insert x P"
      using True x by auto
    finally show ?thesis using new [OF s True] Q' True s by auto
  next
    case False
    then have "dp s \<subseteq> insert x P \<longleftrightarrow> dp s \<subseteq> P" by auto
    then show ?thesis using inv s Q' False by (auto simp: kahn_inv_def)
  qed
  have "distinct Q'"
    using res(2) ns inv new by (auto simp: kahn_inv_def)
  moreover have "set Q' \<inter> insert x P = {}"
    using Q' x new inv by (auto simp: kahn_inv_def)
  moreover have "set Q' \<union> insert x P \<subseteq> set V"
    using Q' inv by (auto simp: kahn_inv_def)
  ultimately show ?thesis
    using deg' seen by (simp add: kahn_inv_def)
qed

definition kahn_post :: "'a list \<Rightarrow> ('a \<Rightarrow> 'a set) \<Rightarrow> 'a set \<Rightarrow> 'a list \<Rightarrow> bool" where
  "kahn_post V dp P R \<longleftrightarrow> distinct R \<and> set R \<inter> P = {} \<and> set R \<subseteq> set V \<and> in_order dp P R \<and>
     (\<forall>s \<in> set V. dp s \<subseteq> P \<union> set R \<longrightarrow> s \<in> P \<union> set R)"

lemma kahn_correct:
  assumes "graph_ok V dp adj" "\<forall>s \<in> set V. finite (dp s)" "kahn_inv V dp indeg P Q"
  shows "kahn_post V dp P (kahn adj indeg Q)"
  using assms
proof (induction adj indeg Q arbitrary: P rule: kahn.induct)
  case (1 adj indeg)
  then show ?case by (auto simp: kahn_inv_def kahn_post_def)
next
  case (2 adj indeg x Q)
  obtain indeg' Q' where r: "relax (case tget adj x of None \<Rightarrow> [] | Some ns \<Rightarrow> ns) indeg Q = (indeg', Q')"
    by (meson surj_pair)
  have "kahn_inv V dp indeg' (insert x P) Q'"
    using 2 r by (intro kahn_inv_step) auto
  then have "kahn_post V dp (insert x P) (kahn adj indeg' Q')"
    using "2.IH" [OF r [symmetric] refl] "2.prems" by simp
  moreover have "x \<notin> P" "x \<in> set V" "dp x \<subseteq> P"
    using "2.prems" by (auto simp: kahn_inv_def)
  ultimately show ?case
    using r by (auto simp: kahn_post_def)
qed

text \<open>The dependency relation on the nodes: from a dependency to its dependent.\<close>

definition dep_rel :: "'a list \<Rightarrow> ('a \<Rightarrow> 'a set) \<Rightarrow> ('a \<times> 'a) set" where
  "dep_rel V dp = {(d, s). s \<in> set V \<and> d \<in> dp s}"

lemma in_order_before:
  "in_order dp D R \<Longrightarrow> s \<in> set R \<Longrightarrow> dp s \<subseteq> D \<union> set (takeWhile (\<lambda>x. x \<noteq> s) R)"
proof (induction R arbitrary: D)
  case (Cons x R)
  then show ?case by (cases "x = s") fastforce+
qed simp

lemma takeWhile_before:
  assumes "d \<in> set (takeWhile (\<lambda>x. x \<noteq> s) R)"
  shows "length (takeWhile (\<lambda>x. x \<noteq> d) R) < length (takeWhile (\<lambda>x. x \<noteq> s) R)"
proof -
  let ?xs = "takeWhile (\<lambda>x. x \<noteq> s) R"
  have "takeWhile (\<lambda>x. x \<noteq> d) R = takeWhile (\<lambda>x. x \<noteq> d) (?xs @ dropWhile (\<lambda>x. x \<noteq> s) R)"
    by simp
  also have "\<dots> = takeWhile (\<lambda>x. x \<noteq> d) ?xs"
    using assms by (intro takeWhile_append1) auto
  finally have "takeWhile (\<lambda>x. x \<noteq> d) R = takeWhile (\<lambda>x. x \<noteq> d) ?xs" .
  moreover have "length (takeWhile (\<lambda>x. x \<noteq> d) ?xs) \<noteq> length ?xs"
    using assms by (metis (mono_tags, lifting) length_takeWhile_le set_takeWhileD takeWhile_eq_take take_all_iff)
  ultimately show ?thesis
    using length_takeWhile_le [of "\<lambda>x. x \<noteq> d" ?xs] by simp
qed

lemma in_order_acyclic:
  assumes "in_order dp {} R" "set R = set V"
  shows "acyclic (dep_rel V dp)"
proof (rule acyclicI_order [where f = "\<lambda>x. - int (length (takeWhile (\<lambda>y. y \<noteq> x) R))"])
  fix d s assume "(d, s) \<in> dep_rel V dp"
  then have "d \<in> set (takeWhile (\<lambda>x. x \<noteq> s) R)"
    using in_order_before [OF assms(1), of s] assms(2) by (auto simp: dep_rel_def)
  from takeWhile_before [OF this]
  show "- int (length (takeWhile (\<lambda>y. y \<noteq> s) R)) < - int (length (takeWhile (\<lambda>y. y \<noteq> d) R))"
    by simp
qed

lemma acyclic_complete:
  assumes "kahn_post V dp {} R" "\<forall>s \<in> set V. dp s \<subseteq> set V" "acyclic (dep_rel V dp)"
  shows "set R = set V"
proof (rule ccontr)
  assume "set R \<noteq> set V"
  with assms(1) have ne: "set V - set R \<noteq> {}"
    by (auto simp: kahn_post_def)
  have "dep_rel V dp \<subseteq> set V \<times> set V"
    using assms(2) by (auto simp: dep_rel_def)
  then have "finite (dep_rel V dp)"
    by (rule finite_subset) simp
  then have "wf (dep_rel V dp)"
    using assms(3) by (rule finite_acyclic_wf)
  then obtain z where z: "z \<in> set V - set R" "\<forall>y. (y, z) \<in> dep_rel V dp \<longrightarrow> y \<notin> set V - set R"
    using ne by (metis wf_eq_minimal ex_in_conv)
  then have "dp z \<subseteq> set R"
    using assms(2) by (auto simp: dep_rel_def)
  with z assms(1) show False
    by (auto simp: kahn_post_def)
qed

lemma kahn_complete_iff_acyclic:
  assumes "graph_ok V dp adj" "\<forall>s \<in> set V. finite (dp s)" "kahn_inv V dp indeg {} Q"
  shows "length (kahn adj indeg Q) = length V \<longleftrightarrow> acyclic (dep_rel V dp)"
proof -
  let ?R = "kahn adj indeg Q"
  have post: "kahn_post V dp {} ?R"
    using assms by (rule kahn_correct)
  have V: "distinct V" "\<forall>s \<in> set V. dp s \<subseteq> set V"
    using assms(1) by (auto simp: graph_ok_def)
  have "length ?R = length V \<longleftrightarrow> set ?R = set V"
    using post V(1) by (metis List.finite_set card_subset_eq distinct_card kahn_post_def)
  moreover have "set ?R = set V \<Longrightarrow> acyclic (dep_rel V dp)"
    using post in_order_acyclic [of dp ?R V] by (simp add: kahn_post_def)
  ultimately show ?thesis
    using acyclic_complete [OF post V(2)] by blast
qed

end
