(* ===== verification/Versions.thy ===== *)
theory Versions
  imports Contracts Kahn
begin

text \<open>
  Immutable automation versions (\<^verbatim>\<open>vaulltcore-automation/src/version.ts\<close>): the checksum over
  the canonical definition, the validation of a definition and of its step graph, the
  construction of a version and the execution order of its steps.
\<close>

section \<open>Canonical form and checksum\<close>

definition string_list_json :: "string list \<Rightarrow> json" where
  "string_list_json ss = JArr (map JStr ss)"

definition nullable_json :: "string option \<Rightarrow> json" where
  "nullable_json s = (case s of None \<Rightarrow> JNull | Some t \<Rightarrow> JStr t)"

definition rat_json :: "rat \<Rightarrow> json" where
  "rat_json q = JNum (Finite q)"

definition input_field_json :: "input_field \<Rightarrow> json" where
  "input_field_json f = JObj
     [(''fieldId'', JStr (fieldId f)), (''type'', JStr (if_type f)), (''required'', JBool (required f)),
      (''description'', nullable_json (if_description f)), (''min'', optional_json rat_json (min_bound f)),
      (''max'', optional_json rat_json (max_bound f)), (''enum'', optional_json string_list_json (enum_values f))]"

definition input_contract_json :: "input_contract \<Rightarrow> json" where
  "input_contract_json c = JObj [(''fields'', JArr (map input_field_json c))]"

definition execution_json :: "step_execution_spec \<Rightarrow> json" where
  "execution_json x = JObj
     [(''engine'', JStr (engine x)), (''model'', JStr (model x)), (''prompt'', JStr (prompt x)),
      (''engineOptions'', optional_json id (engineOptions x)), (''maxSteps'', optional_json rat_json (maxSteps x)),
      (''maxTokens'', optional_json rat_json (maxTokens x)),
      (''maxDurationMs'', optional_json rat_json (maxDurationMs x)),
      (''allowedTools'', optional_json string_list_json (allowedTools x))]"

definition step_json :: "automation_step \<Rightarrow> json" where
  "step_json s = JObj
     [(''stepId'', JStr (stepId s)), (''execution'', execution_json (execution s)),
      (''inputMappings'', JArr (map (\<lambda>m. JObj [(''fieldId'', JStr (im_fieldId m)), (''placeholder'', JStr (placeholder m))]) (inputMappings s))),
      (''outputMappings'', JArr (map (\<lambda>m. JObj [(''key'', JStr (om_key m)), (''path'', JStr (om_path m))]) (outputMappings s))),
      (''dependsOn'', string_list_json (dependsOn s))]"

definition artifact_spec_json :: "artifact_spec \<Rightarrow> json" where
  "artifact_spec_json a = JObj
     [(''artifactId'', JStr (as_artifactId a)), (''type'', JStr (as_type a)), (''name'', JStr (as_name a)),
      (''stepId'', JStr (as_stepId a)), (''path'', JStr (as_path a))]"

definition approval_spec_json :: "approval_spec \<Rightarrow> json" where
  "approval_spec_json a = JObj
     [(''required'', JBool (ap_required a)), (''gateId'', JStr (ap_gateId a)),
      (''minApproverRole'', JStr (ap_minApproverRole a)),
      (''expiresAfterMs'', optional_json (\<lambda>i. rat_json (of_int i)) (ap_expiresAfterMs a)),
      (''contextArtifacts'', string_list_json (ap_contextArtifacts a))]"

definition definition_json :: "automation_definition \<Rightarrow> json" where
  "definition_json d = JObj
     [(''steps'', JArr (map step_json (steps d))), (''artifacts'', JArr (map artifact_spec_json (artifacts d))),
      (''approval'', approval_spec_json (approval d)),
      (''delivery'', JObj [(''destination'', JStr (ds_destination (delivery d))),
                           (''artifactIds'', string_list_json (ds_artifactIds (delivery d)))])]"

definition definitionChecksum :: "host \<Rightarrow> automation_definition \<Rightarrow> input_contract \<Rightarrow> string" where
  "definitionChecksum h d c =
     sha256 h (stableString h (JObj [(''definition'', definition_json d), (''inputContract'', input_contract_json c)]))"

definition verifyVersionChecksum :: "host \<Rightarrow> automation_version \<Rightarrow> automation_error + unit" where
  "verifyVersionChecksum h v =
     (if definitionChecksum h (v_definition v) (inputContract v) \<noteq> v_checksum v
      then Inl (AutomationError (VERSION_CHECKSUM_MISMATCH (versionId v)) 400) else Inr ())"

text \<open>
  \<^verbatim>\<open>JSON.parse(JSON.stringify(definition))\<close>: the engine options are the only untyped part of a
  definition, so the copy changes nothing else.
\<close>

definition clone_step :: "automation_step \<Rightarrow> automation_step" where
  "clone_step s = s\<lparr>execution := (execution s)\<lparr>engineOptions :=
     (case engineOptions (execution s) of Value v \<Rightarrow> Value (json_clone v) | x \<Rightarrow> x)\<rparr>\<rparr>"

definition clone_definition :: "automation_definition \<Rightarrow> automation_definition" where
  "clone_definition d = d\<lparr>steps := map clone_step (steps d)\<rparr>"

section \<open>Step graph validation\<close>

abbreviation invalid :: "definition_problem \<Rightarrow> automation_error" where
  "invalid p \<equiv> AutomationError (INVALID_DEFINITION p) 400"

fun check_deps :: "string \<Rightarrow> string list \<Rightarrow> string list \<Rightarrow> automation_error + unit" where
  "check_deps sid deps [] = Inr ()"
| "check_deps sid deps (dep # ds) =
     check (dep = sid) (invalid (SelfDependency sid))
     (check (dep \<in> set deps) (invalid (DuplicateDependency sid dep))
     (check_deps sid (deps @ [dep]) ds))"

fun graph_ids :: "string list \<Rightarrow> automation_step list \<Rightarrow> automation_error + string list" where
  "graph_ids stepIds [] = Inr stepIds"
| "graph_ids stepIds (s # ss) =
     check (stepId s = []) (invalid NoStepId)
     (check (stepId s \<in> set stepIds) (invalid (DuplicateStep (stepId s)))
     (seq_res (check_deps (stepId s) [] (dependsOn s)) (\<lambda>_.
      graph_ids (stepIds @ [stepId s]) ss)))"

type_synonym graph_tables = "(string, int) table \<times> (string, string list) table"

fun add_deps :: "string list \<Rightarrow> string \<Rightarrow> string list \<Rightarrow> graph_tables \<Rightarrow> automation_error + graph_tables" where
  "add_deps stepIds sid [] g = Inr g"
| "add_deps stepIds sid (dep # ds) (indeg, adj) =
     check (dep \<notin> set stepIds) (invalid (UnknownDependency sid dep))
     (add_deps stepIds sid ds
       (tput sid (degree indeg sid + 1) indeg,
        tput dep ((case tget adj dep of None \<Rightarrow> [] | Some ns \<Rightarrow> ns) @ [sid]) adj))"

fun add_edges :: "string list \<Rightarrow> automation_step list \<Rightarrow> graph_tables \<Rightarrow> automation_error + graph_tables" where
  "add_edges stepIds [] g = Inr g"
| "add_edges stepIds (s # ss) g =
     seq_res (add_deps stepIds (stepId s) (dependsOn s) g) (add_edges stepIds ss)"

definition validateStepGraph :: "automation_step list \<Rightarrow> automation_error + unit" where
  "validateStepGraph ss =
     seq_res (graph_ids [] ss) (\<lambda>stepIds.
     seq_res (add_edges stepIds ss (map (\<lambda>i. (i, 0)) stepIds, map (\<lambda>i. (i, [])) stepIds)) (\<lambda>(indeg, adj).
       let visited = length (kahn adj indeg (map fst (filter (\<lambda>e. snd e = 0) indeg)))
       in check (visited \<noteq> length stepIds) (invalid Cycle) (Inr ())))"

section \<open>Definition validation\<close>

fun check_input_mappings ::
  "input_contract \<Rightarrow> string \<Rightarrow> string list \<Rightarrow> input_mapping list \<Rightarrow> automation_error + unit" where
  "check_input_mappings c sid placeholders [] = Inr ()"
| "check_input_mappings c sid placeholders (m # ms) =
     check (im_fieldId m = []) (invalid (MappingNoField sid))
     (check (\<not> list_ex (\<lambda>f. fieldId f = im_fieldId m) c) (invalid (MappingUnknownField sid (im_fieldId m)))
     (check (placeholder m = []) (invalid (MappingNoPlaceholder sid))
     (check (placeholder m \<in> set placeholders) (invalid (DuplicatePlaceholder sid (placeholder m)))
     (check_input_mappings c sid (placeholders @ [placeholder m]) ms))))"

fun check_output_mappings :: "string \<Rightarrow> string list \<Rightarrow> output_mapping list \<Rightarrow> automation_error + unit" where
  "check_output_mappings sid outKeys [] = Inr ()"
| "check_output_mappings sid outKeys (m # ms) =
     check (om_key m = []) (invalid (OutputNoKey sid))
     (check (om_key m \<in> set outKeys) (invalid (DuplicateOutputKey sid (om_key m)))
     (check (om_path m = []) (invalid (OutputNoPath sid))
     (check_output_mappings sid (outKeys @ [om_key m]) ms)))"

fun check_steps :: "input_contract \<Rightarrow> string list \<Rightarrow> automation_step list \<Rightarrow> automation_error + string list" where
  "check_steps c stepIds [] = Inr stepIds"
| "check_steps c stepIds (s # ss) =
     check (stepId s = []) (invalid NoStepId)
     (check (stepId s \<in> set stepIds) (invalid (DuplicateStep (stepId s)))
     (check (engine (execution s) = []) (invalid (NoEngine (stepId s)))
     (check (model (execution s) = []) (invalid (NoModel (stepId s)))
     (check (prompt (execution s) = []) (invalid (NoPrompt (stepId s)))
     (seq_res (check_input_mappings c (stepId s) [] (inputMappings s)) (\<lambda>_.
      seq_res (check_output_mappings (stepId s) [] (outputMappings s)) (\<lambda>_.
      check_steps c (stepIds @ [stepId s]) ss)))))))"

fun check_artifacts :: "string list \<Rightarrow> string list \<Rightarrow> artifact_spec list \<Rightarrow> automation_error + string list" where
  "check_artifacts stepIds artifactIds [] = Inr artifactIds"
| "check_artifacts stepIds artifactIds (a # as) =
     check (as_artifactId a = []) (invalid NoArtifactId)
     (check (as_artifactId a \<in> set artifactIds) (invalid (DuplicateArtifact (as_artifactId a)))
     (check (as_stepId a \<notin> set stepIds) (invalid (ArtifactUnknownStep (as_artifactId a) (as_stepId a)))
     (check_artifacts stepIds (artifactIds @ [as_artifactId a]) as)))"

definition validateDefinition :: "automation_definition \<Rightarrow> input_contract \<Rightarrow> automation_error + unit" where
  "validateDefinition d c =
     check (steps d = []) (invalid NoSteps)
     (seq_res (check_steps c [] (steps d)) (\<lambda>stepIds.
      seq_res (validateStepGraph (steps d)) (\<lambda>_.
      seq_res (check_artifacts stepIds [] (artifacts d)) (\<lambda>artifactIds.
      seq_res (check_all (\<lambda>i. check (i \<notin> set artifactIds) (invalid (ContextUnknownArtifact i)) (Inr ())) (ap_contextArtifacts (approval d))) (\<lambda>_.
      seq_res (check_all (\<lambda>i. check (i \<notin> set artifactIds) (invalid (DeliveryUnknownArtifact i)) (Inr ())) (ds_artifactIds (delivery d))) (\<lambda>_.
      check (\<not> ap_required (approval d) \<and> ap_gateId (approval d) \<noteq> []) (invalid GateWithoutApproval)
      (check (ap_required (approval d) \<and> ap_gateId (approval d) = []) (invalid ApprovalWithoutGate)
      (Inr ()))))))))"

record version_args = job_identity +
  va_templateId :: string
  va_version :: nat
  va_definition :: automation_definition
  va_inputContract :: input_contract
  va_createdBy :: string

definition buildVersion :: "host \<Rightarrow> string \<Rightarrow> int \<Rightarrow> version_args \<Rightarrow> automation_error + automation_version" where
  "buildVersion h newVersionId now a =
     seq_res (validateDefinition (va_definition a) (va_inputContract a)) (\<lambda>_.
     Inr \<lparr>tenantId = tenantId a, orgId = orgId a, projectId = projectId a, versionId = newVersionId,
          v_templateId = va_templateId a, v_version = va_version a, v_definition = va_definition a,
          inputContract = va_inputContract a,
          v_checksum = definitionChecksum h (va_definition a) (va_inputContract a),
          v_createdAt = now, v_createdBy = va_createdBy a\<rparr>)"

section \<open>Execution order\<close>

text \<open>\<^verbatim>\<open>adj.get(dep)!.push(...)\<close> throws on a dependency that is not a step.\<close>

fun order_deps :: "string \<Rightarrow> string list \<Rightarrow> graph_tables \<Rightarrow> automation_error + graph_tables" where
  "order_deps sid [] g = Inr g"
| "order_deps sid (dep # ds) (indeg, adj) =
     (case tget adj dep of
        None \<Rightarrow> Inl (OtherError ''TypeError'')
      | Some ns \<Rightarrow> order_deps sid ds (tput sid (degree indeg sid + 1) indeg, tput dep (ns @ [sid]) adj))"

fun order_edges :: "automation_step list \<Rightarrow> graph_tables \<Rightarrow> automation_error + graph_tables" where
  "order_edges [] g = Inr g"
| "order_edges (s # ss) g = seq_res (order_deps (stepId s) (dependsOn s) g) (order_edges ss)"

definition executionOrder :: "automation_step list \<Rightarrow> automation_error + string list" where
  "executionOrder ss =
     seq_res (order_edges ss (fold (\<lambda>s. tput (stepId s) 0) ss [], fold (\<lambda>s. tput (stepId s) []) ss [])) (\<lambda>(indeg, adj).
       let ready = map stepId (filter (\<lambda>s. degree indeg (stepId s) = 0) ss)
       in Inr (kahn adj indeg ready))"

section \<open>The tables of a step graph\<close>

lemma check_deps_Inr:
  "check_deps sid deps ds = Inr () \<longleftrightarrow> sid \<notin> set ds \<and> distinct ds \<and> set deps \<inter> set ds = {}"
  by (induction sid deps ds rule: check_deps.induct) auto

lemma graph_ids_Inr:
  "graph_ids ids ss = Inr r \<longleftrightarrow>
     r = ids @ map stepId ss \<and> set ids \<inter> stepId ` set ss = {} \<and> distinct (map stepId ss) \<and>
     (\<forall>s \<in> set ss. stepId s \<noteq> [] \<and> stepId s \<notin> set (dependsOn s) \<and> distinct (dependsOn s))"
  by (induction ids ss rule: graph_ids.induct) (auto simp: check_deps_Inr)

lemma add_deps_Inr:
  "(\<exists>g'. add_deps ids sid ds g = Inr g') \<longleftrightarrow> set ds \<subseteq> set ids"
  by (induction ids sid ds g rule: add_deps.induct) auto

lemma add_deps_tables:
  assumes "add_deps ids sid ds (indeg, adj) = Inr (indeg', adj')" "distinct ds"
    "tget indeg sid = Some k" "\<forall>d \<in> set ds. thas adj d"
  shows "tkeys indeg' = tkeys indeg \<and> tkeys adj' = tkeys adj
    \<and> tget indeg' = (tget indeg)(sid \<mapsto> k + int (length ds))
    \<and> tget adj' = (\<lambda>q. if q \<in> set ds then map_option (\<lambda>ns. ns @ [sid]) (tget adj q) else tget adj q)"
  using assms
proof (induction ids sid ds "(indeg, adj)" arbitrary: indeg adj k rule: add_deps.induct)
  case (1 ids sid g)
  then show ?case by (auto simp: fun_eq_iff)
next
  case (2 ids sid dep ds indeg adj)
  let ?i = "tput sid (degree indeg sid + 1) indeg"
  let ?a = "tput dep ((case tget adj dep of None \<Rightarrow> [] | Some ns \<Rightarrow> ns) @ [sid]) adj"
  have keys: "sid \<in> set (tkeys indeg)" "dep \<in> set (tkeys adj)"
    using "2.prems" by (auto dest!: tget_Some_key)
  have "add_deps ids sid ds (?i, ?a) = Inr (indeg', adj')"
    using "2.prems" by auto
  from "2.hyps" [OF this, of "k + 1"] "2.prems"
  show ?case
    using keys by (auto simp: tkeys_tput fun_eq_iff)
qed


text \<open>The steps that depend on \<open>q\<close>, and the dependencies of the step named \<open>i\<close>.\<close>

definition dependents :: "automation_step list \<Rightarrow> string \<Rightarrow> string list" where
  "dependents ss q = map stepId (filter (\<lambda>s. q \<in> set (dependsOn s)) ss)"

definition deps_of :: "automation_step list \<Rightarrow> string \<Rightarrow> string list" where
  "deps_of ss i = concat (map dependsOn (filter (\<lambda>s. stepId s = i) ss))"

lemma add_edges_Inr: "(\<exists>g'. add_edges ids ss g = Inr g') \<longleftrightarrow> (\<forall>s \<in> set ss. set (dependsOn s) \<subseteq> set ids)"
proof (induction ids ss g rule: add_edges.induct)
  case (2 ids s ss g)
  then show ?case using add_deps_Inr [of ids "stepId s" "dependsOn s" g] by auto
qed simp

lemma add_edges_tables:
  assumes "add_edges ids ss (indeg, adj) = Inr (indeg', adj')"
    "\<forall>s \<in> set ss. distinct (dependsOn s) \<and> thas indeg (stepId s)" "\<forall>i \<in> set ids. thas adj i"
  shows "tkeys indeg' = tkeys indeg \<and> tkeys adj' = tkeys adj
    \<and> tget indeg' = (\<lambda>i. map_option (\<lambda>k. k + int (length (deps_of ss i))) (tget indeg i))
    \<and> tget adj' = (\<lambda>q. map_option (\<lambda>ns. ns @ dependents ss q) (tget adj q))"
  using assms
proof (induction ss arbitrary: indeg adj)
  case Nil
  then show ?case by (auto simp: deps_of_def dependents_def option.map_ident)
next
  case (Cons s ss)
  obtain indeg1 adj1 where 1: "add_deps ids (stepId s) (dependsOn s) (indeg, adj) = Inr (indeg1, adj1)"
    and 2: "add_edges ids ss (indeg1, adj1) = Inr (indeg', adj')"
    using Cons.prems(1) by auto
  obtain k where k: "tget indeg (stepId s) = Some k"
    using Cons.prems(2) by auto
  have "set (dependsOn s) \<subseteq> set ids"
    using 1 add_deps_Inr by metis
  with Cons.prems have t1: "tkeys indeg1 = tkeys indeg" "tkeys adj1 = tkeys adj"
    "tget indeg1 = (tget indeg)(stepId s \<mapsto> k + int (length (dependsOn s)))"
    "tget adj1 = (\<lambda>q. if q \<in> set (dependsOn s) then map_option (\<lambda>ns. ns @ [stepId s]) (tget adj q) else tget adj q)"
    using add_deps_tables [OF 1 _ k] by auto
  have "\<forall>s \<in> set ss. distinct (dependsOn s) \<and> thas indeg1 (stepId s)" "\<forall>i \<in> set ids. thas adj1 i"
    using Cons.prems t1 by auto
  from Cons.IH [OF 2 this] show ?case
    using t1 k by (auto simp: fun_eq_iff deps_of_def dependents_def option.map_comp o_def algebra_simps)
qed


text \<open>What a valid step graph is.\<close>

definition step_graph_ok :: "automation_step list \<Rightarrow> bool" where
  "step_graph_ok ss \<longleftrightarrow> distinct (map stepId ss) \<and>
     (\<forall>s \<in> set ss. stepId s \<noteq> [] \<and> stepId s \<notin> set (dependsOn s) \<and> distinct (dependsOn s)
        \<and> set (dependsOn s) \<subseteq> stepId ` set ss)"

definition step_rel :: "automation_step list \<Rightarrow> (string \<times> string) set" where
  "step_rel ss = {(d, i). \<exists>s \<in> set ss. stepId s = i \<and> d \<in> set (dependsOn s)}"

lemma set_deps_of: "set (deps_of ss i) = {d. (d, i) \<in> step_rel ss}"
  by (auto simp: deps_of_def step_rel_def)

lemma dep_rel_steps: "dep_rel (map stepId ss) (\<lambda>i. set (deps_of ss i)) = step_rel ss"
  by (auto simp: dep_rel_def set_deps_of step_rel_def)

lemma deps_of_step:
  assumes "distinct (map stepId ss)" "s \<in> set ss"
  shows "deps_of ss (stepId s) = dependsOn s"
proof -
  have "filter (\<lambda>t. stepId t = stepId s) ss = [s]"
    using assms by (induction ss) (auto simp: filter_empty_conv rev_image_eqI)
  then show ?thesis by (simp add: deps_of_def)
qed

lemma steps_graph_ok:
  assumes "step_graph_ok ss"
    and "tget adj = (\<lambda>q. if q \<in> stepId ` set ss then Some (dependents ss q) else None)"
  shows "graph_ok (map stepId ss) (\<lambda>i. set (deps_of ss i)) adj"
proof -
  have "distinct (dependents ss q)" for q
    using assms(1) by (simp add: dependents_def step_graph_ok_def distinct_map_filter)
  moreover have "set (dependents ss q) = {i \<in> stepId ` set ss. q \<in> set (deps_of ss i)}" for q
    unfolding dependents_def set_deps_of step_rel_def by (auto simp: image_iff) metis
  ultimately show ?thesis
    using assms by (auto simp: graph_ok_def step_graph_ok_def set_deps_of step_rel_def)
qed

lemma steps_kahn_inv:
  assumes "step_graph_ok ss"
    and "tget indeg = (\<lambda>i. if i \<in> stepId ` set ss then Some (int (length (deps_of ss i))) else None)"
    and "distinct Q" "set Q = {i \<in> stepId ` set ss. deps_of ss i = []}"
  shows "kahn_inv (map stepId ss) (\<lambda>i. set (deps_of ss i)) indeg {} Q"
proof -
  have "distinct (deps_of ss i)" if "i \<in> stepId ` set ss" for i
    using that assms(1) deps_of_step by (auto simp: step_graph_ok_def)
  then show ?thesis
    using assms by (auto simp: kahn_inv_def distinct_card)
qed

text \<open>Both callers of the loop start it in a state of this shape.\<close>

definition start_tables :: "automation_step list \<Rightarrow> (string, int) table \<Rightarrow> (string, string list) table \<Rightarrow> string list \<Rightarrow> bool" where
  "start_tables ss indeg adj Q \<longleftrightarrow>
     tget indeg = (\<lambda>i. if i \<in> stepId ` set ss then Some (int (length (deps_of ss i))) else None) \<and>
     tget adj = (\<lambda>q. if q \<in> stepId ` set ss then Some (dependents ss q) else None) \<and>
     distinct Q \<and> set Q = {i \<in> stepId ` set ss. deps_of ss i = []}"

lemma start_tables_kahn:
  assumes "step_graph_ok ss" "start_tables ss indeg adj Q"
  shows "kahn_post (map stepId ss) (\<lambda>i. set (deps_of ss i)) {} (kahn adj indeg Q)"
    and "length (kahn adj indeg Q) = length ss \<longleftrightarrow> acyclic (step_rel ss)"
proof -
  have g: "graph_ok (map stepId ss) (\<lambda>i. set (deps_of ss i)) adj"
    and i: "kahn_inv (map stepId ss) (\<lambda>i. set (deps_of ss i)) indeg {} Q"
    using assms by (auto simp: start_tables_def intro: steps_graph_ok steps_kahn_inv)
  show "kahn_post (map stepId ss) (\<lambda>i. set (deps_of ss i)) {} (kahn adj indeg Q)"
    by (rule kahn_correct [OF g _ i]) simp
  show "length (kahn adj indeg Q) = length ss \<longleftrightarrow> acyclic (step_rel ss)"
    using kahn_complete_iff_acyclic [OF g _ i] by (simp add: dep_rel_steps)
qed

lemma tget_const: "tget (map (\<lambda>i. (i, c)) is) = (\<lambda>i. if i \<in> set is then Some c else None)"
  by (induction "is") (auto simp: fun_eq_iff)


lemma add_edges_start:
  assumes "step_graph_ok ss"
    and "add_edges ids ss (map (\<lambda>i. (i, 0)) ids, map (\<lambda>i. (i, [])) ids) = Inr (indeg, adj)"
    and ids: "ids = map stepId ss"
  shows "start_tables ss indeg adj (map fst (filter (\<lambda>e. snd e = 0) indeg))"
proof -
  have "set ids = stepId ` set ss"
    using ids by simp
  then have t: "tkeys indeg = ids"
    "tget indeg = (\<lambda>i. if i \<in> stepId ` set ss then Some (int (length (deps_of ss i))) else None)"
    "tget adj = (\<lambda>q. if q \<in> stepId ` set ss then Some (dependents ss q) else None)"
    using add_edges_tables [OF assms(2)] assms(1)
    by (auto simp: step_graph_ok_def tget_const fun_eq_iff o_def)
  have d: "distinct (tkeys indeg)"
    using t ids assms(1) by (simp add: step_graph_ok_def)
  have "set (map fst (filter (\<lambda>e. snd e = 0) indeg)) = {i. tget indeg i = Some 0}"
    using d by (auto simp: tget_Some_iff image_iff)
  then show ?thesis
    using t d by (auto simp: start_tables_def filter_map_fst_distinct split: if_splits)
qed

lemma validateStepGraph_iff:
  "validateStepGraph ss = Inr () \<longleftrightarrow> step_graph_ok ss \<and> acyclic (step_rel ss)"
proof (cases "step_graph_ok ss")
  case True
  then have ids: "graph_ids [] ss = Inr (map stepId ss)"
    by (auto simp: graph_ids_Inr step_graph_ok_def)
  define names where "names = map stepId ss"
  let ?g = "(map (\<lambda>i. (i, 0)) names, map (\<lambda>i. (i, [])) names)"
  obtain indeg adj where g: "add_edges names ss ?g = Inr (indeg, adj)"
    using add_edges_Inr [of names ss ?g] True by (auto simp: step_graph_ok_def names_def)
  have "validateStepGraph ss = Inr () \<longleftrightarrow> length (kahn adj indeg (map fst (filter (\<lambda>e. snd e = 0) indeg))) = length names"
    by (simp add: validateStepGraph_def ids [folded names_def] g)
  then show ?thesis
    using start_tables_kahn(2) [OF True add_edges_start [OF True g names_def]] True by (simp add: names_def)
next
  case False
  have "validateStepGraph ss \<noteq> Inr ()"
  proof
    assume "validateStepGraph ss = Inr ()"
    then obtain g where "graph_ids [] ss = Inr (map stepId ss)"
      "add_edges (map stepId ss) ss (map (\<lambda>i. (i, 0)) (map stepId ss), map (\<lambda>i. (i, [])) (map stepId ss)) = Inr g"
      by (auto simp: validateStepGraph_def graph_ids_Inr)
    from this(2) have "\<forall>s \<in> set ss. set (dependsOn s) \<subseteq> set (map stepId ss)"
      by (metis add_edges_Inr)
    with \<open>graph_ids [] ss = Inr (map stepId ss)\<close> have "step_graph_ok ss"
      by (simp add: graph_ids_Inr step_graph_ok_def)
    with False show False ..
  qed
  with False show ?thesis by simp
qed


lemma order_deps_add_deps:
  "add_deps ids sid ds (indeg, adj) = Inr g \<Longrightarrow> (\<forall>i \<in> set ids. thas adj i) \<Longrightarrow>
   order_deps sid ds (indeg, adj) = Inr g \<and> (\<forall>i \<in> set ids. thas (snd g) i)"
proof (induction ids sid ds "(indeg, adj)" arbitrary: indeg adj rule: add_deps.induct)
  case (2 ids sid dep ds indeg adj)
  then obtain ns where ns: "tget adj dep = Some ns" by auto
  then show ?case using 2 by auto
qed auto

lemma order_edges_add_edges:
  "add_edges ids ss (indeg, adj) = Inr g \<Longrightarrow> (\<forall>i \<in> set ids. thas adj i) \<Longrightarrow>
   order_edges ss (indeg, adj) = Inr g"
proof (induction ss arbitrary: indeg adj)
  case (Cons s ss)
  then obtain indeg1 adj1 where 1: "add_deps ids (stepId s) (dependsOn s) (indeg, adj) = Inr (indeg1, adj1)"
    "add_edges ids ss (indeg1, adj1) = Inr g" by auto
  then show ?case
    using order_deps_add_deps [OF 1(1) Cons.prems(2)] Cons.IH by simp
qed simp

lemma fold_tput_distinct:
  "distinct (map f ss) \<Longrightarrow> set (tkeys t) \<inter> f ` set ss = {} \<Longrightarrow>
   fold (\<lambda>s. tput (f s) c) ss t = t @ map (\<lambda>s. (f s, c)) ss"
  by (induction ss arbitrary: t) (auto simp: tput_new)

text \<open>
  C10. \<^verbatim>\<open>validateStepGraph\<close> accepts exactly the step lists whose ids are non-empty and distinct,
  whose dependencies are distinct, known and never the step itself, and whose dependency relation
  has no cycle.
\<close>

theorem validateStepGraph_decides:
  "validateStepGraph ss = Inr () \<longleftrightarrow>
     distinct (map stepId ss) \<and>
     (\<forall>s \<in> set ss. stepId s \<noteq> [] \<and> stepId s \<notin> set (dependsOn s) \<and> distinct (dependsOn s)
        \<and> set (dependsOn s) \<subseteq> stepId ` set ss) \<and>
     acyclic {(d, i). \<exists>s \<in> set ss. stepId s = i \<and> d \<in> set (dependsOn s)}"
  using validateStepGraph_iff [of ss] by (simp add: step_graph_ok_def step_rel_def)

text \<open>
  C9. On a validated graph \<^verbatim>\<open>executionOrder\<close> returns every step id exactly once, and each
  step only after all of its dependencies.
\<close>

theorem executionOrder_topological:
  assumes "validateStepGraph ss = Inr ()"
  shows "\<exists>ord. executionOrder ss = Inr ord \<and> mset ord = mset (map stepId ss) \<and>
    (\<forall>s \<in> set ss. set (dependsOn s) \<subseteq> set (takeWhile (\<lambda>i. i \<noteq> stepId s) ord))"
proof -
  have ok: "step_graph_ok ss" and ac: "acyclic (step_rel ss)"
    using assms validateStepGraph_iff by auto
  then have dist: "distinct (map stepId ss)" by (simp add: step_graph_ok_def)
  define names where "names = map stepId ss"
  let ?g = "(map (\<lambda>i. (i, 0)) names, map (\<lambda>i. (i, [])) names)"
  obtain indeg adj where g: "add_edges names ss ?g = Inr (indeg, adj)"
    using add_edges_Inr [of names ss ?g] ok by (auto simp: step_graph_ok_def names_def)
  have start: "start_tables ss indeg adj (map fst (filter (\<lambda>e. snd e = 0) indeg))"
    by (rule add_edges_start [OF ok g names_def])
  let ?ready = "map stepId (filter (\<lambda>s. degree indeg (stepId s) = 0) ss)"
  let ?ord = "kahn adj indeg ?ready"
  have "start_tables ss indeg adj ?ready"
    using start dist by (auto simp: start_tables_def distinct_map_filter)
  note k = start_tables_kahn [OF ok this]
  have "order_edges ss ?g = Inr (indeg, adj)"
    by (rule order_edges_add_edges [OF g]) (auto simp: tget_const)
  then have ex: "executionOrder ss = Inr ?ord"
    using dist by (simp add: executionOrder_def fold_tput_distinct names_def o_def)
  have d: "distinct ?ord" "set ?ord = set (map stepId ss)"
    using k ac dist by (auto simp: kahn_post_def)
      (metis (no_types, lifting) card_subset_eq distinct_card length_map list.set_map List.finite_set image_eqI)
  then have "mset ?ord = mset (map stepId ss)"
    using dist by (metis set_eq_iff_mset_eq_distinct)
  moreover have "set (dependsOn s) \<subseteq> set (takeWhile (\<lambda>i. i \<noteq> stepId s) ?ord)" if "s \<in> set ss" for s
    using in_order_before [of "\<lambda>i. set (deps_of ss i)" "{}" ?ord "stepId s"] k(1) d that deps_of_step [OF dist that]
    by (auto simp: kahn_post_def)
  ultimately show ?thesis using ex by blast
qed

text \<open>A small definition on which the properties below are evaluated.\<close>

definition sample_execution :: step_execution_spec where
  "sample_execution = \<lparr>engine = ''script'', model = ''m'', prompt = ''go'', engineOptions = Undefined,
      maxSteps = Null, maxTokens = Null, maxDurationMs = Null, allowedTools = Undefined\<rparr>"

definition sample_steps :: "automation_step list" where
  "sample_steps =
     [\<lparr>stepId = ''b'', execution = sample_execution, inputMappings = [], outputMappings = [], dependsOn = [''a'']\<rparr>,
      \<lparr>stepId = ''a'', execution = sample_execution, inputMappings = [], outputMappings = [], dependsOn = []\<rparr>]"

definition sample_definition :: automation_definition where
  "sample_definition =
     \<lparr>steps = sample_steps, artifacts = [],
      approval = \<lparr>ap_required = False, ap_gateId = [], ap_minApproverRole = ''viewer'', ap_expiresAfterMs = Null, ap_contextArtifacts = []\<rparr>,
      delivery = \<lparr>ds_destination = ''out'', ds_artifactIds = []\<rparr>\<rparr>"

lemma sample_steps_valid: "validateStepGraph sample_steps = Inr ()"
  by (simp add: sample_steps_def validateStepGraph_def check_def)

lemma sample_definition_valid: "validateDefinition sample_definition [] = Inr ()"
  by (simp add: validateDefinition_def sample_definition_def sample_steps_valid check_def)
    (simp add: sample_steps_def sample_execution_def check_def)

theorem validateStepGraph_decides_witness:
  "acyclic {(d, i). \<exists>s \<in> set sample_steps. stepId s = i \<and> d \<in> set (dependsOn s)}"
  using validateStepGraph_decides [of sample_steps] sample_steps_valid by blast

theorem executionOrder_topological_witness:
  "executionOrder sample_steps = Inr [''a'', ''b''] \<and>
   (\<exists>ord. executionOrder sample_steps = Inr ord \<and> mset ord = mset (map stepId sample_steps))"
  using executionOrder_topological [OF sample_steps_valid]
  by (auto simp: executionOrder_def sample_steps_def)

section \<open>What validation accepts\<close>

lemma check_input_mappings_Inr:
  "check_input_mappings c sid ps ms = Inr () \<longleftrightarrow>
     distinct (map placeholder ms) \<and> set ps \<inter> placeholder ` set ms = {} \<and>
     (\<forall>m \<in> set ms. im_fieldId m \<noteq> [] \<and> placeholder m \<noteq> [] \<and> im_fieldId m \<in> fieldId ` set c)"
  by (induction c sid ps ms rule: check_input_mappings.induct) (auto simp: list_ex_iff intro: rev_image_eqI)

lemma check_output_mappings_Inr:
  "check_output_mappings sid ks ms = Inr () \<longleftrightarrow>
     distinct (map om_key ms) \<and> set ks \<inter> om_key ` set ms = {} \<and>
     (\<forall>m \<in> set ms. om_key m \<noteq> [] \<and> om_path m \<noteq> [])"
  by (induction sid ks ms rule: check_output_mappings.induct) auto

definition step_ok :: "input_contract \<Rightarrow> automation_step \<Rightarrow> bool" where
  "step_ok c s \<longleftrightarrow> stepId s \<noteq> [] \<and> engine (execution s) \<noteq> [] \<and> model (execution s) \<noteq> [] \<and> prompt (execution s) \<noteq> []
     \<and> distinct (map placeholder (inputMappings s)) \<and> distinct (map om_key (outputMappings s))
     \<and> (\<forall>m \<in> set (inputMappings s). im_fieldId m \<noteq> [] \<and> placeholder m \<noteq> [] \<and> im_fieldId m \<in> fieldId ` set c)
     \<and> (\<forall>m \<in> set (outputMappings s). om_key m \<noteq> [] \<and> om_path m \<noteq> [])"

lemma check_steps_Inr:
  "check_steps c ids ss = Inr r \<longleftrightarrow>
     r = ids @ map stepId ss \<and> set ids \<inter> stepId ` set ss = {} \<and> distinct (map stepId ss) \<and> (\<forall>s \<in> set ss. step_ok c s)"
  by (induction c ids ss rule: check_steps.induct)
    (auto simp: check_input_mappings_Inr check_output_mappings_Inr step_ok_def)

lemma check_artifacts_Inr:
  "check_artifacts ids arts as = Inr r \<longleftrightarrow>
     r = arts @ map as_artifactId as \<and> set arts \<inter> as_artifactId ` set as = {} \<and> distinct (map as_artifactId as) \<and>
     (\<forall>a \<in> set as. as_artifactId a \<noteq> [] \<and> as_stepId a \<in> set ids)"
  by (induction ids arts as rule: check_artifacts.induct) auto

text \<open>
  \<^verbatim>\<open>validateDefinition\<close> accepts exactly the definitions with at least one step, well-formed
  steps and mappings, an acyclic step graph over known steps, artifacts that name known steps, an
  approval context and a delivery that name known artifacts, and a gate id exactly when approval is
  required.
\<close>

theorem validateDefinition_decides:
  "validateDefinition d c = Inr () \<longleftrightarrow>
     steps d \<noteq> [] \<and> (\<forall>s \<in> set (steps d). step_ok c s) \<and> validateStepGraph (steps d) = Inr () \<and>
     distinct (map as_artifactId (artifacts d)) \<and>
     (\<forall>a \<in> set (artifacts d). as_artifactId a \<noteq> [] \<and> as_stepId a \<in> stepId ` set (steps d)) \<and>
     set (ap_contextArtifacts (approval d)) \<union> set (ds_artifactIds (delivery d)) \<subseteq> as_artifactId ` set (artifacts d) \<and>
     (ap_required (approval d) \<longleftrightarrow> ap_gateId (approval d) \<noteq> [])"
proof -
  have "distinct (map stepId (steps d))" if "validateStepGraph (steps d) = Inr ()"
    using that validateStepGraph_iff step_graph_ok_def by blast
  then show ?thesis
    by (auto simp: validateDefinition_def check_steps_Inr check_artifacts_Inr)
qed

theorem validateDefinition_decides_witness:
  "distinct (map as_artifactId (artifacts sample_definition)) \<and> steps sample_definition \<noteq> []"
  using validateDefinition_decides [of sample_definition "[]"] sample_definition_valid by blast

section \<open>Checksums\<close>

definition options_wf :: "automation_definition \<Rightarrow> bool" where
  "options_wf d \<longleftrightarrow> (\<forall>s \<in> set (steps d). \<forall>v. engineOptions (execution s) = Value v \<longrightarrow> json_wf v)"

lemma execution_json_clone:
  "(\<forall>v. engineOptions (execution s) = Value v \<longrightarrow> json_wf v) \<Longrightarrow>
   stableString h (execution_json (execution (clone_step s))) = stableString h (execution_json (execution s))"
  unfolding execution_json_def
  by (rule stableString_obj_cong)
    (auto simp: clone_step_def stableString_clone split: optional.splits)

lemma step_json_clone:
  assumes "\<forall>v. engineOptions (execution s) = Value v \<longrightarrow> json_wf v"
  shows "stableString h (step_json (clone_step s)) = stableString h (step_json s)"
proof -
  have same: "stepId (clone_step s) = stepId s" "inputMappings (clone_step s) = inputMappings s"
    "outputMappings (clone_step s) = outputMappings s" "dependsOn (clone_step s) = dependsOn s"
    by (simp_all add: clone_step_def)
  show ?thesis
    unfolding step_json_def same
    by (rule stableString_obj_cong) (use execution_json_clone [OF assms] in \<open>simp add: execution_json_def\<close>)
qed

lemma definition_json_clone:
  assumes "options_wf d"
  shows "stableString h (definition_json (clone_definition d)) = stableString h (definition_json d)"
proof -
  have "map (stableString h) (map step_json (map clone_step (steps d))) = map (stableString h) (map step_json (steps d))"
    using assms step_json_clone by (auto simp: options_wf_def)
  then have "stableString h (JArr (map step_json (map clone_step (steps d)))) = stableString h (JArr (map step_json (steps d)))"
    by (simp only: stableString.simps)
  then show ?thesis
    unfolding definition_json_def clone_definition_def by (intro stableString_obj_cong) simp
qed

lemma definitionChecksum_clone:
  assumes "options_wf d"
  shows "definitionChecksum h (clone_definition d) c = definitionChecksum h d c"
  using definition_json_clone [OF assms, of h]
  unfolding definitionChecksum_def
  by (intro arg_cong [where f = "sha256 h"] stableString_obj_cong)
    (simp add: definition_json_def input_contract_json_def del: stableString.simps)

lemma buildVersion_Inr:
  "buildVersion h i now a = Inr v \<longleftrightarrow>
     validateDefinition (va_definition a) (va_inputContract a) = Inr () \<and>
     v = \<lparr>tenantId = tenantId a, orgId = orgId a, projectId = projectId a, versionId = i,
          v_templateId = va_templateId a, v_version = va_version a, v_definition = va_definition a,
          inputContract = va_inputContract a,
          v_checksum = definitionChecksum h (va_definition a) (va_inputContract a),
          v_createdAt = now, v_createdBy = va_createdBy a\<rparr>"
  by (auto simp: buildVersion_def)




end
