(* ===== verification/Inputs.thy ===== *)
theory Inputs
  imports Versions
begin

text \<open>
  Typed input contracts and input revisions (\<^verbatim>\<open>vaulltcore-automation/src/input.ts\<close>): validation
  of submitted values, their collection into an object, and the checksummed revision frozen with a
  run.
\<close>

section \<open>Validation\<close>

abbreviation bad_input :: "input_problem \<Rightarrow> automation_error" where
  "bad_input p \<equiv> AutomationError (INVALID_INPUT p) 400"

definition below :: "rat \<Rightarrow> rat optional \<Rightarrow> bool" where
  "below x b = (case b of Value m \<Rightarrow> x < m | _ \<Rightarrow> False)"

definition above :: "rat \<Rightarrow> rat optional \<Rightarrow> bool" where
  "above x b = (case b of Value m \<Rightarrow> x > m | _ \<Rightarrow> False)"

definition validateFieldValue :: "input_field \<Rightarrow> json \<Rightarrow> automation_error + unit" where
  "validateFieldValue f v =
     (let i = fieldId f in
      if if_type f = ''string'' then
        (case v of
           JStr s \<Rightarrow>
             check (below (of_nat (length s)) (min_bound f)) (bad_input (TooShort i))
             (check (above (of_nat (length s)) (max_bound f)) (bad_input (TooLong i))
             (check (case enum_values f of Value es \<Rightarrow> s \<notin> set es | _ \<Rightarrow> False) (bad_input (NotInEnum i))
             (Inr ())))
         | _ \<Rightarrow> Inl (bad_input (NotString i)))
      else if if_type f = ''number'' then
        (case v of
           JNum (Finite x) \<Rightarrow>
             check (below x (min_bound f)) (bad_input (TooSmall i))
             (check (above x (max_bound f)) (bad_input (TooLarge i))
             (Inr ()))
         | _ \<Rightarrow> Inl (bad_input (NotFiniteNumber i)))
      else if if_type f = ''boolean'' then
        (case v of JBool b \<Rightarrow> Inr () | _ \<Rightarrow> Inl (bad_input (NotBoolean i)))
      else if if_type f = ''json'' then
        (case v of JArr vs \<Rightarrow> Inr () | JObj es \<Rightarrow> Inr () | _ \<Rightarrow> Inl (bad_input (NotObject i)))
      else if if_type f = ''artifact_ref'' then
        (case v of JStr s \<Rightarrow> check (s = []) (bad_input (NotArtifactRef i)) (Inr ())
         | _ \<Rightarrow> Inl (bad_input (NotArtifactRef i)))
      else Inl (bad_input (UnknownType i (if_type f))))"

definition validateInput :: "input_contract \<Rightarrow> (string \<times> json) list \<Rightarrow> automation_error + unit" where
  "validateInput c vals =
     seq_res (check_all (\<lambda>k. check (k \<notin> fieldId ` set c) (bad_input (UnknownField k)) (Inr ())) (map fst vals)) (\<lambda>_.
     check_all (\<lambda>f.
       (case map_of vals (fieldId f) of
          None \<Rightarrow> check (required f) (bad_input (MissingField (fieldId f))) (Inr ())
        | Some v \<Rightarrow> validateFieldValue f v)) c)"

section \<open>Objects\<close>

text \<open>
  Assignment \<^verbatim>\<open>out[k] = v\<close> on a plain object. A property that exists is replaced in place; a
  new one goes to the end, except that array-index names are enumerated first, in numeric order.
  \<^verbatim>\<open>__proto__\<close> names the prototype, not an own property.
\<close>

definition is_index :: "string \<Rightarrow> bool" where
  "is_index k \<longleftrightarrow> k = ''0'' \<or>
     (k \<noteq> [] \<and> list_all is_digit k \<and> hd k \<noteq> CHR ''0'' \<and> decimal_value k < 2 ^ 32 - 1)"

definition index_before :: "string \<Rightarrow> string \<times> json \<Rightarrow> bool" where
  "index_before k e \<longleftrightarrow> is_index (fst e) \<and> decimal_value (fst e) < decimal_value k"

definition obj_put :: "string \<Rightarrow> json \<Rightarrow> (string \<times> json) list \<Rightarrow> (string \<times> json) list" where
  "obj_put k v es =
     (if k = ''__proto__'' then es
      else if k \<in> set (map fst es) then tput k v es
      else if is_index k then takeWhile (index_before k) es @ (k, v) # dropWhile (index_before k) es
      else es @ [(k, v)])"

fun collect_values :: "(string \<times> json) list \<Rightarrow> input_value list \<Rightarrow> automation_error + (string \<times> json) list" where
  "collect_values out [] = Inr out"
| "collect_values out (v # vs) =
     check (iv_fieldId v \<in> set (map fst out)) (bad_input (DuplicateField (iv_fieldId v)))
     (collect_values (obj_put (iv_fieldId v) (iv_value v) out) vs)"

definition valuesToMap :: "input_value list \<Rightarrow> automation_error + (string \<times> json) list" where
  "valuesToMap vs = collect_values [] vs"

section \<open>Revisions\<close>

definition entries :: "json \<Rightarrow> (string \<times> json) list" where
  "entries v = (case v of JObj es \<Rightarrow> es | _ \<Rightarrow> [])"

definition buildInputRevision :: "host \<Rightarrow> string \<Rightarrow> int \<Rightarrow> string \<Rightarrow> (string \<times> json) list \<Rightarrow> run_input_revision" where
  "buildInputRevision h newId now rid vals =
     \<lparr>inputRevisionId = newId, rev_runId = rid,
      rev_checksum = sha256 h (stableString h (JObj vals)),
      rev_values = entries (json_clone (JObj vals)), rev_createdAt = now\<rparr>"

definition verifyInputRevision :: "host \<Rightarrow> run_input_revision \<Rightarrow> automation_error + unit" where
  "verifyInputRevision h r =
     (if sha256 h (stableString h (JObj (rev_values r))) \<noteq> rev_checksum r
      then Inl (AutomationError (INPUT_CHECKSUM_MISMATCH (inputRevisionId r)) 400) else Inr ())"

section \<open>Facts\<close>

lemma map_of_insert_new:
  "k \<notin> set (map fst (es @ fs)) \<Longrightarrow> map_of (es @ (k, v) # fs) = (map_of (es @ fs))(k \<mapsto> v)"
  by (auto simp: fun_eq_iff map_of_append map_add_def split: option.splits dest!: tget_Some_key)

lemma map_of_obj_put: "k \<noteq> ''__proto__'' \<Longrightarrow> map_of (obj_put k v es) = (map_of es)(k \<mapsto> v)"
  using map_of_insert_new [of k "takeWhile (index_before k) es" "dropWhile (index_before k) es" v]
    map_of_insert_new [of k es "[]" v]
  by (auto simp: obj_put_def)

lemma keys_obj_put:
  "k \<noteq> ''__proto__'' \<Longrightarrow> k \<notin> set (map fst es) \<Longrightarrow>
   mset (map fst (obj_put k v es)) = add_mset k (mset (map fst es))"
  by (simp add: obj_put_def) (metis mset_append mset_map takeWhile_dropWhile_id image_mset_union union_mset_add_mset_right)

lemma collect_values_spec:
  assumes "''__proto__'' \<notin> iv_fieldId ` set vs"
  shows "case collect_values out vs of
      Inr m \<Rightarrow> distinct (map iv_fieldId vs) \<and> set (map fst out) \<inter> iv_fieldId ` set vs = {}
        \<and> map_of m = map_of out ++ map_of (map (\<lambda>v. (iv_fieldId v, iv_value v)) vs)
        \<and> mset (map fst m) = mset (map fst out) + mset (map iv_fieldId vs)
    | Inl e \<Rightarrow> \<not> (distinct (map iv_fieldId vs) \<and> set (map fst out) \<inter> iv_fieldId ` set vs = {})"
  using assms
proof (induction out vs rule: collect_values.induct)
  case (2 out v vs)
  show ?case
  proof (cases "iv_fieldId v \<in> set (map fst out)")
    case False
    let ?out = "obj_put (iv_fieldId v) (iv_value v) out"
    have keys: "mset (map fst ?out) = add_mset (iv_fieldId v) (mset (map fst out))"
      using False "2.prems" by (intro keys_obj_put) auto
    then have set_keys: "set (map fst ?out) = insert (iv_fieldId v) (set (map fst out))"
      by (metis set_mset_mset set_mset_add_mset_insert)
    have m: "map_of ?out = (map_of out)(iv_fieldId v \<mapsto> iv_value v)"
      using "2.prems" by (intro map_of_obj_put) auto
    have ih: "case collect_values ?out vs of
        Inr m \<Rightarrow> distinct (map iv_fieldId vs) \<and> set (map fst ?out) \<inter> iv_fieldId ` set vs = {}
          \<and> map_of m = map_of ?out ++ map_of (map (\<lambda>v. (iv_fieldId v, iv_value v)) vs)
          \<and> mset (map fst m) = mset (map fst ?out) + mset (map iv_fieldId vs)
      | Inl e \<Rightarrow> \<not> (distinct (map iv_fieldId vs) \<and> set (map fst ?out) \<inter> iv_fieldId ` set vs = {})"
      using False "2.prems" by (intro "2.IH") auto
    show ?thesis
    proof (cases "collect_values ?out vs")
      case (Inl e)
      then show ?thesis using ih False set_keys by (auto simp: check_def)
    next
      case (Inr r)
      then have r: "distinct (map iv_fieldId vs)" "set (map fst ?out) \<inter> iv_fieldId ` set vs = {}"
        "map_of r = map_of ?out ++ map_of (map (\<lambda>v. (iv_fieldId v, iv_value v)) vs)"
        "mset (map fst r) = mset (map fst ?out) + mset (map iv_fieldId vs)"
        using ih by simp_all
      have "iv_fieldId v \<notin> dom (map_of (map (\<lambda>v. (iv_fieldId v, iv_value v)) vs))"
        using r(2) set_keys by (auto simp: dom_map_of_conv_image_fst)
      then have "map_of r = map_of out ++ map_of (map (\<lambda>v. (iv_fieldId v, iv_value v)) (v # vs))"
        using r(3) m by (simp add: map_add_upd_left)
      then show ?thesis
        using Inr False r(1,2,4) keys set_keys by (auto simp: check_def)
    qed
  qed (simp add: check_def)
qed simp

text \<open>What a field accepts.\<close>

definition in_bounds :: "input_field \<Rightarrow> rat \<Rightarrow> bool" where
  "in_bounds f x \<longleftrightarrow> (\<forall>m. min_bound f = Value m \<longrightarrow> m \<le> x) \<and> (\<forall>m. max_bound f = Value m \<longrightarrow> x \<le> m)"

inductive accepts :: "input_field \<Rightarrow> json \<Rightarrow> bool" where
  accepts_string: "if_type f = ''string'' \<Longrightarrow> in_bounds f (of_nat (length s)) \<Longrightarrow>
     (\<And>es. enum_values f = Value es \<Longrightarrow> s \<in> set es) \<Longrightarrow> accepts f (JStr s)"
| accepts_number: "if_type f = ''number'' \<Longrightarrow> in_bounds f x \<Longrightarrow> accepts f (JNum (Finite x))"
| accepts_boolean: "if_type f = ''boolean'' \<Longrightarrow> accepts f (JBool b)"
| accepts_array: "if_type f = ''json'' \<Longrightarrow> accepts f (JArr vs)"
| accepts_object: "if_type f = ''json'' \<Longrightarrow> accepts f (JObj es)"
| accepts_artifact: "if_type f = ''artifact_ref'' \<Longrightarrow> s \<noteq> [] \<Longrightarrow> accepts f (JStr s)"

inductive_simps accepts_iffs [simp]:
  "accepts f JUndefined" "accepts f JNull" "accepts f (JBool b)" "accepts f (JNum n)" "accepts f (JStr s)"
  "accepts f (JArr vs)" "accepts f (JObj es)"

lemma below_above: "\<not> below x (min_bound f) \<and> \<not> above x (max_bound f) \<longleftrightarrow> in_bounds f x"
  by (auto simp: below_def above_def in_bounds_def split: optional.splits)

lemma validateFieldValue_Inr: "validateFieldValue f v = Inr () \<longleftrightarrow> accepts f v"
proof (cases v)
  case (JNum n)
  then show ?thesis by (cases n) (auto simp: validateFieldValue_def Let_def below_above [symmetric])
next
  case (JStr s)
  then show ?thesis
    by (auto simp: validateFieldValue_def Let_def below_above [symmetric] split: optional.splits)
qed (auto simp: validateFieldValue_def Let_def)

lemma validateInput_Inr:
  "validateInput c vals = Inr () \<longleftrightarrow>
     set (map fst vals) \<subseteq> fieldId ` set c \<and>
     (\<forall>f \<in> set c. case map_of vals (fieldId f) of None \<Rightarrow> \<not> required f | Some v \<Rightarrow> accepts f v)"
  by (auto simp: validateInput_def validateFieldValue_Inr split: option.splits)

lemma accepts_clone: "accepts f v \<Longrightarrow> v \<noteq> JUndefined \<and> accepts f (json_clone v)"
  by (cases v) (auto split: js_number.splits)

lemma accepted_values:
  assumes "validateInput c vals = Inr ()" "(k, v) \<in> set vals" "distinct (map fst vals)"
  shows "\<exists>f \<in> set c. fieldId f = k \<and> accepts f v"
proof -
  obtain f where f: "f \<in> set c" "fieldId f = k"
    using assms by (force simp: validateInput_Inr)
  moreover have "map_of vals k = Some v"
    using assms by (simp add: tget_Some_iff)
  ultimately show ?thesis
    using assms by (fastforce simp: validateInput_Inr)
qed

lemma map_of_clone: "map_of (map (\<lambda>(k, v). (k, json_clone v)) es) = map_option json_clone \<circ> map_of es"
  by (induction es) (auto simp: fun_eq_iff)

lemma validateInput_clone:
  assumes "validateInput c vals = Inr ()" "distinct (map fst vals)"
  shows "validateInput c (entries (json_clone (JObj vals))) = Inr ()"
proof -
  have "filter (\<lambda>(k, v). v \<noteq> JUndefined) vals = vals"
    using accepted_values [OF assms(1) _ assms(2)] accepts_clone by (fastforce simp: filter_id_conv)
  then have e: "entries (json_clone (JObj vals)) = map (\<lambda>(k, v). (k, json_clone v)) vals"
    by (simp add: entries_def)
  have "map fst (map (\<lambda>(k, v). (k, json_clone v)) vals) = map fst vals"
    by (simp add: case_prod_beta)
  then show ?thesis
    using assms accepts_clone unfolding e validateInput_Inr
    by (auto simp: map_of_clone split: option.splits)
qed

lemma verifyInputRevision_build:
  assumes "json_wf (JObj vals)"
  shows "verifyInputRevision h (buildInputRevision h i now rid vals) = Inr ()"
proof -
  have "JObj (entries (json_clone (JObj vals))) = json_clone (JObj vals)"
    by (simp add: entries_def)
  then show ?thesis
    using stableString_clone [OF assms, of h] by (simp add: verifyInputRevision_def buildInputRevision_def del: stableString.simps json_clone.simps)
qed

text \<open>
  C12. \<^verbatim>\<open>validateInput\<close> accepts exactly the objects whose keys are declared fields, that hold
  every required field, and whose every present field has an accepted value: the declared type,
  within its bounds, a member of its enumeration.
\<close>

theorem validateInput_decides:
  "validateInput c vals = Inr () \<longleftrightarrow>
     set (map fst vals) \<subseteq> fieldId ` set c \<and>
     (\<forall>f \<in> set c. (required f \<longrightarrow> fieldId f \<in> dom (map_of vals)) \<and>
        (\<forall>v. map_of vals (fieldId f) = Some v \<longrightarrow> accepts f v))"
  by (auto simp: validateInput_Inr split: option.splits)

theorem validateInput_decides_witness:
  "validateInput [\<lparr>fieldId = ''n'', if_type = ''number'', required = True, if_description = None,
       min_bound = Value 1, max_bound = Null, enum_values = Undefined\<rparr>] [(''n'', JNum (Finite (5 / 2)))] = Inr ()"
proof -
  have "accepts \<lparr>fieldId = ''n'', if_type = ''number'', required = True, if_description = None,
       min_bound = Value 1, max_bound = Null, enum_values = Undefined\<rparr> (JNum (Finite (5 / 2)))"
    by (rule accepts_number) (simp_all add: in_bounds_def)
  then show ?thesis by (subst validateInput_decides) auto
qed

text \<open>
  \<^verbatim>\<open>valuesToMap\<close> succeeds exactly on lists without a repeated field and then maps each
  field to its submitted value, whatever the enumeration order of the object it builds.
\<close>

theorem valuesToMap_correct:
  assumes "''__proto__'' \<notin> iv_fieldId ` set vs"
  shows "case valuesToMap vs of
      Inr m \<Rightarrow> distinct (map iv_fieldId vs) \<and> distinct (map fst m)
        \<and> map_of m = map_of (map (\<lambda>v. (iv_fieldId v, iv_value v)) vs)
    | Inl e \<Rightarrow> \<not> distinct (map iv_fieldId vs)"
proof (cases "valuesToMap vs")
  case (Inl e)
  then show ?thesis using collect_values_spec [OF assms, of "[]"] by (simp add: valuesToMap_def)
next
  case (Inr m)
  then have m: "distinct (map iv_fieldId vs)" "mset (map fst m) = mset (map iv_fieldId vs)"
    "map_of m = map_of (map (\<lambda>v. (iv_fieldId v, iv_value v)) vs)"
    using collect_values_spec [OF assms, of "[]"] by (simp_all add: valuesToMap_def)
  have "distinct (map fst m)"
    using m(1) mset_eq_imp_distinct_iff [OF m(2)] by simp
  then show ?thesis using Inr m by simp
qed

theorem valuesToMap_correct_witness:
  "valuesToMap [\<lparr>iv_fieldId = ''b'', iv_value = JNull\<rparr>, \<lparr>iv_fieldId = ''7'', iv_value = JBool True\<rparr>]
     = Inr [(''7'', JBool True), (''b'', JNull)]
   \<and> distinct [''b'', ''7'']"
proof -
  have "valuesToMap [\<lparr>iv_fieldId = ''b'', iv_value = JNull\<rparr>, \<lparr>iv_fieldId = ''7'', iv_value = JBool True\<rparr>]
     = Inr [(''7'', JBool True), (''b'', JNull)]"
    by (simp add: valuesToMap_def check_def obj_put_def is_index_def is_digit_def decimal_value_def
        digit_value_def index_before_def)
  then show ?thesis
    using valuesToMap_correct [of "[\<lparr>iv_fieldId = ''b'', iv_value = JNull\<rparr>, \<lparr>iv_fieldId = ''7'', iv_value = JBool True\<rparr>]"]
    by simp
qed

text \<open>
  The input frozen with a run: a revision built from accepted values verifies against its own
  checksum, and the values it stores still satisfy the contract they were accepted under.
\<close>

theorem frozen_input_verifies:
  assumes "validateInput c vals = Inr ()" and "json_wf (JObj vals)"
  shows "verifyInputRevision h (buildInputRevision h i now rid vals) = Inr ()
    \<and> validateInput c (rev_values (buildInputRevision h i now rid vals)) = Inr ()"
  using verifyInputRevision_build [OF assms(2)] validateInput_clone [OF assms(1)] assms(2)
  by (simp add: buildInputRevision_def del: json_clone.simps)

theorem frozen_input_verifies_witness:
  "verifyInputRevision \<lparr>sha256 = id, num_str = (\<lambda>_. ''1'')\<rparr>
     (buildInputRevision \<lparr>sha256 = id, num_str = (\<lambda>_. ''1'')\<rparr> ''i'' 2 ''r'' [(''f'', JArr [JBool True])]) = Inr ()"
proof -
  have "validateInput [\<lparr>fieldId = ''f'', if_type = ''json'', required = True, if_description = None,
       min_bound = Undefined, max_bound = Undefined, enum_values = Undefined\<rparr>] [(''f'', JArr [JBool True])] = Inr ()"
    by (simp add: validateInput_Inr)
  from frozen_input_verifies [OF this] show ?thesis by simp
qed

text \<open>
  The hypothesis on \<^verbatim>\<open>undefined\<close> is needed: the canonical text of an array element that is
  \<^verbatim>\<open>undefined\<close> is empty, while the stored copy holds \<^verbatim>\<open>null\<close>.
\<close>

lemma undefined_element_breaks_checksum:
  "verifyInputRevision \<lparr>sha256 = id, num_str = (\<lambda>_. ''1'')\<rparr>
     (buildInputRevision \<lparr>sha256 = id, num_str = (\<lambda>_. ''1'')\<rparr> ''i'' 2 ''r'' [(''f'', JArr [JUndefined])])
   = Inl (AutomationError (INPUT_CHECKSUM_MISMATCH ''i'') 400)"
  by (simp add: verifyInputRevision_def buildInputRevision_def entries_def)

end
