(* ===== verification/Projection.thy ===== *)
theory Projection
  imports Contracts
begin

text \<open>
  The projection of runner events into product events
  (\<^verbatim>\<open>vaulltcore-automation/src/projection.ts\<close>).
\<close>

section \<open>Operations\<close>

text \<open>Property access on event data; the data of every runner event is an object.\<close>

definition field :: "json \<Rightarrow> string \<Rightarrow> json" where
  "field v k = (case v of JObj es \<Rightarrow> (case map_of es k of None \<Rightarrow> JUndefined | Some w \<Rightarrow> w) | _ \<Rightarrow> JUndefined)"

text \<open>\<open>clk\<close> gives the clock reading of the event with the given sequence number.\<close>

record projection_args =
  pa_runId :: string
  pa_stepId :: string
  pa_jobId :: string
  pa_clk :: "nat \<Rightarrow> int"

definition step_data :: "projection_args \<Rightarrow> (string \<times> json) list \<Rightarrow> json" where
  "step_data a es = JObj ([(''stepId'', JStr (pa_stepId a)), (''jobId'', JStr (pa_jobId a))] @ es)"

definition step_event :: "projection_args \<Rightarrow> nat \<Rightarrow> automation_event_type \<Rightarrow> (string \<times> json) list \<Rightarrow> automation_event" where
  "step_event a seq typ es =
     \<lparr>ev_runId = pa_runId a, ev_seq = seq, ev_timestamp = pa_clk a seq, ev_type = typ, ev_data = step_data a es\<rparr>"

definition is_assistant_message :: "job_event \<Rightarrow> bool" where
  "is_assistant_message e \<longleftrightarrow> je_type e = EvMessage \<and> field (je_data e) ''role'' = JStr ''assistant''"

text \<open>\<^verbatim>\<open>x ?? ""\<close>.\<close>

definition text_or_empty :: "json \<Rightarrow> json" where
  "text_or_empty v = (if v = JUndefined \<or> v = JNull then JStr [] else v)"

fun project_loop :: "projection_args \<Rightarrow> bool \<Rightarrow> nat \<Rightarrow> job_event list \<Rightarrow> automation_event list \<times> nat" where
  "project_loop a started seq [] = ([], seq)"
| "project_loop a started seq (e # es) =
     (if je_type e = EvStarted \<and> \<not> started then
        let (out, n) = project_loop a True (seq + 1) es
        in (step_event a seq StepStarted [(''attempt'', field (je_data e) ''attempt'')] # out, n)
      else if is_assistant_message e then
        let (out, n) = project_loop a started (seq + 1) es
        in (step_event a seq StepProgress [(''text'', text_or_empty (field (je_data e) ''text''))] # out, n)
      else if je_type e = EvCompleted then
        let (out, n) = project_loop a started (seq + 1) es
        in (step_event a seq StepCompleted [(''usage'', field (je_data e) ''usage'')] # out, n)
      else project_loop a started seq es)"

definition projectStepEvents :: "projection_args \<Rightarrow> nat \<Rightarrow> job_event list \<Rightarrow> automation_event list \<times> nat" where
  "projectStepEvents a startSeq evs = project_loop a False startSeq evs"

fun stepStatusFromJobStatus :: "job_status \<Rightarrow> step_status" where
  "stepStatusFromJobStatus JQueued = SPending"
| "stepStatusFromJobStatus JLeased = SPending"
| "stepStatusFromJobStatus JPreparing = SPending"
| "stepStatusFromJobStatus JRunning = SRunning"
| "stepStatusFromJobStatus JCheckpointing = SRunning"
| "stepStatusFromJobStatus JSuspended = SRunning"
| "stepStatusFromJobStatus JResuming = SRunning"
| "stepStatusFromJobStatus JCompleted = SCompleted"
| "stepStatusFromJobStatus JFailed = SFailed"
| "stepStatusFromJobStatus JCancelled = SFailed"

definition automationEvent :: "string \<Rightarrow> nat \<Rightarrow> automation_event_type \<Rightarrow> json \<Rightarrow> int \<Rightarrow> automation_event" where
  "automationEvent rid seq typ dat now =
     \<lparr>ev_runId = rid, ev_seq = seq, ev_timestamp = now, ev_type = typ, ev_data = dat\<rparr>"

section \<open>Facts\<close>

lemma project_loop_seqs:
  "project_loop a st seq es = (out, n) \<Longrightarrow> map ev_seq out = [seq ..< n] \<and> seq \<le> n"
proof (induction a st seq es arbitrary: out n rule: project_loop.induct)
  case (2 a started seq e es)
  then show ?case
    by (fastforce simp: step_event_def upt_conv_Cons split: if_splits prod.splits)
qed simp

lemma project_loop_started:
  "project_loop a st seq es = (out, n) \<Longrightarrow>
   length (filter (\<lambda>e. ev_type e = StepStarted) out) = (if \<not> st \<and> (\<exists>e \<in> set es. je_type e = EvStarted) then 1 else 0)"
proof (induction a st seq es arbitrary: out n rule: project_loop.induct)
  case (2 a started seq e es)
  then show ?case
    by (fastforce simp: step_event_def is_assistant_message_def split: if_splits prod.splits)
qed simp

lemma project_loop_run:
  "project_loop a st seq es = (out, n) \<Longrightarrow> e \<in> set out \<Longrightarrow> ev_runId e = pa_runId a"
  by (induction a st seq es arbitrary: out n rule: project_loop.induct)
    (fastforce simp: step_event_def split: if_splits prod.splits)+

lemma stepStatus_iffs:
  "stepStatusFromJobStatus s = SCompleted \<longleftrightarrow> s = JCompleted"
  "stepStatusFromJobStatus s = SFailed \<longleftrightarrow> s = JFailed \<or> s = JCancelled"
  by (cases s; simp)+

section \<open>Properties\<close>

text \<open>
  The projection assigns consecutive sequence numbers from the given start and returns the
  next free one; it reports the start of the step at most once, and every event belongs to the run.
\<close>

theorem projectStepEvents_sequence:
  assumes "projectStepEvents a startSeq evs = (out, nextSeq)"
  shows "map ev_seq out = [startSeq ..< nextSeq] \<and> nextSeq = startSeq + length out
    \<and> length (filter (\<lambda>e. ev_type e = StepStarted) out) \<le> 1
    \<and> (\<forall>e \<in> set out. ev_runId e = pa_runId a)"
proof -
  have s: "map ev_seq out = [startSeq ..< nextSeq]" "startSeq \<le> nextSeq"
    using project_loop_seqs assms by (auto simp: projectStepEvents_def)
  then have "length out = nextSeq - startSeq"
    by (metis length_map length_upt)
  then show ?thesis
    using s project_loop_started [of a False startSeq evs out nextSeq] project_loop_run [of a False startSeq evs out nextSeq] assms
    by (auto simp: projectStepEvents_def)
qed

theorem projectStepEvents_sequence_witness:
  "map ev_seq (fst (projectStepEvents \<lparr>pa_runId = ''r'', pa_stepId = ''s'', pa_jobId = ''j'', pa_clk = int\<rparr> 4
     [\<lparr>je_jobId = ''j'', je_seq = 1, je_timestamp = 0, je_type = EvStarted, je_data = JObj []\<rparr>,
      \<lparr>je_jobId = ''j'', je_seq = 2, je_timestamp = 0, je_type = EvStarted, je_data = JObj []\<rparr>,
      \<lparr>je_jobId = ''j'', je_seq = 3, je_timestamp = 0, je_type = EvCompleted, je_data = JObj []\<rparr>])) = [4, 5]"
  using projectStepEvents_sequence [OF prod.collapse [symmetric], of "\<lparr>pa_runId = ''r'', pa_stepId = ''s'', pa_jobId = ''j'', pa_clk = int\<rparr>" 4
     "[\<lparr>je_jobId = ''j'', je_seq = 1, je_timestamp = 0, je_type = EvStarted, je_data = JObj []\<rparr>,
      \<lparr>je_jobId = ''j'', je_seq = 2, je_timestamp = 0, je_type = EvStarted, je_data = JObj []\<rparr>,
      \<lparr>je_jobId = ''j'', je_seq = 3, je_timestamp = 0, je_type = EvCompleted, je_data = JObj []\<rparr>]"]
  by (simp add: projectStepEvents_def is_assistant_message_def upt_rec)

end
