(* ===== verification/Audit_Log.thy ===== *)
theory Audit_Log
  imports Contracts
begin

text \<open>
  The audit sanitizer (\<^verbatim>\<open>vaulltcore-audit/src/sanitizer.ts\<close>) and the append-only audit log
  (\<^verbatim>\<open>vaulltcore-audit/src/store.ts\<close>, \<^verbatim>\<open>contracts.ts\<close>). The regular expressions of
  the source are written as the string predicates they decide.
\<close>

section \<open>Sanitizer\<close>

definition to_lower :: "char \<Rightarrow> char" where
  "to_lower c = (let n = of_char c :: nat in if 65 \<le> n \<and> n \<le> 90 then char_of (n + 32) else c)"

definition is_upper :: "char \<Rightarrow> bool" where
  "is_upper c \<longleftrightarrow> 65 \<le> (of_char c :: nat) \<and> (of_char c :: nat) \<le> 90"

definition is_lower :: "char \<Rightarrow> bool" where
  "is_lower c \<longleftrightarrow> 97 \<le> (of_char c :: nat) \<and> (of_char c :: nat) \<le> 122"

definition is_num :: "char \<Rightarrow> bool" where
  "is_num c \<longleftrightarrow> 48 \<le> (of_char c :: nat) \<and> (of_char c :: nat) \<le> 57"

definition is_word :: "char \<Rightarrow> bool" where
  "is_word c \<longleftrightarrow> is_upper c \<or> is_lower c \<or> is_num c \<or> c = CHR ''_'' \<or> c = CHR ''-''"

fun contains :: "string \<Rightarrow> string \<Rightarrow> bool" where
  "contains w [] = (w = [])"
| "contains w (c # cs) = (take (length w) (c # cs) = w \<or> contains w cs)"

definition SECRET_KEY_PATTERNS :: "string list" where
  "SECRET_KEY_PATTERNS =
     [''secret'', ''password'', ''passwd'', ''credential'', ''token'', ''apikey'', ''api_key'',
      ''accesstoken'', ''authorization'', ''privatekey'', ''bearer'']"

text \<open>
  Each pattern is \<^verbatim>\<open>/^(.*[_-]?)?w([_-]?.*)?$/i\<close>: the key contains the word, in any case, and
  no line terminator (which \<^verbatim>\<open>.\<close> does not match).
\<close>

definition isSecretKey :: "string \<Rightarrow> bool" where
  "isSecretKey key \<longleftrightarrow>
     list_all (\<lambda>c. c \<noteq> CHR 0x0A \<and> c \<noteq> CHR 0x0D) key \<and>
     list_ex (\<lambda>w. contains w (map to_lower key)) SECRET_KEY_PATTERNS"

text \<open>\<^verbatim>\<open>/^vc_[a-z]+_[A-Za-z0-9_-]{20,}$/i\<close>.\<close>

definition api_key_shape :: "string \<Rightarrow> bool" where
  "api_key_shape s \<longleftrightarrow>
     (let rest = drop 3 s;
          letters = takeWhile (\<lambda>c. is_upper c \<or> is_lower c) rest;
          tail = dropWhile (\<lambda>c. is_upper c \<or> is_lower c) rest
      in map to_lower (take 3 s) = ''vc_'' \<and> letters \<noteq> [] \<and>
         (case tail of [] \<Rightarrow> False | c # body \<Rightarrow> c = CHR ''_'' \<and> 20 \<le> length body \<and> list_all is_word body))"

definition looksLikeSecretValue :: "string \<Rightarrow> bool" where
  "looksLikeSecretValue s =
     (if length s < 16 then False
      else if api_key_shape s then True
      else 32 \<le> length s \<and> list_all is_word s \<and> list_ex is_upper s \<and> list_ex is_lower s \<and> list_ex is_num s)"

definition redacted :: json where
  "redacted = JStr ''[redacted:secret]''"

definition depth_limit :: json where
  "depth_limit = JStr ''[redacted:depth-limit]''"

fun sanitizeValue :: "json \<Rightarrow> nat \<Rightarrow> json" where
  "sanitizeValue (JStr s) d =
     (if d > 16 then depth_limit else if looksLikeSecretValue s then redacted else JStr s)"
| "sanitizeValue (JArr vs) d =
     (if d > 16 then depth_limit else JArr (map (\<lambda>v. sanitizeValue v (d + 1)) vs))"
| "sanitizeValue (JObj es) d =
     (if d > 16 then depth_limit
      else JObj (map (\<lambda>(k, v). (k, if isSecretKey k then redacted else sanitizeValue v (d + 1)))
             (filter (\<lambda>(k, v). k \<noteq> ''__proto__'') es)))"
| "sanitizeValue v d = (if d > 16 then depth_limit else v)"

definition sanitizeMetadata :: "json \<Rightarrow> json" where
  "sanitizeMetadata v = sanitizeValue v 0"

section \<open>Audit log\<close>

record audit_actor =
  aa_principalId :: string
  aa_kind :: string
  aa_tenantId :: string

record audit_event =
  eventId :: string
  actor :: "audit_actor option"
  a_tenantId :: "string option"
  a_orgId :: "string option"
  a_projectId :: "string option"
  a_type :: string
  a_timestamp :: int
  a_metadata :: json

text \<open>\<^verbatim>\<open>SqlAuditStore.append\<close>: one row is inserted, none is ever changed.\<close>

definition audit_append ::
  "string \<Rightarrow> int \<Rightarrow> audit_actor option \<Rightarrow> job_identity option \<Rightarrow> string \<Rightarrow> json \<Rightarrow> audit_event list \<Rightarrow> audit_event list" where
  "audit_append eid now act scope typ meta evs =
     evs @ [\<lparr>eventId = eid, actor = act, a_tenantId = map_option tenantId scope,
             a_orgId = map_option orgId scope, a_projectId = map_option projectId scope,
             a_type = typ, a_timestamp = now, a_metadata = sanitizeMetadata meta\<rparr>]"

section \<open>Properties\<close>

text \<open>No string looks like a secret, and every property with a secret name is redacted.\<close>

fun clean :: "json \<Rightarrow> bool" where
  "clean (JStr s) = (\<not> looksLikeSecretValue s)"
| "clean (JArr vs) = (\<forall>v \<in> set vs. clean v)"
| "clean (JObj es) = (\<forall>e \<in> set es. (isSecretKey (fst e) \<longrightarrow> snd e = redacted) \<and> clean (snd e))"
| "clean _ = True"

fun json_depth :: "json \<Rightarrow> nat" where
  "json_depth (JArr vs) = Suc (Max (insert 0 (set (map json_depth vs))))"
| "json_depth (JObj es) = Suc (Max (insert 0 (set (map (\<lambda>e. json_depth (snd e)) es))))"
| "json_depth _ = 0"

lemma marker_not_secret [simp]:
  "\<not> looksLikeSecretValue ''[redacted:secret]''" "\<not> looksLikeSecretValue ''[redacted:depth-limit]''"
  by (simp_all add: looksLikeSecretValue_def api_key_shape_def is_word_def is_upper_def is_lower_def is_num_def to_lower_def)

lemma clean_markers [simp]: "clean redacted" "clean depth_limit"
  by (simp_all add: redacted_def depth_limit_def)

lemma sanitizeValue_redacted: "sanitizeValue redacted d = (if d > 16 then depth_limit else redacted)"
  by (simp add: redacted_def)

lemma sanitizeValue_clean: "clean (sanitizeValue v d)"
  by (induction v d rule: sanitizeValue.induct) auto

lemma sanitizeValue_depth_limit [simp]: "sanitizeValue depth_limit d = depth_limit"
  by (simp add: depth_limit_def)

lemma sanitizeValue_idem: "sanitizeValue (sanitizeValue v d) d = sanitizeValue v d"
proof (induction v d rule: sanitizeValue.induct)
  case (1 s d)
  then show ?case by (simp add: redacted_def)
next
  case (3 es d)
  let ?es = "filter (\<lambda>(k, v). k \<noteq> ''__proto__'') es"
  let ?f = "\<lambda>(k, v). (k, if isSecretKey k then redacted else sanitizeValue v (d + 1))"
  have "filter (\<lambda>(k, v). k \<noteq> ''__proto__'') (map ?f ?es) = map ?f ?es"
    by (auto simp: filter_id_conv)
  moreover have "\<not> 16 < d \<Longrightarrow> map ?f (map ?f ?es) = map ?f ?es"
    using 3 by auto
  ultimately show ?case by (simp del: map_map)
qed (auto simp: redacted_def)

lemma sanitizeValue_depth: "json_depth (sanitizeValue v d) \<le> 17 - d"
proof (induction v d rule: sanitizeValue.induct)
  case (2 vs d)
  show ?case
  proof (cases "16 < d")
    case False
    have "\<forall>n \<in> insert 0 (set (map json_depth (map (\<lambda>v. sanitizeValue v (d + 1)) vs))). n \<le> 16 - d"
      using 2 False by fastforce
    then have "Max (insert 0 (set (map json_depth (map (\<lambda>v. sanitizeValue v (d + 1)) vs)))) \<le> 16 - d"
      by (subst Max_le_iff) auto
    then show ?thesis
      using False unfolding sanitizeValue.simps if_not_P [OF False] json_depth.simps by linarith
  qed (simp add: depth_limit_def)
next
  case (3 es d)
  show ?case
  proof (cases "16 < d")
    case False
    let ?es = "map (\<lambda>(k, v). (k, if isSecretKey k then redacted else sanitizeValue v (d + 1)))
        (filter (\<lambda>(k, v). k \<noteq> ''__proto__'') es)"
    have "\<forall>n \<in> insert 0 (set (map (\<lambda>e. json_depth (snd e)) ?es)). n \<le> 16 - d"
      using 3 False by (fastforce simp: redacted_def)
    then have "Max (insert 0 (set (map (\<lambda>e. json_depth (snd e)) ?es))) \<le> 16 - d"
      by (subst Max_le_iff) auto
    then show ?thesis
      using False unfolding sanitizeValue.simps if_not_P [OF False] json_depth.simps by linarith
  qed (simp add: depth_limit_def)
qed (auto simp: depth_limit_def redacted_def)

text \<open>
  C13. Sanitized metadata holds no string that looks like an API key or a secret blob and no
  unredacted value under a secret-bearing key, at any depth; it is nested at most 17 levels deep;
  and sanitizing it again changes nothing.
\<close>

theorem sanitizeMetadata_safe:
  "clean (sanitizeMetadata v) \<and> json_depth (sanitizeMetadata v) \<le> 17
   \<and> sanitizeMetadata (sanitizeMetadata v) = sanitizeMetadata v"
  using sanitizeValue_clean [of v 0] sanitizeValue_depth [of v 0] sanitizeValue_idem [of v 0]
  by (simp add: sanitizeMetadata_def)

text \<open>
  Appending to the audit log keeps every earlier event, adds exactly one, and its metadata is
  sanitized whatever the caller passed.
\<close>

theorem audit_append_only:
  "\<exists>e. audit_append eid now act scope typ meta evs = evs @ [e] \<and> clean (a_metadata e) \<and> a_type e = typ \<and> actor e = act"
  using sanitizeValue_clean [of meta 0] by (simp add: audit_append_def sanitizeMetadata_def)

end
