(* ===== verification/Prompts.thy ===== *)
theory Prompts
  imports Inputs Projection Audit_Log
begin

text \<open>
  The pure helpers of \<^verbatim>\<open>vaulltcore-automation/src/service.ts\<close>: prompt templates, the outputs
  of a step and artifact contents. \<^verbatim>\<open>JSON.parse\<close> on model output is an argument, \<open>None\<close>
  when it throws.
\<close>

section \<open>JSON text\<close>

text \<open>\<^verbatim>\<open>JSON.stringify(v)\<close> of a value other than \<^verbatim>\<open>undefined\<close>.\<close>

fun stringify :: "host \<Rightarrow> json \<Rightarrow> string" where
  "stringify h JUndefined = ''null''"
| "stringify h JNull = ''null''"
| "stringify h (JBool b) = (if b then ''true'' else ''false'')"
| "stringify h (JNum n) = number_text h n"
| "stringify h (JStr s) = quote s"
| "stringify h (JArr vs) = CHR ''['' # join (map (stringify h) vs) @ '']''"
| "stringify h (JObj es) =
     CHR ''{'' # join (map (\<lambda>(k, v). quote k @ CHR '':'' # stringify h v)
       (filter (\<lambda>(k, v). v \<noteq> JUndefined) es)) @ ''}''"

section \<open>Prompt templates\<close>

text \<open>
  \<^verbatim>\<open>s.replace(/.../g, f)\<close>: at each position the matcher answers with the replacement and the
  number of characters after the first that the match consumes.
\<close>

function replace_all :: "(string \<Rightarrow> (string \<times> nat) option) \<Rightarrow> string \<Rightarrow> string" where
  "replace_all m [] = []"
| "replace_all m (c # cs) =
     (case m (c # cs) of None \<Rightarrow> c # replace_all m cs | Some (r, n) \<Rightarrow> r @ replace_all m (drop n cs))"
  by pat_completeness auto
termination
  by (relation "measure (length \<circ> snd)") auto

text \<open>The character class \<^verbatim>\<open>[a-zA-Z0-9_]\<close>.\<close>

definition name_char :: "char \<Rightarrow> bool" where
  "name_char c \<longleftrightarrow> is_upper c \<or> is_lower c \<or> is_num c \<or> c = CHR ''_''"

definition strip_prefix :: "string \<Rightarrow> string \<Rightarrow> string option" where
  "strip_prefix p s = (if take (length p) s = p then Some (drop (length p) s) else None)"

text \<open>A maximal name, and what follows it.\<close>

definition take_name :: "string \<Rightarrow> (string \<times> string) option" where
  "take_name s = (let nm = takeWhile name_char s in if nm = [] then None else Some (nm, drop (length nm) s))"

definition input_open :: string where
  "input_open = ''${input.''"

definition steps_open :: string where
  "steps_open = ''${steps.''"

definition output_sep :: string where
  "output_sep = ''.output.''"

definition match_input :: "string \<Rightarrow> string option" where
  "match_input s =
     (case strip_prefix input_open s of
        None \<Rightarrow> None
      | Some r \<Rightarrow> (case take_name r of
                      None \<Rightarrow> None
                    | Some (nm, r') \<Rightarrow> if take 1 r' = ''}'' then Some nm else None))"

definition match_steps :: "string \<Rightarrow> (string \<times> string) option" where
  "match_steps s =
     (case strip_prefix steps_open s of
        None \<Rightarrow> None
      | Some r \<Rightarrow> (case take_name r of
                      None \<Rightarrow> None
                    | Some (sid, r') \<Rightarrow> (case strip_prefix output_sep r' of
                         None \<Rightarrow> None
                       | Some r'' \<Rightarrow> (case take_name r'' of
                            None \<Rightarrow> None
                          | Some (key, rest) \<Rightarrow> if take 1 rest = ''}'' then Some (sid, key) else None))))"

text \<open>\<^verbatim>\<open>v === undefined ? "" : typeof v === "string" ? v : JSON.stringify(v)\<close>.\<close>

definition prompt_text :: "host \<Rightarrow> json \<Rightarrow> string" where
  "prompt_text h v = (case v of JUndefined \<Rightarrow> [] | JStr s \<Rightarrow> s | _ \<Rightarrow> stringify h v)"

definition input_value_text :: "host \<Rightarrow> (string \<times> json) list \<Rightarrow> string \<Rightarrow> string" where
  "input_value_text h inp nm = prompt_text h (field (JObj inp) nm)"

definition output_value_text :: "host \<Rightarrow> (string, (string \<times> json) list) table \<Rightarrow> string \<Rightarrow> string \<Rightarrow> string" where
  "output_value_text h outs sid key =
     prompt_text h (case tget outs sid of None \<Rightarrow> JUndefined | Some o' \<Rightarrow> field (JObj o') key)"

definition resolvePrompt ::
  "host \<Rightarrow> string \<Rightarrow> (string \<times> json) list \<Rightarrow> (string, (string \<times> json) list) table \<Rightarrow> string" where
  "resolvePrompt h template inp stepOutputs =
     replace_all (\<lambda>s. map_option (\<lambda>(sid, key). (output_value_text h stepOutputs sid key,
                        length steps_open + length sid + length output_sep + length key)) (match_steps s))
       (replace_all (\<lambda>s. map_option (\<lambda>nm. (input_value_text h inp nm, length input_open + length nm)) (match_input s))
          template)"

section \<open>Outputs\<close>

text \<open>
  \<^verbatim>\<open>p in cur\<close> and \<^verbatim>\<open>cur[p]\<close> on own properties: the properties of an object, the
  elements and the length of an array.
\<close>

definition own_property :: "json \<Rightarrow> string \<Rightarrow> json option" where
  "own_property v p =
     (case v of
        JObj es \<Rightarrow> map_of es p
      | JArr vs \<Rightarrow> if p = ''length'' then Some (JNum (Finite (of_nat (length vs))))
                    else if is_index p \<and> decimal_value p < length vs then Some (vs ! decimal_value p) else None
      | _ \<Rightarrow> None)"

fun walk :: "json \<Rightarrow> string list \<Rightarrow> json" where
  "walk v [] = v"
| "walk v (p # ps) = (case own_property v p of None \<Rightarrow> JUndefined | Some w \<Rightarrow> walk w ps)"

definition readPath :: "json \<Rightarrow> string \<Rightarrow> json" where
  "readPath v path = (if path = [] then v else walk v (split_on CHR ''.'' path))"

definition extractOutputs :: "(string \<Rightarrow> json option) \<Rightarrow> string \<Rightarrow> output_mapping list \<Rightarrow> (string \<times> json) list" where
  "extractOutputs json_parse txt maps =
     (let parsed = (case json_parse txt of Some v \<Rightarrow> v | None \<Rightarrow> JObj [(''text'', JStr txt)]);
          out = fold (\<lambda>m out. obj_put (om_key m) (readPath parsed (om_path m)) out) maps []
      in if out = [] then [(''text'', JStr txt)] else out)"

text \<open>The text of an assistant message is a string; an empty or absent one is skipped.\<close>

fun lastText :: "string \<Rightarrow> job_event list \<Rightarrow> string" where
  "lastText txt [] = txt"
| "lastText txt (e # es) =
     (if is_assistant_message e
      then lastText (case field (je_data e) ''text'' of JStr t \<Rightarrow> if t = [] then txt else t | _ \<Rightarrow> txt) es
      else lastText txt es)"

definition lastAssistantText :: "job_event list \<Rightarrow> string" where
  "lastAssistantText es = lastText [] es"

text \<open>UTF-8 of the code points below 256.\<close>

definition utf8_char :: "char \<Rightarrow> bytes" where
  "utf8_char c =
     (let n = of_char c :: nat
      in if n < 128 then [c] else [char_of (192 + n div 64), char_of (128 + n mod 64)])"

definition utf8 :: "string \<Rightarrow> bytes" where
  "utf8 s = concat (map utf8_char s)"

definition deriveArtifactContent :: "host \<Rightarrow> (string \<times> json) list \<Rightarrow> string \<Rightarrow> bytes" where
  "deriveArtifactContent h outs path =
     (let v = readPath (JObj outs) path
      in utf8 (case v of JUndefined \<Rightarrow> stringify h (JObj outs) | JStr s \<Rightarrow> s | _ \<Rightarrow> stringify h v))"

section \<open>Facts\<close>

text \<open>A matcher of a pattern that begins with a dollar sign leaves other text alone.\<close>

definition needs_dollar :: "(string \<Rightarrow> (string \<times> nat) option) \<Rightarrow> bool" where
  "needs_dollar m \<longleftrightarrow> (\<forall>c cs. c \<noteq> CHR ''$'' \<longrightarrow> m (c # cs) = None)"

lemma replace_all_plain:
  "needs_dollar m \<Longrightarrow> CHR ''$'' \<notin> set l \<Longrightarrow> replace_all m (l @ rest) = l @ replace_all m rest"
proof (induction l)
  case (Cons c l)
  then have "m (c # l @ rest) = None"
    by (metis list.set_intros(1) needs_dollar_def)
  then show ?case using Cons by simp
qed simp

lemma take_name_append:
  assumes "nm \<noteq> []" "list_all name_char nm" "\<not> name_char c"
  shows "take_name (nm @ c # rest) = Some (nm, c # rest)"
proof -
  have "takeWhile name_char (nm @ c # rest) = nm"
    using assms by (simp add: takeWhile_append2 list_all_iff)
  then show ?thesis
    using assms(1) by (simp add: take_name_def)
qed

lemma strip_prefix_append [simp]: "strip_prefix p (p @ s) = Some s"
  by (simp add: strip_prefix_def)

lemma not_name_char [simp]: "\<not> name_char (CHR ''}'')" "\<not> name_char (CHR ''.'')"
  by (simp_all add: name_char_def is_upper_def is_lower_def is_num_def)

lemma name_no_dollar: "list_all name_char nm \<Longrightarrow> CHR ''$'' \<notin> set nm"
  by (induction nm) (auto simp: name_char_def is_upper_def is_lower_def is_num_def)

definition is_name :: "string \<Rightarrow> bool" where
  "is_name nm \<longleftrightarrow> nm \<noteq> [] \<and> list_all name_char nm"

lemma match_input_ref: "is_name nm \<Longrightarrow> match_input (input_open @ nm @ CHR ''}'' # rest) = Some nm"
  by (simp add: match_input_def is_name_def take_name_append)

lemma match_steps_ref:
  "is_name sid \<Longrightarrow> is_name key \<Longrightarrow>
   match_steps (steps_open @ sid @ output_sep @ key @ CHR ''}'' # rest) = Some (sid, key)"
  using take_name_append [of sid "CHR ''.''" "''output.'' @ key @ CHR ''}'' # rest"]
  by (simp add: match_steps_def is_name_def take_name_append output_sep_def strip_prefix_def)

section \<open>Properties\<close>

text \<open>A template as the text and the references it was written with.\<close>

datatype segment = Lit string | InputRef string | OutputRef string string

fun segment_source :: "segment \<Rightarrow> string" where
  "segment_source (Lit l) = l"
| "segment_source (InputRef nm) = input_open @ nm @ ''}''"
| "segment_source (OutputRef sid key) = steps_open @ sid @ output_sep @ key @ ''}''"

fun segment_ok :: "segment \<Rightarrow> bool" where
  "segment_ok (Lit l) \<longleftrightarrow> CHR ''$'' \<notin> set l"
| "segment_ok (InputRef nm) \<longleftrightarrow> is_name nm"
| "segment_ok (OutputRef sid key) \<longleftrightarrow> is_name sid \<and> is_name key"

fun segment_text :: "host \<Rightarrow> (string \<times> json) list \<Rightarrow> (string, (string \<times> json) list) table \<Rightarrow> segment \<Rightarrow> string" where
  "segment_text h inp outs (Lit l) = l"
| "segment_text h inp outs (InputRef nm) = input_value_text h inp nm"
| "segment_text h inp outs (OutputRef sid key) = output_value_text h outs sid key"

text \<open>The template after the first pass, with only the references to outputs left.\<close>

fun segment_half :: "host \<Rightarrow> (string \<times> json) list \<Rightarrow> segment \<Rightarrow> string" where
  "segment_half h inp (InputRef nm) = input_value_text h inp nm"
| "segment_half h inp g = segment_source g"

lemma input_pass:
  assumes "list_all segment_ok gs"
  shows "replace_all (\<lambda>s. map_option (\<lambda>nm. (input_value_text h inp nm, length input_open + length nm)) (match_input s))
     (concat (map segment_source gs)) = concat (map (segment_half h inp) gs)"
    (is "replace_all ?m _ = _")
  using assms
proof (induction gs)
  case (Cons g gs)
  have d: "needs_dollar ?m"
    by (auto simp: needs_dollar_def match_input_def strip_prefix_def input_open_def)
  show ?case
  proof (cases g)
    case (Lit l)
    then show ?thesis using Cons replace_all_plain [OF d] by simp
  next
    case (InputRef nm)
    then have "match_input (input_open @ nm @ CHR ''}'' # rest) = Some nm" for rest
      using Cons.prems by (simp add: match_input_ref)
    then show ?thesis
      using Cons InputRef by (simp add: input_open_def)
  next
    case (OutputRef sid key)
    let ?t = "''{steps.'' @ sid @ output_sep @ key @ ''}''"
    have "?m (CHR ''$'' # ?t @ rest) = None" for rest
      by (simp add: match_input_def strip_prefix_def input_open_def)
    moreover have "CHR ''$'' \<notin> set ?t"
      using Cons.prems OutputRef name_no_dollar by (auto simp: is_name_def output_sep_def)
    ultimately show ?thesis
      using Cons OutputRef replace_all_plain [OF d, of ?t "concat (map segment_source gs)"]
      by (simp add: steps_open_def)
  qed
qed simp

lemma output_pass:
  assumes "list_all segment_ok gs" "\<forall>nm. InputRef nm \<in> set gs \<longrightarrow> CHR ''$'' \<notin> set (input_value_text h inp nm)"
  shows "replace_all (\<lambda>s. map_option (\<lambda>(sid, key). (output_value_text h outs sid key,
       length steps_open + length sid + length output_sep + length key)) (match_steps s))
     (concat (map (segment_half h inp) gs)) = concat (map (segment_text h inp outs) gs)"
    (is "replace_all ?m _ = _")
  using assms
proof (induction gs)
  case (Cons g gs)
  have d: "needs_dollar ?m"
    by (auto simp: needs_dollar_def match_steps_def strip_prefix_def steps_open_def)
  show ?case
  proof (cases g)
    case (OutputRef sid key)
    then have "match_steps (steps_open @ sid @ output_sep @ key @ CHR ''}'' # rest) = Some (sid, key)" for rest
      using Cons.prems by (simp add: match_steps_ref)
    then show ?thesis
      using Cons OutputRef by (simp add: steps_open_def)
  qed (use Cons replace_all_plain [OF d] in simp_all)
qed simp

text \<open>
  A prompt template made of literal text and references resolves to the text with every
  reference replaced by the value of the input field or step output it names, where neither the
  literals nor the input values contain a dollar sign.
\<close>

theorem resolvePrompt_substitutes:
  assumes "list_all segment_ok gs" and "\<forall>nm. InputRef nm \<in> set gs \<longrightarrow> CHR ''$'' \<notin> set (input_value_text h inp nm)"
  shows "resolvePrompt h (concat (map segment_source gs)) inp outs = concat (map (segment_text h inp outs) gs)"
  using input_pass [OF assms(1)] output_pass [OF assms] by (simp add: resolvePrompt_def)

theorem resolvePrompt_substitutes_witness:
  "resolvePrompt \<lparr>sha256 = id, num_str = (\<lambda>_. [])\<rparr> ''Hi ${input.who}: ${steps.s1.output.t}'' [(''who'', JStr ''Ann'')]
     [(''s1'', [(''t'', JStr ''$5'')])] = ''Hi Ann: $5''"
proof -
  let ?gs = "[Lit ''Hi '', InputRef ''who'', Lit '': '', OutputRef ''s1'' ''t'']"
  let ?h = "\<lparr>sha256 = id, num_str = (\<lambda>_. [])\<rparr> :: host"
  have ok: "list_all segment_ok ?gs"
    by (simp add: is_name_def name_char_def is_upper_def is_lower_def is_num_def)
  have nd: "\<forall>nm. InputRef nm \<in> set ?gs \<longrightarrow> CHR ''$'' \<notin> set (input_value_text ?h [(''who'', JStr ''Ann'')] nm)"
    by (simp add: input_value_text_def field_def prompt_text_def)
  show ?thesis
    using resolvePrompt_substitutes [OF ok nd, of "[(''s1'', [(''t'', JStr ''$5'')])]"]
    by (simp add: input_open_def steps_open_def output_sep_def input_value_text_def output_value_text_def field_def prompt_text_def)
qed

text \<open>
  The two passes run one after the other, so that a reference to a step output inside an input
  value is expanded too.
\<close>

lemma input_reaches_step_outputs:
  "resolvePrompt h ''${input.a}'' [(''a'', JStr ''${steps.s.output.k}'')] [(''s'', [(''k'', JStr ''secret'')])] = ''secret''"
  by (simp add: resolvePrompt_def match_input_def match_steps_def strip_prefix_def take_name_def input_open_def
    steps_open_def output_sep_def name_char_def is_upper_def is_lower_def is_num_def input_value_text_def
    output_value_text_def field_def prompt_text_def Let_def)

end
