(* ===== verification/Runs.thy ===== *)
theory Runs
  imports Contracts
begin

text \<open>
  The run state machine of \<^verbatim>\<open>vaulltcore-automation/src/run.ts\<close>: the transition table,
  the construction of a run and the application of one transition. \<open>run_step\<close> is the step
  relation the table induces on run records and \<open>reachable_run\<close> the records it reaches from a
  new run.
\<close>

section \<open>Operations\<close>

fun TRANSITIONS :: "run_status \<Rightarrow> run_status list" where
  "TRANSITIONS Created = [ValidatingInput, Failed, Cancelled]"
| "TRANSITIONS ValidatingInput = [Admitted, Failed, Cancelled]"
| "TRANSITIONS Admitted = [Running, Failed, Cancelled, Suspended]"
| "TRANSITIONS Running = [Collecting, AwaitingApproval, Failed, Cancelled, Suspended]"
| "TRANSITIONS Collecting = [AwaitingApproval, Delivering, Completed, Failed, Cancelled]"
| "TRANSITIONS AwaitingApproval = [Delivering, Rejected, Failed, Cancelled]"
| "TRANSITIONS Delivering = [Completed, Failed, Cancelled]"
| "TRANSITIONS Completed = []"
| "TRANSITIONS Failed = []"
| "TRANSITIONS Cancelled = []"
| "TRANSITIONS Rejected = []"
| "TRANSITIONS Suspended = [Admitted, Running, Collecting, Failed, Cancelled]"

definition canTransition :: "run_status \<Rightarrow> run_status \<Rightarrow> bool" where
  "canTransition from to = (if from = to then False else to \<in> set (TRANSITIONS from))"

definition assertTransition :: "string \<Rightarrow> run_status \<Rightarrow> run_status \<Rightarrow> automation_error + unit" where
  "assertTransition rid from to =
     (if \<not> canTransition from to
      then Inl (AutomationError (ILLEGAL_RUN_TRANSITION rid from to) 409) else Inr ())"

definition isAdvancing :: "run_status \<Rightarrow> bool" where
  "isAdvancing s \<longleftrightarrow> s = Admitted \<or> s = Running \<or> s = Collecting"

record run_args = job_identity +
  ra_templateId :: string
  ra_versionId :: string
  ra_version :: nat
  ra_inputRevisionId :: string
  ra_createdBy :: string

definition buildRun :: "string \<Rightarrow> int \<Rightarrow> run_args \<Rightarrow> automation_run" where
  "buildRun newRunId now a =
     \<lparr>tenantId = tenantId a, orgId = orgId a, projectId = projectId a, runId = newRunId,
      r_templateId = ra_templateId a, r_versionId = ra_versionId a, r_version = ra_version a,
      status = Created, r_inputRevisionId = ra_inputRevisionId a, runVersion = 1,
      createdBy = ra_createdBy a, error = None, createdAt = now, updatedAt = now,
      suspendedAt = None, completedAt = None\<rparr>"

text \<open>\<^verbatim>\<open>extra?.error\<close> distinguishes an absent error from an explicit \<^verbatim>\<open>null\<close>.\<close>

definition applyTransition ::
  "automation_run \<Rightarrow> run_status \<Rightarrow> string optional \<Rightarrow> int \<Rightarrow> automation_error + automation_run" where
  "applyTransition run to err now =
     seq_res (assertTransition (runId run) (status run) to) (\<lambda>_.
       Inr (run\<lparr>status := to,
                error := (case err of Undefined \<Rightarrow> error run | Null \<Rightarrow> None | Value e \<Rightarrow> Some e),
                updatedAt := now,
                runVersion := runVersion run + 1,
                suspendedAt := (if to = Suspended then Some now else suspendedAt run),
                completedAt := (if to = Completed \<or> to = Failed \<or> to = Cancelled \<or> to = Rejected
                                then Some now else None)\<rparr>))"

section \<open>The step relation\<close>

inductive run_step :: "automation_run \<Rightarrow> automation_run \<Rightarrow> bool" where
  run_stepI: "applyTransition r to err now = Inr r' \<Longrightarrow> run_step r r'"

inductive_cases run_stepE: "run_step r r'"

inductive reachable_run :: "automation_run \<Rightarrow> automation_run \<Rightarrow> nat \<Rightarrow> bool"
  for r0 where
  reach_init: "reachable_run r0 r0 0"
| reach_step: "reachable_run r0 r n \<Longrightarrow> run_step r r' \<Longrightarrow> reachable_run r0 r' (Suc n)"

text \<open>The paths of the table, as lists of statuses.\<close>

fun status_path :: "run_status \<Rightarrow> run_status list \<Rightarrow> bool" where
  "status_path s [] = True"
| "status_path s (t # ts) = (canTransition s t \<and> status_path t ts)"

section \<open>Facts\<close>

lemma isTerminalRun_iff:
  "isTerminalRun s \<longleftrightarrow> s = Completed \<or> s = Failed \<or> s = Cancelled \<or> s = Rejected"
  by (auto simp: isTerminalRun_def TERMINAL_RUN_STATUSES_def)

lemma canTransition_iff [simp]: "canTransition s t \<longleftrightarrow> t \<in> set (TRANSITIONS s)"
  by (cases s) (auto simp: canTransition_def)

lemma TRANSITIONS_Nil_iff: "TRANSITIONS s = [] \<longleftrightarrow> isTerminalRun s"
  by (cases s) (simp_all add: isTerminalRun_iff)

lemma applyTransition_Inr:
  "applyTransition r to err now = Inr r' \<longleftrightarrow>
     canTransition (status r) to \<and>
     r' = r\<lparr>status := to,
            error := (case err of Undefined \<Rightarrow> error r | Null \<Rightarrow> None | Value e \<Rightarrow> Some e),
            updatedAt := now, runVersion := Suc (runVersion r),
            suspendedAt := (if to = Suspended then Some now else suspendedAt r),
            completedAt := (if isTerminalRun to then Some now else None)\<rparr>"
  by (auto simp: applyTransition_def assertTransition_def isTerminalRun_iff)

lemma applyTransition_Inl:
  "applyTransition r to err now = Inl e \<longleftrightarrow>
     \<not> canTransition (status r) to \<and>
     e = AutomationError (ILLEGAL_RUN_TRANSITION (runId r) (status r) to) 409"
  by (auto simp: applyTransition_def assertTransition_def)

lemmas applyTransition_iffs = applyTransition_Inr applyTransition_Inl

lemma terminal_no_transition: "isTerminalRun (status r) \<Longrightarrow> \<not> canTransition (status r) t"
  by (auto simp flip: TRANSITIONS_Nil_iff)

text \<open>The identity of a run: everything that no transition writes.\<close>

definition run_identity :: "automation_run \<Rightarrow> string \<times> string \<times> string \<times> string \<times> string \<times> string \<times> nat \<times> string \<times> string \<times> int" where
  "run_identity r = (tenantId r, orgId r, projectId r, runId r, r_templateId r, r_versionId r,
     r_version r, r_inputRevisionId r, createdBy r, createdAt r)"

definition run_wf :: "automation_run \<Rightarrow> bool" where
  "run_wf r \<longleftrightarrow> 1 \<le> runVersion r \<and> (completedAt r \<noteq> None \<longleftrightarrow> isTerminalRun (status r))"

lemma run_wf_buildRun: "run_wf (buildRun i now a)"
  by (simp add: run_wf_def buildRun_def isTerminalRun_iff)

lemma run_step_facts:
  assumes "run_step r r'"
  shows "run_identity r' = run_identity r" "runVersion r' = Suc (runVersion r)" "run_wf r'"
    "canTransition (status r) (status r')"
  using assms by (auto elim!: run_stepE simp: applyTransition_Inr run_identity_def run_wf_def split: if_splits)

lemma reachable_run_facts:
  assumes "reachable_run r0 r n" "run_wf r0"
  shows "run_identity r = run_identity r0 \<and> runVersion r = runVersion r0 + n \<and> run_wf r"
  using assms by (induction rule: reachable_run.induct) (auto dest: run_step_facts)

text \<open>
  A measure on statuses: the length of the longest path that does not pass through
  \<^verbatim>\<open>suspended\<close>; used to bound the transitions of a run that is never suspended.
\<close>

primrec status_height :: "run_status \<Rightarrow> nat" where
  "status_height Created = 7"
| "status_height ValidatingInput = 6"
| "status_height Admitted = 5"
| "status_height Running = 4"
| "status_height Collecting = 3"
| "status_height AwaitingApproval = 2"
| "status_height Delivering = 1"
| "status_height Completed = 0"
| "status_height Failed = 0"
| "status_height Cancelled = 0"
| "status_height Rejected = 0"
| "status_height Suspended = 8"

lemma status_height_decreases:
  "canTransition s t \<Longrightarrow> t \<noteq> Suspended \<Longrightarrow> status_height t < status_height s"
  by (cases s) auto

lemma status_path_length:
  "status_path s ts \<Longrightarrow> Suspended \<notin> set ts \<Longrightarrow> length ts \<le> status_height s"
proof (induction ts arbitrary: s)
  case (Cons t ts)
  then have "status_height t < status_height s"
    using status_height_decreases by auto
  then show ?case using Cons by fastforce
qed simp

section \<open>Properties\<close>

text \<open>
  A transition is accepted exactly when the table allows it, and an accepted transition bumps
  the fencing token by one, keeps the identity of the run, sets \<^verbatim>\<open>completedAt\<close> exactly on
  terminal statuses, and is impossible from a terminal status. A rejected one reports the pair.
\<close>

theorem applyTransition_spec:
  "case applyTransition r to err now of
     Inr r' \<Rightarrow> to \<in> set (TRANSITIONS (status r)) \<and> status r' = to \<and> runVersion r' = runVersion r + 1
       \<and> run_identity r' = run_identity r \<and> completedAt r' = (if isTerminalRun to then Some now else None)
       \<and> \<not> isTerminalRun (status r)
   | Inl e \<Rightarrow> to \<notin> set (TRANSITIONS (status r)) \<and> e = AutomationError (ILLEGAL_RUN_TRANSITION (runId r) (status r) to) 409"
proof (cases "applyTransition r to err now")
  case (Inl e)
  then show ?thesis
    using Inl [unfolded applyTransition_Inl] by simp
next
  case (Inr r')
  then show ?thesis
    using terminal_no_transition [of r to] Inr [unfolded applyTransition_Inr]
    by (auto simp: run_identity_def)
qed

text \<open>
  Every record that transitions reach from a new run is well formed, carries the identity the
  run was created with, and its fencing token counts the transitions.
\<close>

theorem reachable_run_invariant:
  assumes "reachable_run (buildRun i now a) r n"
  shows "run_wf r \<and> run_identity r = run_identity (buildRun i now a) \<and> runVersion r = n + 1"
  using reachable_run_facts [OF assms run_wf_buildRun] by (simp add: buildRun_def)

theorem reachable_run_invariant_witness:
  "run_wf (let r = buildRun ''r'' 5 \<lparr>tenantId = ''t'', orgId = ''o'', projectId = ''p'', ra_templateId = ''x'',
     ra_versionId = ''v'', ra_version = 1, ra_inputRevisionId = ''i'', ra_createdBy = ''u''\<rparr>
   in r\<lparr>status := Failed, error := Some ''e'', updatedAt := 9, runVersion := 2, completedAt := Some 9\<rparr>)"
proof -
  let ?r = "buildRun ''r'' 5 \<lparr>tenantId = ''t'', orgId = ''o'', projectId = ''p'', ra_templateId = ''x'',
     ra_versionId = ''v'', ra_version = 1, ra_inputRevisionId = ''i'', ra_createdBy = ''u''\<rparr>"
  have "applyTransition ?r Failed (Value ''e'') 9
      = Inr (?r\<lparr>status := Failed, error := Some ''e'', updatedAt := 9, runVersion := 2, completedAt := Some 9\<rparr>)"
    by (simp add: applyTransition_Inr buildRun_def isTerminalRun_iff)
  from reachable_run_invariant [OF reach_step [OF reach_init run_stepI [OF this]]]
  show ?thesis by (simp add: Let_def)
qed

text \<open>
  A run that is never suspended makes at most seven transitions, and every non-terminal status
  has a path to a terminal one: the machine has no livelock outside suspension and no dead end.
\<close>

theorem run_progress:
  "(\<forall>ts. status_path Created ts \<and> Suspended \<notin> set ts \<longrightarrow> length ts \<le> 7)
   \<and> (\<forall>s. isTerminalRun s \<or> (\<exists>t. canTransition s t \<and> isTerminalRun t))"
proof (intro conjI allI impI)
  show "length ts \<le> 7" if "status_path Created ts \<and> Suspended \<notin> set ts" for ts
    using status_path_length [of Created ts] that by simp
  show "isTerminalRun s \<or> (\<exists>t. canTransition s t \<and> isTerminalRun t)" for s
    by (cases s) (auto simp: isTerminalRun_iff intro: exI [of _ Failed])
qed

theorem run_progress_witness:
  "length [ValidatingInput, Admitted, Running, Collecting, AwaitingApproval, Delivering, Completed] \<le> 7"
proof -
  have "status_path Created [ValidatingInput, Admitted, Running, Collecting, AwaitingApproval, Delivering, Completed]"
    by simp
  then show ?thesis using run_progress by fastforce
qed

end
