(* ===== verification/Approvals.thy ===== *)
theory Approvals
  imports Audit_Log
begin

text \<open>
  Human approval gates (\<^verbatim>\<open>vaulltcore-automation/src/approval.ts\<close>): the construction of a
  request, expiry, the authorization of an approver and the application of a decision.
\<close>

section \<open>Operations\<close>

definition canDecide :: "approval_status \<Rightarrow> approval_status \<Rightarrow> bool" where
  "canDecide from to =
     (if from \<noteq> APending then False
      else to = AApproved \<or> to = ARejected \<or> to = AChangesRequested \<or> to = AExpired)"

datatype approval_decision = DecideApproved | DecideRejected | DecideChangesRequested

primrec decision_status :: "approval_decision \<Rightarrow> approval_status" where
  "decision_status DecideApproved = AApproved"
| "decision_status DecideRejected = ARejected"
| "decision_status DecideChangesRequested = AChangesRequested"

record approval_args =
  aq_runId :: string
  aq_versionId :: string
  aq_gateId :: string
  aq_minApproverRole :: string
  aq_contextArtifacts :: "string list"
  aq_expiresAfterMs :: "int optional"

text \<open>\<^verbatim>\<open>args.expiresAfterMs ? now + args.expiresAfterMs : null\<close>: zero counts as absent.\<close>

definition buildApprovalRequest :: "string \<Rightarrow> int \<Rightarrow> approval_args \<Rightarrow> approval_request" where
  "buildApprovalRequest newApprovalId now a =
     \<lparr>approvalId = newApprovalId, apr_runId = aq_runId a, apr_versionId = aq_versionId a, gateId = aq_gateId a,
      apr_status = APending, minApproverRole = aq_minApproverRole a, contextArtifacts = aq_contextArtifacts a,
      apr_createdAt = now,
      expiresAt = (case aq_expiresAfterMs a of Value ms \<Rightarrow> if ms = 0 then None else Some (now + ms) | _ \<Rightarrow> None),
      decisionActor = None, decisionTime = None, decisionMetadata = None, approvalVersion = 1\<rparr>"

definition isExpired :: "approval_request \<Rightarrow> int \<Rightarrow> bool" where
  "isExpired req now \<longleftrightarrow> apr_status req = APending \<and> (case expiresAt req of None \<Rightarrow> False | Some t \<Rightarrow> t \<le> now)"

definition authorizeApprover :: "approval_request \<Rightarrow> string \<Rightarrow> automation_error + unit" where
  "authorizeApprover req principalRole =
     (let required = approverRoleRank (minApproverRole req); have' = approverRoleRank principalRole
      in if have' < required
         then Inl (AutomationError (FORBIDDEN_APPROVER_ROLE principalRole (minApproverRole req)) 403)
         else Inr ())"

definition applyDecision ::
  "approval_request \<Rightarrow> approval_decision \<Rightarrow> decision_actor \<Rightarrow> json optional \<Rightarrow> int \<Rightarrow> automation_error + approval_request" where
  "applyDecision req decision act meta now =
     (if \<not> canDecide (apr_status req) (decision_status decision)
      then Inl (AutomationError (ILLEGAL_APPROVAL_TRANSITION (approvalId req) (apr_status req) (decision_status decision)) 409)
      else Inr (req\<lparr>apr_status := decision_status decision, decisionActor := Some act, decisionTime := Some now,
                    decisionMetadata := Some (sanitizeMetadata (case meta of Value m \<Rightarrow> m | _ \<Rightarrow> JObj [])),
                    approvalVersion := approvalVersion req + 1\<rparr>))"

definition applyExpiry :: "approval_request \<Rightarrow> int \<Rightarrow> automation_error + approval_request" where
  "applyExpiry req now =
     (if \<not> canDecide (apr_status req) AExpired
      then Inl (AutomationError (ILLEGAL_APPROVAL_TRANSITION (approvalId req) (apr_status req) AExpired) 409)
      else Inr (req\<lparr>apr_status := AExpired, decisionTime := Some now, approvalVersion := approvalVersion req + 1\<rparr>))"

section \<open>Facts\<close>

definition approval_terminal :: "approval_request \<Rightarrow> bool" where
  "approval_terminal a \<longleftrightarrow> apr_status a \<in> set TERMINAL_APPROVAL_STATUSES"

lemma approval_terminal_iff: "approval_terminal a \<longleftrightarrow> apr_status a \<noteq> APending"
  by (cases "apr_status a") (auto simp: approval_terminal_def TERMINAL_APPROVAL_STATUSES_def)

lemma canDecide_decision [simp]: "canDecide s (decision_status d) \<longleftrightarrow> s = APending"
  by (cases d) (auto simp: canDecide_def)

lemma applyDecision_Inr:
  "applyDecision req d a m now = Inr req' \<longleftrightarrow> apr_status req = APending \<and>
     req' = req\<lparr>apr_status := decision_status d, decisionActor := Some a, decisionTime := Some now,
       decisionMetadata := Some (sanitizeMetadata (case m of Value v \<Rightarrow> v | _ \<Rightarrow> JObj [])),
       approvalVersion := Suc (approvalVersion req)\<rparr>"
  by (auto simp: applyDecision_def)

lemma decision_status_terminal [simp]: "decision_status d \<noteq> APending"
  by (cases d) auto

text \<open>
  What holds of every stored request: it carries a decision time exactly once decided, an actor
  only then, and clean metadata.
\<close>

definition approval_wf :: "approval_request \<Rightarrow> bool" where
  "approval_wf a \<longleftrightarrow> 1 \<le> approvalVersion a \<and> (apr_status a \<noteq> APending \<longleftrightarrow> decisionTime a \<noteq> None)
     \<and> (decisionActor a \<noteq> None \<longrightarrow> apr_status a \<in> {AApproved, ARejected, AChangesRequested})
     \<and> (\<forall>m. decisionMetadata a = Some m \<longrightarrow> clean m)"

lemma approval_wf_build: "approval_wf (buildApprovalRequest i now a)"
  by (simp add: approval_wf_def buildApprovalRequest_def)

lemma approval_wf_applyDecision:
  "applyDecision req d a m now = Inr req' \<Longrightarrow> approval_wf req \<Longrightarrow> approval_wf req'"
  using sanitizeValue_clean [of _ 0]
  by (cases d) (auto simp: applyDecision_Inr approval_wf_def sanitizeMetadata_def)

section \<open>Properties\<close>

text \<open>
  An approver is authorized exactly when the rank of its role reaches the rank of the role the
  gate demands; a gate that names an unknown role demands nothing.
\<close>

theorem authorizeApprover_by_rank:
  "authorizeApprover req (role_name r) = Inr () \<longleftrightarrow>
     (case role_of_name (minApproverRole req) of None \<Rightarrow> True | Some r' \<Rightarrow> r' \<le> r)"
  by (auto simp: authorizeApprover_def Let_def approverRoleRank_def less_eq_role_def split: option.splits)

text \<open>
  A decision is accepted exactly on a pending request and makes it terminal; no decision and
  no expiry applies to the result.
\<close>

theorem applyDecision_final:
  "case applyDecision req d a m now of
     Inr req' \<Rightarrow> apr_status req = APending \<and> apr_status req' = decision_status d \<and> approval_terminal req'
       \<and> approvalVersion req' = approvalVersion req + 1
       \<and> (\<forall>d' a' m' t. \<exists>e. applyDecision req' d' a' m' t = Inl e) \<and> (\<forall>t. \<exists>e. applyExpiry req' t = Inl e)
   | Inl e \<Rightarrow> approval_terminal req"
proof (cases "applyDecision req d a m now")
  case (Inl e)
  then show ?thesis by (auto simp: applyDecision_def approval_terminal_iff split: if_splits)
next
  case (Inr req')
  then show ?thesis
    using Inr [unfolded applyDecision_Inr]
    by (simp add: applyDecision_def applyExpiry_def approval_terminal_iff canDecide_def)
qed

end
