(* ===== verification/Deliveries.thy ===== *)
theory Deliveries
  imports Contracts
begin

text \<open>
  The delivery seam (\<^verbatim>\<open>vaulltcore-automation/src/delivery.ts\<close>): delivery records and their
  transitions, the contract of a delivery provider, and the deterministic provider of the source.
\<close>

section \<open>Delivery records\<close>

definition canDeliveryTransition :: "delivery_status \<Rightarrow> delivery_status \<Rightarrow> bool" where
  "canDeliveryTransition from to =
     (if from = to then False
      else if from = DDelivered \<or> from = DFailed then False
      else to = DInProgress \<or> to = DDelivered \<or> to = DFailed)"

definition buildDeliveryAttempt :: "string \<Rightarrow> int \<Rightarrow> string \<Rightarrow> string \<Rightarrow> string \<Rightarrow> string \<Rightarrow> delivery_attempt" where
  "buildDeliveryAttempt newDeliveryId now rid vid key dest =
     \<lparr>deliveryId = newDeliveryId, dlv_runId = rid, dlv_versionId = vid, idempotencyKey = key, destination = dest,
      dlv_status = DPending, attempts = 0, resultRef = None, dlv_createdAt = now, dlv_updatedAt = now,
      lastError = None, deliveryVersion = 1\<rparr>"

abbreviation illegal_delivery :: "delivery_attempt \<Rightarrow> delivery_status \<Rightarrow> automation_error" where
  "illegal_delivery d to \<equiv> AutomationError (ILLEGAL_DELIVERY_TRANSITION (deliveryId d) (dlv_status d) to) 409"

definition startAttempt :: "delivery_attempt \<Rightarrow> int \<Rightarrow> automation_error + delivery_attempt" where
  "startAttempt d now =
     (if \<not> canDeliveryTransition (dlv_status d) DInProgress then Inl (illegal_delivery d DInProgress)
      else Inr (d\<lparr>dlv_status := DInProgress, attempts := attempts d + 1, dlv_updatedAt := now,
                  deliveryVersion := deliveryVersion d + 1\<rparr>))"

definition settleDelivered :: "delivery_attempt \<Rightarrow> string \<Rightarrow> int \<Rightarrow> automation_error + delivery_attempt" where
  "settleDelivered d ref now =
     (if \<not> canDeliveryTransition (dlv_status d) DDelivered then Inl (illegal_delivery d DDelivered)
      else Inr (d\<lparr>dlv_status := DDelivered, resultRef := Some ref, dlv_updatedAt := now, lastError := None,
                  deliveryVersion := deliveryVersion d + 1\<rparr>))"

definition settleFailed :: "delivery_attempt \<Rightarrow> string \<Rightarrow> int \<Rightarrow> automation_error + delivery_attempt" where
  "settleFailed d err now =
     (if \<not> canDeliveryTransition (dlv_status d) DFailed then Inl (illegal_delivery d DFailed)
      else Inr (d\<lparr>dlv_status := DFailed, lastError := Some err, dlv_updatedAt := now,
                  deliveryVersion := deliveryVersion d + 1\<rparr>))"

section \<open>The provider contract\<close>

type_synonym deliver_args = "string \<times> automation_artifact list \<times> (string \<times> bytes) list"

text \<open>
  What the service relies on: a delivery that has succeeded under a key is replayed, with the
  original reference and without effect, whatever the arguments of the replay.
\<close>

locale delivery_provider =
  fixes deliver :: "string \<Rightarrow> 'args \<Rightarrow> 'p \<Rightarrow> (string + string) \<times> 'p"
  assumes deliver_replay: "deliver key a p = (Inr ref, p') \<Longrightarrow> deliver key b p' = (Inr ref, p')"
begin

text \<open>A sequence of attempts under one key: the references of the successful ones all agree.\<close>

fun deliver_all :: "string \<Rightarrow> 'args list \<Rightarrow> 'p \<Rightarrow> string list \<times> 'p" where
  "deliver_all key [] p = ([], p)"
| "deliver_all key (a # as) p =
     (case deliver key a p of
        (Inl e, p') \<Rightarrow> deliver_all key as p'
      | (Inr ref, p') \<Rightarrow> (let (refs, q) = deliver_all key as p' in (ref # refs, q)))"

lemma deliver_all_replay:
  "deliver key a p = (Inr ref, p') \<Longrightarrow> deliver_all key as p' = (replicate (length as) ref, p')"
proof (induction "as")
  case (Cons b bs)
  then show ?case using deliver_replay [OF Cons.prems, of b] by simp
qed simp

lemma deliver_all_agree:
  "deliver_all key as p = (refs, q) \<Longrightarrow> r \<in> set refs \<Longrightarrow> r' \<in> set refs \<Longrightarrow> r = r'"
proof (induction "as" arbitrary: p refs)
  case (Cons a as)
  show ?case
  proof (cases "deliver key a p")
    case (Pair res p')
    then show ?thesis
      using Cons deliver_all_replay [of key a p _ p' "as"] by (cases res) auto
  qed
qed simp

end

section \<open>The deterministic provider\<close>

record fake_attempt =
  fa_key :: string
  fa_destination :: string
  fa_artifactIds :: "string list"
  fa_delivered :: bool
  fa_resultRef :: "string option"
  fa_attempt :: nat

record fake_provider =
  delivered :: "(string, string) table"
  failFirstN :: nat
  attemptCount :: nat
  attemptLog :: "fake_attempt list"

definition new_fake :: "nat \<Rightarrow> fake_provider" where
  "new_fake n = \<lparr>delivered = [], failFirstN = n, attemptCount = 0, attemptLog = []\<rparr>"

definition failNext :: "nat \<Rightarrow> fake_provider \<Rightarrow> fake_provider" where
  "failNext n p = p\<lparr>failFirstN := max (failFirstN p) (attemptCount p + n)\<rparr>"

definition fingerprint :: "automation_artifact list \<Rightarrow> string" where
  "fingerprint as = join (map (\<lambda>a. artifactId a @ '':'' @ art_checksum a) as)"

definition fake_deliver :: "string \<Rightarrow> deliver_args \<Rightarrow> fake_provider \<Rightarrow> (string + string) \<times> fake_provider" where
  "fake_deliver key a p =
     (case a of (dest, arts, contents) \<Rightarrow>
      case tget (delivered p) key of
        Some ref \<Rightarrow> (Inr ref, p)
      | None \<Rightarrow>
          let n = attemptCount p + 1;
              entry = \<lparr>fa_key = key, fa_destination = dest, fa_artifactIds = map artifactId arts,
                       fa_delivered = False, fa_resultRef = None, fa_attempt = n\<rparr>
          in if n \<le> failFirstN p
             then (Inl ''FakeDeliveryProvider: simulated failure'',
                   p\<lparr>attemptCount := n, attemptLog := attemptLog p @ [entry]\<rparr>)
             else let ref = ''fake://'' @ dest @ ''/'' @ fingerprint arts
                  in (Inr ref,
                      p\<lparr>attemptCount := n, delivered := tput key ref (delivered p),
                        attemptLog := attemptLog p @ [entry\<lparr>fa_delivered := True, fa_resultRef := Some ref\<rparr>]\<rparr>))"

definition deliveredCount :: "fake_provider \<Rightarrow> nat" where
  "deliveredCount p = length (delivered p)"

lemma fake_deliver_Inr: "fake_deliver key a p = (Inr ref, p') \<Longrightarrow> tget (delivered p') key = Some ref"
  by (auto simp: fake_deliver_def Let_def split: option.splits if_splits prod.splits)

lemma fake_deliver_known: "tget (delivered p) key = Some ref \<Longrightarrow> fake_deliver key a p = (Inr ref, p)"
  by (cases a) (simp add: fake_deliver_def)

interpretation fake: delivery_provider fake_deliver
  by unfold_locales (blast intro: fake_deliver_known fake_deliver_Inr)

section \<open>Properties\<close>

text \<open>
  The provider delivers at most once per idempotency key: all successful attempts under a key
  return the reference of the first one.
\<close>

theorem fake_deliver_once:
  assumes "fake_deliver key a p = (Inr ref, p')" and "fake_deliver key b p' = (res, p'')"
  shows "res = Inr ref \<and> p'' = p'"
  using fake.deliver_replay [OF assms(1), of b] assms(2) by simp

theorem fake_deliver_once_witness:
  "fst (fake_deliver ''k'' (''slack'', [], []) (snd (fake_deliver ''k'' (''mail'', [], []) (new_fake 0)))) = Inr ''fake://mail/''"
proof -
  have 1: "fake_deliver ''k'' (''mail'', [], []) (new_fake 0)
    = (Inr ''fake://mail/'', snd (fake_deliver ''k'' (''mail'', [], []) (new_fake 0)))"
    by (simp add: fake_deliver_def new_fake_def fingerprint_def Let_def)
  show ?thesis
    using fake_deliver_once [OF 1 prod.collapse [symmetric]] by simp
qed

end
