(* ===== verification/Memory_Store.thy ===== *)
theory Memory_Store
  imports Runs Inputs Approvals Deliveries "HOL-Library.Sublist"
begin

text \<open>
  The automation store (\<^verbatim>\<open>vaulltcore-automation/src/store-memory.ts\<close>): the tables of
  \<^verbatim>\<open>InMemoryAutomationStore\<close> and one operation per method. A query is a function of the
  store; a method that writes or throws is an operation of the prelude. Objects leave and enter the
  store as copies, so a record value stands for either; a deep copy through JSON is
  \<open>json_clone\<close>. Clock readings and generated ids are arguments.
\<close>

section \<open>Tables\<close>

record store =
  templates :: "(string, automation_template) table"
  versions :: "(string, automation_version) table"
  runs :: "(string, automation_run) table"
  inputs :: "(string, run_input_revision) table"
  step_states :: "(string, run_step_state) table"
  mappings :: "(string, job_mapping) table"
  mappingsByJob :: "(string, job_mapping) table"
  store_artifacts :: "(string, automation_artifact) table"
  approvals :: "(string, approval_request) table"
  approvalsByGate :: "(string, approval_request) table"
  deliveries :: "(string, delivery_attempt) table"
  deliveriesByKey :: "(string, delivery_attempt) table"
  events :: "(string, automation_event list) table"

type_synonym 'a store_op = "(store, automation_error, 'a) op"

definition empty_store :: store where
  "empty_store = \<lparr>templates = [], versions = [], runs = [], inputs = [], step_states = [], mappings = [],
     mappingsByJob = [], store_artifacts = [], approvals = [], approvalsByGate = [], deliveries = [],
     deliveriesByKey = [], events = []\<rparr>"

text \<open>The composite keys \<^verbatim>\<open>`${runId}|${id}`\<close> of the step, mapping, gate and delivery tables.\<close>

definition pair_key :: "string \<Rightarrow> string \<Rightarrow> string" where
  "pair_key rid i = rid @ ''|'' @ i"

text \<open>An optional filter argument: \<^verbatim>\<open>!orgId || t.orgId === orgId\<close>.\<close>

definition matches :: "string option \<Rightarrow> string \<Rightarrow> bool" where
  "matches f x \<longleftrightarrow> (case f of None \<Rightarrow> True | Some y \<Rightarrow> y = [] \<or> x = y)"

text \<open>
  The guard \<^verbatim>\<open>const run = this.runs.get(runId); if (!run || run.tenantId !== tenantId)\<close>: the
  run, if it exists and belongs to the tenant.
\<close>

definition tenant_run :: "string \<Rightarrow> string \<Rightarrow> store \<Rightarrow> automation_run option" where
  "tenant_run tenant rid s =
     (case tget (runs s) rid of None \<Rightarrow> None | Some r \<Rightarrow> if tenantId r \<noteq> tenant then None else Some r)"

abbreviation raise :: "error_code \<Rightarrow> nat \<Rightarrow> 'a store_op" where
  "raise c n \<equiv> throw (AutomationError c n)"

section \<open>Templates\<close>

definition nameKey :: "automation_template \<Rightarrow> string" where
  "nameKey t = tenantId t @ ''|'' @ orgId t @ ''|'' @ projectId t @ ''|'' @ t_name t"

definition store_createTemplate :: "automation_template \<Rightarrow> automation_template store_op" where
  "store_createTemplate t =
     andThen (reads (\<lambda>s. \<exists>u \<in> set (tvals (templates s)). nameKey u = nameKey t)) (\<lambda>dup.
     if dup then raise (TEMPLATE_EXISTS (t_name t)) 409
     else andThen (modifies (\<lambda>s. s\<lparr>templates := tput (templateId t) t (templates s)\<rparr>)) (\<lambda>_. ok t))"

definition store_getTemplate :: "string \<Rightarrow> string \<Rightarrow> store \<Rightarrow> automation_template option" where
  "store_getTemplate tenant tid s =
     (case tget (templates s) tid of None \<Rightarrow> None | Some t \<Rightarrow> if tenantId t \<noteq> tenant then None else Some t)"

definition store_listTemplates :: "string \<Rightarrow> string option \<Rightarrow> string option \<Rightarrow> store \<Rightarrow> automation_template list" where
  "store_listTemplates tenant org proj s =
     sort_key t_createdAt (filter (\<lambda>t. tenantId t = tenant \<and> matches org (orgId t) \<and> matches proj (projectId t))
       (tvals (templates s)))"

definition store_archiveTemplate :: "string \<Rightarrow> string \<Rightarrow> int \<Rightarrow> automation_template option store_op" where
  "store_archiveTemplate tenant tid now =
     andThen (reads (store_getTemplate tenant tid)) (\<lambda>found.
     case found of
       None \<Rightarrow> ok None
     | Some t \<Rightarrow>
         let updated = t\<lparr>t_status := TArchived, archivedAt := Some now\<rparr>
         in andThen (modifies (\<lambda>s. s\<lparr>templates := tput tid updated (templates s)\<rparr>)) (\<lambda>_. ok (Some updated)))"

section \<open>Versions\<close>

definition clone_version :: "automation_version \<Rightarrow> automation_version" where
  "clone_version v = v\<lparr>v_definition := clone_definition (v_definition v)\<rparr>"

definition store_createVersion :: "automation_version \<Rightarrow> automation_version store_op" where
  "store_createVersion v =
     andThen (reads (\<lambda>s. \<exists>w \<in> set (tvals (versions s)). v_templateId w = v_templateId v \<and> v_version w = v_version v)) (\<lambda>dup.
     if dup then raise (VERSION_EXISTS (v_version v) (v_templateId v)) 409
     else andThen (modifies (\<lambda>s. s\<lparr>versions := tput (versionId v) (clone_version v) (versions s)\<rparr>)) (\<lambda>_. ok v))"

definition store_getVersion :: "host \<Rightarrow> string \<Rightarrow> string \<Rightarrow> store \<Rightarrow> automation_error + automation_version option" where
  "store_getVersion h tenant vid s =
     (case tget (versions s) vid of
        None \<Rightarrow> Inr None
      | Some v \<Rightarrow> if tenantId v \<noteq> tenant then Inr None
                  else seq_res (verifyVersionChecksum h v) (\<lambda>_. Inr (Some (clone_version v))))"

definition store_getVersionByNumber ::
  "host \<Rightarrow> string \<Rightarrow> string \<Rightarrow> nat \<Rightarrow> store \<Rightarrow> automation_error + automation_version option" where
  "store_getVersionByNumber h tenant tid n s =
     (case find (\<lambda>v. tenantId v = tenant \<and> v_templateId v = tid \<and> v_version v = n) (tvals (versions s)) of
        None \<Rightarrow> Inr None
      | Some v \<Rightarrow> seq_res (verifyVersionChecksum h v) (\<lambda>_. Inr (Some (clone_version v))))"

definition store_nextVersionNumber :: "string \<Rightarrow> string \<Rightarrow> store \<Rightarrow> nat" where
  "store_nextVersionNumber tenant tid s =
     fold (\<lambda>v m. if tenantId v = tenant \<and> v_templateId v = tid then max m (v_version v) else m) (tvals (versions s)) 0 + 1"

definition store_listVersions :: "string \<Rightarrow> string \<Rightarrow> store \<Rightarrow> automation_version list" where
  "store_listVersions tenant tid s =
     map clone_version (sort_key v_version
       (filter (\<lambda>v. tenantId v = tenant \<and> v_templateId v = tid) (tvals (versions s))))"

section \<open>Input revisions\<close>

definition clone_entries :: "(string \<times> json) list \<Rightarrow> (string \<times> json) list" where
  "clone_entries es = entries (json_clone (JObj es))"

definition clone_revision :: "run_input_revision \<Rightarrow> run_input_revision" where
  "clone_revision r = r\<lparr>rev_values := clone_entries (rev_values r)\<rparr>"

definition store_saveInputRevision :: "run_input_revision \<Rightarrow> unit store_op" where
  "store_saveInputRevision revision =
     modifies (\<lambda>s. s\<lparr>inputs := tput (inputRevisionId revision) (clone_revision revision) (inputs s)\<rparr>)"

definition store_getInputRevision :: "string \<Rightarrow> string \<Rightarrow> string \<Rightarrow> store \<Rightarrow> run_input_revision option" where
  "store_getInputRevision tenant rid revId s =
     (case tget (inputs s) revId of
        None \<Rightarrow> None
      | Some revision \<Rightarrow> if rev_runId revision \<noteq> rid then None
                    else case tenant_run tenant rid s of None \<Rightarrow> None | Some _ \<Rightarrow> Some (clone_revision revision))"

section \<open>Runs\<close>

definition store_createRun :: "automation_run \<Rightarrow> automation_run store_op" where
  "store_createRun run =
     andThen (reads (\<lambda>s. thas (runs s) (runId run))) (\<lambda>dup.
     if dup then raise (RUN_EXISTS (runId run)) 409
     else andThen (modifies (\<lambda>s. s\<lparr>runs := tput (runId run) run (runs s)\<rparr>)) (\<lambda>_. ok run))"

definition store_getRun :: "string \<Rightarrow> string \<Rightarrow> store \<Rightarrow> automation_run option" where
  "store_getRun tenant rid s = tenant_run tenant rid s"

text \<open>The fenced write to the record itself: the token must be current, the table allow the move.\<close>

definition run_write :: "nat \<Rightarrow> run_status \<times> string optional \<times> int \<Rightarrow> automation_run \<Rightarrow> automation_error + automation_run" where
  "run_write expected c r =
     (case c of (to, err, now) \<Rightarrow>
        check (runVersion r \<noteq> expected) (AutomationError (RUN_FENCED (runId r)) 409) (applyTransition r to err now))"

definition store_transitionRun ::
  "string \<Rightarrow> string \<Rightarrow> nat \<Rightarrow> run_status \<Rightarrow> string optional \<Rightarrow> int \<Rightarrow> automation_run store_op" where
  "store_transitionRun tenant rid expected to err now =
     andThen (reads (tenant_run tenant rid)) (\<lambda>found.
     case found of
       None \<Rightarrow> raise (RUN_NOT_FOUND rid) 404
     | Some r \<Rightarrow>
         andThen (lift_res (run_write expected (to, err, now) r)) (\<lambda>updated.
         andThen (modifies (\<lambda>s. s\<lparr>runs := tput rid updated (runs s)\<rparr>)) (\<lambda>_. ok updated)))"

definition store_listRuns :: "string \<Rightarrow> string option \<Rightarrow> string option \<Rightarrow> store \<Rightarrow> automation_run list" where
  "store_listRuns tenant org proj s =
     sort_key createdAt (filter (\<lambda>r. tenantId r = tenant \<and> matches org (orgId r) \<and> matches proj (projectId r))
       (tvals (runs s)))"

section \<open>Steps\<close>

definition clone_step_state :: "run_step_state \<Rightarrow> run_step_state" where
  "clone_step_state st = st\<lparr>outputs := clone_entries (outputs st)\<rparr>"

definition store_upsertStepState :: "run_step_state \<Rightarrow> unit store_op" where
  "store_upsertStepState st =
     modifies (\<lambda>s. s\<lparr>step_states := tput (pair_key (st_runId st) (st_stepId st)) (clone_step_state st) (step_states s)\<rparr>)"

text \<open>\<^verbatim>\<open>localeCompare\<close> orders strings by the collation key of the runtime's locale.\<close>

definition store_getStepStates :: "(string \<Rightarrow> string) \<Rightarrow> string \<Rightarrow> string \<Rightarrow> store \<Rightarrow> run_step_state list" where
  "store_getStepStates collation tenant rid s =
     (case tenant_run tenant rid s of
        None \<Rightarrow> []
      | Some _ \<Rightarrow> map clone_step_state (sort_key (\<lambda>st. collation (st_stepId st))
                    (filter (\<lambda>st. st_runId st = rid) (tvals (step_states s)))))"

definition store_getStepState :: "string \<Rightarrow> string \<Rightarrow> string \<Rightarrow> store \<Rightarrow> run_step_state option" where
  "store_getStepState tenant rid sid s =
     (case tenant_run tenant rid s of
        None \<Rightarrow> None
      | Some _ \<Rightarrow> map_option clone_step_state (tget (step_states s) (pair_key rid sid)))"

section \<open>Job mappings\<close>

definition store_saveJobMapping :: "string \<Rightarrow> job_mapping \<Rightarrow> unit store_op" where
  "store_saveJobMapping newMappingId mapping =
     (let key = pair_key (jm_runId mapping) (jm_stepId mapping);
          m = mapping\<lparr>mappingId := (if mappingId mapping = [] then newMappingId else mappingId mapping)\<rparr>
      in andThen (reads (\<lambda>s. thas (mappings s) key)) (\<lambda>dup.
         if dup then raise (JOB_MAPPING_EXISTS (jm_stepId mapping) (jm_runId mapping)) 409
         else modifies (\<lambda>s. s\<lparr>mappings := tput key m (mappings s),
                              mappingsByJob := tput (jm_jobId m) m (mappingsByJob s)\<rparr>)))"

definition store_getJobMapping :: "string \<Rightarrow> string \<Rightarrow> string \<Rightarrow> store \<Rightarrow> job_mapping option" where
  "store_getJobMapping tenant rid sid s =
     (case tenant_run tenant rid s of None \<Rightarrow> None | Some _ \<Rightarrow> tget (mappings s) (pair_key rid sid))"

definition store_listJobMappings :: "string \<Rightarrow> string \<Rightarrow> store \<Rightarrow> job_mapping list" where
  "store_listJobMappings tenant rid s =
     (case tenant_run tenant rid s of
        None \<Rightarrow> []
      | Some _ \<Rightarrow> sort_key jm_createdAt (filter (\<lambda>m. jm_runId m = rid) (tvals (mappings s))))"

definition store_getJobMappingByJob :: "string \<Rightarrow> string \<Rightarrow> store \<Rightarrow> job_mapping option" where
  "store_getJobMappingByJob tenant jid s =
     (case tget (mappingsByJob s) jid of
        None \<Rightarrow> None
      | Some m \<Rightarrow> case tenant_run tenant (jm_runId m) s of None \<Rightarrow> None | Some _ \<Rightarrow> Some m)"

section \<open>Artifacts\<close>

definition clone_artifact :: "automation_artifact \<Rightarrow> automation_artifact" where
  "clone_artifact a = a\<lparr>art_metadata := json_clone (art_metadata a)\<rparr>"

definition store_saveArtifact :: "automation_artifact \<Rightarrow> unit store_op" where
  "store_saveArtifact a =
     andThen (reads (\<lambda>s. thas (store_artifacts s) (artifactId a))) (\<lambda>dup.
     if dup then raise (ARTIFACT_EXISTS (artifactId a)) 409
     else modifies (\<lambda>s. s\<lparr>store_artifacts := tput (artifactId a) (clone_artifact a) (store_artifacts s)\<rparr>))"

definition store_listArtifacts :: "string \<Rightarrow> string \<Rightarrow> store \<Rightarrow> automation_artifact list" where
  "store_listArtifacts tenant rid s =
     (case tenant_run tenant rid s of
        None \<Rightarrow> []
      | Some _ \<Rightarrow> map clone_artifact (sort_key art_createdAt
                    (filter (\<lambda>a. art_runId a = rid) (tvals (store_artifacts s)))))"

section \<open>Approvals\<close>

definition put_approval :: "string \<Rightarrow> approval_request \<Rightarrow> store \<Rightarrow> store" where
  "put_approval aid a s = s\<lparr>approvals := tput aid a (approvals s),
     approvalsByGate := tput (pair_key (apr_runId a) (gateId a)) a (approvalsByGate s)\<rparr>"

definition store_saveApprovalRequest :: "approval_request \<Rightarrow> unit store_op" where
  "store_saveApprovalRequest req =
     andThen (reads (\<lambda>s. thas (approvals s) (approvalId req))) (\<lambda>dup.
     if dup then raise (APPROVAL_EXISTS (approvalId req)) 409
     else andThen (reads (\<lambda>s. thas (approvalsByGate s) (pair_key (apr_runId req) (gateId req)))) (\<lambda>dupGate.
     if dupGate then raise (APPROVAL_EXISTS (gateId req)) 409
     else modifies (put_approval (approvalId req) req)))"

text \<open>The approval of that id, if its run exists and belongs to the tenant.\<close>

definition store_getApprovalRequest :: "string \<Rightarrow> string \<Rightarrow> store \<Rightarrow> approval_request option" where
  "store_getApprovalRequest tenant aid s =
     (case tget (approvals s) aid of
        None \<Rightarrow> None
      | Some a \<Rightarrow> case tenant_run tenant (apr_runId a) s of None \<Rightarrow> None | Some _ \<Rightarrow> Some a)"

definition store_getApprovalRequestByGate :: "string \<Rightarrow> string \<Rightarrow> string \<Rightarrow> store \<Rightarrow> approval_request option" where
  "store_getApprovalRequestByGate tenant rid gate s =
     (case tenant_run tenant rid s of None \<Rightarrow> None | Some _ \<Rightarrow> tget (approvalsByGate s) (pair_key rid gate))"

definition store_listApprovalRequests :: "string \<Rightarrow> string \<Rightarrow> store \<Rightarrow> approval_request list" where
  "store_listApprovalRequests tenant rid s =
     (case tenant_run tenant rid s of
        None \<Rightarrow> []
      | Some _ \<Rightarrow> sort_key apr_createdAt (filter (\<lambda>a. apr_runId a = rid) (tvals (approvals s))))"

type_synonym decision_args = "approval_decision \<times> decision_actor \<times> json optional \<times> int"

definition approval_write :: "nat \<Rightarrow> decision_args \<Rightarrow> approval_request \<Rightarrow> automation_error + approval_request" where
  "approval_write expected c a =
     (case c of (d, act, meta, now) \<Rightarrow>
        check (approvalVersion a \<noteq> expected) (AutomationError (APPROVAL_FENCED (approvalId a)) 409)
          (if apr_status a \<noteq> APending then Inr a else applyDecision a d act meta now))"

text \<open>
  On an approval that is already decided the source returns the record without writing; writing the
  unchanged record back is the same.
\<close>

definition store_decideApproval ::
  "string \<Rightarrow> string \<Rightarrow> nat \<Rightarrow> approval_decision \<Rightarrow> decision_actor \<Rightarrow> json optional \<Rightarrow> int \<Rightarrow> approval_request store_op" where
  "store_decideApproval tenant aid expected d act meta now =
     andThen (reads (store_getApprovalRequest tenant aid)) (\<lambda>found.
     case found of
       None \<Rightarrow> raise (APPROVAL_NOT_FOUND aid) 404
     | Some a \<Rightarrow>
         andThen (lift_res (approval_write expected (d, act, meta, now) a)) (\<lambda>updated.
         if apr_status a \<noteq> APending then ok updated
         else andThen (modifies (put_approval aid updated)) (\<lambda>_. ok updated)))"

definition store_expireApproval :: "string \<Rightarrow> string \<Rightarrow> int \<Rightarrow> approval_request option store_op" where
  "store_expireApproval tenant aid now =
     andThen (reads (store_getApprovalRequest tenant aid)) (\<lambda>found.
     case found of
       None \<Rightarrow> ok None
     | Some a \<Rightarrow>
         if apr_status a \<noteq> APending then ok (Some a)
         else if (case expiresAt a of None \<Rightarrow> True | Some t \<Rightarrow> t > now) then ok (Some a)
         else let updated = a\<lparr>apr_status := AExpired, decisionTime := Some now, approvalVersion := approvalVersion a + 1\<rparr>
              in andThen (modifies (put_approval aid updated)) (\<lambda>_. ok (Some updated)))"

section \<open>Deliveries\<close>

definition put_delivery :: "string \<Rightarrow> delivery_attempt \<Rightarrow> store \<Rightarrow> store" where
  "put_delivery did d s = s\<lparr>deliveries := tput did d (deliveries s),
     deliveriesByKey := tput (pair_key (dlv_runId d) (idempotencyKey d)) d (deliveriesByKey s)\<rparr>"

definition store_saveDeliveryAttempt :: "delivery_attempt \<Rightarrow> unit store_op" where
  "store_saveDeliveryAttempt d =
     andThen (reads (\<lambda>s. thas (deliveries s) (deliveryId d))) (\<lambda>dup.
     if dup then raise (DELIVERY_EXISTS (deliveryId d)) 409
     else andThen (reads (\<lambda>s. thas (deliveriesByKey s) (pair_key (dlv_runId d) (idempotencyKey d)))) (\<lambda>dupKey.
     if dupKey then raise (DELIVERY_EXISTS (idempotencyKey d)) 409
     else modifies (put_delivery (deliveryId d) d)))"

definition store_getDeliveryAttempt :: "string \<Rightarrow> string \<Rightarrow> store \<Rightarrow> delivery_attempt option" where
  "store_getDeliveryAttempt tenant did s =
     (case tget (deliveries s) did of
        None \<Rightarrow> None
      | Some d \<Rightarrow> case tenant_run tenant (dlv_runId d) s of None \<Rightarrow> None | Some _ \<Rightarrow> Some d)"

definition store_getDeliveryAttemptByKey :: "string \<Rightarrow> string \<Rightarrow> string \<Rightarrow> store \<Rightarrow> delivery_attempt option" where
  "store_getDeliveryAttemptByKey tenant rid key s =
     (case tenant_run tenant rid s of None \<Rightarrow> None | Some _ \<Rightarrow> tget (deliveriesByKey s) (pair_key rid key))"

definition store_listDeliveryAttempts :: "string \<Rightarrow> string \<Rightarrow> store \<Rightarrow> delivery_attempt list" where
  "store_listDeliveryAttempts tenant rid s =
     (case tenant_run tenant rid s of
        None \<Rightarrow> []
      | Some _ \<Rightarrow> sort_key dlv_createdAt (filter (\<lambda>d. dlv_runId d = rid) (tvals (deliveries s))))"

type_synonym settle_args = "delivery_status \<times> string option \<times> string optional \<times> int"

text \<open>
  The record written by \<^verbatim>\<open>transitionDelivery\<close>. The last branch of the source writes
  \<^verbatim>\<open>in_progress\<close> whatever the remaining target is.
\<close>

definition delivery_write :: "nat \<Rightarrow> settle_args \<Rightarrow> delivery_attempt \<Rightarrow> automation_error + delivery_attempt" where
  "delivery_write expected c d =
     (case c of (to, ref, err, now) \<Rightarrow>
        check (deliveryVersion d \<noteq> expected) (AutomationError (DELIVERY_FENCED (deliveryId d)) 409)
       (check (dlv_status d = to \<or> dlv_status d = DDelivered \<or> dlv_status d = DFailed) (illegal_delivery d to)
       (Inr (if to = DDelivered then
               d\<lparr>dlv_status := DDelivered, resultRef := (case ref of Some x \<Rightarrow> Some x | None \<Rightarrow> resultRef d),
                 dlv_updatedAt := now, lastError := None, deliveryVersion := deliveryVersion d + 1\<rparr>
             else if to = DFailed then
               d\<lparr>dlv_status := DFailed, lastError := (case err of Value e \<Rightarrow> Some e | _ \<Rightarrow> lastError d),
                 dlv_updatedAt := now, deliveryVersion := deliveryVersion d + 1\<rparr>
             else
               d\<lparr>dlv_status := DInProgress, attempts := attempts d + 1, dlv_updatedAt := now,
                 deliveryVersion := deliveryVersion d + 1\<rparr>))))"

definition store_transitionDelivery ::
  "string \<Rightarrow> string \<Rightarrow> nat \<Rightarrow> delivery_status \<Rightarrow> string option \<Rightarrow> string optional \<Rightarrow> int \<Rightarrow> delivery_attempt store_op" where
  "store_transitionDelivery tenant did expected to ref err now =
     andThen (reads (store_getDeliveryAttempt tenant did)) (\<lambda>found.
     case found of
       None \<Rightarrow> raise (DELIVERY_NOT_FOUND did) 404
     | Some d \<Rightarrow>
         andThen (lift_res (delivery_write expected (to, ref, err, now) d)) (\<lambda>updated.
         andThen (modifies (put_delivery did updated)) (\<lambda>_. ok updated)))"

section \<open>Events\<close>

definition run_events :: "string \<Rightarrow> store \<Rightarrow> automation_event list" where
  "run_events rid s = (case tget (events s) rid of None \<Rightarrow> [] | Some l \<Rightarrow> l)"

definition store_appendEvent :: "string \<Rightarrow> automation_event \<Rightarrow> unit store_op" where
  "store_appendEvent tenant e =
     andThen (reads (run_events (ev_runId e))) (\<lambda>l.
     if \<exists>x \<in> set l. ev_seq x = ev_seq e then ok ()
     else modifies (\<lambda>s. s\<lparr>events := tput (ev_runId e) (l @ [e]) (events s)\<rparr>))"

definition store_listEvents :: "string \<Rightarrow> string \<Rightarrow> nat \<Rightarrow> store \<Rightarrow> automation_event list" where
  "store_listEvents tenant rid afterSeq s =
     (case tenant_run tenant rid s of
        None \<Rightarrow> []
      | Some _ \<Rightarrow> filter (\<lambda>e. ev_seq e > afterSeq) (run_events rid s))"

section \<open>Operational listings\<close>

definition store_listExpiredApprovals :: "string \<Rightarrow> int \<Rightarrow> store \<Rightarrow> approval_request list" where
  "store_listExpiredApprovals tenant now s =
     filter (\<lambda>a. tenant_run tenant (apr_runId a) s \<noteq> None \<and> apr_status a = APending
               \<and> (case expiresAt a of None \<Rightarrow> False | Some t \<Rightarrow> t \<le> now)) (tvals (approvals s))"

definition store_listFailedDeliveriesForRetry :: "string \<Rightarrow> store \<Rightarrow> delivery_attempt list" where
  "store_listFailedDeliveriesForRetry tenant s =
     filter (\<lambda>d. case tenant_run tenant (dlv_runId d) s of
                   None \<Rightarrow> False
                 | Some r \<Rightarrow> dlv_status d = DFailed \<and> (status r = Delivering \<or> status r = Failed)) (tvals (deliveries s))"

definition stale_statuses :: "run_status list" where
  "stale_statuses = [Admitted, Running, Collecting, AwaitingApproval, Delivering]"

definition store_listStaleRuns :: "string \<Rightarrow> int \<Rightarrow> nat \<Rightarrow> store \<Rightarrow> automation_run list" where
  "store_listStaleRuns tenant staleBefore limit s =
     take limit (sort_key updatedAt
       (filter (\<lambda>r. tenantId r = tenant \<and> status r \<in> set stale_statuses \<and> updatedAt r < staleBefore) (tvals (runs s))))"

section \<open>The steps of the store\<close>

text \<open>
  Every method that writes, called by anyone with any arguments. A sequence of steps is an
  interleaving of the calls of concurrent clients.
\<close>

inductive store_step :: "store \<Rightarrow> store \<Rightarrow> bool" where
  step_createTemplate: "store_createTemplate t s = (res, s') \<Longrightarrow> store_step s s'"
| step_archiveTemplate: "store_archiveTemplate tenant tid now s = (resa, s') \<Longrightarrow> store_step s s'"
| step_createVersion: "store_createVersion v s = (resv, s') \<Longrightarrow> store_step s s'"
| step_saveInputRevision: "store_saveInputRevision revision s = (resu, s') \<Longrightarrow> store_step s s'"
| step_createRun: "run_wf run \<Longrightarrow> store_createRun run s = (resr, s') \<Longrightarrow> store_step s s'"
| step_transitionRun: "store_transitionRun tenant rid n to err now s = (resr, s') \<Longrightarrow> store_step s s'"
| step_upsertStepState: "store_upsertStepState st s = (resu, s') \<Longrightarrow> store_step s s'"
| step_saveJobMapping: "store_saveJobMapping newId m s = (resu, s') \<Longrightarrow> store_step s s'"
| step_saveArtifact: "store_saveArtifact a s = (resu, s') \<Longrightarrow> store_step s s'"
| step_saveApprovalRequest: "approval_wf req \<Longrightarrow> store_saveApprovalRequest req s = (resu, s') \<Longrightarrow> store_step s s'"
| step_decideApproval: "store_decideApproval tenant aid n d act meta now s = (resp, s') \<Longrightarrow> store_step s s'"
| step_expireApproval: "store_expireApproval tenant aid now s = (rese, s') \<Longrightarrow> store_step s s'"
| step_saveDeliveryAttempt: "store_saveDeliveryAttempt dl s = (resu, s') \<Longrightarrow> store_step s s'"
| step_transitionDelivery: "store_transitionDelivery tenant did n dto ref err now s = (resd, s') \<Longrightarrow> store_step s s'"
| step_appendEvent: "store_appendEvent tenant e s = (resu, s') \<Longrightarrow> store_step s s'"

inductive_cases store_stepE: "store_step s s'"

inductive store_steps :: "store \<Rightarrow> store \<Rightarrow> bool" where
  steps_refl: "store_steps s s"
| steps_next: "store_steps s t \<Longrightarrow> store_step t u \<Longrightarrow> store_steps s u"

section \<open>Fenced records\<close>

definition run_terminal :: "automation_run \<Rightarrow> bool" where
  "run_terminal r \<longleftrightarrow> isTerminalRun (status r)"

lemma run_write_Inr:
  "run_write n (to, err, now) r = Inr r' \<longleftrightarrow> runVersion r = n \<and> applyTransition r to err now = Inr r'"
  by (auto simp: run_write_def)

interpretation frun: fenced runVersion run_terminal run_write
proof (unfold_locales, goal_cases)
  case (1 v c r r')
  then show ?case by (cases c) (simp add: run_write_Inr)
next
  case (2 v c r r')
  then show ?case by (cases c) (auto simp: run_write_Inr applyTransition_Inr)
next
  case (3 v c r r')
  then show ?case
    by (cases c) (auto simp: run_write_Inr applyTransition_Inr run_terminal_def simp flip: TRANSITIONS_Nil_iff)
qed

text \<open>An approval is written by a decision at a version or by the expiry of a due request.\<close>

definition expired_copy :: "approval_request \<Rightarrow> int \<Rightarrow> approval_request" where
  "expired_copy a now = a\<lparr>apr_status := AExpired, decisionTime := Some now, approvalVersion := approvalVersion a + 1\<rparr>"

fun approval_change :: "nat \<Rightarrow> decision_args + int \<Rightarrow> approval_request \<Rightarrow> automation_error + approval_request" where
  "approval_change n (Inl c) a = approval_write n c a"
| "approval_change n (Inr now) a =
     check (approvalVersion a \<noteq> n) (AutomationError (APPROVAL_FENCED (approvalId a)) 409)
       (if approval_terminal a then Inr a else Inr (expired_copy a now))"

lemma approval_write_Inr:
  "approval_write n (d, act, meta, now) a = Inr a' \<longleftrightarrow> approvalVersion a = n \<and>
     (if apr_status a \<noteq> APending then a' = a else applyDecision a d act meta now = Inr a')"
  by (auto simp: approval_write_def)

interpretation fapr: fenced approvalVersion approval_terminal approval_change
proof (unfold_locales, goal_cases)
  case (1 v c r r')
  then show ?case by (cases "(v, c, r)" rule: approval_change.cases) (auto simp: approval_write_def split: prod.splits)
next
  case (2 v c r r')
  then show ?case
    by (cases "(v, c, r)" rule: approval_change.cases)
      (auto simp: approval_write_Inr applyDecision_Inr approval_terminal_iff expired_copy_def split: prod.splits)
next
  case (3 v c r r')
  then show ?case
    by (cases "(v, c, r)" rule: approval_change.cases)
      (auto simp: approval_write_Inr approval_terminal_iff split: prod.splits)
qed

definition delivery_terminal :: "delivery_attempt \<Rightarrow> bool" where
  "delivery_terminal d \<longleftrightarrow> dlv_status d \<in> set TERMINAL_DELIVERY_STATUSES"

lemma delivery_terminal_iff: "delivery_terminal d \<longleftrightarrow> dlv_status d = DDelivered \<or> dlv_status d = DFailed"
  by (auto simp: delivery_terminal_def TERMINAL_DELIVERY_STATUSES_def)

interpretation fdlv: fenced deliveryVersion delivery_terminal delivery_write
  by unfold_locales (auto simp: delivery_write_def delivery_terminal_iff split: prod.splits)

section \<open>What a step does to each table\<close>

lemma tenant_run_Some: "tenant_run tenant rid s = Some r \<longleftrightarrow> tget (runs s) rid = Some r \<and> tenantId r = tenant"
  by (auto simp: tenant_run_def split: option.splits)

lemma getApproval_Some:
  "store_getApprovalRequest tenant aid s = Some a \<longleftrightarrow>
     tget (approvals s) aid = Some a \<and> tenant_run tenant (apr_runId a) s \<noteq> None"
  by (auto simp: store_getApprovalRequest_def split: option.splits)

lemma getDelivery_Some:
  "store_getDeliveryAttempt tenant did s = Some d \<longleftrightarrow>
     tget (deliveries s) did = Some d \<and> tenant_run tenant (dlv_runId d) s \<noteq> None"
  by (auto simp: store_getDeliveryAttempt_def split: option.splits)

lemmas store_op_defs =
  store_createTemplate_def store_archiveTemplate_def store_createVersion_def store_saveInputRevision_def
  store_createRun_def store_transitionRun_def store_upsertStepState_def store_saveJobMapping_def
  store_saveArtifact_def store_saveApprovalRequest_def store_decideApproval_def store_expireApproval_def
  store_saveDeliveryAttempt_def store_transitionDelivery_def store_appendEvent_def
  put_approval_def put_delivery_def

lemmas op_splits = option.splits if_splits sum.splits prod.splits

text \<open>The outcomes of the three fenced writes.\<close>

lemma transitionRun_cases:
  assumes "store_transitionRun tenant rid n to err now s = (res, s')"
  shows "(\<exists>e. res = Inl e \<and> s' = s) \<or>
    (\<exists>r r'. tget (runs s) rid = Some r \<and> tenantId r = tenant \<and> run_write n (to, err, now) r = Inr r'
       \<and> res = Inr r' \<and> s' = s\<lparr>runs := tput rid r' (runs s)\<rparr>)"
  using assms by (auto simp: store_transitionRun_def tenant_run_Some split: op_splits dest!: sym [of "Inl _"] sym [of "Inr _"])

lemma decideApproval_cases:
  assumes "store_decideApproval tenant aid n d act meta now s = (res, s')"
  shows "((\<exists>e. res = Inl e) \<and> s' = s) \<or>
    (\<exists>a a'. store_getApprovalRequest tenant aid s = Some a \<and> approval_write n (d, act, meta, now) a = Inr a'
       \<and> res = Inr a' \<and> s' = (if apr_status a = APending then put_approval aid a' s else s))"
  using assms by (auto simp: store_decideApproval_def split: op_splits dest!: sym [of "Inl _"] sym [of "Inr _"])

lemma expireApproval_cases:
  assumes "store_expireApproval tenant aid now s = (res, s')"
  shows "s' = s \<or> (\<exists>a. store_getApprovalRequest tenant aid s = Some a \<and> apr_status a = APending
    \<and> isExpired a now \<and> s' = put_approval aid (expired_copy a now) s)"
  using assms
  by (auto simp: store_expireApproval_def expired_copy_def isExpired_def Let_def split: op_splits)

lemma transitionDelivery_cases:
  assumes "store_transitionDelivery tenant did n to ref err now s = (res, s')"
  shows "(\<exists>e. res = Inl e \<and> s' = s) \<or>
    (\<exists>d d'. store_getDeliveryAttempt tenant did s = Some d \<and> delivery_write n (to, ref, err, now) d = Inr d'
       \<and> res = Inr d' \<and> s' = put_delivery did d' s)"
  using assms by (auto simp: store_transitionDelivery_def split: op_splits dest!: sym [of "Inl _"] sym [of "Inr _"])

lemma step_run:
  assumes "store_step s s'" "tget (runs s) rid = Some r"
  shows "\<exists>r'. tget (runs s') rid = Some r' \<and> frun.evolves r r'"
  using assms(1)
proof (cases rule: store_step.cases)
  case (step_transitionRun tenant k n to err now res)
  then show ?thesis
    using assms(2) transitionRun_cases [OF step_transitionRun] frun.evolves_write
    by (cases "k = rid") auto
qed (use assms(2) in \<open>auto simp: store_op_defs Let_def split: op_splits\<close>)

lemma step_approval:
  assumes "store_step s s'" "tget (approvals s) aid = Some a"
  shows "\<exists>a'. tget (approvals s') aid = Some a' \<and> fapr.evolves a a'"
  using assms(1)
proof (cases rule: store_step.cases)
  case (step_decideApproval tenant k n d act meta now res)
  then show ?thesis
    using assms(2) decideApproval_cases [OF step_decideApproval] fapr.evolves_write [of n "Inl (d, act, meta, now)" a]
    by (cases "k = aid") (auto simp: put_approval_def getApproval_Some)
next
  case (step_expireApproval tenant k now res)
  then show ?thesis
    using assms(2) expireApproval_cases [OF step_expireApproval] fapr.evolves_write [of "approvalVersion a" "Inr now" a]
    by (cases "k = aid") (auto simp: put_approval_def getApproval_Some approval_terminal_iff check_def)
qed (use assms(2) in \<open>auto simp: store_op_defs Let_def split: op_splits\<close>)

lemma step_delivery:
  assumes "store_step s s'" "tget (deliveries s) did = Some d"
  shows "\<exists>d'. tget (deliveries s') did = Some d' \<and> fdlv.evolves d d'"
  using assms(1)
proof (cases rule: store_step.cases)
  case (step_transitionDelivery tenant k n to ref err now res)
  then show ?thesis
    using assms(2) transitionDelivery_cases [OF step_transitionDelivery] fdlv.evolves_write
    by (cases "k = did") (auto simp: put_delivery_def getDelivery_Some)
qed (use assms(2) in \<open>auto simp: store_op_defs Let_def split: op_splits\<close>)

lemma steps_run:
  "store_steps s s' \<Longrightarrow> tget (runs s) rid = Some r \<Longrightarrow> \<exists>r'. tget (runs s') rid = Some r' \<and> frun.evolves r r'"
  by (induction rule: store_steps.induct) (auto dest: step_run intro: frun.evolves_trans)

lemma steps_approval:
  "store_steps s s' \<Longrightarrow> tget (approvals s) aid = Some a \<Longrightarrow> \<exists>a'. tget (approvals s') aid = Some a' \<and> fapr.evolves a a'"
  by (induction rule: store_steps.induct) (auto dest: step_approval intro: fapr.evolves_trans)

lemma steps_delivery:
  "store_steps s s' \<Longrightarrow> tget (deliveries s) did = Some d \<Longrightarrow> \<exists>d'. tget (deliveries s') did = Some d' \<and> fdlv.evolves d d'"
  by (induction rule: store_steps.induct) (auto dest: step_delivery intro: fdlv.evolves_trans)

section \<open>The invariant of the store\<close>

text \<open>
  Runs are filed under their id and well formed. An approval is filed under its id and under the
  key of its gate, as the same record, and so is a delivery under its idempotency key. A mapping is
  filed under the key of its step, and the index by job agrees with it. The events of a run carry
  its id and distinct sequence numbers.
\<close>

definition runs_ok :: "store \<Rightarrow> bool" where
  "runs_ok s \<longleftrightarrow> (\<forall>k r. tget (runs s) k = Some r \<longrightarrow> runId r = k \<and> run_wf r)"

definition gate_key :: "approval_request \<Rightarrow> string" where
  "gate_key a = pair_key (apr_runId a) (gateId a)"

definition delivery_key :: "delivery_attempt \<Rightarrow> string" where
  "delivery_key d = pair_key (dlv_runId d) (idempotencyKey d)"

definition approvals_ok :: "store \<Rightarrow> bool" where
  "approvals_ok s \<longleftrightarrow> indexed approvalId gate_key (tget (approvals s)) (tget (approvalsByGate s))
     \<and> (\<forall>k a. tget (approvals s) k = Some a \<longrightarrow> approval_wf a)"

definition deliveries_ok :: "store \<Rightarrow> bool" where
  "deliveries_ok s \<longleftrightarrow> indexed deliveryId delivery_key (tget (deliveries s)) (tget (deliveriesByKey s))"

definition mappings_ok :: "store \<Rightarrow> bool" where
  "mappings_ok s \<longleftrightarrow>
     (\<forall>k m. tget (mappings s) k = Some m \<longrightarrow> k = pair_key (jm_runId m) (jm_stepId m) \<and> thas (mappingsByJob s) (jm_jobId m)) \<and>
     (\<forall>j m. tget (mappingsByJob s) j = Some m \<longrightarrow>
        jm_jobId m = j \<and> tget (mappings s) (pair_key (jm_runId m) (jm_stepId m)) = Some m)"

definition events_ok :: "store \<Rightarrow> bool" where
  "events_ok s \<longleftrightarrow> (\<forall>rid l. tget (events s) rid = Some l \<longrightarrow> distinct (map ev_seq l) \<and> (\<forall>e \<in> set l. ev_runId e = rid))"

definition store_inv :: "store \<Rightarrow> bool" where
  "store_inv s \<longleftrightarrow> runs_ok s \<and> approvals_ok s \<and> deliveries_ok s \<and> mappings_ok s \<and> events_ok s"

lemma empty_store_inv: "store_inv empty_store"
  by (simp add: store_inv_def runs_ok_def approvals_ok_def deliveries_ok_def mappings_ok_def events_ok_def empty_store_def)

text \<open>A write to a record keeps the keys it is filed under.\<close>

lemma run_write_wf: "run_write n c r = Inr r' \<Longrightarrow> run_wf r' \<and> runId r' = runId r"
  by (cases c) (auto simp: run_write_Inr applyTransition_Inr run_wf_def split: if_splits)

lemma approval_write_wf:
  assumes "approval_write n c a = Inr a'" "approval_wf a"
  shows "approval_wf a' \<and> approvalId a' = approvalId a \<and> apr_runId a' = apr_runId a \<and> gateId a' = gateId a"
  using assms approval_wf_applyDecision
  by (cases c) (auto simp: approval_write_Inr applyDecision_Inr split: if_splits)

lemma expired_copy_keys [simp]:
  "approvalId (expired_copy a now) = approvalId a" "apr_runId (expired_copy a now) = apr_runId a"
  "gateId (expired_copy a now) = gateId a"
  by (simp_all add: expired_copy_def)

lemma expired_copy_wf:
  "approval_wf a \<Longrightarrow> apr_status a = APending \<Longrightarrow> approval_wf (expired_copy a now)"
  by (auto simp: approval_wf_def expired_copy_def)

lemma delivery_write_keys:
  "delivery_write n c d = Inr d' \<Longrightarrow>
     deliveryId d' = deliveryId d \<and> dlv_runId d' = dlv_runId d \<and> idempotencyKey d' = idempotencyKey d"
  by (auto simp: delivery_write_def split: prod.splits)

lemma put_approval_simps [simp]:
  "tget (approvals (put_approval k a s)) = (tget (approvals s))(k \<mapsto> a)"
  "tget (approvalsByGate (put_approval k a s)) = (tget (approvalsByGate s))(gate_key a \<mapsto> a)"
  by (simp_all add: put_approval_def gate_key_def)

lemma put_delivery_simps [simp]:
  "tget (deliveries (put_delivery k d s)) = (tget (deliveries s))(k \<mapsto> d)"
  "tget (deliveriesByKey (put_delivery k d s)) = (tget (deliveriesByKey s))(delivery_key d \<mapsto> d)"
  by (simp_all add: put_delivery_def delivery_key_def)

lemma put_approval_ok:
  assumes "approvals_ok s" "tget (approvals s) aid = Some a" "approval_wf a'"
    and "approvalId a' = approvalId a" "gate_key a' = gate_key a"
  shows "approvals_ok (put_approval aid a' s)"
  using assms indexed_update [of approvalId gate_key _ _ aid a a'] by (auto simp: approvals_ok_def)

lemma new_mapping_ok:
  assumes "mappings_ok s" "tget (mappings s) (pair_key (jm_runId m) (jm_stepId m)) = None"
  shows "mappings_ok (s\<lparr>mappings := tput (pair_key (jm_runId m) (jm_stepId m)) m (mappings s),
    mappingsByJob := tput (jm_jobId m) m (mappingsByJob s)\<rparr>)"
  using assms unfolding mappings_ok_def by simp (metis option.distinct(1))

text \<open>Each part of the invariant is kept by every step.\<close>

lemma runs_ok_step:
  assumes "store_step s s'" "runs_ok s"
  shows "runs_ok s'"
  using assms(1)
proof (cases rule: store_step.cases)
  case (step_transitionRun tenant k n to err now res)
  then show ?thesis
    using assms(2) transitionRun_cases [OF step_transitionRun]
    by (auto simp: runs_ok_def dest!: run_write_wf split: if_splits)
qed (use assms(2) in \<open>auto simp: runs_ok_def store_op_defs Let_def split: op_splits\<close>)

lemma approvals_ok_step:
  assumes "store_step s s'" "approvals_ok s"
  shows "approvals_ok s'"
  using assms(1)
proof (cases rule: store_step.cases)
  case (step_saveApprovalRequest req res)
  then show ?thesis
    using assms(2) indexed_new [of approvalId gate_key "tget (approvals s)" "tget (approvalsByGate s)" req]
    by (auto simp: store_saveApprovalRequest_def approvals_ok_def gate_key_def split: op_splits)
next
  case (step_decideApproval tenant k n d act meta now res)
  have "approvals_ok (put_approval k a' s)"
    if "tget (approvals s) k = Some a" "approval_write n (d, act, meta, now) a = Inr a'" for a a'
    using put_approval_ok [OF assms(2) that(1)] approval_write_wf [OF that(2)] that(1) assms(2)
    by (auto simp: gate_key_def approvals_ok_def)
  then show ?thesis
    using decideApproval_cases [OF step_decideApproval] assms(2) by (auto simp: getApproval_Some)
next
  case (step_expireApproval tenant k now res)
  have "approvals_ok (put_approval k (expired_copy a now) s)"
    if "tget (approvals s) k = Some a" "apr_status a = APending" for a
    using put_approval_ok [OF assms(2) that(1)] expired_copy_wf [OF _ that(2)] that(1) assms(2)
    by (auto simp: gate_key_def approvals_ok_def)
  then show ?thesis
    using expireApproval_cases [OF step_expireApproval] assms(2) by (auto simp: getApproval_Some)
qed (use assms(2) in \<open>auto simp: approvals_ok_def store_op_defs Let_def split: op_splits\<close>)

lemma deliveries_ok_step:
  assumes "store_step s s'" "deliveries_ok s"
  shows "deliveries_ok s'"
  using assms(1)
proof (cases rule: store_step.cases)
  case (step_saveDeliveryAttempt d res)
  then show ?thesis
    using assms(2) indexed_new [of deliveryId delivery_key "tget (deliveries s)" "tget (deliveriesByKey s)" d]
    by (auto simp: store_saveDeliveryAttempt_def deliveries_ok_def delivery_key_def split: op_splits)
next
  case (step_transitionDelivery tenant k n to ref err now res)
  have "deliveries_ok (put_delivery k d' s)"
    if "tget (deliveries s) k = Some d" "delivery_write n (to, ref, err, now) d = Inr d'" for d d'
    using indexed_update [of deliveryId delivery_key _ _ k d d'] delivery_write_keys [OF that(2)] that(1) assms(2)
    by (auto simp: delivery_key_def deliveries_ok_def)
  then show ?thesis
    using transitionDelivery_cases [OF step_transitionDelivery] assms(2) by (auto simp: getDelivery_Some)
qed (use assms(2) in \<open>auto simp: deliveries_ok_def store_op_defs Let_def split: op_splits\<close>)

lemma mappings_ok_step:
  assumes "store_step s s'" "mappings_ok s"
  shows "mappings_ok s'"
  using assms(1)
proof (cases rule: store_step.cases)
  case (step_saveJobMapping newId m res)
  then show ?thesis
    using assms(2) new_mapping_ok [of s "m\<lparr>mappingId := (if mappingId m = [] then newId else mappingId m)\<rparr>"]
    by (auto simp: store_saveJobMapping_def Let_def split: op_splits)
qed (use assms(2) in \<open>auto simp: mappings_ok_def store_op_defs Let_def split: op_splits\<close>)

lemma events_ok_step:
  assumes "store_step s s'" "events_ok s"
  shows "events_ok s'"
  using assms(1)
proof (cases rule: store_step.cases)
  case (step_appendEvent tenant e res)
  then show ?thesis
    using assms(2) by (fastforce simp: store_appendEvent_def events_ok_def run_events_def split: op_splits)
qed (use assms(2) in \<open>auto simp: events_ok_def store_op_defs Let_def split: op_splits\<close>)

lemma store_inv_step: "store_step s s' \<Longrightarrow> store_inv s \<Longrightarrow> store_inv s'"
  unfolding store_inv_def
  by (blast intro: runs_ok_step approvals_ok_step deliveries_ok_step mappings_ok_step events_ok_step)

lemma store_inv_steps: "store_steps s s' \<Longrightarrow> store_inv s \<Longrightarrow> store_inv s'"
  by (induction rule: store_steps.induct) (auto intro: store_inv_step)

section \<open>Tenants\<close>

text \<open>The methods that change records on behalf of a tenant.\<close>

inductive tenant_step :: "string \<Rightarrow> store \<Rightarrow> store \<Rightarrow> bool" for tenant where
  ts_archive: "store_archiveTemplate tenant tid now s = (resa, s') \<Longrightarrow> tenant_step tenant s s'"
| ts_run: "store_transitionRun tenant rid n to err now s = (resr, s') \<Longrightarrow> tenant_step tenant s s'"
| ts_decide: "store_decideApproval tenant aid n d act meta now s = (resp, s') \<Longrightarrow> tenant_step tenant s s'"
| ts_expire: "store_expireApproval tenant aid now s = (rese, s') \<Longrightarrow> tenant_step tenant s s'"
| ts_delivery: "store_transitionDelivery tenant did n dto ref err now s = (resd, s') \<Longrightarrow> tenant_step tenant s s'"

text \<open>Two stores that answer every query of a tenant on the changeable records alike.\<close>

definition same_view :: "string \<Rightarrow> store \<Rightarrow> store \<Rightarrow> bool" where
  "same_view tenant s s' \<longleftrightarrow>
     (\<forall>tid. store_getTemplate tenant tid s' = store_getTemplate tenant tid s) \<and>
     (\<forall>org proj. store_listTemplates tenant org proj s' = store_listTemplates tenant org proj s) \<and>
     (\<forall>rid. store_getRun tenant rid s' = store_getRun tenant rid s) \<and>
     (\<forall>org proj. store_listRuns tenant org proj s' = store_listRuns tenant org proj s) \<and>
     (\<forall>t n. store_listStaleRuns tenant t n s' = store_listStaleRuns tenant t n s) \<and>
     (\<forall>aid. store_getApprovalRequest tenant aid s' = store_getApprovalRequest tenant aid s) \<and>
     (\<forall>rid g. store_getApprovalRequestByGate tenant rid g s' = store_getApprovalRequestByGate tenant rid g s) \<and>
     (\<forall>rid. store_listApprovalRequests tenant rid s' = store_listApprovalRequests tenant rid s) \<and>
     (\<forall>did. store_getDeliveryAttempt tenant did s' = store_getDeliveryAttempt tenant did s) \<and>
     (\<forall>rid k. store_getDeliveryAttemptByKey tenant rid k s' = store_getDeliveryAttemptByKey tenant rid k s) \<and>
     (\<forall>rid. store_listDeliveryAttempts tenant rid s' = store_listDeliveryAttempts tenant rid s)"

lemmas view_defs = same_view_def store_getTemplate_def store_listTemplates_def store_getRun_def store_listRuns_def
  store_listStaleRuns_def store_getApprovalRequest_def store_getApprovalRequestByGate_def store_listApprovalRequests_def
  store_getDeliveryAttempt_def store_getDeliveryAttemptByKey_def store_listDeliveryAttempts_def

lemma same_view_refl [simp]: "same_view tenant s s"
  by (simp add: same_view_def)

lemma filter_tvals_tput:
  "tget t k = Some v \<Longrightarrow> \<not> P v \<Longrightarrow> \<not> P w \<Longrightarrow> filter P (tvals (tput k w t)) = filter P (tvals t)"
  by (induction t) (auto split: if_splits)

text \<open>A run id without the separator makes the composite keys unambiguous.\<close>

definition plain :: "string \<Rightarrow> bool" where
  "plain rid \<longleftrightarrow> CHR ''|'' \<notin> set rid"

lemma takeWhile_pair_key: "plain r \<Longrightarrow> takeWhile (\<lambda>c. c \<noteq> CHR ''|'') (pair_key r i) = r"
  by (subst pair_key_def, subst takeWhile_append2) (auto simp: plain_def)

lemma pair_key_inject: "plain r \<Longrightarrow> plain r' \<Longrightarrow> pair_key r i = pair_key r' i' \<longleftrightarrow> r = r' \<and> i = i'"
  using takeWhile_pair_key [of r i] takeWhile_pair_key [of r' i'] by (auto simp: pair_key_def)

definition plain_runs :: "store \<Rightarrow> bool" where
  "plain_runs s \<longleftrightarrow> (\<forall>rid \<in> set (tkeys (runs s)). plain rid)"

lemma tenant_run_plain: "plain_runs s \<Longrightarrow> tenant_run tenant rid s = Some r \<Longrightarrow> plain rid"
  by (auto simp: plain_runs_def tenant_run_Some dest: tget_Some_key)

lemma tenant_run_put:
  assumes "tget (runs s) rid = Some r" "tenantId r = tenant" "tenantId r' = tenant" "tenant \<noteq> other"
  shows "tenant_run other k (s\<lparr>runs := tput rid r' (runs s)\<rparr>) = tenant_run other k s"
  using assms by (auto simp: tenant_run_def)

lemma run_write_tenant: "run_write n c r = Inr r' \<Longrightarrow> tenantId r' = tenantId r"
  by (cases c) (auto simp: run_write_Inr applyTransition_Inr)

lemma same_view_run:
  assumes "tget (runs s) rid = Some r" "tenantId r = tenant" "tenantId r' = tenant" "tenant \<noteq> other"
  shows "same_view other s (s\<lparr>runs := tput rid r' (runs s)\<rparr>)"
proof -
  have f: "filter (\<lambda>r. tenantId r = other \<and> P r) (tvals (tput rid r' (runs s))) = filter (\<lambda>r. tenantId r = other \<and> P r) (tvals (runs s))" for P
    using assms by (intro filter_tvals_tput) auto
  show ?thesis
    by (simp add: view_defs f tenant_run_put [OF assms] cong: option.case_cong del: map_map filter_map tget_tput)
qed

lemma same_view_template:
  assumes "tget (templates s) tid = Some t" "tenantId t = tenant" "tenantId t' = tenant" "tenant \<noteq> other"
  shows "same_view other s (s\<lparr>templates := tput tid t' (templates s)\<rparr>)"
proof -
  have f: "filter (\<lambda>t. tenantId t = other \<and> P t) (tvals (tput tid t' (templates s))) = filter (\<lambda>t. tenantId t = other \<and> P t) (tvals (templates s))" for P
    using assms by (intro filter_tvals_tput) auto
  show ?thesis
    using assms by (auto simp: view_defs tenant_run_def f cong: option.case_cong split: option.splits simp del: map_map filter_map)
qed

lemma put_approval_sel [simp]:
  "templates (put_approval k a s) = templates s" "runs (put_approval k a s) = runs s"
  "approvals (put_approval k a s) = tput k a (approvals s)"
  "deliveries (put_approval k a s) = deliveries s" "deliveriesByKey (put_approval k a s) = deliveriesByKey s"
  by (simp_all add: put_approval_def)

lemma put_delivery_sel [simp]:
  "templates (put_delivery k d s) = templates s" "runs (put_delivery k d s) = runs s"
  "approvals (put_delivery k d s) = approvals s" "approvalsByGate (put_delivery k d s) = approvalsByGate s"
  "deliveries (put_delivery k d s) = tput k d (deliveries s)"
  by (simp_all add: put_delivery_def)

lemma same_view_approval:
  assumes "plain_runs s" "approvals_ok s" "store_getApprovalRequest tenant aid s = Some a" "tenant \<noteq> other"
    and "apr_runId a' = apr_runId a" "gateId a' = gateId a"
  shows "same_view other s (put_approval aid a' s)"
proof -
  obtain r where r: "tget (approvals s) aid = Some a" "tenant_run tenant (apr_runId a) s = Some r"
    using assms(3) by (auto simp: getApproval_Some)
  have no: "tenant_run other (apr_runId a) s = None"
    using r(2) assms(4) by (auto simp: tenant_run_def split: option.splits if_splits)
  have key: "pair_key k g \<noteq> pair_key (apr_runId a) (gateId a)" if "tenant_run other k s = Some r'" for k g r'
    using tenant_run_plain [OF assms(1) that] tenant_run_plain [OF assms(1) r(2)] no that
    by (auto simp: pair_key_inject)
  have f: "filter (\<lambda>x. apr_runId x = k) (tvals (tput aid a' (approvals s))) = filter (\<lambda>x. apr_runId x = k) (tvals (approvals s))"
    if "tenant_run other k s = Some r'" for k r'
    using r(1) assms(5) no that by (intro filter_tvals_tput) auto
  have t: "tenant_run other k (put_approval aid a' s) = tenant_run other k s" for k
    by (simp add: tenant_run_def put_approval_def)
  show ?thesis
    using r(1) no key assms(5,6)
    by (auto simp: view_defs t f gate_key_def cong: option.case_cong split: option.splits)
qed

lemma same_view_delivery:
  assumes "plain_runs s" "deliveries_ok s" "store_getDeliveryAttempt tenant did s = Some d" "tenant \<noteq> other"
    and "dlv_runId d' = dlv_runId d" "idempotencyKey d' = idempotencyKey d"
  shows "same_view other s (put_delivery did d' s)"
proof -
  obtain r where r: "tget (deliveries s) did = Some d" "tenant_run tenant (dlv_runId d) s = Some r"
    using assms(3) by (auto simp: getDelivery_Some)
  have no: "tenant_run other (dlv_runId d) s = None"
    using r(2) assms(4) by (auto simp: tenant_run_def split: option.splits if_splits)
  have key: "pair_key k g \<noteq> pair_key (dlv_runId d) (idempotencyKey d)" if "tenant_run other k s = Some r'" for k g r'
    using tenant_run_plain [OF assms(1) that] tenant_run_plain [OF assms(1) r(2)] no that
    by (auto simp: pair_key_inject)
  have f: "filter (\<lambda>x. dlv_runId x = k) (tvals (tput did d' (deliveries s))) = filter (\<lambda>x. dlv_runId x = k) (tvals (deliveries s))"
    if "tenant_run other k s = Some r'" for k r'
    using r(1) assms(5) no that by (intro filter_tvals_tput) auto
  have t: "tenant_run other k (put_delivery did d' s) = tenant_run other k s" for k
    by (simp add: tenant_run_def put_delivery_def)
  show ?thesis
    using r(1) no key assms(5,6)
    by (auto simp: view_defs t f delivery_key_def cong: option.case_cong split: option.splits)
qed

lemma tenant_step_view:
  assumes "tenant_step tenant s s'" "store_inv s" "plain_runs s" "tenant \<noteq> other"
  shows "same_view other s s'"
  using assms(1)
proof (cases rule: tenant_step.cases)
  case (ts_archive tid now res)
  then show ?thesis
    using assms(4) by (auto simp: store_archiveTemplate_def store_getTemplate_def Let_def split: op_splits
      intro: same_view_template [of s tid])
next
  case (ts_run rid n to err now res)
  then show ?thesis
    using transitionRun_cases [OF ts_run] assms(4) by (auto intro!: same_view_run dest: run_write_tenant)
next
  case (ts_decide aid n d act meta now res)
  have ok: "approvals_ok s"
    using assms(2) by (simp add: store_inv_def)
  have "same_view other s (put_approval aid a' s)"
    if "store_getApprovalRequest tenant aid s = Some a" "approval_write n (d, act, meta, now) a = Inr a'" for a a'
    using same_view_approval [OF assms(3) ok that(1) assms(4)] approval_write_wf [OF that(2)] that(1) ok
    by (auto simp: getApproval_Some approvals_ok_def)
  then show ?thesis
    using decideApproval_cases [OF ts_decide] by auto
next
  case (ts_expire aid now res)
  then show ?thesis
    using expireApproval_cases [OF ts_expire] assms(2-4)
    by (auto simp: store_inv_def intro: same_view_approval [OF assms(3)])
next
  case (ts_delivery did n dto ref err now res)
  then show ?thesis
    using transitionDelivery_cases [OF ts_delivery] assms(2-4)
    by (auto simp: store_inv_def dest!: delivery_write_keys intro: same_view_delivery [OF assms(3)])
qed

section \<open>Logs that only grow\<close>

lemma step_mapping: "store_step s s' \<Longrightarrow> tget (mappings s) k = Some m \<Longrightarrow> tget (mappings s') k = Some m"
  by (induction rule: store_step.induct)
    (auto simp: store_op_defs Let_def split: op_splits)

lemma step_events: "store_step s s' \<Longrightarrow> prefix (run_events rid s) (run_events rid s')"
  by (induction rule: store_step.induct)
    (auto simp: store_op_defs run_events_def Let_def split: op_splits)

lemma step_artifact: "store_step s s' \<Longrightarrow> tget (store_artifacts s) k = Some a \<Longrightarrow> tget (store_artifacts s') k = Some a"
  by (induction rule: store_step.induct)
    (auto simp: store_op_defs Let_def split: op_splits)

lemma steps_grow:
  assumes "store_steps s s'"
  shows "tget (mappings s) k = Some m \<Longrightarrow> tget (mappings s') k = Some m"
    and "tget (store_artifacts s) i = Some a \<Longrightarrow> tget (store_artifacts s') i = Some a"
    and "prefix (run_events rid s) (run_events rid s')"
  using assms
  by (induction rule: store_steps.induct)
    (auto dest: step_mapping step_artifact intro: prefix_order.order_trans step_events)

section \<open>Properties\<close>

text \<open>
  Whatever sequence of calls an initially empty store serves, its runs are well formed, its
  approvals and deliveries are the same records under both of their keys, its job index agrees with
  its mappings, and no two events of a run share a sequence number.
\<close>

theorem store_reachable_inv:
  assumes "store_steps empty_store s"
  shows "store_inv s"
  using store_inv_steps [OF assms empty_store_inv] .

definition sample_run :: automation_run where
  "sample_run = buildRun ''r1'' 5 \<lparr>tenantId = ''t'', orgId = ''o'', projectId = ''p'', ra_templateId = ''x'',
     ra_versionId = ''v'', ra_version = 1, ra_inputRevisionId = ''i'', ra_createdBy = ''u''\<rparr>"

definition sample_approval :: approval_request where
  "sample_approval = buildApprovalRequest ''a1'' 6 \<lparr>aq_runId = ''r1'', aq_versionId = ''v'', aq_gateId = ''g'',
     aq_minApproverRole = ''admin'', aq_contextArtifacts = [], aq_expiresAfterMs = Undefined\<rparr>"

definition sample_store :: store where
  "sample_store = empty_store\<lparr>runs := [(''r1'', sample_run)], approvals := [(''a1'', sample_approval)],
     approvalsByGate := [(''r1|g'', sample_approval)],
     deliveries := [(''d1'', buildDeliveryAttempt ''d1'' 7 ''r1'' ''v'' ''k'' ''mail'')],
     deliveriesByKey := [(''r1|k'', buildDeliveryAttempt ''d1'' 7 ''r1'' ''v'' ''k'' ''mail'')]\<rparr>"

lemma sample_store_reachable: "store_steps empty_store sample_store"
proof -
  let ?s1 = "empty_store\<lparr>runs := [(''r1'', sample_run)]\<rparr>"
  let ?s2 = "?s1\<lparr>approvals := [(''a1'', sample_approval)], approvalsByGate := [(''r1|g'', sample_approval)]\<rparr>"
  have "store_createRun sample_run empty_store = (Inr sample_run, ?s1)"
    by (simp add: store_createRun_def empty_store_def sample_run_def buildRun_def)
  then have 1: "store_step empty_store ?s1"
    by (rule step_createRun [rotated]) (simp add: sample_run_def run_wf_buildRun)
  have "store_saveApprovalRequest sample_approval ?s1 = (Inr (), ?s2)"
    by (simp add: store_saveApprovalRequest_def put_approval_def empty_store_def sample_approval_def
      buildApprovalRequest_def pair_key_def)
  then have 2: "store_step ?s1 ?s2"
    by (rule step_saveApprovalRequest [rotated]) (simp add: sample_approval_def approval_wf_build)
  have "store_saveDeliveryAttempt (buildDeliveryAttempt ''d1'' 7 ''r1'' ''v'' ''k'' ''mail'') ?s2 = (Inr (), sample_store)"
    by (simp add: store_saveDeliveryAttempt_def put_delivery_def empty_store_def sample_store_def
      buildDeliveryAttempt_def pair_key_def)
  then have 3: "store_step ?s2 sample_store"
    by (rule step_saveDeliveryAttempt)
  show ?thesis
    using steps_next [OF steps_next [OF steps_next [OF steps_refl 1] 2] 3] .
qed

lemma sample_store_runs: "tget (runs sample_store) ''r1'' = Some sample_run" "tenantId sample_run = ''t''"
  "plain_runs sample_store"
  by (simp_all add: sample_store_def sample_run_def buildRun_def plain_runs_def plain_def)

theorem store_reachable_inv_witness: "store_inv sample_store"
  using store_reachable_inv [OF sample_store_reachable] .

text \<open>
  C6. Of all the writers that read a run at the same fencing token, at most one moves it: once a
  transition has succeeded, every later transition with that token is rejected and changes nothing,
  whatever calls were served in between.
\<close>

theorem run_single_winner:
  assumes "store_transitionRun tenant rid token to err now s = (Inr r, s1)" and "store_steps s1 s2"
  shows "\<exists>e. store_transitionRun tenant' rid token to' err' now' s2 = (Inl e, s2)"
proof -
  obtain r0 where r0: "tget (runs s) rid = Some r0" "run_write token (to, err, now) r0 = Inr r" "tget (runs s1) rid = Some r"
    using transitionRun_cases [OF assms(1)] by auto
  then have nt: "\<not> run_terminal r0"
    by (auto simp: run_write_Inr applyTransition_Inr run_terminal_def simp flip: TRANSITIONS_Nil_iff)
  obtain r2 where r2: "tget (runs s2) rid = Some r2" "frun.evolves r r2"
    using steps_run [OF assms(2) r0(3)] by auto
  then show ?thesis
    using frun.evolves_single_winner [OF r0(2) nt r2(2), of "(to', err', now')"]
    by (auto simp: store_transitionRun_def tenant_run_def)
qed

theorem run_single_winner_witness:
  "\<exists>e. fst (store_transitionRun ''t'' ''r1'' 1 Cancelled Undefined 9
        (snd (store_transitionRun ''t'' ''r1'' 1 ValidatingInput Undefined 8 sample_store))) = Inl e"
proof -
  have "\<exists>r. fst (store_transitionRun ''t'' ''r1'' 1 ValidatingInput Undefined 8 sample_store) = Inr r"
    by (simp add: store_transitionRun_def tenant_run_def sample_store_def sample_run_def buildRun_def run_write_def
      check_def applyTransition_def assertTransition_def)
  then obtain r where "store_transitionRun ''t'' ''r1'' 1 ValidatingInput Undefined 8 sample_store
      = (Inr r, snd (store_transitionRun ''t'' ''r1'' 1 ValidatingInput Undefined 8 sample_store))"
    by (metis prod.collapse)
  from run_single_winner [OF this steps_refl, of "''t''" Cancelled Undefined 9] show ?thesis by (metis fst_conv)
qed

text \<open>
  C7. An approval is decided once. A decision that succeeds on a pending request leaves it in the
  decided state under both of its keys; whatever calls follow, the record stays exactly as decided,
  and a further decision by anyone changes nothing.
\<close>

theorem approval_decided_once:
  assumes "store_decideApproval tenant aid token d act meta now s = (Inr a, s1)" and "store_inv s"
    and "store_steps s1 s2"
  shows "apr_status a \<noteq> APending \<and> tget (approvals s2) aid = Some a
    \<and> tget (approvalsByGate s2) (pair_key (apr_runId a) (gateId a)) = Some a
    \<and> snd (store_decideApproval tenant' aid token' d' act' meta' now' s2) = s2"
proof -
  obtain a0 where a0: "store_getApprovalRequest tenant aid s = Some a0" "approval_write token (d, act, meta, now) a0 = Inr a"
    "s1 = (if apr_status a0 = APending then put_approval aid a s else s)"
    using decideApproval_cases [OF assms(1)] by auto
  then have np: "apr_status a \<noteq> APending" and s1: "tget (approvals s1) aid = Some a"
    by (auto simp: approval_write_Inr applyDecision_Inr getApproval_Some split: if_splits)
  then have s2: "tget (approvals s2) aid = Some a"
    using steps_approval [OF assms(3) s1] fapr.evolves_terminal [of a] by (auto simp: approval_terminal_iff)
  have "store_step s s1"
    using assms(1) by (rule step_decideApproval)
  then have "approvals_ok s2"
    using store_inv_steps [OF assms(3)] store_inv_step assms(2) by (auto simp: store_inv_def)
  then have "tget (approvalsByGate s2) (gate_key a) = Some a"
    using s2 by (auto simp: approvals_ok_def indexed_def)
  moreover have "snd (store_decideApproval tenant' aid token' d' act' meta' now' s2) = s2"
    using decideApproval_cases [of tenant' aid token' d' act' meta' now' s2] s2 np
    by (cases "store_decideApproval tenant' aid token' d' act' meta' now' s2") (fastforce simp: getApproval_Some)
  ultimately show ?thesis
    using np s2 by (simp add: gate_key_def)
qed

theorem approval_decided_once_witness:
  "\<exists>a. tget (approvals (snd (store_decideApproval ''t'' ''a1'' 1 DecideRejected \<lparr>da_principalId = ''u'', da_kind = ''user''\<rparr>
      Undefined 9 sample_store))) ''a1'' = Some a \<and> apr_status a \<noteq> APending"
proof -
  let ?m = "store_decideApproval ''t'' ''a1'' 1 DecideRejected \<lparr>da_principalId = ''u'', da_kind = ''user''\<rparr> Undefined 9"
  have "\<exists>a. fst (?m sample_store) = Inr a"
    by (simp add: store_decideApproval_def store_getApprovalRequest_def tenant_run_def sample_store_def sample_run_def
      buildRun_def sample_approval_def buildApprovalRequest_def approval_write_def check_def applyDecision_def)
  then obtain a where "?m sample_store = (Inr a, snd (?m sample_store))"
    by (metis prod.collapse)
  from approval_decided_once [OF this store_inv_steps [OF sample_store_reachable empty_store_inv] steps_refl]
  show ?thesis by blast
qed

text \<open>
  A delivery that was settled as delivered stays exactly as settled, with the reference it was
  settled with, and every later transition of it is rejected.
\<close>

theorem delivery_settled_once:
  assumes "store_transitionDelivery tenant did token DDelivered (Some ref) err now s = (Inr d, s1)"
    and "store_steps s1 s2"
  shows "tget (deliveries s2) did = Some d \<and> dlv_status d = DDelivered \<and> resultRef d = Some ref
    \<and> (\<exists>e. store_transitionDelivery tenant' did token' to' ref' err' now' s2 = (Inl e, s2))"
proof -
  obtain d0 where d0: "delivery_write token (DDelivered, Some ref, err, now) d0 = Inr d" "tget (deliveries s1) did = Some d"
    using transitionDelivery_cases [OF assms(1)] by auto
  then have d: "dlv_status d = DDelivered" "resultRef d = Some ref"
    by (auto simp: delivery_write_def)
  then have s2: "tget (deliveries s2) did = Some d"
    using steps_delivery [OF assms(2) d0(2)] fdlv.evolves_terminal [of d] by (auto simp: delivery_terminal_iff)
  moreover have "\<exists>e. delivery_write token' (to', ref', err', now') d = Inl e"
    using d by (auto simp: delivery_write_def check_def)
  ultimately show ?thesis
    using d by (auto simp: store_transitionDelivery_def store_getDeliveryAttempt_def split: option.splits)
qed

theorem delivery_settled_once_witness:
  "\<exists>d. tget (deliveries (snd (store_transitionDelivery ''t'' ''d1'' 1 DDelivered (Some ''ref'') Undefined 9 sample_store))) ''d1''
     = Some d \<and> resultRef d = Some ''ref''"
proof -
  let ?m = "store_transitionDelivery ''t'' ''d1'' 1 DDelivered (Some ''ref'') Undefined 9"
  have "\<exists>a. fst (?m sample_store) = Inr a"
    by (simp add: store_transitionDelivery_def store_getDeliveryAttempt_def tenant_run_def sample_store_def sample_run_def
      buildRun_def buildDeliveryAttempt_def delivery_write_def check_def)
  then obtain d where "?m sample_store = (Inr d, snd (?m sample_store))"
    by (metis prod.collapse)
  from delivery_settled_once [OF this steps_refl] show ?thesis by blast
qed



text \<open>
  The history of a run only grows: its events keep their order and position, and a step that
  was mapped to a job stays mapped to that job, so that a second mapping of the step is rejected.
\<close>

theorem store_history:
  assumes "store_saveJobMapping newId m s = (Inr (), s1)" and "store_steps s1 s2"
  shows "prefix (run_events rid s) (run_events rid s2)
    \<and> (\<exists>m'. tget (mappings s2) (pair_key (jm_runId m) (jm_stepId m)) = Some m' \<and> jm_jobId m' = jm_jobId m)
    \<and> (\<forall>m2 i. jm_runId m2 = jm_runId m \<and> jm_stepId m2 = jm_stepId m \<longrightarrow>
         store_saveJobMapping i m2 s2 = (Inl (AutomationError (JOB_MAPPING_EXISTS (jm_stepId m) (jm_runId m)) 409), s2))"
proof -
  obtain m' where m': "tget (mappings s1) (pair_key (jm_runId m) (jm_stepId m)) = Some m'" "jm_jobId m' = jm_jobId m"
    using assms(1) by (auto simp: store_saveJobMapping_def Let_def split: if_splits)
  have s2: "tget (mappings s2) (pair_key (jm_runId m) (jm_stepId m)) = Some m'"
    using steps_grow(1) [OF assms(2) m'(1)] .
  have "prefix (run_events rid s) (run_events rid s2)"
    using steps_grow(3) [OF assms(2)] step_events [OF step_saveJobMapping [OF assms(1)]]
    by (rule prefix_order.order_trans [rotated])
  then show ?thesis
    using s2 m'(2) by (auto simp: store_saveJobMapping_def Let_def)
qed

theorem store_history_witness:
  "\<exists>m'. tget (mappings (snd (store_saveJobMapping ''m1'' \<lparr>mappingId = [], jm_runId = ''r1'', jm_versionId = ''v'', jm_stepId = ''s'',
     jm_jobId = ''j'', jm_idempotencyKey = ''k'', jm_inputRevisionId = ''i'', jm_createdAt = 3\<rparr> sample_store))) ''r1|s'' = Some m'
     \<and> jm_jobId m' = ''j''"
proof -
  let ?m = "\<lparr>mappingId = [], jm_runId = ''r1'', jm_versionId = ''v'', jm_stepId = ''s'',
     jm_jobId = ''j'', jm_idempotencyKey = ''k'', jm_inputRevisionId = ''i'', jm_createdAt = 3\<rparr>"
  have "store_saveJobMapping ''m1'' ?m sample_store = (Inr (), snd (store_saveJobMapping ''m1'' ?m sample_store))"
    by (simp add: store_saveJobMapping_def sample_store_def empty_store_def Let_def)
  from store_history [OF this steps_refl] show ?thesis by (simp add: pair_key_def)
qed

end
