(* ===== verification/Artifacts.thy ===== *)
theory Artifacts
  imports Audit_Log
begin

text \<open>
  Artifacts (\<^verbatim>\<open>vaulltcore-automation/src/artifact.ts\<close>): the contract of an artifact store, the
  content-addressed in-memory store, artifact records and their verification. Content is a byte
  string; \<^verbatim>\<open>contentChecksum\<close> is SHA-256 over it.
\<close>

definition contentChecksum :: "host \<Rightarrow> bytes \<Rightarrow> string" where
  "contentChecksum h c = sha256 h c"

record put_result =
  pr_contentRef :: string
  pr_checksum :: string
  pr_size :: nat

section \<open>The store contract\<close>

text \<open>
  What the service relies on, for a store state in which every reference holds content of the
  recorded checksum: what was put can be read back with the checksum it was put under and verifies,
  and earlier references keep their content.
\<close>

locale artifact_store =
  fixes put :: "host \<Rightarrow> bytes \<Rightarrow> 's \<Rightarrow> put_result \<times> 's"
    and get :: "string \<Rightarrow> 's \<Rightarrow> automation_error + bytes"
    and verify :: "host \<Rightarrow> string \<Rightarrow> string \<Rightarrow> 's \<Rightarrow> automation_error + bool"
    and store_ok :: "host \<Rightarrow> 's \<Rightarrow> bool"
  assumes put_ok: "store_ok h s \<Longrightarrow> put h c s = (r, s') \<Longrightarrow> store_ok h s'"
    and put_get: "store_ok h s \<Longrightarrow> put h c s = (r, s') \<Longrightarrow>
      \<exists>c'. get (pr_contentRef r) s' = Inr c' \<and> contentChecksum h c' = pr_checksum r"
    and put_checksum: "put h c s = (r, s') \<Longrightarrow> pr_checksum r = contentChecksum h c"
    and put_keeps: "put h c s = (r, s') \<Longrightarrow> get ref s = Inr d \<Longrightarrow> get ref s' = Inr d"
    and verify_get: "get ref s = Inr d \<Longrightarrow> verify h ref k s = Inr (contentChecksum h d = k)"
    and verify_missing: "get ref s = Inl e \<Longrightarrow> verify h ref k s = Inl e"
begin

lemma put_verifies: "store_ok h s \<Longrightarrow> put h c s = (r, s') \<Longrightarrow> verify h (pr_contentRef r) (pr_checksum r) s' = Inr True"
  using put_get [of h s c r s'] by (auto simp: verify_get)

lemma put_keeps_verified:
  assumes "put h c s = (r, s')" "verify h ref k s = Inr b"
  shows "verify h ref k s' = Inr b"
proof (cases "get ref s")
  case (Inl e)
  then show ?thesis using assms(2) by (simp add: verify_missing)
next
  case (Inr d)
  then show ?thesis using assms(2) put_keeps [OF assms(1) Inr] by (simp add: verify_get)
qed

text \<open>A later sequence of puts leaves a stored artifact verified.\<close>

lemma puts_keep_verified:
  "verify h ref k s = Inr b \<Longrightarrow> verify h ref k (fold (\<lambda>c s. snd (put h c s)) cs s) = Inr b"
proof (induction cs arbitrary: s)
  case (Cons c cs)
  then show ?case using put_keeps_verified [OF prod.collapse [symmetric]] by simp
qed simp

end

section \<open>The in-memory store\<close>

type_synonym mem_artifacts = "(string, bytes) table"

definition mem_ref :: "string \<Rightarrow> string" where
  "mem_ref checksum = ''mem://'' @ checksum"

definition mem_put :: "host \<Rightarrow> bytes \<Rightarrow> mem_artifacts \<Rightarrow> put_result \<times> mem_artifacts" where
  "mem_put h content refs =
     (let checksum = contentChecksum h content; ref = mem_ref checksum
      in (\<lparr>pr_contentRef = ref, pr_checksum = checksum, pr_size = length content\<rparr>,
          if \<not> thas refs ref then tput ref content refs else refs))"

definition mem_get :: "string \<Rightarrow> mem_artifacts \<Rightarrow> automation_error + bytes" where
  "mem_get ref refs =
     (case tget refs ref of None \<Rightarrow> Inl (AutomationError (ARTIFACT_NOT_FOUND ref) 404) | Some c \<Rightarrow> Inr c)"

definition mem_verify :: "host \<Rightarrow> string \<Rightarrow> string \<Rightarrow> mem_artifacts \<Rightarrow> automation_error + bool" where
  "mem_verify h ref expected refs =
     (case tget refs ref of
        None \<Rightarrow> Inl (AutomationError (ARTIFACT_NOT_FOUND ref) 404)
      | Some c \<Rightarrow> Inr (contentChecksum h c = expected))"

definition mem_ok :: "host \<Rightarrow> mem_artifacts \<Rightarrow> bool" where
  "mem_ok h refs \<longleftrightarrow> (\<forall>ref c. tget refs ref = Some c \<longrightarrow> ref = mem_ref (contentChecksum h c))"

lemma mem_okD: "mem_ok h s \<Longrightarrow> tget s (mem_ref k) = Some c \<Longrightarrow> contentChecksum h c = k"
  by (force simp: mem_ok_def mem_ref_def)

interpretation mem: artifact_store mem_put mem_get mem_verify mem_ok
proof (unfold_locales, goal_cases)
  case 1 then show ?case by (auto simp: mem_put_def mem_ok_def Let_def split: if_splits)
next
  case 2 then show ?case by (auto simp: mem_put_def mem_get_def Let_def split: if_splits dest: mem_okD)
next
  case 3 then show ?case by (auto simp: mem_put_def Let_def)
next
  case 4 then show ?case by (auto simp: mem_put_def mem_get_def Let_def split: if_splits option.splits)
qed (auto simp: mem_get_def mem_verify_def split: option.splits)

section \<open>Records\<close>

definition buildArtifact ::
  "string \<Rightarrow> int \<Rightarrow> string \<Rightarrow> string \<Rightarrow> string option \<Rightarrow> string \<Rightarrow> string \<Rightarrow> put_result \<Rightarrow> json \<Rightarrow> automation_artifact" where
  "buildArtifact newArtifactId now rid vid sid typ nam stored meta =
     \<lparr>artifactId = newArtifactId, art_runId = rid, art_versionId = vid, art_stepId = sid, art_type = typ,
      art_name = nam, contentRef = pr_contentRef stored, art_checksum = pr_checksum stored,
      art_size = Some (pr_size stored), art_createdAt = now, art_metadata = sanitizeMetadata meta\<rparr>"

definition verifyArtifact ::
  "(string \<Rightarrow> string \<Rightarrow> 's \<Rightarrow> automation_error + bool) \<Rightarrow> automation_artifact \<Rightarrow> 's \<Rightarrow> automation_error + unit" where
  "verifyArtifact ver a store =
     seq_res (ver (contentRef a) (art_checksum a) store) (\<lambda>good.
       check (\<not> good) (AutomationError (ARTIFACT_CHECKSUM_MISMATCH (artifactId a)) 500) (Inr ()))"

section \<open>Properties\<close>

text \<open>
  An artifact record built from what the store returned verifies, and keeps verifying after
  any further content is put. Where SHA-256 has no collision between the content and what the store
  holds, the reference reads back exactly the content that was put.
\<close>

theorem artifact_roundtrip:
  assumes "mem_ok h s" and "mem_put h c s = (r, s')"
    and "\<forall>d \<in> set (tvals s). sha256 h d = sha256 h c \<longrightarrow> d = c"
  shows "verifyArtifact (mem_verify h) (buildArtifact i now rid vid sid typ nam r meta)
           (fold (\<lambda>c s. snd (mem_put h c s)) cs s') = Inr ()
    \<and> mem_get (pr_contentRef r) s' = Inr c"
proof
  have "mem_verify h (pr_contentRef r) (pr_checksum r) (fold (\<lambda>c s. snd (mem_put h c s)) cs s') = Inr True"
    by (rule mem.puts_keep_verified) (rule mem.put_verifies [OF assms(1,2)])
  then show "verifyArtifact (mem_verify h) (buildArtifact i now rid vid sid typ nam r meta)
      (fold (\<lambda>c s. snd (mem_put h c s)) cs s') = Inr ()"
    by (simp add: verifyArtifact_def buildArtifact_def)
  show "mem_get (pr_contentRef r) s' = Inr c"
  proof (cases "tget s (mem_ref (contentChecksum h c))")
    case None
    then show ?thesis using assms(2) by (auto simp: mem_put_def mem_get_def Let_def)
  next
    case (Some d)
    then have "d = c"
      using mem_okD [OF assms(1) Some] tget_in_tvals [OF Some] assms(3) by (auto simp: contentChecksum_def)
    then show ?thesis using Some assms(2) by (auto simp: mem_put_def mem_get_def Let_def)
  qed
qed

theorem artifact_roundtrip_witness:
  "mem_get ''mem://xy'' (snd (mem_put \<lparr>sha256 = id, num_str = (\<lambda>_. [])\<rparr> ''xy'' [(''mem://z'', ''z'')])) = Inr ''xy''"
proof -
  let ?h = "\<lparr>sha256 = id, num_str = (\<lambda>_. [])\<rparr>"
  have ok: "mem_ok ?h [(''mem://z'', ''z'')]"
    by (auto simp: mem_ok_def mem_ref_def contentChecksum_def split: if_splits)
  have put: "mem_put ?h ''xy'' [(''mem://z'', ''z'')] =
      (\<lparr>pr_contentRef = ''mem://xy'', pr_checksum = ''xy'', pr_size = 2\<rparr>, [(''mem://z'', ''z''), (''mem://xy'', ''xy'')])"
    by (simp add: mem_put_def mem_ref_def contentChecksum_def Let_def)
  show ?thesis using artifact_roundtrip [OF ok put] put by simp
qed

end
