(* ===== verification/Automation_Service.thy ===== *)
theory Automation_Service
  imports Prompts Memory_Store Artifacts
begin

text \<open>
  The orchestration layer (\<^verbatim>\<open>vaulltcore-automation/src/service.ts\<close>):
  \<^verbatim>\<open>AutomationService\<close> over the stores of this development. The job dispatcher and the delivery
  provider are arguments with a state of their own, and so are the clock, the id generator and
  \<^verbatim>\<open>JSON.parse\<close>; the n-th reading of the clock and the n-th generated id are functions of n.
\<close>

section \<open>Dependencies and state\<close>

record dispatch_request =
  dq_identity :: job_identity
  dq_engine :: string
  dq_model :: string
  dq_input :: string
  dq_engineOptions :: "json option"
  dq_maxSteps :: "rat option"
  dq_maxTokens :: "rat option"
  dq_maxDurationMs :: "rat option"
  dq_allowedTools :: "string list option"
  dq_idempotencyKey :: string

record dispatch_result =
  dr_jobId :: string
  dr_replayed :: bool
  dr_state :: job_state

record 'w deps =
  host_of :: host
  json_parse :: "string \<Rightarrow> json option"
  error_message :: "error_code \<Rightarrow> string"
  clock :: "nat \<Rightarrow> int"
  ascending :: "nat \<Rightarrow> string"
  dispatchAndRun :: "dispatch_request \<Rightarrow> 'w \<Rightarrow> (string + dispatch_result) \<times> 'w"
  listJobEvents :: "string \<Rightarrow> 'w \<Rightarrow> job_event list"
  getJobState :: "string \<Rightarrow> 'w \<Rightarrow> job_state option"
  deliver :: "string \<Rightarrow> deliver_args \<Rightarrow> 'w \<Rightarrow> (string + string) \<times> 'w"

record 'w service =
  db :: store
  blobs :: mem_artifacts
  auditLog :: "audit_event list"
  idempotencyKeys :: "(string, string) table"
  ticks :: nat
  outside :: 'w

type_synonym ('w, 'a) svc_op = "('w service, automation_error, 'a) op"

text \<open>Calls of the collaborators.\<close>

definition on_db :: "'a store_op \<Rightarrow> ('w, 'a) svc_op" where
  "on_db m = (\<lambda>s. case m (db s) of (r, d) \<Rightarrow> (r, s\<lparr>db := d\<rparr>))"

definition query :: "(store \<Rightarrow> 'a) \<Rightarrow> ('w, 'a) svc_op" where
  "query f = reads (\<lambda>s. f (db s))"

definition query_res :: "(store \<Rightarrow> automation_error + 'a) \<Rightarrow> ('w, 'a) svc_op" where
  "query_res f = (\<lambda>s. (f (db s), s))"

definition now_of :: "'w deps \<Rightarrow> ('w, int) svc_op" where
  "now_of E = (\<lambda>s. (Inr (clock E (ticks s)), s\<lparr>ticks := ticks s + 1\<rparr>))"

definition fresh_id :: "'w deps \<Rightarrow> string \<Rightarrow> ('w, string) svc_op" where
  "fresh_id E p = (\<lambda>s. (Inr (p @ ascending E (ticks s)), s\<lparr>ticks := ticks s + 1\<rparr>))"

definition external :: "('w \<Rightarrow> (string + 'a) \<times> 'w) \<Rightarrow> ('w, 'a) svc_op" where
  "external f = (\<lambda>s. case f (outside s) of
     (Inl msg, w) \<Rightarrow> (Inl (OtherError msg), s\<lparr>outside := w\<rparr>) | (Inr x, w) \<Rightarrow> (Inr x, s\<lparr>outside := w\<rparr>))"

abbreviation fail :: "error_code \<Rightarrow> nat \<Rightarrow> ('w, 'a) svc_op" where
  "fail c n \<equiv> throw (AutomationError c n)"

text \<open>\<^verbatim>\<open>store.transitionRun\<close> and \<^verbatim>\<open>store.transitionDelivery\<close> at the current time.\<close>

definition transitionRun :: "'w deps \<Rightarrow> string \<Rightarrow> string \<Rightarrow> nat \<Rightarrow> run_status \<Rightarrow> string optional \<Rightarrow> ('w, automation_run) svc_op" where
  "transitionRun E tenant rid n to err = andThen (now_of E) (\<lambda>now. on_db (store_transitionRun tenant rid n to err now))"

definition transitionDelivery ::
  "'w deps \<Rightarrow> string \<Rightarrow> string \<Rightarrow> nat \<Rightarrow> delivery_status \<Rightarrow> string option \<Rightarrow> string optional \<Rightarrow> ('w, delivery_attempt) svc_op" where
  "transitionDelivery E tenant did n to ref err =
     andThen (now_of E) (\<lambda>now. on_db (store_transitionDelivery tenant did n to ref err now))"

section \<open>Helpers\<close>

definition auditActor :: "resolved_principal \<Rightarrow> audit_actor" where
  "auditActor p = \<lparr>aa_principalId = principalId p, aa_kind = kind p, aa_tenantId = p_tenantId p\<rparr>"

definition scopeOf :: "'a job_identity_scheme \<Rightarrow> job_identity" where
  "scopeOf x = \<lparr>tenantId = tenantId x, orgId = orgId x, projectId = projectId x\<rparr>"

definition canAccess :: "resolved_principal \<Rightarrow> string \<Rightarrow> string \<Rightarrow> bool" where
  "canAccess p org proj =
     (if admin p then True
      else if p_orgId p \<noteq> org then False
      else if proj \<noteq> ''*'' \<and> \<not> (''*'' \<in> set (projectScope p) \<or> proj \<in> set (projectScope p)) then False
      else True)"

definition authorize :: "resolved_principal \<Rightarrow> string \<Rightarrow> string \<Rightarrow> automation_error + unit" where
  "authorize p org proj =
     (if admin p then Inr ()
      else if p_orgId p \<noteq> org then Inl (AutomationError (FORBIDDEN_ORG org) 403)
      else if proj \<noteq> ''*'' \<and> \<not> (''*'' \<in> set (projectScope p) \<or> proj \<in> set (projectScope p))
           then Inl (AutomationError (FORBIDDEN_PROJECT proj) 403)
      else Inr ())"

definition audit :: "'w deps \<Rightarrow> resolved_principal \<Rightarrow> job_identity \<Rightarrow> string \<Rightarrow> json \<Rightarrow> ('w, unit) svc_op" where
  "audit E p scope typ meta =
     andThen (now_of E) (\<lambda>now. andThen (fresh_id E ''aud_'') (\<lambda>eid.
     modifies (\<lambda>s. s\<lparr>auditLog := audit_append eid now (Some (auditActor p)) (Some scope) typ (sanitizeMetadata meta) (auditLog s)\<rparr>)))"

definition next_seq :: "string \<Rightarrow> string \<Rightarrow> store \<Rightarrow> nat" where
  "next_seq tenant rid d = fold (\<lambda>e m. max m (ev_seq e)) (store_listEvents tenant rid 0 d) 0 + 1"

definition appendAutomationEvent :: "'w deps \<Rightarrow> string \<Rightarrow> automation_run \<Rightarrow> automation_event_type \<Rightarrow> json \<Rightarrow> ('w, unit) svc_op" where
  "appendAutomationEvent E tenant run typ dat =
     andThen (query (next_seq tenant (runId run))) (\<lambda>seq.
     andThen (now_of E) (\<lambda>now. on_db (store_appendEvent tenant (automationEvent (runId run) seq typ dat now))))"

abbreviation jnat :: "nat \<Rightarrow> json" where
  "jnat n \<equiv> JNum (Finite (of_nat n))"

abbreviation jopt :: "string option \<Rightarrow> json" where
  "jopt x \<equiv> case x of None \<Rightarrow> JNull | Some y \<Rightarrow> JStr y"

section \<open>Templates\<close>

definition createTemplate ::
  "'w deps \<Rightarrow> resolved_principal \<Rightarrow> string \<Rightarrow> string \<Rightarrow> string \<Rightarrow> string option \<Rightarrow> ('w, automation_template) svc_op" where
  "createTemplate E p org proj nam desc =
     andThen (lift_res (authorize p org proj)) (\<lambda>_.
     andThen (now_of E) (\<lambda>now. andThen (fresh_id E ''tmpl_'') (\<lambda>tid.
     let t = \<lparr>tenantId = p_tenantId p, orgId = org, projectId = proj, templateId = tid, t_name = nam, description = desc,
              t_status = TDraft, t_createdAt = now, t_createdBy = principalId p, archivedAt = None\<rparr>
     in andThen (on_db (store_createTemplate t)) (\<lambda>created.
        andThen (audit E p (scopeOf t) ''automation_template_created''
          (JObj [(''templateId'', JStr (templateId created)), (''name'', JStr (t_name created))])) (\<lambda>_.
        ok created)))))"

definition getTemplate :: "resolved_principal \<Rightarrow> string \<Rightarrow> store \<Rightarrow> automation_template option" where
  "getTemplate p tid d =
     (case store_getTemplate (p_tenantId p) tid d of
        None \<Rightarrow> None
      | Some t \<Rightarrow> if \<not> canAccess p (orgId t) (projectId t) then None else Some t)"

definition archiveTemplate :: "'w deps \<Rightarrow> resolved_principal \<Rightarrow> string \<Rightarrow> ('w, automation_template option) svc_op" where
  "archiveTemplate E p tid =
     andThen (query (getTemplate p tid)) (\<lambda>t.
     if t = None then ok None
     else andThen (now_of E) (\<lambda>now. andThen (on_db (store_archiveTemplate (p_tenantId p) tid now)) (\<lambda>archived.
          case archived of
            None \<Rightarrow> ok None
          | Some a \<Rightarrow> andThen (audit E p (scopeOf a) ''automation_template_archived'' (JObj [(''templateId'', JStr tid)])) (\<lambda>_.
                       ok (Some a)))))"

definition listTemplates :: "resolved_principal \<Rightarrow> string option \<Rightarrow> string option \<Rightarrow> store \<Rightarrow> automation_template list" where
  "listTemplates p org proj d = store_listTemplates (p_tenantId p) org proj d"

section \<open>Versions\<close>

definition publishVersion ::
  "'w deps \<Rightarrow> resolved_principal \<Rightarrow> string \<Rightarrow> automation_definition \<Rightarrow> input_contract \<Rightarrow> ('w, automation_version) svc_op" where
  "publishVersion E p tid def contract =
     andThen (query (getTemplate p tid)) (\<lambda>found.
     case found of
       None \<Rightarrow> fail (TEMPLATE_NOT_FOUND tid) 404
     | Some t \<Rightarrow>
         if t_status t = TArchived then fail (TEMPLATE_ARCHIVED tid) 409
         else andThen (query (store_nextVersionNumber (p_tenantId p) tid)) (\<lambda>n.
              andThen (fresh_id E ''ver_'') (\<lambda>vid. andThen (now_of E) (\<lambda>now.
              andThen (lift_res (buildVersion (host_of E) vid now
                \<lparr>tenantId = tenantId t, orgId = orgId t, projectId = projectId t, va_templateId = templateId t,
                 va_version = n, va_definition = def, va_inputContract = contract, va_createdBy = principalId p\<rparr>)) (\<lambda>v.
              andThen (on_db (store_createVersion v)) (\<lambda>saved.
              andThen (audit E p (scopeOf t) ''automation_version_published''
                (JObj [(''templateId'', JStr (templateId t)), (''versionId'', JStr (versionId saved)),
                       (''version'', jnat (v_version saved)), (''checksum'', JStr (v_checksum saved))])) (\<lambda>_.
              ok saved)))))))"

definition getVersion :: "'w deps \<Rightarrow> resolved_principal \<Rightarrow> string \<Rightarrow> store \<Rightarrow> automation_error + automation_version option" where
  "getVersion E p vid d =
     seq_res (store_getVersion (host_of E) (p_tenantId p) vid d) (\<lambda>found.
     case found of
       None \<Rightarrow> Inr None
     | Some v \<Rightarrow> if \<not> canAccess p (orgId v) (projectId v) then Inr None else Inr (Some v))"

definition listVersions :: "resolved_principal \<Rightarrow> string \<Rightarrow> store \<Rightarrow> automation_version list" where
  "listVersions p tid d =
     (case getTemplate p tid d of None \<Rightarrow> [] | Some _ \<Rightarrow> store_listVersions (p_tenantId p) tid d)"

section \<open>Runs\<close>

definition idemKey :: "string \<Rightarrow> string \<Rightarrow> string" where
  "idemKey tenant key = tenant @ ''|'' @ key"

definition findRunByIdempotency :: "string \<Rightarrow> string \<Rightarrow> 'w service \<Rightarrow> automation_run option" where
  "findRunByIdempotency tenant key s =
     (case tget (idempotencyKeys s) (idemKey tenant key) of
        None \<Rightarrow> None
      | Some rid \<Rightarrow> if rid = [] then None else store_getRun tenant rid (db s))"

record create_run_args =
  cr_orgId :: string
  cr_projectId :: string
  cr_templateId :: string
  cr_versionId :: string
  cr_input :: "input_value list"
  cr_idempotencyKey :: string

definition admit_run :: "'w deps \<Rightarrow> resolved_principal \<Rightarrow> create_run_args \<Rightarrow> automation_version \<Rightarrow> ('w, automation_run) svc_op" where
  "admit_run E p a version =
     andThen (lift_res (valuesToMap (cr_input a))) (\<lambda>vals.
     andThen (lift_res (validateInput (inputContract version) vals)) (\<lambda>_.
     andThen (fresh_id E ''run_'') (\<lambda>rid. andThen (now_of E) (\<lambda>now.
     let run = buildRun rid now \<lparr>tenantId = p_tenantId p, orgId = cr_orgId a, projectId = cr_projectId a,
                 ra_templateId = cr_templateId a, ra_versionId = cr_versionId a, ra_version = v_version version,
                 ra_inputRevisionId = [], ra_createdBy = principalId p\<rparr>
     in andThen (fresh_id E ''inp_'') (\<lambda>iid. andThen (now_of E) (\<lambda>now2.
     let revision = buildInputRevision (host_of E) iid now2 rid vals;
         runWithRevision = run\<lparr>r_inputRevisionId := inputRevisionId revision\<rparr>
     in andThen (on_db (store_createRun runWithRevision)) (\<lambda>_.
        andThen (modifies (\<lambda>s. s\<lparr>idempotencyKeys := tput (idemKey (p_tenantId p) (cr_idempotencyKey a)) rid (idempotencyKeys s)\<rparr>)) (\<lambda>_.
        andThen (transitionRun E (p_tenantId p) rid (runVersion runWithRevision) ValidatingInput Undefined) (\<lambda>validating.
        andThen (on_db (store_saveInputRevision revision)) (\<lambda>_.
        andThen (transitionRun E (p_tenantId p) rid (runVersion validating) Admitted Undefined) (\<lambda>admitted.
        andThen (appendAutomationEvent E (p_tenantId p) admitted RunCreated
          (JObj [(''runId'', JStr rid), (''templateId'', JStr (cr_templateId a)), (''versionId'', JStr (cr_versionId a))])) (\<lambda>_.
        andThen (appendAutomationEvent E (p_tenantId p) admitted RunAdmitted
          (JObj [(''runId'', JStr rid), (''inputRevisionId'', JStr (inputRevisionId revision))])) (\<lambda>_.
        andThen (audit E p (scopeOf admitted) ''automation_run_created''
          (JObj [(''runId'', JStr rid), (''templateId'', JStr (cr_templateId a)), (''versionId'', JStr (cr_versionId a)),
                 (''inputRevisionId'', JStr (inputRevisionId revision))])) (\<lambda>_.
        ok admitted))))))))))))))"

definition createRun :: "'w deps \<Rightarrow> resolved_principal \<Rightarrow> create_run_args \<Rightarrow> ('w, automation_run) svc_op" where
  "createRun E p a =
     andThen (lift_res (authorize p (cr_orgId a) (cr_projectId a))) (\<lambda>_.
     andThen (query_res (store_getVersion (host_of E) (p_tenantId p) (cr_versionId a))) (\<lambda>found.
     case found of
       None \<Rightarrow> fail (VERSION_NOT_FOUND (cr_versionId a)) 404
     | Some version \<Rightarrow>
         if v_templateId version \<noteq> cr_templateId a
         then fail (VERSION_TEMPLATE_MISMATCH (cr_versionId a) (cr_templateId a)) 400
         else if tenantId version \<noteq> p_tenantId p \<or> orgId version \<noteq> cr_orgId a \<or> projectId version \<noteq> cr_projectId a
         then fail (VERSION_SCOPE_MISMATCH (cr_versionId a)) 403
         else andThen (query (store_getTemplate (p_tenantId p) (cr_templateId a))) (\<lambda>foundT.
         case foundT of
           None \<Rightarrow> fail (TEMPLATE_NOT_FOUND (cr_templateId a)) 404
         | Some t \<Rightarrow>
             if t_status t = TArchived then fail (TEMPLATE_ARCHIVED (cr_templateId a)) 409
             else andThen (reads (findRunByIdempotency (p_tenantId p) (cr_idempotencyKey a))) (\<lambda>existing.
             case existing of
               Some run \<Rightarrow>
                 if r_templateId run \<noteq> cr_templateId a \<or> r_versionId run \<noteq> cr_versionId a
                 then fail IDEMPOTENCY_CONFLICT 409 else ok run
             | None \<Rightarrow> admit_run E p a version))))"

definition getRun :: "resolved_principal \<Rightarrow> string \<Rightarrow> store \<Rightarrow> automation_run option" where
  "getRun p rid d =
     (case store_getRun (p_tenantId p) rid d of
        None \<Rightarrow> None
      | Some r \<Rightarrow> if \<not> canAccess p (orgId r) (projectId r) then None else Some r)"

definition listRuns :: "resolved_principal \<Rightarrow> string option \<Rightarrow> string option \<Rightarrow> store \<Rightarrow> automation_run list" where
  "listRuns p org proj d = store_listRuns (p_tenantId p) org proj d"

definition cancelRun :: "'w deps \<Rightarrow> resolved_principal \<Rightarrow> string \<Rightarrow> ('w, automation_run) svc_op" where
  "cancelRun E p rid =
     andThen (query (getRun p rid)) (\<lambda>found.
     case found of
       None \<Rightarrow> fail (RUN_NOT_FOUND rid) 404
     | Some run \<Rightarrow>
         if status run = Completed \<or> status run = Failed \<or> status run = Rejected \<or> status run = Cancelled then ok run
         else andThen (transitionRun E (p_tenantId p) rid (runVersion run) Cancelled Undefined) (\<lambda>updated.
              andThen (appendAutomationEvent E (p_tenantId p) run RunFailed (JObj [(''reason'', JStr ''cancelled'')])) (\<lambda>_.
              andThen (audit E p (scopeOf run) ''automation_run_cancelled'' (JObj [(''runId'', JStr rid)])) (\<lambda>_.
              ok updated))))"

definition listRunEvents :: "resolved_principal \<Rightarrow> string \<Rightarrow> nat \<Rightarrow> store \<Rightarrow> automation_event list" where
  "listRunEvents p rid afterSeq d =
     (case getRun p rid d of None \<Rightarrow> [] | Some _ \<Rightarrow> store_listEvents (p_tenantId p) rid afterSeq d)"

definition listRunArtifacts :: "resolved_principal \<Rightarrow> string \<Rightarrow> store \<Rightarrow> automation_artifact list" where
  "listRunArtifacts p rid d =
     (case getRun p rid d of None \<Rightarrow> [] | Some _ \<Rightarrow> store_listArtifacts (p_tenantId p) rid d)"

definition listRunDeliveries :: "resolved_principal \<Rightarrow> string \<Rightarrow> store \<Rightarrow> delivery_attempt list" where
  "listRunDeliveries p rid d =
     (case getRun p rid d of None \<Rightarrow> [] | Some _ \<Rightarrow> store_listDeliveryAttempts (p_tenantId p) rid d)"

section \<open>Delivery\<close>

definition completeRun :: "'w deps \<Rightarrow> resolved_principal \<Rightarrow> automation_run \<Rightarrow> delivery_attempt \<Rightarrow> ('w, automation_run) svc_op" where
  "completeRun E p run d =
     (if status run = Completed then ok run
      else andThen (transitionRun E (p_tenantId p) (runId run) (runVersion run) Completed Undefined) (\<lambda>completed.
           andThen (appendAutomationEvent E (p_tenantId p) run RunCompleted
             (JObj [(''runId'', JStr (runId run)), (''deliveryId'', JStr (deliveryId d)), (''resultRef'', jopt (resultRef d))])) (\<lambda>_.
           andThen (audit E p (scopeOf run) ''automation_run_completed''
             (JObj [(''runId'', JStr (runId run)), (''deliveryId'', JStr (deliveryId d))])) (\<lambda>_.
           ok completed))))"

text \<open>The artifacts of a delivery, each verified before its content is read.\<close>

fun load_contents :: "'w deps \<Rightarrow> automation_artifact list \<Rightarrow> mem_artifacts \<Rightarrow> automation_error + (string \<times> bytes) list" where
  "load_contents E [] refs = Inr []"
| "load_contents E (a # as) refs =
     seq_res (verifyArtifact (mem_verify (host_of E)) a refs) (\<lambda>_.
     seq_res (mem_get (contentRef a) refs) (\<lambda>c.
     seq_res (load_contents E as refs) (\<lambda>cs. Inr ((artifactId a, c) # cs))))"

definition message_of :: "'w deps \<Rightarrow> automation_error \<Rightarrow> string" where
  "message_of E e = (case e of OtherError m \<Rightarrow> m | AutomationError c _ \<Rightarrow> error_message E c)"

definition delivery_idem_key :: "string \<Rightarrow> string \<Rightarrow> string" where
  "delivery_idem_key rid dest = ''delivery:'' @ rid @ '':'' @ dest"

definition find_or_create_delivery :: "'w deps \<Rightarrow> resolved_principal \<Rightarrow> automation_run \<Rightarrow> string \<Rightarrow> ('w, delivery_attempt) svc_op" where
  "find_or_create_delivery E p run dest =
     (let key = delivery_idem_key (runId run) dest
      in andThen (query (store_getDeliveryAttemptByKey (p_tenantId p) (runId run) key)) (\<lambda>found.
         case found of
           Some d \<Rightarrow> ok d
         | None \<Rightarrow> andThen (fresh_id E ''dlv_'') (\<lambda>did. andThen (now_of E) (\<lambda>now.
                   let d = buildDeliveryAttempt did now (runId run) (r_versionId run) key dest
                   in andThen (on_db (store_saveDeliveryAttempt d)) (\<lambda>_. ok d)))))"

text \<open>
  The body of the \<^verbatim>\<open>try\<close> block up to its \<^verbatim>\<open>return this.completeRun(...)\<close>: the returned
  promise is not awaited there, so that an error of \<^verbatim>\<open>completeRun\<close> is not caught.
\<close>

definition deliver_and_settle ::
  "'w deps \<Rightarrow> resolved_principal \<Rightarrow> automation_run \<Rightarrow> delivery_attempt \<Rightarrow> deliver_args \<Rightarrow> ('w, delivery_attempt) svc_op" where
  "deliver_and_settle E p run inProgress args =
     andThen (external (deliver E (delivery_idem_key (runId run) (fst args)) args)) (\<lambda>ref.
     andThen (transitionDelivery E (p_tenantId p) (deliveryId inProgress) (deliveryVersion inProgress) DDelivered (Some ref) Undefined) (\<lambda>d.
     andThen (appendAutomationEvent E (p_tenantId p) run DeliveryCompleted
       (JObj [(''deliveryId'', JStr (deliveryId d)), (''resultRef'', jopt (resultRef d))])) (\<lambda>_.
     andThen (audit E p (scopeOf run) ''automation_delivery_completed''
       (JObj [(''runId'', JStr (runId run)), (''deliveryId'', JStr (deliveryId d)), (''destination'', JStr (destination d))])) (\<lambda>_.
     ok d))))"

definition fail_delivery ::
  "'w deps \<Rightarrow> resolved_principal \<Rightarrow> automation_run \<Rightarrow> delivery_attempt \<Rightarrow> string \<Rightarrow> ('w, automation_run) svc_op" where
  "fail_delivery E p run inProgress msg =
     andThen (transitionDelivery E (p_tenantId p) (deliveryId inProgress) (deliveryVersion inProgress) DFailed None (Value msg)) (\<lambda>failed.
     andThen (transitionRun E (p_tenantId p) (runId run) (runVersion run) Failed (Value msg)) (\<lambda>failedRun.
     andThen (appendAutomationEvent E (p_tenantId p) run RunFailed
       (JObj [(''reason'', JStr ''delivery_failed''), (''deliveryId'', JStr (deliveryId failed))])) (\<lambda>_.
     ok failedRun)))"

definition attempt_delivery ::
  "'w deps \<Rightarrow> resolved_principal \<Rightarrow> automation_run \<Rightarrow> delivery_spec \<Rightarrow> delivery_attempt \<Rightarrow> ('w, automation_run) svc_op" where
  "attempt_delivery E p run spec attempt =
     andThen (query (store_listArtifacts (p_tenantId p) (runId run))) (\<lambda>arts.
     let chosen = filter (\<lambda>a. artifactId a \<in> set (ds_artifactIds spec) \<or> ds_artifactIds spec = []) arts
     in andThen (\<lambda>s. (load_contents E chosen (blobs s), s)) (\<lambda>contents.
        andThen (transitionDelivery E (p_tenantId p) (deliveryId attempt) (deliveryVersion attempt) DInProgress None Undefined) (\<lambda>inProgress.
        andThen (appendAutomationEvent E (p_tenantId p) run DeliveryStarted
          (JObj [(''deliveryId'', JStr (deliveryId inProgress)), (''destination'', JStr (destination inProgress))])) (\<lambda>_.
        andThen (catch (andThen (deliver_and_settle E p run inProgress (ds_destination spec, chosen, contents)) (\<lambda>d. ok (Inl d)))
                       (\<lambda>e. andThen (fail_delivery E p run inProgress (message_of E e)) (\<lambda>r. ok (Inr r)))) (\<lambda>outcome.
        case outcome of Inl d \<Rightarrow> completeRun E p run d | Inr failedRun \<Rightarrow> ok failedRun)))))"

definition deliver_delivering :: "'w deps \<Rightarrow> resolved_principal \<Rightarrow> automation_run \<Rightarrow> delivery_spec \<Rightarrow> ('w, automation_run) svc_op" where
  "deliver_delivering E p run spec =
     andThen (find_or_create_delivery E p run (ds_destination spec)) (\<lambda>attempt.
     if dlv_status attempt = DDelivered then completeRun E p run attempt else attempt_delivery E p run spec attempt)"

definition deliverRun :: "'w deps \<Rightarrow> resolved_principal \<Rightarrow> automation_run \<Rightarrow> automation_version \<Rightarrow> ('w, automation_run) svc_op" where
  "deliverRun E p run version =
     (if status run \<noteq> AwaitingApproval \<and> status run \<noteq> Delivering \<and> status run \<noteq> Collecting then ok run
      else andThen (if status run = AwaitingApproval \<or> status run = Collecting
                    then transitionRun E (p_tenantId p) (runId run) (runVersion run) Delivering Undefined else ok run) (\<lambda>run'.
           deliver_delivering E p run' (delivery (v_definition version))))"

section \<open>Approvals\<close>

definition createApprovalRequest :: "'w deps \<Rightarrow> resolved_principal \<Rightarrow> automation_run \<Rightarrow> automation_version \<Rightarrow> ('w, approval_request) svc_op" where
  "createApprovalRequest E p run version =
     (let spec = approval (v_definition version)
      in andThen (query (store_getApprovalRequestByGate (p_tenantId p) (runId run) (ap_gateId spec))) (\<lambda>existing.
         case existing of
           Some r \<Rightarrow> ok r
         | None \<Rightarrow>
             andThen (fresh_id E ''apr_'') (\<lambda>aid. andThen (now_of E) (\<lambda>now.
             let req = buildApprovalRequest aid now
                   \<lparr>aq_runId = runId run, aq_versionId = r_versionId run, aq_gateId = ap_gateId spec,
                    aq_minApproverRole = ap_minApproverRole spec, aq_contextArtifacts = ap_contextArtifacts spec,
                    aq_expiresAfterMs = (if present (ap_expiresAfterMs spec) then ap_expiresAfterMs spec else Undefined)\<rparr>
             in andThen (on_db (store_saveApprovalRequest req)) (\<lambda>_.
                andThen (audit E p (scopeOf run) ''automation_approval_requested''
                  (JObj [(''runId'', JStr (runId run)), (''approvalId'', JStr (approvalId req)), (''gateId'', JStr (gateId req))])) (\<lambda>_.
                ok req))))))"

definition getApprovalRequest :: "resolved_principal \<Rightarrow> string \<Rightarrow> store \<Rightarrow> approval_request option" where
  "getApprovalRequest p aid d =
     (case store_getApprovalRequest (p_tenantId p) aid d of
        None \<Rightarrow> None
      | Some req \<Rightarrow> (case store_getRun (p_tenantId p) (apr_runId req) d of
                        None \<Rightarrow> None
                      | Some run \<Rightarrow> if \<not> canAccess p (orgId run) (projectId run) then None else Some req))"

definition listRunApprovalRequests :: "resolved_principal \<Rightarrow> string \<Rightarrow> store \<Rightarrow> approval_request list" where
  "listRunApprovalRequests p rid d =
     (case getRun p rid d of None \<Rightarrow> [] | Some _ \<Rightarrow> store_listApprovalRequests (p_tenantId p) rid d)"

primrec approval_status_name :: "approval_status \<Rightarrow> string" where
  "approval_status_name APending = ''pending''"
| "approval_status_name AApproved = ''approved''"
| "approval_status_name ARejected = ''rejected''"
| "approval_status_name AChangesRequested = ''changes_requested''"
| "approval_status_name AExpired = ''expired''"

text \<open>What the run does with the decision.\<close>

definition follow_decision ::
  "'w deps \<Rightarrow> resolved_principal \<Rightarrow> approval_request \<Rightarrow> automation_run \<Rightarrow> ('w, approval_request \<times> automation_run option) svc_op" where
  "follow_decision E p decided run =
     (if apr_status decided = AApproved \<and> status run = AwaitingApproval then
        andThen (query_res (store_getVersion (host_of E) (p_tenantId p) (r_versionId run))) (\<lambda>found.
        case found of
          Some version \<Rightarrow> andThen (deliverRun E p run version) (\<lambda>r. ok (decided, Some r))
        | None \<Rightarrow> ok (decided, Some run))
      else if apr_status decided = ARejected \<and> status run = AwaitingApproval then
        andThen (transitionRun E (p_tenantId p) (runId run) (runVersion run) Rejected Undefined) (\<lambda>updated.
        andThen (appendAutomationEvent E (p_tenantId p) run RunFailed (JObj [(''reason'', JStr ''rejected'')])) (\<lambda>_.
        ok (decided, Some updated)))
      else if apr_status decided = AChangesRequested \<and> status run = AwaitingApproval then
        andThen (transitionRun E (p_tenantId p) (runId run) (runVersion run) Suspended Undefined) (\<lambda>updated.
        ok (decided, Some updated))
      else ok (decided, Some run))"

definition decideApproval ::
  "'w deps \<Rightarrow> resolved_principal \<Rightarrow> string \<Rightarrow> approval_decision \<Rightarrow> json optional \<Rightarrow> ('w, approval_request \<times> automation_run option) svc_op" where
  "decideApproval E p aid decision meta =
     andThen (query (getApprovalRequest p aid)) (\<lambda>found.
     case found of
       None \<Rightarrow> fail (APPROVAL_NOT_FOUND aid) 404
     | Some req \<Rightarrow>
         andThen (lift_res (authorizeApprover req (role_name (role p)))) (\<lambda>_.
         andThen (now_of E) (\<lambda>now.
         andThen (on_db (store_decideApproval (p_tenantId p) aid (approvalVersion req) decision
           \<lparr>da_principalId = principalId p, da_kind = kind p\<rparr> meta now)) (\<lambda>decided.
         andThen (query (store_getRun (p_tenantId p) (apr_runId req))) (\<lambda>run.
         andThen (case run of
                    None \<Rightarrow> ok ()
                  | Some r \<Rightarrow> appendAutomationEvent E (p_tenantId p) r
                      (if apr_status decided = AApproved then ApprovalApproved else ApprovalRejected)
                      (JObj [(''approvalId'', JStr (approvalId req)), (''decision'', JStr (approval_status_name (apr_status decided)))])) (\<lambda>_.
         andThen (audit E p \<lparr>tenantId = p_tenantId p, orgId = [], projectId = []\<rparr>
           (if apr_status decided = AApproved then ''automation_approval_approved'' else ''automation_approval_rejected'')
           (JObj [(''runId'', JStr (apr_runId req)), (''approvalId'', JStr (approvalId req)),
                  (''decision'', JStr (approval_status_name (apr_status decided))), (''actor'', JStr (principalId p))])) (\<lambda>_.
         case run of None \<Rightarrow> ok (decided, None) | Some r \<Rightarrow> follow_decision E p decided r)))))))"

section \<open>Orchestration\<close>

definition stepIdempotencyKey :: "string \<Rightarrow> string \<Rightarrow> string" where
  "stepIdempotencyKey rid sid = ''auto:'' @ rid @ '':'' @ sid"

definition option_of :: "'a optional \<Rightarrow> 'a option" where
  "option_of x = (case x of Value v \<Rightarrow> Some v | _ \<Rightarrow> None)"

definition dispatch_request_of :: "automation_run \<Rightarrow> automation_step \<Rightarrow> string \<Rightarrow> dispatch_request" where
  "dispatch_request_of run step prm =
     (let x = execution step
      in \<lparr>dq_identity = scopeOf run, dq_engine = engine x, dq_model = model x, dq_input = prm,
          dq_engineOptions = option_of (engineOptions x), dq_maxSteps = option_of (maxSteps x),
          dq_maxTokens = option_of (maxTokens x), dq_maxDurationMs = option_of (maxDurationMs x),
          dq_allowedTools = option_of (allowedTools x),
          dq_idempotencyKey = stepIdempotencyKey (runId run) (stepId step)\<rparr>)"

definition is_mapping_exists :: "automation_error \<Rightarrow> bool" where
  "is_mapping_exists e = (case e of AutomationError (JOB_MAPPING_EXISTS _ _) _ \<Rightarrow> True | _ \<Rightarrow> False)"

definition dispatchStep ::
  "'w deps \<Rightarrow> resolved_principal \<Rightarrow> automation_run \<Rightarrow> automation_version \<Rightarrow> automation_step \<Rightarrow> string \<Rightarrow> string \<Rightarrow>
   ('w, string \<times> job_state) svc_op" where
  "dispatchStep E p run version step prm revisionId =
     andThen (query (store_getJobMapping (p_tenantId p) (runId run) (stepId step))) (\<lambda>existing.
     case existing of
       Some m \<Rightarrow>
         andThen (reads (\<lambda>s. getJobState E (jm_jobId m) (outside s))) (\<lambda>st.
         case st of None \<Rightarrow> fail (JOB_STATE_LOST (stepId step)) 500 | Some j \<Rightarrow> ok (jm_jobId m, j))
     | None \<Rightarrow>
         andThen (external (dispatchAndRun E (dispatch_request_of run step prm))) (\<lambda>result.
         andThen (fresh_id E ''map_'') (\<lambda>mid. andThen (now_of E) (\<lambda>now.
         let mapping = \<lparr>mappingId = mid, jm_runId = runId run, jm_versionId = versionId version, jm_stepId = stepId step,
               jm_jobId = dr_jobId result, jm_idempotencyKey = stepIdempotencyKey (runId run) (stepId step),
               jm_inputRevisionId = revisionId, jm_createdAt = now\<rparr>
         in catch (andThen (on_db (store_saveJobMapping mid mapping)) (\<lambda>_. ok (dr_jobId result, dr_state result)))
              (\<lambda>e. if is_mapping_exists e
                   then andThen (query (store_getJobMapping (p_tenantId p) (runId run) (stepId step))) (\<lambda>reloaded.
                        case reloaded of Some m \<Rightarrow> ok (jm_jobId m, dr_state result) | None \<Rightarrow> throw e)
                   else throw e)))))"

text \<open>Projection of the events of a job, appended one by one.\<close>

definition project_job :: "'w deps \<Rightarrow> string \<Rightarrow> string \<Rightarrow> string \<Rightarrow> string \<Rightarrow> job_event list \<Rightarrow> ('w, unit) svc_op" where
  "project_job E tenant rid sid jid evs =
     andThen (query (next_seq tenant rid)) (\<lambda>startSeq.
     andThen (reads (\<lambda>s. fst (projectStepEvents \<lparr>pa_runId = rid, pa_stepId = sid, pa_jobId = jid,
       pa_clk = (\<lambda>seq. clock E (ticks s + (seq - startSeq)))\<rparr> startSeq evs))) (\<lambda>out.
     andThen (modifies (\<lambda>s. s\<lparr>ticks := ticks s + length out\<rparr>)) (\<lambda>_.
     for_each out (\<lambda>e. on_db (store_appendEvent tenant e)))))"

abbreviation or_step_failed :: "string option \<Rightarrow> string" where
  "or_step_failed x \<equiv> case x of None \<Rightarrow> ''step failed'' | Some m \<Rightarrow> m"

definition fail_run ::
  "'w deps \<Rightarrow> resolved_principal \<Rightarrow> automation_run \<Rightarrow> string option \<Rightarrow> json \<Rightarrow> ('w, automation_run) svc_op" where
  "fail_run E p run err dat =
     andThen (transitionRun E (p_tenantId p) (runId run) (runVersion run) Failed (Value (or_step_failed err))) (\<lambda>r.
     andThen (appendAutomationEvent E (p_tenantId p) r RunFailed dat) (\<lambda>_. ok r))"

type_synonym outputs_table = "(string, (string \<times> json) list) table"

text \<open>
  One iteration of the step loop: \<open>Inl\<close> returns from \<^verbatim>\<open>advanceRun\<close>, \<open>Inr\<close> goes on with
  the outputs collected so far.
\<close>

definition advance_step ::
  "'w deps \<Rightarrow> resolved_principal \<Rightarrow> automation_run \<Rightarrow> automation_version \<Rightarrow> run_input_revision \<Rightarrow> string \<Rightarrow> outputs_table \<Rightarrow>
   ('w, automation_run + outputs_table) svc_op" where
  "advance_step E p run version revision sid outs =
     (case find (\<lambda>st. stepId st = sid) (steps (v_definition version)) of
        None \<Rightarrow> throw (OtherError ''TypeError'')
      | Some step \<Rightarrow>
          andThen (query (store_getStepState (p_tenantId p) (runId run) sid)) (\<lambda>existing.
          if map_option st_status existing = Some SCompleted
          then ok (Inr (tput sid (outputs (the existing)) outs))
          else if map_option st_status existing = Some SFailed
          then andThen (fail_run E p run (st_error (the existing))
                 (JObj [(''stepId'', JStr sid), (''reason'', JStr ''step_failed'')])) (\<lambda>r. ok (Inl r))
          else
            andThen (dispatchStep E p run version step
              (resolvePrompt (host_of E) (prompt (execution step)) (rev_values revision) outs) (inputRevisionId revision)) (\<lambda>(jid, jobState).
            andThen (reads (\<lambda>s. listJobEvents E jid (outside s))) (\<lambda>evs.
            andThen (project_job E (p_tenantId p) (runId run) sid jid evs) (\<lambda>_.
            let st = stepStatusFromJobStatus (js_status jobState);
                outp = (if st = SCompleted then extractOutputs (json_parse E) (lastAssistantText evs) (outputMappings step) else [])
            in andThen (if st = SCompleted then andThen (now_of E) (\<lambda>now. ok (Some now)) else ok None) (\<lambda>done.
               andThen (on_db (store_upsertStepState \<lparr>st_runId = runId run, st_stepId = sid, st_status = st, st_jobId = Some jid,
                 outputs = outp, startedAt = None, st_completedAt = done, st_error = js_error jobState\<rparr>)) (\<lambda>_.
               if st = SFailed then
                 andThen (fail_run E p run (js_error jobState)
                   (JObj [(''stepId'', JStr sid), (''reason'', JStr ''step_failed''), (''jobId'', JStr jid)])) (\<lambda>r.
                 andThen (audit E p (scopeOf r) ''automation_run_failed''
                   (JObj [(''runId'', JStr (runId run)), (''stepId'', JStr sid), (''jobId'', JStr jid)])) (\<lambda>_.
                 ok (Inl r)))
               else if st \<noteq> SCompleted then ok (Inl run)
               else ok (Inr (tput sid outp outs)))))))))"

primrec advance_steps ::
  "'w deps \<Rightarrow> resolved_principal \<Rightarrow> automation_run \<Rightarrow> automation_version \<Rightarrow> run_input_revision \<Rightarrow> string list \<Rightarrow> outputs_table \<Rightarrow>
   ('w, automation_run + outputs_table) svc_op" where
  "advance_steps E p run version revision [] outs = ok (Inr outs)"
| "advance_steps E p run version revision (sid # sids) outs =
     andThen (advance_step E p run version revision sid outs) (\<lambda>res.
     case res of Inl r \<Rightarrow> ok (Inl r) | Inr outs' \<Rightarrow> advance_steps E p run version revision sids outs')"

definition collect_artifact :: "'w deps \<Rightarrow> resolved_principal \<Rightarrow> automation_run \<Rightarrow> outputs_table \<Rightarrow> artifact_spec \<Rightarrow> ('w, unit) svc_op" where
  "collect_artifact E p run stepOutputs spec =
     (let outs = (case tget stepOutputs (as_stepId spec) of None \<Rightarrow> [] | Some o' \<Rightarrow> o');
          content = deriveArtifactContent (host_of E) outs (as_path spec)
      in andThen (\<lambda>s. case mem_put (host_of E) content (blobs s) of (r, b) \<Rightarrow> (Inr r, s\<lparr>blobs := b\<rparr>)) (\<lambda>stored.
         andThen (fresh_id E ''art_'') (\<lambda>aid. andThen (now_of E) (\<lambda>now.
         let a = buildArtifact aid now (runId run) (r_versionId run) (Some (as_stepId spec)) (as_type spec) (as_name spec) stored
                   (JObj [(''artifactSpecId'', JStr (as_artifactId spec))])
         in andThen (on_db (store_saveArtifact a)) (\<lambda>_.
            appendAutomationEvent E (p_tenantId p) run ArtifactCreated
              (JObj [(''artifactId'', JStr (artifactId a)), (''stepId'', JStr (as_stepId spec)), (''type'', JStr (as_type spec))]))))))"

definition finish_run :: "'w deps \<Rightarrow> resolved_principal \<Rightarrow> automation_run \<Rightarrow> automation_version \<Rightarrow> outputs_table \<Rightarrow> ('w, automation_run) svc_op" where
  "finish_run E p run version outs =
     andThen (transitionRun E (p_tenantId p) (runId run) (runVersion run) Collecting Undefined) (\<lambda>run1.
     andThen (for_each (artifacts (v_definition version)) (collect_artifact E p run1 outs)) (\<lambda>_.
     if ap_required (approval (v_definition version)) then
       andThen (createApprovalRequest E p run1 version) (\<lambda>req.
       andThen (transitionRun E (p_tenantId p) (runId run) (runVersion run1) AwaitingApproval Undefined) (\<lambda>run2.
       andThen (appendAutomationEvent E (p_tenantId p) run2 ApprovalRequested
         (JObj [(''approvalId'', JStr (approvalId req)), (''gateId'', JStr (gateId req))])) (\<lambda>_. ok run2)))
     else deliverRun E p run1 version))"

definition advanceRun :: "'w deps \<Rightarrow> resolved_principal \<Rightarrow> string \<Rightarrow> ('w, automation_run) svc_op" where
  "advanceRun E p rid =
     andThen (query (getRun p rid)) (\<lambda>found.
     case found of
       None \<Rightarrow> fail (RUN_NOT_FOUND rid) 404
     | Some run0 \<Rightarrow>
         andThen (query_res (store_getVersion (host_of E) (p_tenantId p) (r_versionId run0))) (\<lambda>foundV.
         case foundV of
           None \<Rightarrow> fail (VERSION_NOT_FOUND (r_versionId run0)) 500
         | Some version \<Rightarrow>
             andThen (query (store_getInputRevision (p_tenantId p) rid (r_inputRevisionId run0))) (\<lambda>foundI.
             case foundI of
               None \<Rightarrow> fail (INPUT_NOT_FOUND (r_inputRevisionId run0)) 500
             | Some revision \<Rightarrow>
                 andThen (if status run0 = Admitted
                          then transitionRun E (p_tenantId p) rid (runVersion run0) Running Undefined else ok run0) (\<lambda>run.
                 if status run \<noteq> Running \<and> status run \<noteq> Collecting then ok run
                 else andThen (lift_res (executionOrder (steps (v_definition version)))) (\<lambda>ord.
                      andThen (advance_steps E p run version revision ord []) (\<lambda>res.
                      case res of Inl r \<Rightarrow> ok r | Inr outs \<Rightarrow> finish_run E p run version outs))))))"

section \<open>Reconciliation\<close>

definition reconcile_mapping ::
  "'w deps \<Rightarrow> resolved_principal \<Rightarrow> automation_run \<Rightarrow> automation_version \<Rightarrow> job_mapping \<Rightarrow> ('w, automation_run option) svc_op" where
  "reconcile_mapping E p run version m =
     andThen (reads (\<lambda>s. getJobState E (jm_jobId m) (outside s))) (\<lambda>found.
     case found of
       None \<Rightarrow> ok None
     | Some jobState \<Rightarrow>
         andThen (reads (\<lambda>s. listJobEvents E (jm_jobId m) (outside s))) (\<lambda>evs.
         andThen (project_job E (p_tenantId p) (runId run) (jm_stepId m) (jm_jobId m) evs) (\<lambda>_.
         andThen (query (store_getStepState (p_tenantId p) (runId run) (jm_stepId m))) (\<lambda>existing.
         let st = stepStatusFromJobStatus (js_status jobState);
             old = (case existing of None \<Rightarrow> [] | Some x \<Rightarrow> outputs x);
             outp = (case find (\<lambda>s. stepId s = jm_stepId m) (steps (v_definition version)) of
                       Some step \<Rightarrow> if st = SCompleted
                          then extractOutputs (json_parse E) (lastAssistantText evs) (outputMappings step) else old
                     | None \<Rightarrow> old)
         in andThen (if map_option st_status existing \<noteq> Some st \<or> stringify (host_of E) (JObj old) \<noteq> stringify (host_of E) (JObj outp)
              then andThen (if st = SCompleted then andThen (now_of E) (\<lambda>now. ok (Some now)) else ok None) (\<lambda>done.
                   on_db (store_upsertStepState \<lparr>st_runId = runId run, st_stepId = jm_stepId m, st_status = st,
                     st_jobId = Some (jm_jobId m), outputs = outp,
                     startedAt = (case existing of None \<Rightarrow> None | Some x \<Rightarrow> startedAt x),
                     st_completedAt = done, st_error = js_error jobState\<rparr>))
              else ok ()) (\<lambda>_.
            if st = SFailed \<and> \<not> isTerminalRun (status run)
            then andThen (fail_run E p run (js_error jobState)
                   (JObj [(''stepId'', JStr (jm_stepId m)), (''reason'', JStr ''step_failed''), (''jobId'', JStr (jm_jobId m))])) (\<lambda>r.
                 ok (Some r))
            else ok None)))))"

primrec reconcile_mappings ::
  "'w deps \<Rightarrow> resolved_principal \<Rightarrow> automation_run \<Rightarrow> automation_version \<Rightarrow> job_mapping list \<Rightarrow> ('w, automation_run option) svc_op" where
  "reconcile_mappings E p run version [] = ok None"
| "reconcile_mappings E p run version (m # ms) =
     andThen (reconcile_mapping E p run version m) (\<lambda>res.
     case res of Some r \<Rightarrow> ok (Some r) | None \<Rightarrow> reconcile_mappings E p run version ms)"

definition reconcileRun :: "'w deps \<Rightarrow> resolved_principal \<Rightarrow> string \<Rightarrow> ('w, automation_run) svc_op" where
  "reconcileRun E p rid =
     andThen (query (getRun p rid)) (\<lambda>found.
     case found of
       None \<Rightarrow> fail (RUN_NOT_FOUND rid) 404
     | Some run \<Rightarrow>
         andThen (query_res (store_getVersion (host_of E) (p_tenantId p) (r_versionId run))) (\<lambda>foundV.
         case foundV of
           None \<Rightarrow> fail (VERSION_NOT_FOUND (r_versionId run)) 500
         | Some version \<Rightarrow>
             andThen (query (store_listJobMappings (p_tenantId p) rid)) (\<lambda>ms.
             andThen (reconcile_mappings E p run version ms) (\<lambda>res.
             case res of
               Some r \<Rightarrow> ok r
             | None \<Rightarrow> if status run = Admitted \<or> status run = Running \<or> status run = Collecting
                        then advanceRun E p rid else ok run))))"

end
