(* ===== verification/Service_Properties.thy ===== *)
theory Service_Properties
  imports Automation_Service
begin

text \<open>
  What the orchestration layer guarantees: it acts on the store only through store calls, creates
  runs atomically and idempotently, cancels without getting stuck, carries decisions out, and
  completes no run that was not delivered.
\<close>

section \<open>Every operation is a sequence of store calls\<close>

definition db_steps :: "'w service \<Rightarrow> 'w service \<Rightarrow> bool" where
  "db_steps s s' \<longleftrightarrow> store_steps (db s) (db s')"

lemma store_steps_trans: "store_steps t u \<Longrightarrow> store_steps s t \<Longrightarrow> store_steps s u"
  by (induction rule: store_steps.induct) (auto intro: store_steps.intros)

lemma store_steps_one: "store_step s t \<Longrightarrow> store_steps s t"
  by (blast intro: store_steps.intros)

interpretation dbs: op_relation db_steps
  by unfold_locales (auto simp: db_steps_def intro: steps_refl store_steps_trans)

lemma dbs_on_db: "(\<And>d r d'. m d = (r, d') \<Longrightarrow> store_steps d d') \<Longrightarrow> dbs.obeys (on_db m)"
  by (rule dbs.obeysI) (auto simp: on_db_def db_steps_def split: prod.splits)

lemma dbs_pure: "(\<And>s. db (snd (m s)) = db s) \<Longrightarrow> dbs.obeys m"
  by (simp add: dbs.obeys_def db_steps_def steps_refl)

lemma dbs_leaf:
  "dbs.obeys (query f)" "dbs.obeys (query_res g)" "dbs.obeys (now_of E)" "dbs.obeys (fresh_id E pre)"
  "dbs.obeys (external x)"
  by (rule dbs_pure, simp add: query_def query_res_def now_of_def fresh_id_def external_def split: prod.splits sum.splits)+

lemma dbs_on_db_step: "(\<And>d r d'. m d = (r, d') \<Longrightarrow> store_step d d') \<Longrightarrow> dbs.obeys (on_db m)"
  by (rule dbs_on_db) (blast intro: store_steps_one)

lemma dbs_store:
  "dbs.obeys (on_db (store_createTemplate t))"
  "dbs.obeys (on_db (store_archiveTemplate tenant tid now))"
  "dbs.obeys (on_db (store_createVersion v))"
  "dbs.obeys (on_db (store_saveInputRevision revision))"
  "dbs.obeys (on_db (store_transitionRun tenant rid n to err now))"
  "dbs.obeys (on_db (store_upsertStepState st))"
  "dbs.obeys (on_db (store_saveJobMapping newId m))"
  "dbs.obeys (on_db (store_saveArtifact a))"
  "dbs.obeys (on_db (store_decideApproval tenant aid n d act meta now))"
  "dbs.obeys (on_db (store_saveDeliveryAttempt dl))"
  "dbs.obeys (on_db (store_transitionDelivery tenant did n dto ref err now))"
  "dbs.obeys (on_db (store_appendEvent tenant e))"
  by (rule dbs_on_db_step, erule store_step.intros)+

lemma dbs_createRun: "run_wf run \<Longrightarrow> dbs.obeys (on_db (store_createRun run))"
  by (rule dbs_on_db_step) (erule (1) step_createRun)

lemma dbs_saveApproval: "approval_wf req \<Longrightarrow> dbs.obeys (on_db (store_saveApprovalRequest req))"
  by (rule dbs_on_db_step) (erule (1) step_saveApprovalRequest)

lemmas dbs_rules = dbs.obeys_intros dbs_leaf dbs_store

lemma dbs_helpers:
  "dbs.obeys (transitionRun E tenant rid n to err)"
  "dbs.obeys (transitionDelivery E tenant did n dto ref derr)"
  "dbs.obeys (audit E p scope typ meta)"
  "dbs.obeys (appendAutomationEvent E tenant run etyp dat)"
  unfolding transitionRun_def transitionDelivery_def audit_def appendAutomationEvent_def
  by (intro dbs_rules dbs_pure; simp)+

lemma run_wf_revision [simp]: "run_wf (r\<lparr>r_inputRevisionId := i\<rparr>) = run_wf r"
  by (simp add: run_wf_def)

lemma dbs_templates:
  "dbs.obeys (createTemplate E p org proj nam desc)" "dbs.obeys (archiveTemplate E p tid)"
  "dbs.obeys (publishVersion E p tid def contract)"
  unfolding createTemplate_def archiveTemplate_def publishVersion_def
  by (intro dbs_rules dbs_helpers)+

lemma dbs_admit_run: "dbs.obeys (admit_run E p a version)"
  unfolding admit_run_def
  by (intro dbs_rules dbs_helpers dbs_createRun) (auto intro: dbs_pure simp: run_wf_buildRun)

lemma dbs_runs: "dbs.obeys (createRun E p a)" "dbs.obeys (cancelRun E p rid)"
  unfolding createRun_def cancelRun_def
  by (intro dbs_rules dbs_helpers dbs_admit_run)+

lemma dbs_completeRun: "dbs.obeys (completeRun E p run d)"
  unfolding completeRun_def by (intro dbs_rules dbs_helpers)

lemma dbs_deliverRun: "dbs.obeys (deliverRun E p run version)"
  unfolding deliverRun_def deliver_delivering_def attempt_delivery_def find_or_create_delivery_def deliver_and_settle_def fail_delivery_def
  by (intro dbs_rules dbs_helpers dbs_completeRun) (auto intro: dbs_pure)

lemma dbs_createApprovalRequest: "dbs.obeys (createApprovalRequest E p run version)"
  unfolding createApprovalRequest_def
  by (intro dbs_rules dbs_helpers dbs_saveApproval approval_wf_build)

lemma dbs_decideApproval: "dbs.obeys (decideApproval E p aid decision meta)"
  unfolding decideApproval_def follow_decision_def
  by (intro dbs_rules dbs_helpers dbs_deliverRun)

lemma dbs_project_job: "dbs.obeys (project_job E tenant rid sid jid evs)"
  unfolding project_job_def by (intro dbs_rules) (auto intro: dbs_pure)

lemma dbs_fail_run: "dbs.obeys (fail_run E p run err dat)"
  unfolding fail_run_def by (intro dbs_rules dbs_helpers)

lemma dbs_advance_step: "dbs.obeys (advance_step E p run version revision sid outs)"
  unfolding advance_step_def dispatchStep_def
  by (intro dbs_rules dbs_helpers dbs_project_job dbs_fail_run)

lemma dbs_advance_steps: "dbs.obeys (advance_steps E p run version revision sids outs)"
  by (induction sids arbitrary: outs) (auto intro!: dbs_rules dbs_advance_step)

lemma dbs_finish_run: "dbs.obeys (finish_run E p run version outs)"
  unfolding finish_run_def collect_artifact_def
  by (intro dbs_rules dbs_helpers dbs_createApprovalRequest dbs_deliverRun dbs_pure) (auto split: prod.splits)

lemma dbs_advanceRun: "dbs.obeys (advanceRun E p rid)"
  unfolding advanceRun_def
  by (intro dbs_rules dbs_helpers dbs_advance_steps dbs_finish_run)

lemma dbs_reconcile_mappings: "dbs.obeys (reconcile_mappings E p run version ms)"
proof (induction ms)
  case (Cons m ms)
  have "dbs.obeys (reconcile_mapping E p run version m)"
    unfolding reconcile_mapping_def by (intro dbs_rules dbs_helpers dbs_project_job dbs_fail_run)
  then show ?case using Cons by (auto intro!: dbs_rules)
qed (simp add: dbs_pure)

lemma dbs_reconcileRun: "dbs.obeys (reconcileRun E p rid)"
  unfolding reconcileRun_def
  by (intro dbs_rules dbs_advanceRun dbs_reconcile_mappings)

section \<open>Calls of the service\<close>

text \<open>The public operations that change state, by any principal with any arguments.\<close>

inductive service_call :: "'w deps \<Rightarrow> 'w service \<Rightarrow> 'w service \<Rightarrow> bool" for E where
  call_createTemplate: "createTemplate E p org proj nam desc s = (rt, s') \<Longrightarrow> service_call E s s'"
| call_archiveTemplate: "archiveTemplate E p tid s = (ra, s') \<Longrightarrow> service_call E s s'"
| call_publishVersion: "publishVersion E p tid def contract s = (rv, s') \<Longrightarrow> service_call E s s'"
| call_createRun: "createRun E p a s = (rr, s') \<Longrightarrow> service_call E s s'"
| call_cancelRun: "cancelRun E p rid s = (rr, s') \<Longrightarrow> service_call E s s'"
| call_advanceRun: "advanceRun E p rid s = (rr, s') \<Longrightarrow> service_call E s s'"
| call_decideApproval: "decideApproval E p aid decision meta s = (rd, s') \<Longrightarrow> service_call E s s'"
| call_deliverRun: "deliverRun E p run version s = (rr, s') \<Longrightarrow> service_call E s s'"
| call_reconcileRun: "reconcileRun E p rid s = (rr, s') \<Longrightarrow> service_call E s s'"

inductive service_calls :: "'w deps \<Rightarrow> 'w service \<Rightarrow> 'w service \<Rightarrow> bool" for E where
  calls_refl: "service_calls E s s"
| calls_next: "service_calls E s t \<Longrightarrow> service_call E t u \<Longrightarrow> service_calls E s u"

definition new_service :: "'w \<Rightarrow> 'w service" where
  "new_service w = \<lparr>db = empty_store, blobs = [], auditLog = [], idempotencyKeys = [], ticks = 0, outside = w\<rparr>"

lemma service_call_steps: "service_call E s s' \<Longrightarrow> db_steps s s'"
  by (induction rule: service_call.induct)
    (blast intro: dbs.obeysD dbs_templates dbs_runs dbs_advanceRun dbs_decideApproval dbs_deliverRun dbs_reconcileRun)+

lemma service_calls_steps: "service_calls E s s' \<Longrightarrow> db_steps s s'"
  by (induction rule: service_calls.induct) (blast intro: dbs.R_refl dbs.R_trans service_call_steps)+

section \<open>Properties\<close>


text \<open>
  C2. A run that has reached a terminal status is never changed again by any operation of the
  service: not cancelled, not re-delivered, not re-driven by reconciliation.
\<close>

theorem terminal_run_frozen:
  assumes "service_calls E s s'" and "tget (runs (db s)) rid = Some r" and "isTerminalRun (status r)"
  shows "tget (runs (db s')) rid = Some r"
  using steps_run [OF service_calls_steps [OF assms(1), unfolded db_steps_def] assms(2)] assms(3)
    frun.evolves_terminal [of r] by (auto simp: run_terminal_def)

subsection \<open>Operations that cannot fail\<close>

text \<open>The audit log and the event log take every entry and touch nothing else.\<close>

lemma now_of_app [simp]: "now_of E s = (Inr (clock E (ticks s)), s\<lparr>ticks := ticks s + 1\<rparr>)"
  by (simp add: now_of_def)

lemma fresh_id_app [simp]: "fresh_id E pre s = (Inr (pre @ ascending E (ticks s)), s\<lparr>ticks := ticks s + 1\<rparr>)"
  by (simp add: fresh_id_def)

lemma andThen_now_of [simp]: "andThen (now_of E) f s = f (clock E (ticks s)) (s\<lparr>ticks := ticks s + 1\<rparr>)"
  by (simp add: andThen_def)

lemma andThen_fresh_id [simp]: "andThen (fresh_id E pre) f s = f (pre @ ascending E (ticks s)) (s\<lparr>ticks := ticks s + 1\<rparr>)"
  by (simp add: andThen_def)

lemma andThen_query [simp]: "andThen (query f) g s = g (f (db s)) s"
  by (simp add: query_def)

lemma andThen_query_res [simp]: "andThen (query_res f) g s = (case f (db s) of Inl e \<Rightarrow> (Inl e, s) | Inr x \<Rightarrow> g x s)"
  by (simp add: query_res_def andThen_def split: sum.splits)

lemma andThen_on_db:
  "andThen (on_db m) g s = (case m (db s) of (Inl e, d) \<Rightarrow> (Inl e, s\<lparr>db := d\<rparr>) | (Inr x, d) \<Rightarrow> g x (s\<lparr>db := d\<rparr>))"
  by (simp add: andThen_def on_db_def split: prod.splits sum.splits)

definition same_but_events :: "store \<Rightarrow> store \<Rightarrow> bool" where
  "same_but_events d d' \<longleftrightarrow> d' = d\<lparr>events := events d'\<rparr>"

lemma same_but_events_sel:
  "same_but_events d d' \<Longrightarrow> runs d' = runs d \<and> templates d' = templates d \<and> versions d' = versions d
     \<and> inputs d' = inputs d \<and> deliveries d' = deliveries d \<and> deliveriesByKey d' = deliveriesByKey d
     \<and> approvals d' = approvals d \<and> approvalsByGate d' = approvalsByGate d \<and> mappings d' = mappings d
     \<and> step_states d' = step_states d \<and> store_artifacts d' = store_artifacts d"
  by (simp add: same_but_events_def) (metis store.select_convs store.surjective store.update_convs(13))

lemma audit_total: "\<exists>s'. audit E p scope ty meta s = (Inr (), s') \<and> db s' = db s \<and> blobs s' = blobs s
    \<and> idempotencyKeys s' = idempotencyKeys s \<and> outside s' = outside s"
  by (simp add: audit_def)

lemma appendAutomationEvent_total:
  "\<exists>s'. appendAutomationEvent E tenant run ty dat s = (Inr (), s') \<and> same_but_events (db s) (db s')
    \<and> blobs s' = blobs s \<and> idempotencyKeys s' = idempotencyKeys s \<and> outside s' = outside s"
  by (auto simp: appendAutomationEvent_def on_db_def store_appendEvent_def same_but_events_def split: prod.splits)

lemma andThen_audit:
  "andThen (audit E p scope ty meta) f s = f () (snd (audit E p scope ty meta s))"
  using audit_total [of E p scope ty meta s] by (auto simp: andThen_def)

lemma andThen_event:
  "andThen (appendAutomationEvent E tenant run ty dat) f s = f () (snd (appendAutomationEvent E tenant run ty dat s))"
  using appendAutomationEvent_total [of E tenant run ty dat s] by (auto simp: andThen_def)

lemma audit_frame [simp]:
  "db (snd (audit E p scope ty meta s)) = db s" "idempotencyKeys (snd (audit E p scope ty meta s)) = idempotencyKeys s"
  "outside (snd (audit E p scope ty meta s)) = outside s"
  using audit_total [of E p scope ty meta s] by auto

lemma event_frame [simp]:
  "runs (db (snd (appendAutomationEvent E tenant run ty dat s))) = runs (db s)"
  "versions (db (snd (appendAutomationEvent E tenant run ty dat s))) = versions (db s)"
  "templates (db (snd (appendAutomationEvent E tenant run ty dat s))) = templates (db s)"
  "inputs (db (snd (appendAutomationEvent E tenant run ty dat s))) = inputs (db s)"
  "deliveries (db (snd (appendAutomationEvent E tenant run ty dat s))) = deliveries (db s)"
  "deliveriesByKey (db (snd (appendAutomationEvent E tenant run ty dat s))) = deliveriesByKey (db s)"
  "approvals (db (snd (appendAutomationEvent E tenant run ty dat s))) = approvals (db s)"
  "idempotencyKeys (snd (appendAutomationEvent E tenant run ty dat s)) = idempotencyKeys s"
  "outside (snd (appendAutomationEvent E tenant run ty dat s)) = outside s"
  using appendAutomationEvent_total [of E tenant run ty dat s] by (auto dest: same_but_events_sel)

text \<open>A transition the table allows, made at the current token, succeeds.\<close>

definition moved :: "automation_run \<Rightarrow> run_status \<Rightarrow> string optional \<Rightarrow> int \<Rightarrow> automation_run" where
  "moved r to err now = r\<lparr>status := to,
     error := (case err of Undefined \<Rightarrow> error r | Null \<Rightarrow> None | Value e \<Rightarrow> Some e),
     updatedAt := now, runVersion := Suc (runVersion r),
     suspendedAt := (if to = Suspended then Some now else suspendedAt r),
     completedAt := (if isTerminalRun to then Some now else None)\<rparr>"

lemma transitionRun_ok:
  assumes "tget (runs (db s)) rid = Some r" "tenantId r = tenant" "runVersion r = n" "to \<in> set (TRANSITIONS (status r))"
  shows "transitionRun E tenant rid n to err s =
    (Inr (moved r to err (clock E (ticks s))),
     s\<lparr>ticks := ticks s + 1, db := (db s)\<lparr>runs := tput rid (moved r to err (clock E (ticks s))) (runs (db s))\<rparr>\<rparr>)"
proof -
  have "run_write n (to, err, now) r = Inr (moved r to err now)" for now
    using assms(3,4) by (simp add: run_write_Inr applyTransition_Inr moved_def)
  moreover have "tenant_run tenant rid (db s) = Some r"
    using assms(1,2) by (simp add: tenant_run_Some)
  ultimately show ?thesis
    by (simp add: transitionRun_def on_db_def store_transitionRun_def)
qed

lemma getRun_Some: "getRun p rid d = Some r \<longleftrightarrow>
    tget (runs d) rid = Some r \<and> tenantId r = p_tenantId p \<and> canAccess p (orgId r) (projectId r)"
  by (auto simp: getRun_def store_getRun_def tenant_run_def split: option.splits if_splits)


subsection \<open>Creating a run\<close>

text \<open>
  The run and the state that \<^verbatim>\<open>createRun\<close> leaves: \<open>admitted_run\<close> is the record,
  \<open>frozen_revision\<close> its input revision.
\<close>

definition new_run :: "'w deps \<Rightarrow> resolved_principal \<Rightarrow> create_run_args \<Rightarrow> automation_version \<Rightarrow> 'w service \<Rightarrow> automation_run" where
  "new_run E p a version s =
     (buildRun (''run_'' @ ascending E (ticks s)) (clock E (ticks s + 1))
        \<lparr>tenantId = p_tenantId p, orgId = cr_orgId a, projectId = cr_projectId a,
         ra_templateId = cr_templateId a, ra_versionId = cr_versionId a, ra_version = v_version version,
         ra_inputRevisionId = [], ra_createdBy = principalId p\<rparr>)\<lparr>r_inputRevisionId := ''inp_'' @ ascending E (ticks s + 2)\<rparr>"

definition admitted_run :: "'w deps \<Rightarrow> resolved_principal \<Rightarrow> create_run_args \<Rightarrow> automation_version \<Rightarrow> 'w service \<Rightarrow> automation_run" where
  "admitted_run E p a version s =
     moved (moved (new_run E p a version s) ValidatingInput Undefined (clock E (ticks s + 4))) Admitted Undefined (clock E (ticks s + 5))"

definition frozen_revision :: "'w deps \<Rightarrow> (string \<times> json) list \<Rightarrow> 'w service \<Rightarrow> run_input_revision" where
  "frozen_revision E vals s =
     buildInputRevision (host_of E) (''inp_'' @ ascending E (ticks s + 2)) (clock E (ticks s + 3)) (''run_'' @ ascending E (ticks s)) vals"

lemma moved_sel [simp]:
  "runId (moved r to err now) = runId r" "tenantId (moved r to err now) = tenantId r"
  "status (moved r to err now) = to" "runVersion (moved r to err now) = Suc (runVersion r)"
  "r_templateId (moved r to err now) = r_templateId r" "r_versionId (moved r to err now) = r_versionId r"
  "r_version (moved r to err now) = r_version r" "r_inputRevisionId (moved r to err now) = r_inputRevisionId r"
  "orgId (moved r to err now) = orgId r" "projectId (moved r to err now) = projectId r"
  by (simp_all add: moved_def)

lemma new_run_sel [simp]:
  "runId (new_run E p a v s) = ''run_'' @ ascending E (ticks s)" "tenantId (new_run E p a v s) = p_tenantId p"
  "status (new_run E p a v s) = Created" "runVersion (new_run E p a v s) = 1"
  "r_templateId (new_run E p a v s) = cr_templateId a" "r_versionId (new_run E p a v s) = cr_versionId a"
  "r_version (new_run E p a v s) = v_version v" "r_inputRevisionId (new_run E p a v s) = ''inp_'' @ ascending E (ticks s + 2)"
  by (simp_all add: new_run_def buildRun_def)

lemma inputRevisionId_frozen [simp]: "inputRevisionId (frozen_revision E vals s) = ''inp_'' @ ascending E (ticks s + 2)"
  by (simp add: frozen_revision_def buildInputRevision_def)

lemma tput_tput [simp]: "tput k v (tput k w t) = tput k v t"
  by (induction t) auto

lemma admit_run_new:
  fixes s :: "'w service"
  assumes v: "valuesToMap (cr_input a) = Inr vals" and ok: "validateInput (inputContract version) vals = Inr ()"
    and None: "tget (runs (db s)) (''run_'' @ ascending E (ticks s)) = None"
  shows "\<exists>s'. admit_run E p a version s = (Inr (admitted_run E p a version s), s')
       \<and> runs (db s') = tput (''run_'' @ ascending E (ticks s)) (admitted_run E p a version s) (runs (db s))
       \<and> inputs (db s') = tput (''inp_'' @ ascending E (ticks s + 2)) (clone_revision (frozen_revision E vals s)) (inputs (db s))
       \<and> versions (db s') = versions (db s) \<and> templates (db s') = templates (db s)
       \<and> idempotencyKeys s' = tput (idemKey (p_tenantId p) (cr_idempotencyKey a)) (''run_'' @ ascending E (ticks s)) (idempotencyKeys s)"
proof -
  let ?rid = "''run_'' @ ascending E (ticks s)"
  let ?k = "idemKey (p_tenantId p) (cr_idempotencyKey a)"
  let ?r0 = "new_run E p a version s"
  let ?s1 = "s\<lparr>ticks := ticks s + 4, db := (db s)\<lparr>runs := tput ?rid ?r0 (runs (db s))\<rparr>, idempotencyKeys := tput ?k ?rid (idempotencyKeys s)\<rparr>"
  let ?r1 = "moved ?r0 ValidatingInput Undefined (clock E (ticks s + 4))"
  have t1: "transitionRun E (p_tenantId p) ?rid 1 ValidatingInput Undefined ?s1 =
      (Inr ?r1, ?s1\<lparr>ticks := ticks s + 5, db := (db s)\<lparr>runs := tput ?rid ?r1 (runs (db s))\<rparr>\<rparr>)"
    using transitionRun_ok [of ?s1 ?rid ?r0 "p_tenantId p" 1 ValidatingInput E Undefined] by simp
  let ?s2 = "?s1\<lparr>ticks := ticks s + 5, db := (db s)\<lparr>runs := tput ?rid ?r1 (runs (db s)),
    inputs := tput (''inp_'' @ ascending E (ticks s + 2)) (clone_revision (frozen_revision E vals s)) (inputs (db s))\<rparr>\<rparr>"
  let ?r2 = "moved ?r1 Admitted Undefined (clock E (ticks s + 5))"
  have t2: "transitionRun E (p_tenantId p) ?rid 2 Admitted Undefined ?s2 =
      (Inr ?r2, ?s2\<lparr>ticks := ticks s + 6, db := (db ?s2)\<lparr>runs := tput ?rid ?r2 (runs (db s))\<rparr>\<rparr>)"
    using transitionRun_ok [of ?s2 ?rid ?r1 "p_tenantId p" 2 Admitted E Undefined] by simp
  show ?thesis
    using v ok None t1 t2
    by (auto simp: admit_run_def Let_def andThen_on_db store_createRun_def new_run_def frozen_revision_def
      buildInputRevision_def buildRun_def andThen_Inr andThen_event andThen_audit store_saveInputRevision_def
      admitted_run_def eval_nat_numeral simp del: append_Cons append_Nil stableString.simps json_clone.simps)
qed

lemma admit_run_cases:
  assumes "admit_run E p a version s = (res, s')"
  shows "(\<exists>e. res = Inl e \<and> db s' = db s \<and> idempotencyKeys s' = idempotencyKeys s) \<or>
    (\<exists>vals. valuesToMap (cr_input a) = Inr vals \<and> validateInput (inputContract version) vals = Inr ()
       \<and> tget (runs (db s)) (''run_'' @ ascending E (ticks s)) = None
       \<and> res = Inr (admitted_run E p a version s)
       \<and> runs (db s') = tput (''run_'' @ ascending E (ticks s)) (admitted_run E p a version s) (runs (db s))
       \<and> inputs (db s') = tput (''inp_'' @ ascending E (ticks s + 2)) (clone_revision (frozen_revision E vals s)) (inputs (db s))
       \<and> versions (db s') = versions (db s) \<and> templates (db s') = templates (db s)
       \<and> idempotencyKeys s' = tput (idemKey (p_tenantId p) (cr_idempotencyKey a)) (''run_'' @ ascending E (ticks s)) (idempotencyKeys s))"
proof (cases "valuesToMap (cr_input a)")
  case (Inl e)
  then show ?thesis using assms by (auto simp: admit_run_def)
next
  case (Inr vals)
  note v = Inr
  show ?thesis
  proof (cases "validateInput (inputContract version) vals")
    case (Inl e)
    then show ?thesis using assms v by (auto simp: admit_run_def)
  next
    case (Inr u)
    then have ok: "validateInput (inputContract version) vals = Inr ()"
      by simp
    show ?thesis
    proof (cases "tget (runs (db s)) (''run_'' @ ascending E (ticks s))")
      case (Some r)
      then show ?thesis
        using assms v ok by (auto simp: admit_run_def Let_def andThen_on_db store_createRun_def buildRun_def)
    next
      case None
      from admit_run_new [OF v ok None, of p] assms v ok None show ?thesis by auto
    qed
  qed
qed

lemma distinct_obj_put: "distinct (map fst es) \<Longrightarrow> distinct (map fst (obj_put k v es))"
proof (cases "k = ''__proto__'' \<or> k \<in> set (map fst es)")
  case False
  assume "distinct (map fst es)"
  then show ?thesis
    using False keys_obj_put [of k es v] mset_eq_imp_distinct_iff [of "map fst (obj_put k v es)" "k # map fst es"] by simp
qed (auto simp: obj_put_def)

lemma collect_values_distinct: "collect_values out vs = Inr m \<Longrightarrow> distinct (map fst out) \<Longrightarrow> distinct (map fst m)"
  by (induction out vs rule: collect_values.induct) (auto dest: distinct_obj_put)

lemma clone_entries_idem: "clone_entries (clone_entries es) = clone_entries es"
proof -
  have "JObj (entries (json_clone (JObj es))) = json_clone (JObj es)"
    by (simp add: entries_def)
  then show ?thesis
    by (simp only: clone_entries_def json_clone_idem)
qed

lemma frozen_revision_clone: "clone_revision (frozen_revision E vals s) = frozen_revision E vals s"
  using clone_entries_idem [of vals] by (simp add: clone_revision_def frozen_revision_def buildInputRevision_def clone_entries_def)

lemma createRun_cases:
  assumes "createRun E p a s = (res, s')"
  shows "(\<exists>e. res = Inl e \<and> db s' = db s \<and> idempotencyKeys s' = idempotencyKeys s) \<or>
    (\<exists>version t. authorize p (cr_orgId a) (cr_projectId a) = Inr ()
       \<and> store_getVersion (host_of E) (p_tenantId p) (cr_versionId a) (db s) = Inr (Some version)
       \<and> v_templateId version = cr_templateId a \<and> tenantId version = p_tenantId p
       \<and> orgId version = cr_orgId a \<and> projectId version = cr_projectId a
       \<and> store_getTemplate (p_tenantId p) (cr_templateId a) (db s) = Some t \<and> t_status t \<noteq> TArchived
       \<and> (case findRunByIdempotency (p_tenantId p) (cr_idempotencyKey a) s of
            Some run \<Rightarrow> r_templateId run = cr_templateId a \<and> r_versionId run = cr_versionId a \<and> res = Inr run \<and> s' = s
          | None \<Rightarrow> admit_run E p a version s = (res, s')))"
proof -
  have admit: "\<exists>e. res = Inl e \<and> db s' = db s \<and> idempotencyKeys s' = idempotencyKeys s"
    if "admit_run E p a version s = (res, s')" "res = Inl e" for version e
    using admit_run_cases [OF that(1)] that(2) by auto
  show ?thesis
    using assms by (auto simp: createRun_def split: sum.splits option.splits if_splits dest: admit)
qed


text \<open>
  A successful \<^verbatim>\<open>createRun\<close> under a new idempotency key leaves an admitted run of the
  caller's tenant that is pinned to the requested version, and the frozen input revision the run
  names, whose values satisfy the version's input contract.
\<close>

theorem createRun_admits:
  assumes "createRun E p a s = (Inr r, s')"
    and "findRunByIdempotency (p_tenantId p) (cr_idempotencyKey a) s = None"
  shows "\<exists>version revision.
      store_getVersion (host_of E) (p_tenantId p) (cr_versionId a) (db s) = Inr (Some version)
    \<and> store_getRun (p_tenantId p) (runId r) (db s) = None \<and> store_getRun (p_tenantId p) (runId r) (db s') = Some r
    \<and> status r = Admitted \<and> r_versionId r = cr_versionId a \<and> r_version r = v_version version
    \<and> store_getInputRevision (p_tenantId p) (runId r) (r_inputRevisionId r) (db s') = Some revision
    \<and> validateInput (inputContract version) (rev_values revision) = Inr ()"
proof -
  obtain version where v: "store_getVersion (host_of E) (p_tenantId p) (cr_versionId a) (db s) = Inr (Some version)"
    "admit_run E p a version s = (Inr r, s')"
    using createRun_cases [OF assms(1)] assms(2) by auto
  obtain vals where vals: "valuesToMap (cr_input a) = Inr vals" "validateInput (inputContract version) vals = Inr ()"
    and new: "tget (runs (db s)) (''run_'' @ ascending E (ticks s)) = None" "r = admitted_run E p a version s"
      "runs (db s') = tput (''run_'' @ ascending E (ticks s)) r (runs (db s))"
      "inputs (db s') = tput (''inp_'' @ ascending E (ticks s + 2)) (clone_revision (frozen_revision E vals s)) (inputs (db s))"
    using admit_run_cases [OF v(2)] by auto
  have r: "runId r = ''run_'' @ ascending E (ticks s)" "tenantId r = p_tenantId p" "status r = Admitted"
    "r_versionId r = cr_versionId a" "r_version r = v_version version" "r_inputRevisionId r = ''inp_'' @ ascending E (ticks s + 2)"
    unfolding new(2) by (simp_all add: admitted_run_def)
  have dist: "distinct (map fst vals)"
    using collect_values_distinct [of "[]"] vals(1) by (simp add: valuesToMap_def)
  have "rev_values (clone_revision (frozen_revision E vals s)) = clone_entries vals"
    unfolding frozen_revision_clone by (simp add: frozen_revision_def buildInputRevision_def clone_entries_def)
  then have "validateInput (inputContract version) (rev_values (clone_revision (frozen_revision E vals s))) = Inr ()"
    using validateInput_clone [OF vals(2) dist] by (simp add: clone_entries_def)
  moreover have "store_getInputRevision (p_tenantId p) (runId r) (r_inputRevisionId r) (db s')
      = Some (clone_revision (frozen_revision E vals s))"
    using new(3,4) r frozen_revision_clone [of E vals s]
    by (simp add: store_getInputRevision_def tenant_run_def frozen_revision_def buildInputRevision_def del: append_Cons append_Nil json_clone.simps stableString.simps)
  moreover have "store_getRun (p_tenantId p) (runId r) (db s) = None" "store_getRun (p_tenantId p) (runId r) (db s') = Some r"
    using new(1,3) r(1,2) by (simp_all add: store_getRun_def tenant_run_def)
  ultimately show ?thesis
    using v(1) r by blast
qed

text \<open>
  \<^verbatim>\<open>createRun\<close> is idempotent: the same request sent again returns the run of the first
  one and changes nothing at all.
\<close>

theorem createRun_idempotent:
  assumes "createRun E p a s = (Inr r, s')"
  shows "createRun E p a s' = (Inr r, s')"
proof (cases "findRunByIdempotency (p_tenantId p) (cr_idempotencyKey a) s")
  case (Some run)
  then have "s' = s"
    using createRun_cases [OF assms] by auto
  then show ?thesis using assms by simp
next
  case None
  then obtain version t where v: "authorize p (cr_orgId a) (cr_projectId a) = Inr ()"
    "store_getVersion (host_of E) (p_tenantId p) (cr_versionId a) (db s) = Inr (Some version)"
    "v_templateId version = cr_templateId a" "tenantId version = p_tenantId p"
    "orgId version = cr_orgId a" "projectId version = cr_projectId a"
    "store_getTemplate (p_tenantId p) (cr_templateId a) (db s) = Some t" "t_status t \<noteq> TArchived"
    "admit_run E p a version s = (Inr r, s')"
    using createRun_cases [OF assms] by auto
  obtain vals where new: "r = admitted_run E p a version s"
      "runs (db s') = tput (''run_'' @ ascending E (ticks s)) r (runs (db s))"
      "versions (db s') = versions (db s)" "templates (db s') = templates (db s)"
      "idempotencyKeys s' = tput (idemKey (p_tenantId p) (cr_idempotencyKey a)) (''run_'' @ ascending E (ticks s)) (idempotencyKeys s)"
    using admit_run_cases [OF v(9)] by auto
  have r: "r_templateId r = cr_templateId a" "r_versionId r = cr_versionId a" "tenantId r = p_tenantId p"
    unfolding new(1) by (simp_all add: admitted_run_def)
  have "findRunByIdempotency (p_tenantId p) (cr_idempotencyKey a) s' = Some r"
    using new(2,5) r(3) by (simp add: findRunByIdempotency_def store_getRun_def tenant_run_def)
  moreover have "store_getVersion (host_of E) (p_tenantId p) (cr_versionId a) (db s') = Inr (Some version)"
    using v(2) new(3) by (simp add: store_getVersion_def)
  moreover have "store_getTemplate (p_tenantId p) (cr_templateId a) (db s') = Some t"
    using v(7) new(4) by (simp add: store_getTemplate_def)
  ultimately show ?thesis
    using v r by (simp add: createRun_def)
qed

subsection \<open>Deciding an approval\<close>

definition decided_copy :: "'w deps \<Rightarrow> resolved_principal \<Rightarrow> approval_request \<Rightarrow> approval_decision \<Rightarrow> json optional \<Rightarrow> 'w service \<Rightarrow> approval_request" where
  "decided_copy E p req d meta s = req\<lparr>apr_status := decision_status d,
     decisionActor := Some \<lparr>da_principalId = principalId p, da_kind = kind p\<rparr>, decisionTime := Some (clock E (ticks s)),
     decisionMetadata := Some (sanitizeMetadata (case meta of Value m \<Rightarrow> m | _ \<Rightarrow> JObj [])),
     approvalVersion := Suc (approvalVersion req)\<rparr>"

lemma getApprovalRequest_Some:
  "getApprovalRequest p aid d = Some req \<longleftrightarrow>
     store_getApprovalRequest (p_tenantId p) aid d = Some req \<and>
     (\<exists>r. store_getRun (p_tenantId p) (apr_runId req) d = Some r \<and> canAccess p (orgId r) (projectId r))"
  by (auto simp: getApprovalRequest_def split: option.splits if_splits)

text \<open>
  An authorized decision on a pending request is stored, and the run is then handled by
  \<open>follow_decision\<close>, in a state that differs from the first only in that decision and in logs.
\<close>

lemma decideApproval_pending:
  assumes "getApprovalRequest p aid (db s) = Some req" "apr_status req = APending"
    and "authorizeApprover req (role_name (role p)) = Inr ()"
    and "store_getRun (p_tenantId p) (apr_runId req) (db s) = Some r"
  shows "\<exists>t. decideApproval E p aid d meta s = follow_decision E p (decided_copy E p req d meta s) r t
    \<and> tget (approvals (db t)) aid = Some (decided_copy E p req d meta s) \<and> runs (db t) = runs (db s)"
proof -
  let ?a = "decided_copy E p req d meta s"
  have "approval_write (approvalVersion req) (d, \<lparr>da_principalId = principalId p, da_kind = kind p\<rparr>, meta, clock E (ticks s)) req = Inr ?a"
    using assms(2) by (simp add: approval_write_Inr applyDecision_Inr decided_copy_def)
  moreover have "store_getApprovalRequest (p_tenantId p) aid (db s) = Some req"
    using assms(1) by (simp add: getApprovalRequest_Some)
  ultimately have st: "store_decideApproval (p_tenantId p) aid (approvalVersion req) d
      \<lparr>da_principalId = principalId p, da_kind = kind p\<rparr> meta (clock E (ticks s)) (db s) = (Inr ?a, put_approval aid ?a (db s))"
    using assms(2) by (simp add: store_decideApproval_def)
  have rn: "store_getRun (p_tenantId p) (apr_runId req) (put_approval aid ?a (db s)) = Some r"
    using assms(4) by (simp add: store_getRun_def tenant_run_def)
  show ?thesis
    using assms(1,3) st rn
    by (auto simp: decideApproval_def andThen_on_db andThen_event andThen_audit)
qed

text \<open>
  A rejection terminates the run: an authorized rejection of a pending request of a run that
  awaits approval stores the decision and leaves the run rejected.
\<close>

theorem reject_terminates_run:
  assumes "getApprovalRequest p aid (db s) = Some req" and "apr_status req = APending"
    and "authorizeApprover req (role_name (role p)) = Inr ()"
    and "store_getRun (p_tenantId p) (apr_runId req) (db s) = Some r" and "status r = AwaitingApproval"
    and "store_inv (db s)"
  shows "\<exists>a r' s'. decideApproval E p aid DecideRejected meta s = (Inr (a, Some r'), s')
    \<and> tget (approvals (db s')) aid = Some a \<and> apr_status a = ARejected
    \<and> tget (runs (db s')) (runId r) = Some r' \<and> status r' = Rejected"
proof -
  obtain t where t: "decideApproval E p aid DecideRejected meta s = follow_decision E p (decided_copy E p req DecideRejected meta s) r t"
    "tget (approvals (db t)) aid = Some (decided_copy E p req DecideRejected meta s)" "runs (db t) = runs (db s)"
    using decideApproval_pending [OF assms(1-4)] by blast
  have r: "tget (runs (db t)) (runId r) = Some r" "tenantId r = p_tenantId p"
    using assms(4,6) t(3) by (auto simp: store_getRun_def tenant_run_Some store_inv_def runs_ok_def)
  have "apr_status (decided_copy E p req DecideRejected meta s) = ARejected"
    by (simp add: decided_copy_def)
  then show ?thesis
    using t transitionRun_ok [OF r(1,2), of "runVersion r" Rejected E Undefined] assms(5)
    by (auto simp: follow_decision_def andThen_Inr andThen_event)
qed

text \<open>
  A request for changes cannot be carried out: the run is to be parked as suspended, which the
  transition table forbids from the awaiting state. The operation throws after the decision was
  stored, the run keeps awaiting approval, and no later decision can move it.
\<close>

theorem changes_requested_strands_run:
  assumes "getApprovalRequest p aid (db s) = Some req" and "apr_status req = APending"
    and "authorizeApprover req (role_name (role p)) = Inr ()"
    and "store_getRun (p_tenantId p) (apr_runId req) (db s) = Some r" and "status r = AwaitingApproval"
    and "store_inv (db s)"
  shows "\<exists>a s'. decideApproval E p aid DecideChangesRequested meta s
       = (Inl (AutomationError (ILLEGAL_RUN_TRANSITION (runId r) AwaitingApproval Suspended) 409), s')
    \<and> tget (approvals (db s')) aid = Some a \<and> apr_status a = AChangesRequested
    \<and> tget (runs (db s')) (runId r) = Some r"
proof -
  obtain t where t: "decideApproval E p aid DecideChangesRequested meta s = follow_decision E p (decided_copy E p req DecideChangesRequested meta s) r t"
    "tget (approvals (db t)) aid = Some (decided_copy E p req DecideChangesRequested meta s)" "runs (db t) = runs (db s)"
    using decideApproval_pending [OF assms(1-4)] by blast
  have r: "tget (runs (db t)) (runId r) = Some r" "tenantId r = p_tenantId p"
    using assms(4,6) t(3) by (auto simp: store_getRun_def tenant_run_Some store_inv_def runs_ok_def)
  have "run_write (runVersion r) (Suspended, Undefined, now) r
      = Inl (AutomationError (ILLEGAL_RUN_TRANSITION (runId r) AwaitingApproval Suspended) 409)" for now
    using assms(5) by (simp add: run_write_def check_def applyTransition_Inl)
  then have "transitionRun E (p_tenantId p) (runId r) (runVersion r) Suspended Undefined t
      = (Inl (AutomationError (ILLEGAL_RUN_TRANSITION (runId r) AwaitingApproval Suspended) 409), t\<lparr>ticks := ticks t + 1\<rparr>)"
    using r by (simp add: transitionRun_def on_db_def store_transitionRun_def tenant_run_def)
  moreover have "apr_status (decided_copy E p req DecideChangesRequested meta s) = AChangesRequested"
    by (simp add: decided_copy_def)
  ultimately show ?thesis
    using t r assms(5) by (auto simp: follow_decision_def andThen_Inl)
qed

subsection \<open>Delivering\<close>

lemma transitionRun_Inr:
  assumes "transitionRun E tenant rid n to err s = (Inr r', s')"
  shows "\<exists>r. tget (runs (db s)) rid = Some r \<and> run_write n (to, err, clock E (ticks s)) r = Inr r' \<and> status r' = to
    \<and> db s' = (db s)\<lparr>runs := tput rid r' (runs (db s))\<rparr>"
proof -
  obtain d where d: "store_transitionRun tenant rid n to err (clock E (ticks s)) (db s) = (Inr r', d)" "db s' = d"
    using assms by (auto simp: transitionRun_def on_db_def split: prod.splits)
  then show ?thesis
    using transitionRun_cases [OF d(1)] by (auto simp: run_write_Inr applyTransition_Inr)
qed

lemma transitionDelivery_Inr:
  assumes "transitionDelivery E tenant did n to ref err s = (Inr d', s')"
  shows "\<exists>d. tget (deliveries (db s)) did = Some d \<and> delivery_write n (to, ref, err, clock E (ticks s)) d = Inr d'
    \<and> db s' = put_delivery did d' (db s)"
proof -
  obtain x where d: "store_transitionDelivery tenant did n to ref err (clock E (ticks s)) (db s) = (Inr d', x)" "db s' = x"
    using assms by (auto simp: transitionDelivery_def on_db_def split: prod.splits)
  then show ?thesis
    using transitionDelivery_cases [OF d(1)] by (auto simp: getDelivery_Some)
qed

lemma event_Inr: "appendAutomationEvent E tenant run ty dat s = (Inr u, s') \<Longrightarrow>
    deliveries (db s') = deliveries (db s) \<and> deliveriesByKey (db s') = deliveriesByKey (db s) \<and> runs (db s') = runs (db s)"
  by (metis event_frame(1,5,6) snd_conv)

lemma audit_Inr: "audit E p scope ty meta s = (Inr u, s') \<Longrightarrow> db s' = db s"
  by (metis audit_frame(1) snd_conv)

lemma external_Inr: "external f s = (Inr x, s') \<Longrightarrow> db s' = db s"
  by (auto simp: external_def split: prod.splits sum.splits)

lemma on_db_Inr: "on_db m s = (Inr x, s') \<Longrightarrow> \<exists>d. m (db s) = (Inr x, d) \<and> db s' = d"
  by (auto simp: on_db_def split: prod.splits)

lemma completeRun_frame:
  assumes "completeRun E p run d s = (Inr r, s')"
  shows "deliveriesByKey (db s') = deliveriesByKey (db s)"
  using assms
  by (auto simp: completeRun_def andThen_Inr_iff split: if_splits
    dest!: transitionRun_Inr event_Inr audit_Inr)

lemma find_or_create_delivery_spec:
  assumes "find_or_create_delivery E p run dest s = (Inr d, s')" "deliveries_ok (db s)"
  shows "tget (deliveries (db s')) (deliveryId d) = Some d \<and> deliveries_ok (db s') \<and> runs (db s') = runs (db s)
    \<and> delivery_key d = pair_key (runId run) (delivery_idem_key (runId run) dest)
    \<and> tget (deliveriesByKey (db s')) (delivery_key d) = Some d"
proof (cases "store_getDeliveryAttemptByKey (p_tenantId p) (runId run) (delivery_idem_key (runId run) dest) (db s)")
  case None
  let ?d = "buildDeliveryAttempt (''dlv_'' @ ascending E (ticks s)) (clock E (Suc (ticks s))) (runId run) (r_versionId run)
     (delivery_idem_key (runId run) dest) dest"
  have d: "d = ?d" "store_saveDeliveryAttempt ?d (db s) = (Inr (), db s')"
    using assms(1) None
    by (auto simp: find_or_create_delivery_def Let_def andThen_on_db split: prod.splits sum.splits)
  have "store_step (db s) (db s')"
    using d(2) by (rule step_saveDeliveryAttempt)
  then have "deliveries_ok (db s')"
    using assms(2) by (rule deliveries_ok_step)
  moreover have "db s' = put_delivery (deliveryId ?d) ?d (db s)"
    using d(2) by (auto simp: store_saveDeliveryAttempt_def split: if_splits)
  ultimately show ?thesis
    using d(1) by (simp add: delivery_key_def buildDeliveryAttempt_def)
next
  case (Some x)
  then have "d = x" "s' = s"
    using assms(1) by (auto simp: find_or_create_delivery_def Let_def)
  moreover have "tget (deliveriesByKey (db s)) (pair_key (runId run) (delivery_idem_key (runId run) dest)) = Some x"
    using Some by (auto simp: store_getDeliveryAttemptByKey_def split: option.splits)
  ultimately show ?thesis
    using assms(2) by (auto simp: deliveries_ok_def dest: indexedD(3,4))
qed

lemma delivery_write_key: "delivery_write n c d = Inr d' \<Longrightarrow> delivery_key d' = delivery_key d \<and> deliveryId d' = deliveryId d"
  by (auto dest!: delivery_write_keys simp: delivery_key_def)

lemma deliver_and_settle_spec:
  assumes "deliver_and_settle E p run ip args s = (Inr d, s')" "tget (deliveries (db s)) (deliveryId ip) = Some ip"
  shows "dlv_status d = DDelivered \<and> tget (deliveriesByKey (db s')) (delivery_key ip) = Some d"
  using assms
  by (auto simp: deliver_and_settle_def andThen_Inr_iff
    dest!: external_Inr transitionDelivery_Inr event_Inr audit_Inr dest: delivery_write_key)
    (auto simp: delivery_write_def)

lemma fail_delivery_status: "fail_delivery E p run ip msg s = (Inr r, s') \<Longrightarrow> status r = Failed"
  by (auto simp: fail_delivery_def andThen_Inr_iff dest!: transitionRun_Inr)

lemma catch_Inr_iff:
  "catch m h s = (Inr x, t) \<longleftrightarrow> m s = (Inr x, t) \<or> (\<exists>e u. m s = (Inl e, u) \<and> h e u = (Inr x, t))"
  by (auto simp: catch_def split: prod.splits sum.splits)

lemma attempt_delivery_completed:
  assumes "attempt_delivery E p run spec att s = (Inr r, s')" "status r = Completed"
    and "tget (deliveries (db s)) (deliveryId att) = Some att"
  shows "\<exists>d. tget (deliveriesByKey (db s')) (delivery_key att) = Some d \<and> dlv_status d = DDelivered"
proof -
  let ?chosen = "filter (\<lambda>a. artifactId a \<in> set (ds_artifactIds spec) \<or> ds_artifactIds spec = []) (store_listArtifacts (p_tenantId p) (runId run) (db s))"
  obtain contents ip s2 u s3 outcome s4 where
    b: "transitionDelivery E (p_tenantId p) (deliveryId att) (deliveryVersion att) DInProgress None Undefined s = (Inr ip, s2)"
    and c: "appendAutomationEvent E (p_tenantId p) run DeliveryStarted
          (JObj [(''deliveryId'', JStr (deliveryId ip)), (''destination'', JStr (destination ip))]) s2 = (Inr u, s3)"
    and d: "catch (andThen (deliver_and_settle E p run ip (ds_destination spec, ?chosen, contents)) (\<lambda>d. ok (Inl d)))
                       (\<lambda>e. andThen (fail_delivery E p run ip (message_of E e)) (\<lambda>r. ok (Inr r))) s3 = (Inr outcome, s4)"
    and e: "(case outcome of Inl d \<Rightarrow> completeRun E p run d | Inr failedRun \<Rightarrow> ok failedRun) s4 = (Inr r, s')"
    using assms(1) by (auto simp: attempt_delivery_def andThen_Inr_iff Let_def)
  have ip: "tget (deliveries (db s3)) (deliveryId ip) = Some ip" "delivery_key ip = delivery_key att"
    using transitionDelivery_Inr [OF b] assms(3) event_Inr [OF c] by (auto dest: delivery_write_key)
  show ?thesis
  proof (cases outcome)
    case (Inl dl)
    then have ds: "deliver_and_settle E p run ip (ds_destination spec, ?chosen, contents) s3 = (Inr dl, s4)"
      using d by (auto simp: catch_Inr_iff andThen_Inr_iff)
    then show ?thesis
      using deliver_and_settle_spec [OF ds ip(1)] ip(2) e Inl by (auto dest!: completeRun_frame)
  next
    case (Inr fr)
    then have "status fr = Failed"
      using d by (auto simp: catch_Inr_iff andThen_Inr_iff dest: fail_delivery_status)
    then show ?thesis
      using e Inr assms(2) by simp
  qed
qed

lemma deliver_delivering_completed:
  assumes "deliver_delivering E p run spec s = (Inr r, s')" "status r = Completed" "deliveries_ok (db s)"
  shows "\<exists>d. tget (deliveriesByKey (db s')) (pair_key (runId run) (delivery_idem_key (runId run) (ds_destination spec))) = Some d
    \<and> dlv_status d = DDelivered"
proof -
  obtain att s1 where a: "find_or_create_delivery E p run (ds_destination spec) s = (Inr att, s1)"
    and rest: "(if dlv_status att = DDelivered then completeRun E p run att else attempt_delivery E p run spec att) s1 = (Inr r, s')"
    using assms(1) by (auto simp: deliver_delivering_def andThen_Inr_iff)
  show ?thesis
    using find_or_create_delivery_spec [OF a assms(3)] rest attempt_delivery_completed [OF _ assms(2), of E p run spec att s1 s']
    by (auto split: if_splits dest!: completeRun_frame)
qed


section \<open>A sample service\<close>

definition sample_host :: host where
  "sample_host = \<lparr>sha256 = id, num_str = (\<lambda>_. ''0'')\<rparr>"

definition sample_deps :: "fake_provider deps" where
  "sample_deps = \<lparr>host_of = sample_host, json_parse = (\<lambda>_. None), error_message = (\<lambda>_. ''error''),
     clock = int, ascending = (\<lambda>n. replicate n (CHR ''x'')),
     dispatchAndRun = (\<lambda>q w. (Inr \<lparr>dr_jobId = ''job'', dr_replayed = False,
        dr_state = \<lparr>js_jobId = ''job'', js_status = JCompleted, js_error = None\<rparr>\<rparr>, w)),
     listJobEvents = (\<lambda>j w. []), getJobState = (\<lambda>j w. None), deliver = fake_deliver\<rparr>"

definition sample_principal :: resolved_principal where
  "sample_principal = \<lparr>principalId = ''u'', kind = ''user'', p_tenantId = ''t'', p_orgId = ''o'', role = Owner,
     projectScope = [''*''], admin = False\<rparr>"

definition sample_version :: automation_version where
  "sample_version = \<lparr>tenantId = ''t'', orgId = ''o'', projectId = ''p'', versionId = ''v'', v_templateId = ''x'', v_version = 1,
     v_definition = sample_definition, inputContract = [],
     v_checksum = definitionChecksum sample_host sample_definition [], v_createdAt = 1, v_createdBy = ''u''\<rparr>"

definition sample_template :: automation_template where
  "sample_template = \<lparr>tenantId = ''t'', orgId = ''o'', projectId = ''p'', templateId = ''x'', t_name = ''n'', description = None,
     t_status = TDraft, t_createdAt = 1, t_createdBy = ''u'', archivedAt = None\<rparr>"

definition service_of :: "store \<Rightarrow> fake_provider service" where
  "service_of d = \<lparr>db = d, blobs = [], auditLog = [], idempotencyKeys = [], ticks = 0, outside = new_fake 0\<rparr>"

lemma service_of_sel [simp]: "db (service_of d) = d" "ticks (service_of d) = 0" "idempotencyKeys (service_of d) = []"
  by (simp_all add: service_of_def)

definition request_args :: create_run_args where
  "request_args = \<lparr>cr_orgId = ''o'', cr_projectId = ''p'', cr_templateId = ''x'', cr_versionId = ''v'', cr_input = [],
     cr_idempotencyKey = ''k''\<rparr>"

definition catalog_store :: store where
  "catalog_store = empty_store\<lparr>templates := [(''x'', sample_template)], versions := [(''v'', sample_version)]\<rparr>"

definition waiting_run :: automation_run where
  "waiting_run = sample_run\<lparr>status := AwaitingApproval\<rparr>"

definition waiting_store :: store where
  "waiting_store = sample_store\<lparr>runs := [(''r1'', waiting_run)]\<rparr>"

lemma sample_getVersion:
  "store_getVersion (host_of sample_deps) ''t'' ''v'' catalog_store = Inr (Some (clone_version sample_version))"
  by (simp add: store_getVersion_def catalog_store_def sample_version_def verifyVersionChecksum_def sample_deps_def)

lemma clone_sample_version [simp]:
  "tenantId (clone_version sample_version) = ''t''" "orgId (clone_version sample_version) = ''o''"
  "projectId (clone_version sample_version) = ''p''" "v_templateId (clone_version sample_version) = ''x''"
  "inputContract (clone_version sample_version) = []" "v_version (clone_version sample_version) = 1"
  by (simp_all add: clone_version_def sample_version_def)

lemma sample_find: "findRunByIdempotency (p_tenantId sample_principal) (cr_idempotencyKey request_args) (service_of catalog_store) = None"
  by (simp add: findRunByIdempotency_def)

lemma sample_createRun: "\<exists>r s'. createRun sample_deps sample_principal request_args (service_of catalog_store) = (Inr r, s')"
proof -
  have "createRun sample_deps sample_principal request_args (service_of catalog_store)
      = admit_run sample_deps sample_principal request_args (clone_version sample_version) (service_of catalog_store)"
    using sample_getVersion sample_find
    by (simp add: createRun_def sample_principal_def request_args_def authorize_def
      store_getTemplate_def catalog_store_def sample_template_def)
  moreover have "valuesToMap (cr_input request_args) = Inr []" "validateInput (inputContract (clone_version sample_version)) [] = Inr ()"
    by (simp_all add: request_args_def valuesToMap_def validateInput_Inr)
  moreover have "tget (runs (db (service_of catalog_store))) (''run_'' @ ascending sample_deps (ticks (service_of catalog_store))) = None"
    by (simp add: catalog_store_def empty_store_def)
  ultimately show ?thesis
    using admit_run_new [of request_args "[]" "clone_version sample_version" "service_of catalog_store" sample_deps sample_principal] by auto
qed

lemma waiting_store_inv: "store_inv waiting_store"
  using store_inv_steps [OF sample_store_reachable empty_store_inv]
  by (simp add: store_inv_def waiting_store_def runs_ok_def approvals_ok_def deliveries_ok_def mappings_ok_def events_ok_def
    waiting_run_def sample_run_def buildRun_def run_wf_def isTerminalRun_iff)

lemma waiting_facts:
  "getApprovalRequest sample_principal ''a1'' (db (service_of waiting_store)) = Some sample_approval"
  "apr_status sample_approval = APending"
  "authorizeApprover sample_approval (role_name (role sample_principal)) = Inr ()"
  "store_getRun (p_tenantId sample_principal) (apr_runId sample_approval) (db (service_of waiting_store)) = Some waiting_run"
  "status waiting_run = AwaitingApproval"
  "store_inv (db (service_of waiting_store))"
  using waiting_store_inv
  by (simp_all add: getApprovalRequest_Some getApproval_Some waiting_store_def sample_store_def store_getRun_def tenant_run_def
    waiting_run_def sample_run_def buildRun_def sample_approval_def buildApprovalRequest_def sample_principal_def canAccess_def
    authorizeApprover_def Let_def approverRoleRank_def role_of_name_def)

section \<open>Witnesses\<close>


theorem terminal_run_frozen_witness:
  "tget (runs (db (snd (cancelRun sample_deps sample_principal ''r1''
     (service_of (empty_store\<lparr>runs := [(''r1'', sample_run\<lparr>status := Failed\<rparr>)]\<rparr>)))))) ''r1'' = Some (sample_run\<lparr>status := Failed\<rparr>)"
  by (rule terminal_run_frozen [OF calls_next [OF calls_refl call_cancelRun [OF prod.collapse [symmetric]]],
      where s = "service_of (empty_store\<lparr>runs := [(''r1'', sample_run\<lparr>status := Failed\<rparr>)]\<rparr>)" and E = sample_deps])
    (simp_all add: isTerminalRun_iff)



theorem createRun_admits_witness:
  "\<exists>r s'. createRun sample_deps sample_principal request_args (service_of catalog_store) = (Inr r, s') \<and> status r = Admitted"
  using sample_createRun createRun_admits [OF _ sample_find] by blast

theorem createRun_idempotent_witness:
  "\<exists>r s'. createRun sample_deps sample_principal request_args (service_of catalog_store) = (Inr r, s')
    \<and> createRun sample_deps sample_principal request_args s' = (Inr r, s')"
  using sample_createRun createRun_idempotent by blast

theorem reject_terminates_run_witness:
  "\<exists>a r' s'. decideApproval sample_deps sample_principal ''a1'' DecideRejected Undefined (service_of waiting_store) = (Inr (a, Some r'), s')
    \<and> status r' = Rejected"
  using reject_terminates_run [OF waiting_facts] by blast

theorem changes_requested_strands_run_witness:
  "\<exists>s'. decideApproval sample_deps sample_principal ''a1'' DecideChangesRequested Undefined (service_of waiting_store)
     = (Inl (AutomationError (ILLEGAL_RUN_TRANSITION ''r1'' AwaitingApproval Suspended) 409), s')"
proof -
  have "runId waiting_run = ''r1''"
    by (simp add: waiting_run_def sample_run_def buildRun_def)
  then show ?thesis
    using changes_requested_strands_run [OF waiting_facts, of sample_deps Undefined] by auto
qed


definition delivering_run :: automation_run where
  "delivering_run = sample_run\<lparr>status := Delivering\<rparr>"

definition delivering_store :: store where
  "delivering_store = empty_store\<lparr>runs := [(''r1'', delivering_run)]\<rparr>"


lemma fail_run_status: "fail_run E p run err dat s = (Inr r, s') \<Longrightarrow> status r = Failed"
  by (auto simp: fail_run_def andThen_Inr_iff dest!: transitionRun_Inr)

lemma advance_step_returns:
  assumes "advance_step E p run version revision sid outs s = (Inr (Inl r), s')"
  shows "status r = Failed \<or> r = run"
  using assms
  by (auto simp: advance_step_def andThen_Inr_iff Let_def split: option.splits if_splits prod.splits dest!: fail_run_status)

lemma advance_steps_returns:
  "advance_steps E p run version revision sids outs s = (Inr (Inl r), s') \<Longrightarrow> status r = Failed \<or> r = run"
proof (induction sids arbitrary: outs s)
  case (Cons sid sids)
  then obtain res t where "advance_step E p run version revision sid outs s = (Inr res, t)"
    "(case res of Inl r \<Rightarrow> ok (Inl r) | Inr o' \<Rightarrow> advance_steps E p run version revision sids o') t = (Inr (Inl r), s')"
    by (auto simp: andThen_Inr_iff)
  then show ?case
    using Cons.IH by (cases res) (auto dest: advance_step_returns)
qed simp

text \<open>
  A run that a crash left in the collecting state is never finished by re-driving it:
  \<^verbatim>\<open>advanceRun\<close>, which reconciliation calls for such a run, returns it only as failed or as it
  was, because the transition it makes after the steps leads from collecting to collecting.
\<close>

theorem collecting_run_not_recovered:
  assumes "getRun p rid (db s) = Some r0" and "status r0 = Collecting" and "advanceRun E p rid s = (Inr r, s')"
    and "store_inv (db s)"
  shows "status r = Failed \<or> r = r0"
proof -
  obtain version revision ord where "andThen (advance_steps E p r0 version revision ord []) (\<lambda>res.
      case res of Inl r \<Rightarrow> ok r | Inr outs \<Rightarrow> finish_run E p r0 version outs) s = (Inr r, s')"
    using assms(1-3) by (auto simp: advanceRun_def split: option.split_asm sum.split_asm)
  then obtain res t where a: "advance_steps E p r0 version revision ord [] s = (Inr res, t)"
    "(case res of Inl r \<Rightarrow> ok r | Inr outs \<Rightarrow> finish_run E p r0 version outs) t = (Inr r, s')"
    by (auto simp: andThen_Inr_iff)
  show ?thesis
  proof (cases res)
    case (Inl r1)
    then show ?thesis
      using a advance_steps_returns [of E p r0 version revision ord "[]" s r1 t] by simp
  next
    case (Inr outs)
    then obtain r1 u where "transitionRun E (p_tenantId p) (runId r0) (runVersion r0) Collecting Undefined t = (Inr r1, u)"
      using a(2) by (auto simp: finish_run_def andThen_Inr_iff)
    then obtain r2 where r2: "tget (runs (db t)) (runId r0) = Some r2" "runVersion r2 = runVersion r0" "Collecting \<in> set (TRANSITIONS (status r2))"
      by (auto simp: run_write_Inr applyTransition_Inr dest!: transitionRun_Inr)
    have "tget (runs (db s)) (runId r0) = Some r0"
      using assms(1,4) by (auto simp: getRun_Some store_inv_def runs_ok_def)
    then have "frun.evolves r0 r2"
      using steps_run [of "db s" "db t" "runId r0" r0] dbs.obeysD [OF dbs_advance_steps a(1)] r2(1)
      by (auto simp: db_steps_def)
    then have "r2 = r0"
      using r2(2) by (rule frun.evolves_same_ver)
    then show ?thesis
      using r2(3) assms(2) by simp
  qed
qed

theorem collecting_run_not_recovered_witness:
  "\<nexists>r s'. advanceRun sample_deps sample_principal ''r1'' (service_of (empty_store\<lparr>runs := [(''r1'', sample_run\<lparr>status := Collecting\<rparr>)]\<rparr>))
     = (Inr r, s') \<and> status r = Completed"
proof -
  let ?d = "empty_store\<lparr>runs := [(''r1'', sample_run\<lparr>status := Collecting\<rparr>)]\<rparr>"
  have 1: "getRun sample_principal ''r1'' (db (service_of ?d)) = Some (sample_run\<lparr>status := Collecting\<rparr>)"
    by (simp add: getRun_Some sample_run_def buildRun_def sample_principal_def canAccess_def)
  have 2: "store_inv (db (service_of ?d))"
    by (simp add: store_inv_def runs_ok_def approvals_ok_def deliveries_ok_def mappings_ok_def events_ok_def
      sample_run_def buildRun_def run_wf_def isTerminalRun_iff empty_store_def)
  show ?thesis
    using collecting_run_not_recovered [OF 1 _ _ 2] by fastforce
qed

end
