(* ===== verification/Sql.thy ===== *)
theory Sql
  imports Prelude
begin

text \<open>
  The SQL tables of the durable stores (\<^verbatim>\<open>vaulltcore-store-sql/src/store-base.ts\<close>). A table is
  the list of its rows in insertion order; the statements the stores issue are functions on it. The
  commit boundary \<^verbatim>\<open>atomic\<close> runs a critical section that either commits all of its writes or,
  when anything in it throws, none.
\<close>

section \<open>Statements\<close>

text \<open>\<^verbatim>\<open>SELECT ... WHERE p\<close> read with \<^verbatim>\<open>get\<close>: the first row or nothing.\<close>

abbreviation sql_get :: "('r \<Rightarrow> bool) \<Rightarrow> 'r list \<Rightarrow> 'r option" where
  "sql_get \<equiv> List.find"

text \<open>\<^verbatim>\<open>SELECT COUNT(*) ... WHERE p\<close>, and the \<^verbatim>\<open>changes\<close> of an update with that condition.\<close>

definition sql_count :: "('r \<Rightarrow> bool) \<Rightarrow> 'r list \<Rightarrow> nat" where
  "sql_count p rows = length (filter p rows)"

text \<open>\<^verbatim>\<open>UPDATE ... SET f WHERE p\<close>.\<close>

definition sql_update :: "('r \<Rightarrow> bool) \<Rightarrow> ('r \<Rightarrow> 'r) \<Rightarrow> 'r list \<Rightarrow> 'r list" where
  "sql_update p f rows = map (\<lambda>r. if p r then f r else r) rows"

text \<open>
  \<^verbatim>\<open>INSERT\<close> into a table whose primary key and unique constraints clash as \<open>uq\<close> says: it
  fails, is skipped (\<^verbatim>\<open>ON CONFLICT DO NOTHING\<close>), or updates the row that is there
  (\<^verbatim>\<open>ON CONFLICT DO UPDATE\<close>).
\<close>

definition sql_clash :: "('r \<Rightarrow> 'r \<Rightarrow> bool) \<Rightarrow> 'r \<Rightarrow> 'r list \<Rightarrow> bool" where
  "sql_clash uq row rows \<longleftrightarrow> list_ex (uq row) rows"

definition sql_insert_ignore :: "('r \<Rightarrow> 'r \<Rightarrow> bool) \<Rightarrow> 'r \<Rightarrow> 'r list \<Rightarrow> 'r list" where
  "sql_insert_ignore uq row rows = (if sql_clash uq row rows then rows else rows @ [row])"

definition sql_upsert :: "('r \<Rightarrow> 'r \<Rightarrow> bool) \<Rightarrow> 'r \<Rightarrow> ('r \<Rightarrow> 'r) \<Rightarrow> 'r list \<Rightarrow> 'r list" where
  "sql_upsert uq row f rows = (if sql_clash uq row rows then sql_update (uq row) f rows else rows @ [row])"

section \<open>The commit boundary\<close>

text \<open>
  \<open>hook\<close> is the \<^verbatim>\<open>beforeCommit\<close> fault-injection option: what it throws for an operation,
  if anything.
\<close>

definition atomic :: "(string \<Rightarrow> 'e option) \<Rightarrow> string \<Rightarrow> ('s, 'e, 'a) op \<Rightarrow> ('s, 'e, 'a) op" where
  "atomic hook name fn = (\<lambda>s. case fn s of
       (Inl e, _) \<Rightarrow> (Inl e, s)
     | (Inr x, t) \<Rightarrow> (case hook name of Some e \<Rightarrow> (Inl e, s) | None \<Rightarrow> (Inr x, t)))"

lemma atomic_Inl: "atomic hook name fn s = (Inl e, t) \<Longrightarrow> t = s"
  by (auto simp: atomic_def split: prod.splits sum.splits option.splits)

lemma atomic_Inr: "atomic hook name fn s = (Inr x, t) \<longleftrightarrow> fn s = (Inr x, t) \<and> hook name = None"
  by (auto simp: atomic_def split: prod.splits sum.splits option.splits)

lemma atomic_throws: "fn s = (Inl e, t) \<Longrightarrow> atomic hook name fn s = (Inl e, s)"
  by (simp add: atomic_def)

lemma keeps_atomic [keeps_intros]: "keeps I fn \<Longrightarrow> keeps I (atomic hook name fn)"
  by (fastforce simp: keeps_def atomic_def split: prod.splits sum.splits option.splits)

section \<open>Laws\<close>

lemma sql_get_Some: "sql_get p rows = Some r \<Longrightarrow> r \<in> set rows \<and> p r"
  by (auto simp: find_Some_iff)

lemma sql_get_None: "sql_get p rows = None \<longleftrightarrow> (\<forall>r \<in> set rows. \<not> p r)"
  by (auto simp: find_None_iff)

lemma sql_get_unique:
  assumes "distinct (map key rows)" and "r \<in> set rows"
  shows "sql_get (\<lambda>x. key x = key r) rows = Some r"
  using assms by (induction rows) auto

lemma sql_get_key:
  assumes "distinct (map key rows)"
  shows "sql_get (\<lambda>x. key x = k) rows = Some r \<longleftrightarrow> r \<in> set rows \<and> key r = k"
  using sql_get_unique [OF assms] sql_get_Some [of "\<lambda>x. key x = k" rows r] by auto

lemma sql_get_append [simp]:
  "sql_get p (rows @ [r]) = (case sql_get p rows of Some x \<Rightarrow> Some x | None \<Rightarrow> if p r then Some r else None)"
  by (induction rows) auto

lemma sql_count_append [simp]: "sql_count p (rows @ [r]) = sql_count p rows + (if p r then 1 else 0)"
  by (simp add: sql_count_def)

lemma sql_count_empty [simp]: "sql_count p [] = 0"
  by (simp add: sql_count_def)

lemma sql_count_0: "sql_count p rows = 0 \<longleftrightarrow> sql_get p rows = None"
  by (simp add: sql_count_def sql_get_None filter_empty_conv)

lemma set_sql_update: "set (sql_update p f rows) = (\<lambda>r. if p r then f r else r) ` set rows"
  by (simp add: sql_update_def)

lemma sql_update_none: "\<forall>r \<in> set rows. \<not> p r \<Longrightarrow> sql_update p f rows = rows"
  by (simp add: sql_update_def map_idI)

lemma sql_update_append [simp]: "sql_update p f (rows @ [r]) = sql_update p f rows @ [if p r then f r else r]"
  by (simp add: sql_update_def)

lemma map_sql_update: "(\<And>r. key (f r) = key r) \<Longrightarrow> map key (sql_update p f rows) = map key rows"
  by (simp add: sql_update_def)

lemma sql_get_update:
  assumes "\<And>r. p r \<Longrightarrow> q (f r) = q r"
  shows "sql_get q (sql_update p f rows) = map_option (\<lambda>r. if p r then f r else r) (sql_get q rows)"
  using assms by (induction rows) (auto simp: sql_update_def)

lemma sql_count_update:
  assumes "\<And>r. p r \<Longrightarrow> q (f r) = q r"
  shows "sql_count q (sql_update p f rows) = sql_count q rows"
  using assms by (induction rows) (auto simp: sql_update_def sql_count_def)

lemma sql_count_update_on:
  assumes "\<And>r. r \<in> set rows \<Longrightarrow> p r \<Longrightarrow> q (f r) = q r"
  shows "sql_count q (sql_update p f rows) = sql_count q rows"
  using assms by (induction rows) (auto simp: sql_update_def sql_count_def)

text \<open>Taking the one row with a key out of a class of rows lowers the class's count by one.\<close>

lemma sql_count_drop:
  assumes "distinct (map key rows)" "r \<in> set rows" "q r" "\<not> q (f r)"
  shows "Suc (sql_count q (sql_update (\<lambda>x. key x = key r) f rows)) = sql_count q rows"
  using assms
proof (induction rows)
  case (Cons x xs)
  show ?case
  proof (cases "x = r")
    case True
    then have "\<forall>y \<in> set xs. key y \<noteq> key r"
      using Cons.prems(1) by (auto simp: image_iff)
    then show ?thesis
      using True Cons.prems(3,4) sql_update_none [of xs "\<lambda>x. key x = key r" f] by (auto simp: sql_count_def sql_update_def)
  next
    case False
    then have "key x \<noteq> key r"
      using Cons.prems(1,2) by force
    then show ?thesis
      using Cons False by (auto simp: sql_count_def sql_update_def)
  qed
qed simp

lemma sql_insert_ignore_has:
  "uq row row \<Longrightarrow> \<exists>r. sql_get (uq row) (sql_insert_ignore uq row rows) = Some r"
  by (auto simp: sql_insert_ignore_def sql_clash_def find_None_iff list_ex_iff split: option.splits)

lemma sql_insert_ignore_get:
  "sql_get p (sql_insert_ignore uq row rows) =
     (case sql_get p rows of Some x \<Rightarrow> Some x | None \<Rightarrow> if p row \<and> \<not> sql_clash uq row rows then Some row else None)"
  by (auto simp: sql_insert_ignore_def split: option.splits)

lemma sql_clash_iff: "sql_clash uq row rows \<longleftrightarrow> (\<exists>r \<in> set rows. uq row r)"
  by (simp add: sql_clash_def list_ex_iff)

end
