(* ===== verification/Quota.thy ===== *)
theory Quota
  imports Sql Contracts
begin

text \<open>
  Quota reservations (\<^verbatim>\<open>vaulltcore-quota/src/contracts.ts\<close> and \<^verbatim>\<open>store.ts\<close>): the tables of
  \<^verbatim>\<open>SqlQuotaStore\<close> and one operation per method. A row and the object
  \<^verbatim>\<open>toReservation\<close> makes of it have the same fields and are one record. Clock readings and
  the id that \<^verbatim>\<open>reserve\<close> draws are arguments. The theorems are
  in \<open>Quota_Properties\<close>.
\<close>

section \<open>Data\<close>

datatype reservation_state = R_pending | R_active | R_settled | R_released | R_expired | R_rejected

record quota_limits =
  maxConcurrentJobs :: int
  jobsPerPeriod :: int
  periodMs :: int
  maxTokens :: int
  maxDurationMs :: int

text \<open>\<^verbatim>\<open>QuotaScope\<close> has the fields of \<^verbatim>\<open>JobIdentity\<close>.\<close>

type_synonym quota_scope = job_identity

definition quotaScope :: "job_identity \<Rightarrow> quota_scope" where
  "quotaScope i = \<lparr>tenantId = tenantId i, orgId = orgId i, projectId = projectId i\<rparr>"

record quota_reservation = job_identity +
  reservationId :: string
  requestKey :: string
  res_jobId :: "string option"
  res_state :: reservation_state
  res_version :: nat
  res_createdAt :: int
  settledAt :: "int option"
  releasedAt :: "int option"
  res_expiresAt :: int
  settledTokens :: "int option"
  settledDurationMs :: "int option"
  reasonCode :: "string option"

text \<open>What a store method can throw: a \<^verbatim>\<open>QuotaError\<close> with its code, a failed unique constraint,
  a property read of \<^verbatim>\<open>undefined\<close>, or the fault of the commit hook.\<close>

datatype quota_error = QuotaError string | UniqueViolation | TypeError | HookFault

record limits_row = job_identity +
  row_limits :: quota_limits

record counter_row = job_identity +
  in_use :: int
  period_started_at :: int
  period_count :: int

record period_row = job_identity +
  started_at :: int
  up_count :: int

record global_row =
  max_concurrent :: int
  global_in_use :: int

record quota_db =
  quota_limits_t :: "limits_row list"
  quota_counters :: "counter_row list"
  quota_reservations :: "quota_reservation list"
  usage_periods :: "period_row list"
  quota_global_capacity :: "global_row option"

type_synonym 'a quota_op = "(quota_db, quota_error, 'a) op"

record quota_options =
  q_beforeCommit :: "string \<Rightarrow> quota_error option"
  reservationTtlMs :: int

text \<open>The tables after the two migrations: the global row is there, with no ceiling.\<close>

definition QUOTA_MIGRATIONS :: quota_db where
  "QUOTA_MIGRATIONS = \<lparr>quota_limits_t = [], quota_counters = [], quota_reservations = [], usage_periods = [],
     quota_global_capacity = Some \<lparr>max_concurrent = 0, global_in_use = 0\<rparr>\<rparr>"

text \<open>\<^verbatim>\<open>options.reservationTtlMs ?? 3_600_000\<close>.\<close>

definition quota_constructor :: "(string \<Rightarrow> quota_error option) \<Rightarrow> int option \<Rightarrow> quota_options" where
  "quota_constructor hook ttl = \<lparr>q_beforeCommit = hook,
     reservationTtlMs = (case ttl of None \<Rightarrow> 3600000 | Some t \<Rightarrow> t)\<rparr>"

text \<open>\<^verbatim>\<open>tenant_id = ? AND org_id = ? AND project_id = ?\<close>, and the constraints of the tables.\<close>

definition in_scope :: "quota_scope \<Rightarrow> 'r job_identity_scheme \<Rightarrow> bool" where
  "in_scope sc r \<longleftrightarrow> tenantId r = tenantId sc \<and> orgId r = orgId sc \<and> projectId r = projectId sc"

definition same_scope :: "'r job_identity_scheme \<Rightarrow> 'r job_identity_scheme \<Rightarrow> bool" where
  "same_scope a b \<longleftrightarrow> tenantId a = tenantId b \<and> orgId a = orgId b \<and> projectId a = projectId b"

definition reservation_clash :: "quota_reservation \<Rightarrow> quota_reservation \<Rightarrow> bool" where
  "reservation_clash a b \<longleftrightarrow>
     reservationId a = reservationId b \<or> tenantId a = tenantId b \<and> requestKey a = requestKey b"

section \<open>Operations\<close>

subsection \<open>Limits and queries\<close>

definition setLimits :: "quota_options \<Rightarrow> quota_scope \<Rightarrow> quota_limits \<Rightarrow> unit quota_op" where
  "setLimits cfg sc lims = atomic (q_beforeCommit cfg) ''setLimits''
     (modifies (quota_limits_t_update (sql_upsert same_scope
        \<lparr>tenantId = tenantId sc, orgId = orgId sc, projectId = projectId sc, row_limits = lims\<rparr>
        (\<lambda>r. r\<lparr>row_limits := lims\<rparr>))))"

definition getLimits :: "quota_scope \<Rightarrow> quota_db \<Rightarrow> quota_limits option" where
  "getLimits sc db = map_option row_limits (sql_get (in_scope sc) (quota_limits_t db))"

definition getUsage :: "quota_scope \<Rightarrow> quota_db \<Rightarrow> int \<times> nat" where
  "getUsage sc db =
     ((case sql_get (in_scope sc) (quota_counters db) of Some c \<Rightarrow> in_use c | None \<Rightarrow> 0),
      sql_count (\<lambda>r. in_scope sc r \<and> res_state r = R_active) (quota_reservations db))"

definition listReservations :: "quota_scope \<Rightarrow> quota_db \<Rightarrow> quota_reservation list" where
  "listReservations sc db = sort_key res_createdAt (filter (in_scope sc) (quota_reservations db))"

definition getReservation :: "string \<Rightarrow> quota_db \<Rightarrow> quota_reservation option" where
  "getReservation rid db = sql_get (\<lambda>r. reservationId r = rid) (quota_reservations db)"

definition find_request :: "string \<Rightarrow> string \<Rightarrow> quota_db \<Rightarrow> quota_reservation option" where
  "find_request tenant key db = sql_get (\<lambda>r. tenantId r = tenant \<and> requestKey r = key) (quota_reservations db)"

subsection \<open>Reserving\<close>

definition new_reservation ::
    "quota_scope \<Rightarrow> string \<Rightarrow> string option \<Rightarrow> string \<Rightarrow> int \<Rightarrow> int \<Rightarrow> reservation_state \<Rightarrow> string option \<Rightarrow> quota_reservation" where
  "new_reservation sc key job rid now expiry st reason =
     \<lparr>tenantId = tenantId sc, orgId = orgId sc, projectId = projectId sc, reservationId = rid, requestKey = key,
      res_jobId = job, res_state = st, res_version = 1, res_createdAt = now, settledAt = None, releasedAt = None,
      res_expiresAt = expiry, settledTokens = None, settledDurationMs = None, reasonCode = reason\<rparr>"

definition insert_reservation :: "quota_reservation \<Rightarrow> unit quota_op" where
  "insert_reservation r = andThen (reads (\<lambda>db. sql_clash reservation_clash r (quota_reservations db))) (\<lambda>clash.
     if clash then throw UniqueViolation
     else modifies (quota_reservations_update (\<lambda>rows. rows @ [r])))"

definition add_in_use :: "quota_scope \<Rightarrow> (counter_row \<Rightarrow> bool) \<Rightarrow> int \<Rightarrow> nat quota_op" where
  "add_in_use sc cond d =
     andThen (reads (\<lambda>db. sql_count (\<lambda>c. in_scope sc c \<and> cond c) (quota_counters db))) (\<lambda>changes.
     andThen (modifies (quota_counters_update
       (sql_update (\<lambda>c. in_scope sc c \<and> cond c) (\<lambda>c. c\<lparr>in_use := in_use c + d\<rparr>)))) (\<lambda>_. ok changes))"

definition add_global :: "(global_row \<Rightarrow> bool) \<Rightarrow> int \<Rightarrow> bool quota_op" where
  "add_global cond d = andThen (reads quota_global_capacity) (\<lambda>g.
     case g of None \<Rightarrow> ok False
     | Some row \<Rightarrow>
         if cond row
         then andThen (modifies (quota_global_capacity_update
                (\<lambda>_. Some (row\<lparr>global_in_use := global_in_use row + d\<rparr>)))) (\<lambda>_. ok True)
         else ok False)"

text \<open>A denial writes its \<^verbatim>\<open>rejected\<close> row and throws.\<close>

definition reject :: "quota_reservation \<Rightarrow> string \<Rightarrow> 'a quota_op" where
  "reject r why = andThen (insert_reservation r) (\<lambda>_. throw (QuotaError why))"

definition ensure_rows :: "int \<Rightarrow> quota_scope \<Rightarrow> unit quota_op" where
  "ensure_rows now sc =
     andThen (modifies (quota_counters_update (sql_insert_ignore same_scope
       \<lparr>tenantId = tenantId sc, orgId = orgId sc, projectId = projectId sc, in_use = 0, period_started_at = now, period_count = 0\<rparr>))) (\<lambda>_.
     modifies (usage_periods_update (sql_insert_ignore same_scope
       \<lparr>tenantId = tenantId sc, orgId = orgId sc, projectId = projectId sc, started_at = now, up_count = 0\<rparr>)))"

text \<open>Step 3: the window is rolled in the table, the limit is checked against the row read before.\<close>

definition read_period :: "quota_scope \<Rightarrow> period_row quota_op" where
  "read_period sc = andThen (reads (\<lambda>db. sql_get (in_scope sc) (usage_periods db)))
     (\<lambda>p. case p of None \<Rightarrow> throw TypeError | Some row \<Rightarrow> ok row)"

definition roll_period :: "int \<Rightarrow> quota_scope \<Rightarrow> period_row \<Rightarrow> quota_limits \<Rightarrow> unit quota_op" where
  "roll_period now sc p lims =
     (if now - started_at p \<ge> periodMs lims
      then modifies (usage_periods_update (sql_update (in_scope sc) (\<lambda>q. q\<lparr>started_at := now, up_count := 0\<rparr>)))
      else ok ())"

text \<open>Step 4b, with the result whether the reservation may go on.\<close>

definition claim_global :: "quota_scope \<Rightarrow> bool quota_op" where
  "claim_global sc = andThen (reads quota_global_capacity) (\<lambda>g.
     case g of None \<Rightarrow> ok True
     | Some row \<Rightarrow>
         if max_concurrent row > 0
         then andThen (add_global (\<lambda>x. global_in_use x < max_concurrent row) 1) (\<lambda>changed.
                if changed then ok True
                else andThen (add_in_use sc (\<lambda>c. in_use c > 0) (- 1)) (\<lambda>_. ok False))
         else ok True)"

text \<open>Step 5: the insert, and the compensation when a unique constraint fails.\<close>

definition insert_active :: "quota_reservation \<Rightarrow> quota_scope \<Rightarrow> string \<Rightarrow> quota_reservation option quota_op" where
  "insert_active r sc key = andThen (reads quota_global_capacity) (\<lambda>g.
     catch (andThen (insert_reservation r) (\<lambda>_. ok None)) (\<lambda>e.
       if e = UniqueViolation
       then andThen (add_in_use sc (\<lambda>_. True) (- 1)) (\<lambda>_.
            andThen (if (case g of None \<Rightarrow> False | Some row \<Rightarrow> max_concurrent row > 0)
                     then andThen (add_global (\<lambda>x. global_in_use x > 0) (- 1)) (\<lambda>_. ok ()) else ok ()) (\<lambda>_.
            andThen (reads (find_request (tenantId sc) key)) (\<lambda>w.
            case w of None \<Rightarrow> throw TypeError | Some x \<Rightarrow> ok (Some x))))
       else throw e))"

definition count_period :: "quota_scope \<Rightarrow> unit quota_op" where
  "count_period sc = modifies (usage_periods_update (sql_update (in_scope sc) (\<lambda>q. q\<lparr>up_count := up_count q + 1\<rparr>)))"

definition reserve ::
    "quota_options \<Rightarrow> int \<Rightarrow> string \<Rightarrow> quota_scope \<Rightarrow> string \<Rightarrow> string option \<Rightarrow> quota_limits \<Rightarrow> quota_reservation quota_op" where
  "reserve cfg now rid sc key job lims =
     (let expiry = now + reservationTtlMs cfg;
          rejected = (\<lambda>why. new_reservation sc key job rid now expiry R_rejected (Some why));
          active = new_reservation sc key job rid now expiry R_active None
      in atomic (q_beforeCommit cfg) ''reserve'' (
        andThen (reads (find_request (tenantId sc) key)) (\<lambda>existing.
        case existing of Some row \<Rightarrow> ok row
        | None \<Rightarrow>
          andThen (ensure_rows now sc) (\<lambda>_.
          andThen (read_period sc) (\<lambda>period.
          andThen (roll_period now sc period lims) (\<lambda>_.
          if up_count period \<ge> jobsPerPeriod lims
          then reject (rejected ''QUOTA_PERIOD_FULL'') ''QUOTA_PERIOD_FULL''
          else
            andThen (add_in_use sc (\<lambda>c. in_use c < maxConcurrentJobs lims) 1) (\<lambda>changes.
            if changes = 0 then reject (rejected ''QUOTA_EXCEEDED'') ''QUOTA_EXCEEDED''
            else
              andThen (claim_global sc) (\<lambda>claimed.
              if \<not> claimed then reject (rejected ''QUOTA_GLOBAL_FULL'') ''QUOTA_GLOBAL_FULL''
              else
                andThen (insert_active active sc key) (\<lambda>winner.
                case winner of Some x \<Rightarrow> ok x
                | None \<Rightarrow>
                    andThen (count_period sc) (\<lambda>_.
                    andThen (reads (getReservation rid)) (\<lambda>row.
                    case row of None \<Rightarrow> throw TypeError | Some x \<Rightarrow> ok x)))))))))))"

subsection \<open>Ending and renewing\<close>

definition attachJob :: "quota_options \<Rightarrow> string \<Rightarrow> string \<Rightarrow> unit quota_op" where
  "attachJob cfg rid job = atomic (q_beforeCommit cfg) ''attachJob''
     (modifies (quota_reservations_update
        (sql_update (\<lambda>r. reservationId r = rid \<and> res_jobId r = None) (\<lambda>r. r\<lparr>res_jobId := Some job\<rparr>))))"

text \<open>The slot of an ended reservation goes back to its scope and to the global row.\<close>

definition free_slot :: "'r job_identity_scheme \<Rightarrow> unit quota_op" where
  "free_slot row =
     andThen (add_in_use \<lparr>tenantId = tenantId row, orgId = orgId row, projectId = projectId row\<rparr> (\<lambda>c. in_use c > 0) (- 1)) (\<lambda>_.
     andThen (add_global (\<lambda>g. global_in_use g > 0) (- 1)) (\<lambda>_. ok ()))"

text \<open>
  The conditional update of \<^verbatim>\<open>settle\<close>, \<^verbatim>\<open>release\<close> and \<^verbatim>\<open>renewReservation\<close>, which
  throws when no row changes, and the final read.
\<close>

definition fenced_update :: "(quota_reservation \<Rightarrow> bool) \<Rightarrow> (quota_reservation \<Rightarrow> quota_reservation) \<Rightarrow> unit quota_op" where
  "fenced_update p f =
     andThen (reads (\<lambda>db. sql_count p (quota_reservations db))) (\<lambda>changes.
     andThen (modifies (quota_reservations_update (sql_update p f))) (\<lambda>_.
     if changes = 0 then throw (QuotaError ''RESERVATION_FENCED'') else ok ()))"

definition read_back :: "string \<Rightarrow> quota_reservation quota_op" where
  "read_back rid = andThen (reads (getReservation rid))
     (\<lambda>row. case row of None \<Rightarrow> throw TypeError | Some x \<Rightarrow> ok x)"

definition settle :: "quota_options \<Rightarrow> int \<Rightarrow> string \<Rightarrow> nat \<Rightarrow> int \<Rightarrow> int \<Rightarrow> quota_reservation quota_op" where
  "settle cfg now rid v tokens durationMs = atomic (q_beforeCommit cfg) ''settle'' (
     andThen (reads (getReservation rid)) (\<lambda>found.
     case found of None \<Rightarrow> throw (QuotaError ''RESERVATION_NOT_FOUND'')
     | Some row \<Rightarrow>
         if res_state row = R_settled then ok row
         else if res_version row \<noteq> v then throw (QuotaError ''RESERVATION_FENCED'')
         else if res_state row \<noteq> R_active then throw (QuotaError ''INVALID_RESERVATION_STATE'')
         else andThen (fenced_update (\<lambda>r. reservationId r = rid \<and> res_version r = v)
                (\<lambda>r. r\<lparr>res_state := R_settled, settledAt := Some now, settledTokens := Some tokens,
                      settledDurationMs := Some durationMs, res_version := res_version r + 1\<rparr>)) (\<lambda>_.
              andThen (free_slot row) (\<lambda>_. read_back rid))))"

definition release :: "quota_options \<Rightarrow> int \<Rightarrow> string \<Rightarrow> nat \<Rightarrow> quota_reservation quota_op" where
  "release cfg now rid v = atomic (q_beforeCommit cfg) ''release'' (
     andThen (reads (getReservation rid)) (\<lambda>found.
     case found of None \<Rightarrow> throw (QuotaError ''RESERVATION_NOT_FOUND'')
     | Some row \<Rightarrow>
         if res_state row = R_released then ok row
         else if res_state row = R_settled then ok row
         else if res_version row \<noteq> v then throw (QuotaError ''RESERVATION_FENCED'')
         else if res_state row \<noteq> R_active then throw (QuotaError ''INVALID_RESERVATION_STATE'')
         else andThen (fenced_update (\<lambda>r. reservationId r = rid \<and> res_version r = v)
                (\<lambda>r. r\<lparr>res_state := R_released, releasedAt := Some now, res_version := res_version r + 1\<rparr>)) (\<lambda>_.
              andThen (free_slot row) (\<lambda>_. read_back rid))))"

definition listExpiredActive :: "int \<Rightarrow> quota_db \<Rightarrow> quota_reservation list" where
  "listExpiredActive now db = filter (\<lambda>r. res_state r = R_active \<and> res_expiresAt r \<le> now) (quota_reservations db)"

definition expire_row :: "int \<Rightarrow> quota_reservation \<Rightarrow> unit quota_op" where
  "expire_row now row =
     andThen (modifies (quota_reservations_update
       (sql_update (\<lambda>r. reservationId r = reservationId row \<and> res_state r = R_active)
          (\<lambda>r. r\<lparr>res_state := R_expired, releasedAt := Some now, res_version := res_version r + 1\<rparr>)))) (\<lambda>_.
     free_slot row)"

definition reapExpired :: "quota_options \<Rightarrow> int \<Rightarrow> nat quota_op" where
  "reapExpired cfg now = atomic (q_beforeCommit cfg) ''reapExpired'' (
     andThen (reads (listExpiredActive now)) (\<lambda>expired.
     andThen (for_each expired (expire_row now)) (\<lambda>_. ok (length expired))))"

definition renewReservation :: "quota_options \<Rightarrow> int \<Rightarrow> string \<Rightarrow> nat \<Rightarrow> int \<Rightarrow> quota_reservation quota_op" where
  "renewReservation cfg now rid v extendMs = atomic (q_beforeCommit cfg) ''renewReservation'' (
     andThen (reads (getReservation rid)) (\<lambda>found.
     case found of None \<Rightarrow> throw (QuotaError ''RESERVATION_NOT_FOUND'')
     | Some row \<Rightarrow>
         if res_version row \<noteq> v then throw (QuotaError ''RESERVATION_FENCED'')
         else if res_state row \<noteq> R_active then throw (QuotaError ''INVALID_RESERVATION_STATE'')
         else andThen (fenced_update (\<lambda>r. reservationId r = rid \<and> res_version r = v \<and> res_state r = R_active)
                (\<lambda>r. r\<lparr>res_expiresAt := max now (res_expiresAt row) + extendMs, res_version := res_version r + 1\<rparr>)) (\<lambda>_.
              read_back rid)))"

subsection \<open>Global ceiling\<close>

definition setGlobalCapacity :: "quota_options \<Rightarrow> rat \<Rightarrow> unit quota_op" where
  "setGlobalCapacity cfg n = atomic (q_beforeCommit cfg) ''setGlobalCapacity''
     (modifies (quota_global_capacity_update (map_option (\<lambda>g. g\<lparr>max_concurrent := max 0 \<lfloor>n\<rfloor>\<rparr>))))"

definition getGlobalUsage :: "quota_db \<Rightarrow> int \<times> int" where
  "getGlobalUsage db = (case quota_global_capacity db of
       None \<Rightarrow> (0, 0) | Some g \<Rightarrow> (max_concurrent g, global_in_use g))"

end
