(* ===== verification/Quota_Properties.thy ===== *)
theory Quota_Properties
  imports Quota "HOL-Library.Sublist"
begin

text \<open>
  Correctness of the quota store: what each statement and operation does to the tables, the
  invariant that ties the counters to the reservations, its preservation by every call, and the
  properties: exact counters, no overselling per scope and under the global ceiling, idempotent
  replay, fenced writers, and the period limit that never reopens.
\<close>

section \<open>What the statements do\<close>

definition scope_of :: "'r job_identity_scheme \<Rightarrow> string \<times> string \<times> string" where
  "scope_of r = (tenantId r, orgId r, projectId r)"

lemma in_scope_iff: "in_scope sc r \<longleftrightarrow> scope_of r = scope_of sc"
  by (auto simp: in_scope_def scope_of_def)

lemma in_scope_eq: "in_scope sc = (\<lambda>r. scope_of r = scope_of sc)"
  by (simp add: fun_eq_iff in_scope_iff)

lemma same_scope_iff: "same_scope a b \<longleftrightarrow> scope_of b = scope_of a"
  by (auto simp: same_scope_def scope_of_def)

lemma scope_of_simps [simp]:
  "scope_of (c\<lparr>in_use := n\<rparr>) = scope_of c" "scope_of (p\<lparr>started_at := x\<rparr>) = scope_of p"
  "scope_of (p\<lparr>up_count := y\<rparr>) = scope_of p" "scope_of (l\<lparr>row_limits := lims\<rparr>) = scope_of l"
  "scope_of \<lparr>tenantId = tenantId sc, orgId = orgId sc, projectId = projectId sc\<rparr> = scope_of sc"
  by (simp_all add: scope_of_def)

abbreviation is_active :: "quota_reservation \<Rightarrow> bool" where
  "is_active r \<equiv> res_state r = R_active"

text \<open>The two numbers of \<^verbatim>\<open>getUsage\<close>, and the total over all scopes.\<close>

definition used :: "string \<times> string \<times> string \<Rightarrow> counter_row list \<Rightarrow> int" where
  "used k cs = (case sql_get (\<lambda>c. scope_of c = k) cs of Some c \<Rightarrow> in_use c | None \<Rightarrow> 0)"

definition held :: "string \<times> string \<times> string \<Rightarrow> quota_reservation list \<Rightarrow> nat" where
  "held k rs = sql_count (\<lambda>r. scope_of r = k \<and> is_active r) rs"

definition held_total :: "quota_reservation list \<Rightarrow> nat" where
  "held_total rs = sql_count is_active rs"

lemma getUsage_eq: "getUsage sc db = (used (scope_of sc) (quota_counters db), held (scope_of sc) (quota_reservations db))"
  by (simp add: getUsage_def used_def held_def in_scope_eq)

lemma used_add:
  assumes "distinct (map scope_of cs)"
  shows "used k (sql_update (\<lambda>c. scope_of c = k' \<and> cond c) (\<lambda>c. c\<lparr>in_use := in_use c + d\<rparr>) cs) =
    (case sql_get (\<lambda>c. scope_of c = k) cs of None \<Rightarrow> 0
     | Some c \<Rightarrow> if k = k' \<and> cond c then in_use c + d else in_use c)"
  using sql_get_update [of "\<lambda>c. scope_of c = k' \<and> cond c" "\<lambda>c. scope_of c = k" "\<lambda>c. c\<lparr>in_use := in_use c + d\<rparr>" cs]
  by (auto simp: used_def split: option.splits dest: sql_get_Some)

lemma used_dec:
  assumes "distinct (map scope_of cs)"
  shows "used k (sql_update (\<lambda>c. scope_of c = k' \<and> in_use c > 0) (\<lambda>c. c\<lparr>in_use := in_use c - 1\<rparr>) cs) =
    (if k = k' \<and> used k cs > 0 then used k cs - 1 else used k cs)"
  using used_add [OF assms, of k k' "\<lambda>c. in_use c > 0" "- 1"] by (auto simp: used_def split: option.splits)

definition freed :: "'r job_identity_scheme \<Rightarrow> quota_db \<Rightarrow> quota_db" where
  "freed row db = db\<lparr>
     quota_counters := sql_update (\<lambda>c. scope_of c = scope_of row \<and> in_use c > 0) (\<lambda>c. c\<lparr>in_use := in_use c - 1\<rparr>) (quota_counters db),
     quota_global_capacity := map_option (\<lambda>g. if global_in_use g > 0 then g\<lparr>global_in_use := global_in_use g - 1\<rparr> else g) (quota_global_capacity db)\<rparr>"

lemma freed_sel [simp]:
  "quota_reservations (freed row db) = quota_reservations db" "usage_periods (freed row db) = usage_periods db"
  "quota_limits_t (freed row db) = quota_limits_t db"
  by (simp_all add: freed_def)

lemma quota_db_eqI:
  "quota_limits_t a = quota_limits_t b \<Longrightarrow> quota_counters a = quota_counters b \<Longrightarrow> quota_reservations a = quota_reservations b \<Longrightarrow>
   usage_periods a = usage_periods b \<Longrightarrow> quota_global_capacity a = quota_global_capacity b \<Longrightarrow> a = (b :: quota_db)"
  by simp

lemma add_in_use_app:
  "add_in_use sc cond d db =
     (Inr (sql_count (\<lambda>c. scope_of c = scope_of sc \<and> cond c) (quota_counters db)),
      db\<lparr>quota_counters := sql_update (\<lambda>c. scope_of c = scope_of sc \<and> cond c) (\<lambda>c. c\<lparr>in_use := in_use c + d\<rparr>) (quota_counters db)\<rparr>)"
  by (simp add: add_in_use_def in_scope_iff)

lemma add_global_app:
  "add_global cond d db =
     (Inr (case quota_global_capacity db of None \<Rightarrow> False | Some g \<Rightarrow> cond g),
      db\<lparr>quota_global_capacity := map_option (\<lambda>g. if cond g then g\<lparr>global_in_use := global_in_use g + d\<rparr> else g) (quota_global_capacity db)\<rparr>)"
  by (auto simp: add_global_def split: option.splits)

lemma free_slot_app: "free_slot row db = (Inr (), freed row db)"
  by (simp add: free_slot_def andThen_def add_in_use_app add_global_app freed_def cong: if_cong)

lemma insert_reservation_app:
  "insert_reservation r db =
     (if sql_clash reservation_clash r (quota_reservations db) then (Inl UniqueViolation, db)
      else (Inr (), db\<lparr>quota_reservations := quota_reservations db @ [r]\<rparr>))"
  by (simp add: insert_reservation_def)

lemma fenced_update_app:
  "fenced_update p f db =
     (if sql_count p (quota_reservations db) = 0 then Inl (QuotaError ''RESERVATION_FENCED'') else Inr (),
      db\<lparr>quota_reservations := sql_update p f (quota_reservations db)\<rparr>)"
  by (simp add: fenced_update_def)

lemma reject_app: "fst (reject r code' db) = Inl (QuotaError code') \<or> fst (reject r code' db) = Inl UniqueViolation"
  by (simp add: reject_def andThen_def insert_reservation_app)

section \<open>The invariant\<close>

definition quota_inv :: "quota_db \<Rightarrow> bool" where
  "quota_inv db \<longleftrightarrow>
     distinct (map reservationId (quota_reservations db)) \<and>
     distinct (map (\<lambda>r. (tenantId r, requestKey r)) (quota_reservations db)) \<and>
     distinct (map scope_of (quota_counters db)) \<and> distinct (map scope_of (usage_periods db)) \<and>
     (\<forall>k. used k (quota_counters db) = int (held k (quota_reservations db)))"

lemma quota_invD:
  "quota_inv db \<Longrightarrow> distinct (map reservationId (quota_reservations db))"
  "quota_inv db \<Longrightarrow> distinct (map (\<lambda>r. (tenantId r, requestKey r)) (quota_reservations db))"
  "quota_inv db \<Longrightarrow> distinct (map scope_of (quota_counters db))"
  "quota_inv db \<Longrightarrow> distinct (map scope_of (usage_periods db))"
  "quota_inv db \<Longrightarrow> used k (quota_counters db) = int (held k (quota_reservations db))"
  unfolding quota_inv_def by blast+

lemma quota_inv_init: "quota_inv QUOTA_MIGRATIONS"
  by (simp add: quota_inv_def QUOTA_MIGRATIONS_def used_def held_def)

text \<open>What an update of a reservation row never touches.\<close>

definition row_keep :: "(quota_reservation \<Rightarrow> quota_reservation) \<Rightarrow> bool" where
  "row_keep f \<longleftrightarrow> (\<forall>r. reservationId (f r) = reservationId r \<and> requestKey (f r) = requestKey r \<and>
      tenantId (f r) = tenantId r \<and> scope_of (f r) = scope_of r)"

lemma row_keep_map:
  assumes "row_keep f"
  shows "map reservationId (sql_update p f rs) = map reservationId rs"
    and "map (\<lambda>r. (tenantId r, requestKey r)) (sql_update p f rs) = map (\<lambda>r. (tenantId r, requestKey r)) rs"
  using assms by (auto simp: row_keep_def intro!: map_sql_update)

definition ended :: "quota_reservation \<Rightarrow> (quota_reservation \<Rightarrow> quota_reservation) \<Rightarrow> quota_db \<Rightarrow> quota_db" where
  "ended row f db =
     freed row (db\<lparr>quota_reservations := sql_update (\<lambda>r. reservationId r = reservationId row) f (quota_reservations db)\<rparr>)"

lemma held_end:
  assumes "distinct (map reservationId rs)" "row \<in> set rs" "is_active row" "row_keep f" "\<not> is_active (f row)"
  shows "int (held k (sql_update (\<lambda>r. reservationId r = reservationId row) f rs)) =
      int (held k rs) - (if k = scope_of row then 1 else 0)"
proof (cases "k = scope_of row")
  case True
  then show ?thesis
    using sql_count_drop [OF assms(1,2), of "\<lambda>r. scope_of r = k \<and> is_active r" f] assms(3-5)
    by (simp add: held_def)
next
  case False
  have "held k (sql_update (\<lambda>r. reservationId r = reservationId row) f rs) = held k rs"
    unfolding held_def
  proof (rule sql_count_update_on)
    fix r assume "r \<in> set rs" "reservationId r = reservationId row"
    then have "r = row"
      using assms(1,2) by (metis eq_key_imp_eq_value distinct_map inj_onD)
    then show "(scope_of (f r) = k \<and> is_active (f r)) = (scope_of r = k \<and> is_active r)"
      using False assms(4) by (auto simp: row_keep_def)
  qed
  then show ?thesis using False by simp
qed

lemma quota_inv_ended:
  assumes "quota_inv db" "row \<in> set (quota_reservations db)" "is_active row" "row_keep f" "\<not> is_active (f row)"
  shows "quota_inv (ended row f db)"
proof -
  note inv = quota_invD [OF assms(1)]
  have "0 < held (scope_of row) (quota_reservations db)"
    using assms(2,3) by (auto simp: held_def sql_count_def filter_empty_conv)
  then show ?thesis
    using inv assms(4) by (auto simp: quota_inv_def ended_def freed_def row_keep_map map_sql_update used_dec
      held_end [OF inv(1) assms(2-5)])
qed

lemma held_touch:
  assumes "row_keep f" "\<And>r. res_state (f r) = res_state r"
  shows "held k (sql_update p f rs) = held k rs" "held_total (sql_update p f rs) = held_total rs"
  unfolding held_def held_total_def by (rule sql_count_update; use assms in \<open>simp add: row_keep_def\<close>)+

lemma quota_inv_touch:
  assumes "quota_inv db" "row_keep f" "\<And>r. res_state (f r) = res_state r"
  shows "quota_inv (db\<lparr>quota_reservations := sql_update p f (quota_reservations db)\<rparr>)"
  using assms by (simp add: quota_inv_def row_keep_map held_touch)

section \<open>What the operations do\<close>

text \<open>The row that a fenced write of \<^verbatim>\<open>settle\<close>, \<^verbatim>\<open>release\<close> or \<^verbatim>\<open>renewReservation\<close> makes.\<close>

datatype reservation_write = W_settle int int int | W_release int | W_renew int int

fun written :: "reservation_write \<Rightarrow> quota_reservation \<Rightarrow> quota_reservation" where
  "written (W_settle now tokens dur) r = r\<lparr>res_state := R_settled, settledAt := Some now, settledTokens := Some tokens,
     settledDurationMs := Some dur, res_version := res_version r + 1\<rparr>"
| "written (W_release now) r = r\<lparr>res_state := R_released, releasedAt := Some now, res_version := res_version r + 1\<rparr>"
| "written (W_renew now ext) r = r\<lparr>res_expiresAt := max now (res_expiresAt r) + ext, res_version := res_version r + 1\<rparr>"

lemma written_abs:
  "written (W_settle now tokens dur) = (\<lambda>r. r\<lparr>res_state := R_settled, settledAt := Some now, settledTokens := Some tokens,
     settledDurationMs := Some dur, res_version := res_version r + 1\<rparr>)"
  "written (W_release now) = (\<lambda>r. r\<lparr>res_state := R_released, releasedAt := Some now, res_version := res_version r + 1\<rparr>)"
  "written (W_renew now ext) = (\<lambda>r. r\<lparr>res_expiresAt := max now (res_expiresAt r) + ext, res_version := res_version r + 1\<rparr>)"
  by (simp_all add: fun_eq_iff)

definition expired_row :: "int \<Rightarrow> quota_reservation \<Rightarrow> quota_reservation" where
  "expired_row now = (\<lambda>r. r\<lparr>res_state := R_expired, releasedAt := Some now, res_version := res_version r + 1\<rparr>)"

lemma row_keep_written [simp]: "row_keep (written w)" "row_keep (expired_row now)" "row_keep (\<lambda>r. r\<lparr>res_jobId := j\<rparr>)"
  by (cases w) (simp_all add: row_keep_def expired_row_def scope_of_def)

text \<open>An update of the row with a given id, guarded by what that row satisfies anyway.\<close>

lemma update_id_guard:
  assumes "distinct (map reservationId rs)" "row \<in> set rs" "p row"
  shows "sql_update (\<lambda>r. reservationId r = reservationId row \<and> p r) f rs = sql_update (\<lambda>r. reservationId r = reservationId row) f rs"
    and "sql_count (\<lambda>r. reservationId r = reservationId row \<and> p r) rs \<noteq> 0"
proof -
  have "r = row" if "r \<in> set rs" "reservationId r = reservationId row" for r
    using assms(1,2) that by (metis distinct_map inj_onD)
  then show "sql_update (\<lambda>r. reservationId r = reservationId row \<and> p r) f rs = sql_update (\<lambda>r. reservationId r = reservationId row) f rs"
    using assms(3) by (auto simp: sql_update_def)
  show "sql_count (\<lambda>r. reservationId r = reservationId row \<and> p r) rs \<noteq> 0"
    using assms(2,3) by (auto simp: sql_count_0 sql_get_None)
qed

lemma get_updated:
  assumes "distinct (map reservationId (quota_reservations db))" "row_keep f" "getReservation rid db = Some row"
  shows "sql_get (\<lambda>r. reservationId r = rid) (sql_update (\<lambda>r. reservationId r = rid) f (quota_reservations db)) = Some (f row)"
  using assms sql_get_update [of "\<lambda>r. reservationId r = rid" "\<lambda>r. reservationId r = rid" f "quota_reservations db"]
  by (auto simp: row_keep_def getReservation_def dest: sql_get_Some)

lemma getReservation_Some: "getReservation rid db = Some row \<Longrightarrow> row \<in> set (quota_reservations db) \<and> reservationId row = rid"
  by (auto simp: getReservation_def dest: sql_get_Some)

lemmas quota_op_simps = andThen_def fenced_update_app free_slot_app read_back_def written_abs

lemma settle_active:
  assumes "quota_inv db" "getReservation rid db = Some row" "is_active row" "res_version row = v" "q_beforeCommit cfg ''settle'' = None"
  shows "settle cfg now rid v tokens dur db =
    (Inr (written (W_settle now tokens dur) row), ended row (written (W_settle now tokens dur)) db)"
proof -
  note row = getReservation_Some [OF assms(2)] and ids = quota_invD(1) [OF assms(1)]
  have rid: "reservationId row = rid" using row ..
  note g = update_id_guard [OF ids conjunct1 [OF row], of "\<lambda>r. res_version r = v", unfolded rid]
  note u = get_updated [OF ids row_keep_written(1) assms(2), of "W_settle now tokens dur"]
  show ?thesis
    using assms g u by (simp add: settle_def atomic_def quota_op_simps ended_def rid getReservation_def)
qed

lemma release_active:
  assumes "quota_inv db" "getReservation rid db = Some row" "is_active row" "res_version row = v" "q_beforeCommit cfg ''release'' = None"
  shows "release cfg now rid v db = (Inr (written (W_release now) row), ended row (written (W_release now)) db)"
proof -
  note row = getReservation_Some [OF assms(2)] and ids = quota_invD(1) [OF assms(1)]
  have rid: "reservationId row = rid" using row ..
  note g = update_id_guard [OF ids conjunct1 [OF row], of "\<lambda>r. res_version r = v", unfolded rid]
  note u = get_updated [OF ids row_keep_written(1) assms(2), of "W_release now"]
  show ?thesis
    using assms g u by (simp add: release_def atomic_def quota_op_simps ended_def rid getReservation_def)
qed

lemma renew_active:
  assumes "quota_inv db" "getReservation rid db = Some row" "is_active row" "res_version row = v" "q_beforeCommit cfg ''renewReservation'' = None"
  shows "renewReservation cfg now rid v ext db =
    (Inr (written (W_renew now ext) row),
     db\<lparr>quota_reservations := sql_update (\<lambda>r. reservationId r = rid) (written (W_renew now ext)) (quota_reservations db)\<rparr>)"
proof -
  note row = getReservation_Some [OF assms(2)] and ids = quota_invD(1) [OF assms(1)]
  have rid: "reservationId row = rid" using row ..
  let ?f = "\<lambda>r. r\<lparr>res_expiresAt := max now (res_expiresAt row) + ext, res_version := res_version r + 1\<rparr>"
  have "r = row" if "r \<in> set (quota_reservations db)" "reservationId r = rid" for r
    using ids row that by (metis distinct_map inj_onD)
  then have f: "sql_update (\<lambda>r. reservationId r = rid) ?f (quota_reservations db) =
      sql_update (\<lambda>r. reservationId r = rid) (written (W_renew now ext)) (quota_reservations db)"
    by (auto simp: sql_update_def)
  note g = update_id_guard [OF ids conjunct1 [OF row], of "\<lambda>r. res_version r = v \<and> is_active r", unfolded rid]
  note u = get_updated [OF ids row_keep_written(1) assms(2), of "W_renew now ext"]
  show ?thesis
    using assms g u f by (simp add: renewReservation_def atomic_def quota_op_simps rid getReservation_def)
qed

lemma settle_cases:
  assumes "quota_inv db"
  shows "snd (settle cfg now rid v tokens dur db) = db \<or>
    (\<exists>row. getReservation rid db = Some row \<and> is_active row \<and> res_version row = v \<and>
       snd (settle cfg now rid v tokens dur db) = ended row (written (W_settle now tokens dur)) db)"
proof (cases "\<exists>row. getReservation rid db = Some row \<and> is_active row \<and> res_version row = v \<and> q_beforeCommit cfg ''settle'' = None")
  case True
  then obtain row where "getReservation rid db = Some row" "is_active row" "res_version row = v" "q_beforeCommit cfg ''settle'' = None"
    by blast
  then show ?thesis
    using settle_active [OF assms] by fastforce
next
  case False
  then show ?thesis
    by (auto simp: settle_def atomic_def andThen_def split: option.splits prod.splits sum.splits)
qed

lemma release_cases:
  assumes "quota_inv db"
  shows "snd (release cfg now rid v db) = db \<or>
    (\<exists>row. getReservation rid db = Some row \<and> is_active row \<and> res_version row = v \<and>
       snd (release cfg now rid v db) = ended row (written (W_release now)) db)"
proof (cases "\<exists>row. getReservation rid db = Some row \<and> is_active row \<and> res_version row = v \<and> q_beforeCommit cfg ''release'' = None")
  case True
  then obtain row where "getReservation rid db = Some row" "is_active row" "res_version row = v" "q_beforeCommit cfg ''release'' = None"
    by blast
  then show ?thesis
    using release_active [OF assms] by fastforce
next
  case False
  then show ?thesis
    by (auto simp: release_def atomic_def andThen_def split: option.splits prod.splits sum.splits)
qed

lemma renew_cases:
  assumes "quota_inv db"
  shows "snd (renewReservation cfg now rid v ext db) = db \<or>
    (\<exists>row. getReservation rid db = Some row \<and> is_active row \<and> res_version row = v) \<and>
    snd (renewReservation cfg now rid v ext db) =
      db\<lparr>quota_reservations := sql_update (\<lambda>r. reservationId r = rid) (written (W_renew now ext)) (quota_reservations db)\<rparr>"
proof (cases "\<exists>row. getReservation rid db = Some row \<and> is_active row \<and> res_version row = v \<and> q_beforeCommit cfg ''renewReservation'' = None")
  case True
  then obtain row where "getReservation rid db = Some row" "is_active row" "res_version row = v" "q_beforeCommit cfg ''renewReservation'' = None"
    by blast
  then show ?thesis
    using renew_active [OF assms] by fastforce
next
  case False
  then show ?thesis
    by (auto simp: renewReservation_def atomic_def andThen_def split: option.splits prod.splits sum.splits)
qed

lemma expire_row_app:
  assumes "quota_inv db" "row \<in> set (quota_reservations db)" "is_active row"
  shows "expire_row now row db = (Inr (), ended row (expired_row now) db)"
  using update_id_guard [OF quota_invD(1) [OF assms(1)] assms(2), of is_active] assms(3)
  by (cases db) (simp add: expire_row_def free_slot_app ended_def expired_row_def)

lemma ended_keeps_others:
  "r \<in> set (quota_reservations db) \<Longrightarrow> reservationId r \<noteq> reservationId row \<Longrightarrow> r \<in> set (quota_reservations (ended row f db))"
  by (force simp: ended_def set_sql_update)

lemma expired_row_inactive [simp]: "\<not> is_active (expired_row now r)"
  by (simp add: expired_row_def)

text \<open>What every expiry of one active row keeps, the reaper keeps.\<close>

lemma expire_all:
  assumes "quota_inv db" "I db" "distinct (map reservationId rows)"
    and "\<And>r. r \<in> set rows \<Longrightarrow> r \<in> set (quota_reservations db) \<and> is_active r"
    and step: "\<And>db row. quota_inv db \<Longrightarrow> I db \<Longrightarrow> row \<in> set (quota_reservations db) \<Longrightarrow> is_active row \<Longrightarrow>
        I (ended row (expired_row now) db)"
  shows "\<exists>t. for_each rows (expire_row now) db = (Inr (), t) \<and> quota_inv t \<and> I t"
  using assms(1-4)
proof (induction rows arbitrary: db)
  case (Cons row rows)
  let ?db = "ended row (expired_row now) db"
  have row: "row \<in> set (quota_reservations db)" "is_active row"
    using Cons.prems(4) by auto
  have "r \<in> set (quota_reservations ?db) \<and> is_active r" if "r \<in> set rows" for r
  proof -
    have "reservationId r \<noteq> reservationId row"
      using that Cons.prems(3) by (auto simp: image_iff)
    then show ?thesis
      using that Cons.prems(4) [of r] by (simp add: ended_keeps_others)
  qed
  moreover have "quota_inv ?db"
    using quota_inv_ended [OF Cons.prems(1) row] by simp
  moreover have "I ?db"
    using step Cons.prems(1,2) row by blast
  ultimately show ?case
    using Cons.IH [of ?db] Cons.prems(3) by (auto simp: andThen_def expire_row_app [OF Cons.prems(1) row])
qed simp

lemma reap_induct:
  assumes "quota_inv db" "I db"
    and "\<And>db row. quota_inv db \<Longrightarrow> I db \<Longrightarrow> row \<in> set (quota_reservations db) \<Longrightarrow> is_active row \<Longrightarrow>
        I (ended row (expired_row now) db)"
  shows "I (snd (reapExpired cfg now db))" "quota_inv (snd (reapExpired cfg now db))"
proof -
  have "distinct (map reservationId (listExpiredActive now db))"
    using quota_invD(1) [OF assms(1)] by (simp add: listExpiredActive_def distinct_map inj_on_def)
  moreover have "r \<in> set (quota_reservations db) \<and> is_active r" if "r \<in> set (listExpiredActive now db)" for r
    using that by (simp add: listExpiredActive_def)
  ultimately obtain t where "for_each (listExpiredActive now db) (expire_row now) db = (Inr (), t)" "quota_inv t" "I t"
    using expire_all [of db I "listExpiredActive now db" now] assms by blast
  then show "I (snd (reapExpired cfg now db))" "quota_inv (snd (reapExpired cfg now db))"
    using assms(1,2) by (auto simp: reapExpired_def atomic_def andThen_def split: option.splits)
qed

subsection \<open>Reserving\<close>

definition ensured_counters :: "int \<Rightarrow> quota_scope \<Rightarrow> counter_row list \<Rightarrow> counter_row list" where
  "ensured_counters now sc = sql_insert_ignore same_scope
     \<lparr>tenantId = tenantId sc, orgId = orgId sc, projectId = projectId sc, in_use = 0, period_started_at = now, period_count = 0\<rparr>"

definition ensured_periods :: "int \<Rightarrow> quota_scope \<Rightarrow> period_row list \<Rightarrow> period_row list" where
  "ensured_periods now sc = sql_insert_ignore same_scope
     \<lparr>tenantId = tenantId sc, orgId = orgId sc, projectId = projectId sc, started_at = now, up_count = 0\<rparr>"

definition rolled_periods :: "int \<Rightarrow> quota_scope \<Rightarrow> quota_limits \<Rightarrow> period_row list \<Rightarrow> period_row list" where
  "rolled_periods now sc lims ps = (case sql_get (\<lambda>q. scope_of q = scope_of sc) ps of
      None \<Rightarrow> ps
    | Some p \<Rightarrow> if now - started_at p \<ge> periodMs lims
        then sql_update (\<lambda>q. scope_of q = scope_of sc) (\<lambda>q. q\<lparr>started_at := now, up_count := 0\<rparr>) ps else ps)"

text \<open>The number of jobs the open window of a scope has counted.\<close>

definition counted :: "string \<times> string \<times> string \<Rightarrow> quota_db \<Rightarrow> int" where
  "counted k db = (case sql_get (\<lambda>q. scope_of q = k) (usage_periods db) of None \<Rightarrow> 0 | Some p \<Rightarrow> up_count p)"

definition ceiling_free :: "quota_db \<Rightarrow> bool" where
  "ceiling_free db = (case quota_global_capacity db of None \<Rightarrow> True
     | Some g \<Rightarrow> max_concurrent g > 0 \<longrightarrow> global_in_use g < max_concurrent g)"

definition claimed :: "int \<Rightarrow> quota_scope \<Rightarrow> quota_limits \<Rightarrow> quota_reservation \<Rightarrow> quota_db \<Rightarrow> quota_db" where
  "claimed now sc lims r db = db\<lparr>
     quota_counters := sql_update (\<lambda>c. scope_of c = scope_of sc \<and> in_use c < maxConcurrentJobs lims)
        (\<lambda>c. c\<lparr>in_use := in_use c + 1\<rparr>) (ensured_counters now sc (quota_counters db)),
     quota_reservations := quota_reservations db @ [r],
     usage_periods := sql_update (\<lambda>q. scope_of q = scope_of sc) (\<lambda>q. q\<lparr>up_count := up_count q + 1\<rparr>)
        (rolled_periods now sc lims (ensured_periods now sc (usage_periods db))),
     quota_global_capacity := map_option (\<lambda>g. if max_concurrent g > 0 then g\<lparr>global_in_use := global_in_use g + 1\<rparr> else g)
        (quota_global_capacity db)\<rparr>"

lemma ensured_has:
  "\<exists>c. sql_get (\<lambda>c. scope_of c = scope_of sc) (ensured_counters now sc cs) = Some c \<and> in_use c = used (scope_of sc) cs"
  "\<exists>p. sql_get (\<lambda>q. scope_of q = scope_of sc) (ensured_periods now sc (usage_periods db)) = Some p \<and> up_count p = counted (scope_of sc) db"
  by (auto simp: ensured_counters_def ensured_periods_def sql_insert_ignore_get used_def counted_def same_scope_iff
      sql_clash_iff sql_get_None scope_of_def split: option.splits dest!: sql_get_Some)

lemma ensured_used: "used k (ensured_counters now sc cs) = used k cs"
  by (auto simp: ensured_counters_def sql_insert_ignore_get used_def split: option.splits)

lemma ensured_distinct:
  "distinct (map scope_of cs) \<Longrightarrow> distinct (map scope_of (ensured_counters now sc cs))"
  "distinct (map scope_of ps) \<Longrightarrow> distinct (map scope_of (ensured_periods now sc ps))"
  by (auto simp: ensured_counters_def ensured_periods_def sql_insert_ignore_def sql_clash_iff same_scope_iff scope_of_def)

lemma rolled_distinct: "distinct (map scope_of ps) \<Longrightarrow> distinct (map scope_of (rolled_periods now sc lims ps))"
  by (auto simp: rolled_periods_def map_sql_update split: option.splits)

lemma ensure_rows_app:
  "ensure_rows now sc db = (Inr (), db\<lparr>quota_counters := ensured_counters now sc (quota_counters db),
     usage_periods := ensured_periods now sc (usage_periods db)\<rparr>)"
  by (cases db) (simp add: ensure_rows_def ensured_counters_def ensured_periods_def)

lemma find_request_frame [simp]:
  "find_request t key (db\<lparr>quota_counters := cs\<rparr>) = find_request t key db"
  "find_request t key (db\<lparr>usage_periods := ps\<rparr>) = find_request t key db"
  "find_request t key (db\<lparr>quota_global_capacity := g\<rparr>) = find_request t key db"
  by (simp_all add: find_request_def)

lemma read_period_app:
  "sql_get (\<lambda>q. scope_of q = scope_of sc) (usage_periods db) = Some p \<Longrightarrow> read_period sc db = (Inr p, db)"
  by (simp add: read_period_def in_scope_eq)

lemma roll_period_app:
  "sql_get (\<lambda>q. scope_of q = scope_of sc) (usage_periods db) = Some p \<Longrightarrow>
     roll_period now sc p lims db = (Inr (), db\<lparr>usage_periods := rolled_periods now sc lims (usage_periods db)\<rparr>)"
  by (cases db) (simp add: roll_period_def rolled_periods_def in_scope_eq)

lemma count_period_app:
  "count_period sc db = (Inr (), db\<lparr>usage_periods :=
     sql_update (\<lambda>q. scope_of q = scope_of sc) (\<lambda>q. q\<lparr>up_count := up_count q + 1\<rparr>) (usage_periods db)\<rparr>)"
  by (cases db) (simp add: count_period_def in_scope_eq)

lemma claim_global_app:
  "claim_global sc db = (Inr (ceiling_free db),
     if ceiling_free db then db\<lparr>quota_global_capacity := map_option
        (\<lambda>g. if max_concurrent g > 0 then g\<lparr>global_in_use := global_in_use g + 1\<rparr> else g) (quota_global_capacity db)\<rparr>
     else snd (add_in_use sc (\<lambda>c. in_use c > 0) (- 1) db))"
  by (cases db) (auto simp: claim_global_def ceiling_free_def andThen_def add_global_app add_in_use_app split: option.splits)

lemma insert_active_app:
  assumes "find_request (tenantId sc) key db = None"
  shows "sql_clash reservation_clash r (quota_reservations db) \<Longrightarrow> fst (insert_active r sc key db) = Inl TypeError"
    and "\<not> sql_clash reservation_clash r (quota_reservations db) \<Longrightarrow>
      insert_active r sc key db = (Inr None, db\<lparr>quota_reservations := quota_reservations db @ [r]\<rparr>)"
  using assms by (auto simp: insert_active_def catch_def andThen_def insert_reservation_app add_in_use_app add_global_app
      find_request_def split: option.splits prod.splits)

text \<open>
  The verdict on a new request. The three limits are checked in this order.
\<close>

definition denial :: "quota_scope \<Rightarrow> quota_limits \<Rightarrow> quota_db \<Rightarrow> string option" where
  "denial sc lims db =
     (if counted (scope_of sc) db \<ge> jobsPerPeriod lims then Some ''QUOTA_PERIOD_FULL''
      else if used (scope_of sc) (quota_counters db) \<ge> maxConcurrentJobs lims then Some ''QUOTA_EXCEEDED''
      else if \<not> ceiling_free db then Some ''QUOTA_GLOBAL_FULL'' else None)"

definition fresh_row :: "quota_reservation \<Rightarrow> quota_db \<Rightarrow> bool" where
  "fresh_row r db \<longleftrightarrow> \<not> sql_clash reservation_clash r (quota_reservations db)"

lemma clash_fields:
  "reservation_clash (new_reservation sc key job rid now ex st w) = reservation_clash (new_reservation sc key job rid now ex st' w')"
  by (simp add: fun_eq_iff reservation_clash_def new_reservation_def)

lemma new_reservation_sel [simp]:
  "reservationId (new_reservation sc key job rid now ex st w) = rid" "requestKey (new_reservation sc key job rid now ex st w) = key"
  "res_state (new_reservation sc key job rid now ex st w) = st" "tenantId (new_reservation sc key job rid now ex st w) = tenantId sc"
  "scope_of (new_reservation sc key job rid now ex st w) = scope_of sc" "res_version (new_reservation sc key job rid now ex st w) = 1"
  by (simp_all add: new_reservation_def scope_of_def)

lemma claim_count:
  "sql_count (\<lambda>c. scope_of c = scope_of sc \<and> in_use c < m) (ensured_counters now sc cs) = 0 \<longleftrightarrow> used (scope_of sc) cs \<ge> m"
  if "distinct (map scope_of cs)"
proof -
  obtain c where c: "sql_get (\<lambda>c. scope_of c = scope_of sc) (ensured_counters now sc cs) = Some c" "in_use c = used (scope_of sc) cs"
    using ensured_has(1) by blast
  have "c' = c" if "c' \<in> set (ensured_counters now sc cs)" "scope_of c' = scope_of sc" for c'
    using sql_get_key [OF ensured_distinct(1) [OF \<open>distinct (map scope_of cs)\<close>, of now sc], where k = "scope_of sc" and r = c'] c(1) that by simp
  then have "(\<forall>x \<in> set (ensured_counters now sc cs). \<not> (scope_of x = scope_of sc \<and> in_use x < m)) \<longleftrightarrow> \<not> in_use c < m"
    using sql_get_Some [OF c(1)] by blast
  then show ?thesis
    by (simp add: sql_count_0 sql_get_None c(2) not_less)
qed

lemma reserve_decides:
  fixes now rid sc key job lims cfg db
  defines "r \<equiv> new_reservation sc key job rid now (now + reservationTtlMs cfg) R_active None"
  assumes new: "find_request (tenantId sc) key db = None" and fresh: "fresh_row r db"
    and inv: "quota_inv db" and hook: "q_beforeCommit cfg ''reserve'' = None"
  shows "reserve cfg now rid sc key job lims db =
    (case denial sc lims db of Some c \<Rightarrow> (Inl (QuotaError c), db) | None \<Rightarrow> (Inr r, claimed now sc lims r db))"
proof -
  obtain p where p: "sql_get (\<lambda>q. scope_of q = scope_of sc) (ensured_periods now sc (usage_periods db)) = Some p"
      "up_count p = counted (scope_of sc) db"
    using ensured_has(2) by blast
  have nc: "\<not> sql_clash reservation_clash (new_reservation sc key job rid now (now + reservationTtlMs cfg) st w) (quota_reservations db)" for st w
    using fresh unfolding fresh_row_def r_def sql_clash_def by (simp add: clash_fields [of sc key job rid now _ st w R_active None])
  let ?db = "db\<lparr>quota_counters := ensured_counters now sc (quota_counters db), usage_periods := ensured_periods now sc (usage_periods db)\<rparr>"
  have p': "sql_get (\<lambda>q. scope_of q = scope_of sc) (usage_periods ?db) = Some p"
    using p by simp
  note parts = ensure_rows_app read_period_app [OF p'] roll_period_app [OF p'] claim_count [OF quota_invD(3) [OF inv]]
    add_in_use_app claim_global_app reject_def insert_reservation_app nc p(2) hook
  have rid: "getReservation rid db = None"
    using fresh by (auto simp: getReservation_def sql_get_None fresh_row_def sql_clash_iff reservation_clash_def r_def)
  show ?thesis
  proof (cases "denial sc lims db")
    case None
    then have "counted (scope_of sc) db < jobsPerPeriod lims" "used (scope_of sc) (quota_counters db) < maxConcurrentJobs lims" "ceiling_free db"
      by (auto simp: denial_def split: if_splits)
    then show ?thesis
      using None new rid by (simp add: reserve_def Let_def atomic_def andThen_def parts insert_active_app(2) count_period_app getReservation_def
          ceiling_free_def claimed_def r_def)
  next
    case (Some c)
    then show ?thesis
      using new by (auto simp: reserve_def Let_def atomic_def andThen_def parts denial_def ceiling_free_def split: if_splits)
  qed
qed
lemma reserve_replays:
  "find_request (tenantId sc) key db = Some row \<Longrightarrow> q_beforeCommit cfg ''reserve'' = None \<Longrightarrow>
     reserve cfg now rid sc key job lims db = (Inr row, db)"
  by (simp add: reserve_def Let_def atomic_def)

lemma reserve_Inl: "reserve cfg now rid sc key job lims db = (Inl e, t) \<Longrightarrow> t = db"
  by (auto simp: reserve_def Let_def dest: atomic_Inl)

text \<open>A clash of the drawn id, against which the random ids are the only protection, changes nothing either.\<close>

lemma reserve_clash:
  fixes now rid sc key job lims cfg db
  defines "r \<equiv> new_reservation sc key job rid now (now + reservationTtlMs cfg) R_active None"
  assumes new: "find_request (tenantId sc) key db = None" and clash: "\<not> fresh_row r db" and inv: "quota_inv db"
  shows "\<exists>e. reserve cfg now rid sc key job lims db = (Inl e, db)"
proof -
  obtain p where p: "sql_get (\<lambda>q. scope_of q = scope_of sc) (ensured_periods now sc (usage_periods db)) = Some p"
      "up_count p = counted (scope_of sc) db"
    using ensured_has(2) by blast
  have nc: "sql_clash reservation_clash (new_reservation sc key job rid now (now + reservationTtlMs cfg) st w) (quota_reservations db)" for st w
    using clash unfolding fresh_row_def r_def sql_clash_def by (simp add: clash_fields [of sc key job rid now _ st w R_active None])
  let ?db = "db\<lparr>quota_counters := ensured_counters now sc (quota_counters db), usage_periods := ensured_periods now sc (usage_periods db)\<rparr>"
  have p': "sql_get (\<lambda>q. scope_of q = scope_of sc) (usage_periods ?db) = Some p"
    using p by simp
  let ?r = "new_reservation sc key job rid now (now + reservationTtlMs cfg) R_active None"
  define T where "T = (\<lambda>d. snd (insert_active ?r sc key d))"
  have ia: "insert_active ?r sc key d = (Inl TypeError, T d)"
    if "find_request (tenantId sc) key d = None" "quota_reservations d = quota_reservations db" for d
    using insert_active_app(1) [OF that(1)] nc that(2) by (metis T_def prod.collapse)
  note parts = ensure_rows_app read_period_app [OF p'] roll_period_app [OF p'] claim_count [OF quota_invD(3) [OF inv]]
    add_in_use_app claim_global_app reject_def insert_reservation_app nc p(2) ia
  have "\<exists>e t. reserve cfg now rid sc key job lims db = (Inl e, t)"
    using new by (cases "denial sc lims db")
      (auto simp: reserve_def Let_def atomic_def andThen_def parts denial_def ceiling_free_def split: if_splits)
  then show ?thesis
    using reserve_Inl by blast
qed

lemma reserve_cases:
  fixes now rid sc key job lims cfg db
  defines "r \<equiv> new_reservation sc key job rid now (now + reservationTtlMs cfg) R_active None"
  assumes "quota_inv db"
  obtains (error) e where "reserve cfg now rid sc key job lims db = (Inl e, db)"
    | (replay) row where "find_request (tenantId sc) key db = Some row" "reserve cfg now rid sc key job lims db = (Inr row, db)"
    | (claim) "find_request (tenantId sc) key db = None" "fresh_row r db" "denial sc lims db = None"
        "reserve cfg now rid sc key job lims db = (Inr r, claimed now sc lims r db)"
proof (cases "q_beforeCommit cfg ''reserve''")
  case hook: None
  show ?thesis
  proof (cases "find_request (tenantId sc) key db")
    case None
    show ?thesis
    proof (cases "fresh_row r db")
      case True
      then show ?thesis
        using reserve_decides [OF None _ assms(2) hook, of job rid now lims] None error claim
        by (cases "denial sc lims db") (auto simp: r_def)
    next
      case False
      then show ?thesis
        using reserve_clash [OF None _ assms(2), of job rid now cfg lims] error by (auto simp: r_def)
    qed
  next
    case (Some row)
    then show ?thesis
      using reserve_replays [OF Some hook] replay by blast
  qed
next
  case (Some e)
  then have "\<exists>e. reserve cfg now rid sc key job lims db = (Inl e, db)"
    by (auto simp: reserve_def Let_def atomic_def split: prod.splits sum.splits)
  then show ?thesis using error by blast
qed

lemma claimed_sel [simp]: "quota_reservations (claimed now sc lims r db) = quota_reservations db @ [r]"
  by (simp add: claimed_def)

lemma held_append: "held k (rs @ [r]) = held k rs + (if scope_of r = k \<and> is_active r then 1 else 0)"
  "held_total (rs @ [r]) = held_total rs + (if is_active r then 1 else 0)"
  by (simp_all add: held_def held_total_def)

lemma used_claimed:
  assumes "quota_inv db" "denial sc lims db = None"
  shows "used k (quota_counters (claimed now sc lims r db)) = used k (quota_counters db) + (if k = scope_of sc then 1 else 0)"
proof -
  have "used (scope_of sc) (quota_counters db) < maxConcurrentJobs lims"
    using assms(2) by (auto simp: denial_def split: if_splits)
  moreover obtain c where "sql_get (\<lambda>c. scope_of c = scope_of sc) (ensured_counters now sc (quota_counters db)) = Some c"
      "in_use c = used (scope_of sc) (quota_counters db)"
    using ensured_has(1) by blast
  ultimately show ?thesis
    using used_add [OF ensured_distinct(1) [OF quota_invD(3) [OF assms(1)], of now sc], of k "scope_of sc" "\<lambda>c. in_use c < maxConcurrentJobs lims" 1]
      ensured_used [of k now sc "quota_counters db"]
    by (cases "k = scope_of sc") (auto simp: claimed_def used_def split: option.splits)
qed

lemma quota_inv_claimed:
  assumes "quota_inv db" "find_request (tenantId sc) key db = None" "denial sc lims db = None"
    and "fresh_row (new_reservation sc key job rid now ex R_active None) db"
  shows "quota_inv (claimed now sc lims (new_reservation sc key job rid now ex R_active None) db)"
proof -
  note inv = quota_invD [OF assms(1)]
  have "distinct (map scope_of (quota_counters (claimed now sc lims r db)))" "distinct (map scope_of (usage_periods (claimed now sc lims r db)))" for r
    using inv(3,4) by (simp_all add: claimed_def map_sql_update ensured_distinct rolled_distinct)
  moreover have "rid \<notin> reservationId ` set (quota_reservations db)" "(tenantId sc, key) \<notin> (\<lambda>r. (tenantId r, requestKey r)) ` set (quota_reservations db)"
    using assms(2,4) by (auto simp: find_request_def sql_get_None fresh_row_def sql_clash_iff reservation_clash_def)
  ultimately show ?thesis
    using inv(1,2,5) used_claimed [OF assms(1,3)] by (auto simp: quota_inv_def held_append)
qed

section \<open>Sequences of calls\<close>

datatype quota_call =
    SetLimits quota_scope quota_limits
  | Reserve int string quota_scope string "string option" quota_limits
  | AttachJob string string
  | Settle int string nat int int
  | Release int string nat
  | ReapExpired int
  | Renew int string nat int
  | SetGlobalCapacity rat

text \<open>
  The database after a call, whether it returned or threw. Every method runs inside one transaction,
  so the calls of concurrent clients interleave as a sequence.
\<close>

fun quota_step :: "quota_options \<Rightarrow> quota_call \<Rightarrow> quota_db \<Rightarrow> quota_db" where
  "quota_step cfg (SetLimits sc lims) db = snd (setLimits cfg sc lims db)"
| "quota_step cfg (Reserve now rid sc key job lims) db = snd (reserve cfg now rid sc key job lims db)"
| "quota_step cfg (AttachJob rid job) db = snd (attachJob cfg rid job db)"
| "quota_step cfg (Settle now rid v tokens dur) db = snd (settle cfg now rid v tokens dur db)"
| "quota_step cfg (Release now rid v) db = snd (release cfg now rid v db)"
| "quota_step cfg (ReapExpired now) db = snd (reapExpired cfg now db)"
| "quota_step cfg (Renew now rid v ext) db = snd (renewReservation cfg now rid v ext db)"
| "quota_step cfg (SetGlobalCapacity n) db = snd (setGlobalCapacity cfg n db)"

definition quota_steps :: "quota_options \<Rightarrow> quota_call list \<Rightarrow> quota_db \<Rightarrow> quota_db" where
  "quota_steps cfg calls db = fold (quota_step cfg) calls db"

text \<open>
  The effects a call can have, each in the form the invariants need. An invariant of the store is
  established by showing that these effects keep it.
\<close>

inductive quota_effect :: "quota_call \<Rightarrow> quota_db \<Rightarrow> quota_db \<Rightarrow> bool" for c where
  eff_none: "quota_effect c db db"
| eff_limits: "quota_effect c db (db\<lparr>quota_limits_t := ls\<rparr>)"
| eff_ceiling: "c = SetGlobalCapacity n \<Longrightarrow>
    quota_effect c db (db\<lparr>quota_global_capacity := map_option (\<lambda>g. g\<lparr>max_concurrent := max 0 \<lfloor>n\<rfloor>\<rparr>) (quota_global_capacity db)\<rparr>)"
| eff_touch: "row_keep f \<Longrightarrow> (\<And>r. res_state (f r) = res_state r) \<Longrightarrow> (\<And>r. res_version r \<le> res_version (f r)) \<Longrightarrow>
    quota_effect c db (db\<lparr>quota_reservations := sql_update p f (quota_reservations db)\<rparr>)"
| eff_end: "row \<in> set (quota_reservations db) \<Longrightarrow> is_active row \<Longrightarrow> row_keep f \<Longrightarrow>
    (\<And>r. res_state (f r) \<in> {R_settled, R_released, R_expired}) \<Longrightarrow> (\<And>r. res_version r \<le> res_version (f r)) \<Longrightarrow>
    quota_effect c db (ended row f db)"
| eff_reserve: "c = Reserve now rid sc key job lims \<Longrightarrow> r = new_reservation sc key job rid now ex R_active None \<Longrightarrow>
    find_request (tenantId sc) key db = None \<Longrightarrow> fresh_row r db \<Longrightarrow> denial sc lims db = None \<Longrightarrow>
    quota_effect c db (claimed now sc lims r db)"

lemma quota_effect_inv: "quota_effect c db db' \<Longrightarrow> quota_inv db \<Longrightarrow> quota_inv db'"
proof (induction rule: quota_effect.cases)
  case (eff_end row d f)
  have "\<not> is_active (f row)"
    using eff_end(6) [of row] by auto
  then show ?case
    using eff_end quota_inv_ended by blast
next
  case (eff_touch f p)
  then show ?case using quota_inv_touch by blast
next
  case eff_reserve
  then show ?case using quota_inv_claimed by blast
qed (auto simp: quota_inv_def)

lemma written_state [simp]:
  "res_state (written (W_settle a b d) r) = R_settled" "res_state (written (W_release a) r) = R_released"
  "res_state (written (W_renew a b) r) = res_state r" "res_version (written w r) = Suc (res_version r)"
  "res_state (expired_row a r) = R_expired" "res_version (expired_row a r) = Suc (res_version r)"
  by (simp_all add: expired_row_def) (cases w; simp)

lemma table_updates:
  "snd (setLimits cfg sc lims db) = db \<or> (\<exists>ls. snd (setLimits cfg sc lims db) = db\<lparr>quota_limits_t := ls\<rparr>)"
  "snd (attachJob cfg rid job db) = db \<or> snd (attachJob cfg rid job db) = db\<lparr>quota_reservations :=
     sql_update (\<lambda>r. reservationId r = rid \<and> res_jobId r = None) (\<lambda>r. r\<lparr>res_jobId := Some job\<rparr>) (quota_reservations db)\<rparr>"
  "snd (setGlobalCapacity cfg n db) = (if q_beforeCommit cfg ''setGlobalCapacity'' = None then
     db\<lparr>quota_global_capacity := map_option (\<lambda>g. g\<lparr>max_concurrent := max 0 \<lfloor>n\<rfloor>\<rparr>) (quota_global_capacity db)\<rparr> else db)"
  by (cases db; auto simp: setLimits_def attachJob_def setGlobalCapacity_def atomic_def split: option.splits)+

text \<open>Every call is a sequence of effects; all but the reaper have at most one.\<close>

lemma quota_step_effects:
  assumes "quota_inv db"
  shows "(quota_effect c)\<^sup>*\<^sup>* db (quota_step cfg c db)"
proof (cases c)
  case (SetLimits sc lims)
  then show ?thesis
    using table_updates(1) [of cfg sc lims db] by (auto intro!: r_into_rtranclp intro: quota_effect.intros)
next
  case (Reserve now rid sc key job lims)
  then show ?thesis
    using eff_reserve [OF Reserve refl]
    by (cases rule: reserve_cases [OF assms, of cfg now rid sc key job lims]) (simp_all add: r_into_rtranclp)
next
  case (AttachJob rid job)
  then show ?thesis
    using table_updates(2) [of cfg rid job db] by (auto intro!: r_into_rtranclp quota_effect.eff_touch intro: quota_effect.eff_none)
next
  case (Settle now rid v tokens dur)
  then show ?thesis
    using settle_cases [OF assms, of cfg now rid v tokens dur]
    by (auto intro!: r_into_rtranclp quota_effect.eff_end intro: quota_effect.eff_none dest: getReservation_Some)
next
  case (Release now rid v)
  then show ?thesis
    using release_cases [OF assms, of cfg now rid v]
    by (auto intro!: r_into_rtranclp quota_effect.eff_end intro: quota_effect.eff_none dest: getReservation_Some)
next
  case (ReapExpired now)
  have "(quota_effect c)\<^sup>*\<^sup>* db (snd (reapExpired cfg now db))"
  proof (rule reap_induct(1) [OF assms])
    fix d row
    assume *: "(quota_effect c)\<^sup>*\<^sup>* db d" "row \<in> set (quota_reservations d)" "is_active row"
    have "quota_effect c d (ended row (expired_row now) d)"
      by (rule quota_effect.eff_end) (use * in simp_all)
    then show "(quota_effect c)\<^sup>*\<^sup>* db (ended row (expired_row now) d)"
      using *(1) by (rule rtranclp.rtrancl_into_rtrancl [rotated])
  qed simp
  then show ?thesis using ReapExpired by simp
next
  case (Renew now rid v ext)
  then show ?thesis
    using renew_cases [OF assms, of cfg now rid v ext]
    by (auto intro!: r_into_rtranclp quota_effect.eff_touch intro: quota_effect.eff_none)
next
  case (SetGlobalCapacity n)
  then show ?thesis
    using table_updates(3) [of cfg n db] eff_ceiling [OF SetGlobalCapacity, of db] by (auto intro: r_into_rtranclp)
qed

lemma effects_induct:
  assumes "(quota_effect c)\<^sup>*\<^sup>* db db'" "quota_inv db" "I db"
    and "\<And>d d'. quota_effect c d d' \<Longrightarrow> quota_inv d \<Longrightarrow> I d \<Longrightarrow> I d'"
  shows "quota_inv db' \<and> I db'"
  using assms(1)
proof (induction rule: rtranclp_induct)
  case (step d d')
  then show ?case
    using assms(4) quota_effect_inv by blast
qed (use assms(2,3) in simp)

text \<open>An invariant for a class of calls holds along every sequence of such calls.\<close>

lemma quota_steps_induct:
  assumes "quota_inv db" "I db" "\<And>c. c \<in> set calls \<Longrightarrow> P c"
    and "\<And>c d d'. P c \<Longrightarrow> quota_effect c d d' \<Longrightarrow> quota_inv d \<Longrightarrow> I d \<Longrightarrow> I d'"
  shows "quota_inv (quota_steps cfg calls db) \<and> I (quota_steps cfg calls db)"
  using assms(1-3)
proof (induction calls arbitrary: db)
  case (Cons c calls)
  have "quota_inv (quota_step cfg c db) \<and> I (quota_step cfg c db)"
    using effects_induct [where I = I, OF quota_step_effects [OF Cons.prems(1)] Cons.prems(1,2), of c cfg] assms(4) Cons.prems(3) by auto
  then show ?case
    using Cons.IH [of "quota_step cfg c db"] Cons.prems(3) by (simp add: quota_steps_def)
qed (simp add: quota_steps_def)

lemma quota_steps_inv: "quota_inv db \<Longrightarrow> quota_inv (quota_steps cfg calls db)"
  using quota_steps_induct [of db "\<lambda>_. True" calls "\<lambda>_. True"] by simp

section \<open>Properties\<close>

text \<open>
  C14. The advisory counter is exact: after any sequence of calls, returning or throwing, the
  \<^verbatim>\<open>in_use\<close> counter of every scope equals the number of its active reservations, so a slot is
  never leaked and never freed twice.
\<close>

theorem quota_counter_exact:
  "fst (getUsage sc (quota_steps cfg calls QUOTA_MIGRATIONS)) = int (snd (getUsage sc (quota_steps cfg calls QUOTA_MIGRATIONS)))"
  using quota_invD(5) [OF quota_steps_inv [OF quota_inv_init]] by (simp add: getUsage_eq)

lemma held_effect:
  assumes "quota_effect c db db'" "quota_inv db"
  shows "held k (quota_reservations db') \<le> held k (quota_reservations db) \<or>
    (\<exists>now rid sc key job lims. c = Reserve now rid sc key job lims \<and> scope_of sc = k \<and>
       int (held k (quota_reservations db')) \<le> maxConcurrentJobs lims)"
  using assms
proof cases
  case (eff_end row f)
  have "\<not> is_active (f row)"
    using eff_end(5) [of row] by auto
  then show ?thesis
    using held_end [OF quota_invD(1) [OF assms(2)] eff_end(2,3,4), of k] by (simp add: eff_end(1) ended_def split: if_splits)
next
  case (eff_touch f p)
  then show ?thesis by (simp add: held_touch)
next
  case (eff_reserve now rid sc key job lims r ex)
  have "used (scope_of sc) (quota_counters db) < maxConcurrentJobs lims"
    using eff_reserve by (auto simp: denial_def split: if_splits)
  then show ?thesis
    using eff_reserve quota_invD(5) [OF assms(2), of "scope_of sc"] by (auto simp: held_append)
qed auto

text \<open>
  C15. No scope is oversold: when every reservation of a scope was asked for with a concurrency limit of
  at most \<open>M\<close>, at most \<open>M\<close> reservations of the scope are active after any sequence of calls.
\<close>

theorem quota_never_oversold:
  assumes "0 \<le> M"
    and "\<And>now rid sc' key job lims. Reserve now rid sc' key job lims \<in> set calls \<Longrightarrow> in_scope sc sc' \<Longrightarrow> maxConcurrentJobs lims \<le> M"
  shows "int (snd (getUsage sc (quota_steps cfg calls QUOTA_MIGRATIONS))) \<le> M"
proof -
  let ?P = "\<lambda>c. \<forall>now rid sc' key job lims. c = Reserve now rid sc' key job lims \<longrightarrow> scope_of sc' = scope_of sc \<longrightarrow> maxConcurrentJobs lims \<le> M"
  have "int (held (scope_of sc) (quota_reservations (quota_steps cfg calls QUOTA_MIGRATIONS))) \<le> M"
  proof (rule conjunct2 [OF quota_steps_induct [where P = ?P, OF quota_inv_init]])
    show "int (held (scope_of sc) (quota_reservations QUOTA_MIGRATIONS)) \<le> M"
      using assms(1) by (simp add: QUOTA_MIGRATIONS_def held_def)
    show "?P c" if "c \<in> set calls" for c
      using assms(2) that by (auto simp: in_scope_iff)
    show "int (held (scope_of sc) (quota_reservations d')) \<le> M"
      if "?P c" "quota_effect c d d'" "quota_inv d" "int (held (scope_of sc) (quota_reservations d)) \<le> M" for c d d'
      using held_effect [OF that(2,3), of "scope_of sc"] that(1,4) by force
  qed
  then show ?thesis by (simp add: getUsage_eq)
qed

subsection \<open>Identity of rows\<close>

definition row_ident :: "quota_reservation \<Rightarrow> string \<times> string \<times> string" where
  "row_ident r = (reservationId r, tenantId r, requestKey r)"

lemma ident_effect: "quota_effect c db db' \<Longrightarrow> prefix (map row_ident (quota_reservations db)) (map row_ident (quota_reservations db'))"
  by (induction rule: quota_effect.cases)
    (auto simp: ended_def row_keep_def row_ident_def map_sql_update claimed_def)

lemma ident_steps:
  assumes "quota_inv db"
  shows "prefix (map row_ident (quota_reservations db)) (map row_ident (quota_reservations (quota_steps cfg calls db)))"
  by (rule conjunct2 [OF quota_steps_induct [where P = "\<lambda>_. True", OF assms]])
    (auto dest: ident_effect intro: prefix_order.trans)

lemma find_request_steps:
  assumes "quota_inv db" "find_request t key db = Some r"
  shows "\<exists>r'. find_request t key (quota_steps cfg calls db) = Some r' \<and> reservationId r' = reservationId r"
proof -
  let ?db = "quota_steps cfg calls db"
  have r: "r \<in> set (quota_reservations db)" "tenantId r = t" "requestKey r = key"
    using assms(2) by (auto simp: find_request_def dest: sql_get_Some)
  then have "row_ident r \<in> set (map row_ident (quota_reservations ?db))"
    using set_mono_prefix [OF ident_steps [OF assms(1), of cfg calls]] by auto
  then obtain r' where r': "r' \<in> set (quota_reservations ?db)" "row_ident r' = row_ident r"
    by auto
  then have "sql_get (\<lambda>x. (tenantId x, requestKey x) = (t, key)) (quota_reservations ?db) = Some r'"
    using sql_get_key [OF quota_invD(2) [OF quota_steps_inv [OF assms(1), of cfg calls]], of "(t, key)" r'] r by (simp add: row_ident_def)
  then show ?thesis
    using r' by (auto simp: find_request_def row_ident_def)
qed

lemma reserve_result:
  assumes "quota_inv db" "reserve cfg now rid sc key job lims db = (Inr r, db')"
  shows "quota_inv db'" "find_request (tenantId sc) key db' = Some r" "q_beforeCommit cfg ''reserve'' = None"
proof -
  show "quota_inv db'"
    using quota_steps_inv [OF assms(1), of cfg "[Reserve now rid sc key job lims]"] assms(2) by (simp add: quota_steps_def)
  show "q_beforeCommit cfg ''reserve'' = None"
    using assms(2) by (simp add: reserve_def Let_def atomic_Inr)
  show "find_request (tenantId sc) key db' = Some r"
    using assms(2) by (cases rule: reserve_cases [OF assms(1), of cfg now rid sc key job lims]) (auto simp: find_request_def claimed_def)
qed

text \<open>
  C16. A replayed admission consumes nothing: once a request key got a reservation, the same key of the
  same tenant gets that reservation again, whatever calls lie between, and the replay changes
  nothing.
\<close>

theorem reserve_idempotent:
  assumes "reserve cfg now rid sc key job lims (quota_steps cfg before QUOTA_MIGRATIONS) = (Inr r, db')"
    and "tenantId sc' = tenantId sc"
  shows "\<exists>r'. reserve cfg now' rid' sc' key job' lims' (quota_steps cfg calls db') = (Inr r', quota_steps cfg calls db') \<and>
     reservationId r' = reservationId r"
proof -
  note res = reserve_result [OF quota_steps_inv [OF quota_inv_init] assms(1)]
  obtain r' where "find_request (tenantId sc) key (quota_steps cfg calls db') = Some r'" "reservationId r' = reservationId r"
    using find_request_steps [OF res(1,2), of cfg calls] by blast
  then show ?thesis
    using reserve_replays [of sc' key "quota_steps cfg calls db'" r' cfg] res(3) assms(2) by auto
qed

subsection \<open>Fencing\<close>

text \<open>
  The three token-carrying writes as one operation, and the row-level rule each of them follows: a
  settled row (for \<^verbatim>\<open>release\<close> also a released one) is returned as it is, any other write
  needs the current version and an active row.
\<close>

fun quota_write :: "quota_options \<Rightarrow> string \<Rightarrow> nat \<Rightarrow> reservation_write \<Rightarrow> quota_reservation quota_op" where
  "quota_write cfg rid v (W_settle now tokens dur) = settle cfg now rid v tokens dur"
| "quota_write cfg rid v (W_release now) = release cfg now rid v"
| "quota_write cfg rid v (W_renew now ext) = renewReservation cfg now rid v ext"

fun write_op :: "reservation_write \<Rightarrow> string" where
  "write_op (W_settle _ _ _) = ''settle''"
| "write_op (W_release _) = ''release''"
| "write_op (W_renew _ _) = ''renewReservation''"

fun idempotent_on :: "reservation_write \<Rightarrow> reservation_state \<Rightarrow> bool" where
  "idempotent_on (W_settle _ _ _) st \<longleftrightarrow> st = R_settled"
| "idempotent_on (W_release _) st \<longleftrightarrow> st = R_released \<or> st = R_settled"
| "idempotent_on (W_renew _ _) st \<longleftrightarrow> False"

definition reservation_wr :: "nat \<Rightarrow> reservation_write \<Rightarrow> quota_reservation \<Rightarrow> quota_error + quota_reservation" where
  "reservation_wr v w r =
     (if idempotent_on w (res_state r) then Inr r
      else if res_version r \<noteq> v then Inl (QuotaError ''RESERVATION_FENCED'')
      else if \<not> is_active r then Inl (QuotaError ''INVALID_RESERVATION_STATE'')
      else Inr (written w r))"

interpretation fres: fencing res_version "\<lambda>r. \<not> is_active r" reservation_wr
proof
  fix v w r r'
  assume wr: "reservation_wr v w r = Inr r'"
  then show "\<not> \<not> is_active r \<Longrightarrow> res_version r = v" "\<not> \<not> is_active r \<Longrightarrow> res_version r' = Suc (res_version r)" "\<not> is_active r \<Longrightarrow> r' = r"
    by (cases w; auto simp: reservation_wr_def split: if_splits)+
qed

lemma quota_write_active:
  assumes "quota_inv db" "getReservation rid db = Some row" "is_active row" "res_version row = v" "q_beforeCommit cfg (write_op w) = None"
  shows "quota_write cfg rid v w db = (Inr (written w row), snd (quota_write cfg rid v w db))"
    and "getReservation rid (snd (quota_write cfg rid v w db)) = Some (written w row)"
proof -
  note u = get_updated [OF quota_invD(1) [OF assms(1)] row_keep_written(1) assms(2)]
  have rid: "reservationId row = rid"
    using getReservation_Some [OF assms(2)] ..
  show "quota_write cfg rid v w db = (Inr (written w row), snd (quota_write cfg rid v w db))"
    using assms(5) by (cases w) (simp_all only: quota_write.simps write_op.simps settle_active [OF assms(1-4)]
      release_active [OF assms(1-4)] renew_active [OF assms(1-4)] snd_conv)
  show "getReservation rid (snd (quota_write cfg rid v w db)) = Some (written w row)"
    using assms(5) u by (cases w) (simp_all add: settle_active [OF assms(1-4)] release_active [OF assms(1-4)]
      renew_active [OF assms(1-4)] ended_def getReservation_def rid del: written.simps)
qed

lemma quota_write_inert:
  assumes "getReservation rid db = Some row" "\<not> (is_active row \<and> res_version row = v)" "q_beforeCommit cfg (write_op w) = None"
  shows "quota_write cfg rid v w db = (reservation_wr v w row, db)"
  using assms by (cases w)
    (auto simp: settle_def release_def renewReservation_def atomic_def reservation_wr_def)

lemma quota_write_hook: "q_beforeCommit cfg (write_op w) \<noteq> None \<Longrightarrow> snd (quota_write cfg rid v w db) = db"
  by (cases w) (auto simp: settle_def release_def renewReservation_def atomic_def split: prod.splits sum.splits)

text \<open>
  \<^verbatim>\<open>settle\<close>, \<^verbatim>\<open>release\<close> and \<^verbatim>\<open>renewReservation\<close> implement the fenced row: in every
  reachable database they return what the row rule returns, and leave the row it leaves.
\<close>

theorem quota_write_refines:
  assumes "db = quota_steps cfg calls QUOTA_MIGRATIONS" "getReservation rid db = Some row" "q_beforeCommit cfg (write_op w) = None"
  shows "fst (quota_write cfg rid v w db) = reservation_wr v w row \<and>
    getReservation rid (snd (quota_write cfg rid v w db)) = Some (case reservation_wr v w row of Inl _ \<Rightarrow> row | Inr r' \<Rightarrow> r')"
proof (cases "is_active row \<and> res_version row = v")
  case True
  have "reservation_wr v w row = Inr (written w row)"
    using True by (cases w) (simp_all add: reservation_wr_def)
  then show ?thesis
    using quota_write_active [OF quota_steps_inv [OF quota_inv_init]] assms True by (metis fst_conv sum.case(2))
next
  case False
  have "row = r'" if "reservation_wr v w row = Inr r'" for r'
    using that False by (cases w) (auto simp: reservation_wr_def split: if_splits)
  then show ?thesis
    using quota_write_inert [OF assms(2) False assms(3)] assms(2) by (auto split: sum.splits)
qed

lemma version_effect:
  assumes "quota_effect c db db'" "getReservation rid db = Some r"
  shows "\<exists>r'. getReservation rid db' = Some r' \<and> res_version r \<le> res_version r'"
  using assms
proof cases
  case (eff_touch f p)
  then show ?thesis
    using assms(2) sql_get_update [of p "\<lambda>x. reservationId x = rid" f "quota_reservations db"] by (auto simp: getReservation_def row_keep_def)
next
  case (eff_end row f)
  then show ?thesis
    using assms(2) sql_get_update [of "\<lambda>x. reservationId x = reservationId row" "\<lambda>x. reservationId x = rid" f "quota_reservations db"]
    by (auto simp: getReservation_def row_keep_def ended_def)
qed (use assms(2) in \<open>auto simp: getReservation_def\<close>)

lemma version_steps:
  assumes "quota_inv db" "getReservation rid db = Some r"
  shows "\<exists>r'. getReservation rid (quota_steps cfg calls db) = Some r' \<and> res_version r \<le> res_version r'"
  by (rule conjunct2 [OF quota_steps_induct [where P = "\<lambda>_. True", OF assms(1)]])
    (use assms(2) in \<open>auto dest: version_effect intro: order_trans\<close>)

text \<open>
  Of the writers that hold the same version of a reservation, one is served. After a settle,
  release or renewal of an active reservation at version \<open>v\<close>, any later settle, release or renewal
  at \<open>v\<close> leaves the whole database unchanged, whatever calls lie between.
\<close>

theorem quota_single_winner:
  assumes "quota_write cfg rid v w (quota_steps cfg before QUOTA_MIGRATIONS) = (Inr r, db)"
    and "getReservation rid (quota_steps cfg before QUOTA_MIGRATIONS) = Some row" "res_state row = R_active"
  shows "snd (quota_write cfg rid v w' (quota_steps cfg calls db)) = quota_steps cfg calls db"
proof -
  let ?db0 = "quota_steps cfg before QUOTA_MIGRATIONS"
  have inv: "quota_inv ?db0"
    by (rule quota_steps_inv [OF quota_inv_init])
  have hook: "q_beforeCommit cfg (write_op w) = None"
    using assms(1) by (cases w) (auto simp: settle_def release_def renewReservation_def atomic_Inr)
  have v: "res_version row = v"
    using quota_write_inert [OF assms(2) _ hook, of v] assms(1,3) fres.live_write_current [of v w row r] by fastforce
  have row: "getReservation rid db = Some (written w row)"
    using quota_write_active(2) [OF inv assms(2,3) v hook] assms(1) by simp
  have inv': "quota_inv db"
    using assms(1) quota_steps_inv [OF inv, of cfg "[case w of W_settle n t d \<Rightarrow> Settle n rid v t d | W_release n \<Rightarrow> Release n rid v | W_renew n x \<Rightarrow> Renew n rid v x]"]
    by (cases w) (simp_all add: quota_steps_def)
  obtain r' where "getReservation rid (quota_steps cfg calls db) = Some r'" "Suc v \<le> res_version r'"
    using version_steps [OF inv' row, of cfg calls] v by auto
  then show ?thesis
    using quota_write_inert [of rid "quota_steps cfg calls db" r' v cfg w'] quota_write_hook [of cfg w'] by fastforce
qed

subsection \<open>The global ceiling\<close>

definition ceiling_tracks :: "int \<Rightarrow> quota_db \<Rightarrow> bool" where
  "ceiling_tracks G db \<longleftrightarrow> (\<exists>g. quota_global_capacity db = Some g \<and> 0 < max_concurrent g \<and> max_concurrent g \<le> G \<and>
      global_in_use g = int (held_total (quota_reservations db)) \<and> global_in_use g \<le> G)"

lemma held_total_end:
  assumes "quota_inv db" "row \<in> set (quota_reservations db)" "is_active row" "\<not> is_active (f row)"
  shows "Suc (held_total (quota_reservations (ended row f db))) = held_total (quota_reservations db)"
  using sql_count_drop [OF quota_invD(1) [OF assms(1)] assms(2), of is_active f] assms(3,4) by (simp add: held_total_def ended_def)

lemma ceiling_effect:
  assumes "\<And>n. c = SetGlobalCapacity n \<Longrightarrow> 1 \<le> \<lfloor>n\<rfloor> \<and> \<lfloor>n\<rfloor> \<le> G"
    and "quota_effect c db db'" "quota_inv db" "ceiling_tracks G db"
  shows "ceiling_tracks G db'"
  using assms(2)
proof cases
  case (eff_ceiling n)
  then show ?thesis using assms(1,4) by (auto simp: ceiling_tracks_def)
next
  case (eff_touch f p)
  then show ?thesis using assms(4) by (simp add: ceiling_tracks_def held_touch)
next
  case (eff_end row f)
  have "\<not> is_active (f row)"
    using eff_end(5) [of row] by auto
  then show ?thesis
    using held_total_end [OF assms(3) eff_end(2,3)] assms(4) unfolding eff_end(1) ceiling_tracks_def
    by (fastforce simp: ended_def freed_def)
next
  case (eff_reserve now rid sc key job lims r ex)
  have "ceiling_free db"
    using eff_reserve by (auto simp: denial_def split: if_splits)
  then show ?thesis
    using eff_reserve assms(4) by (auto simp: ceiling_tracks_def ceiling_free_def claimed_def held_append)
qed (use assms(4) in \<open>auto simp: ceiling_tracks_def\<close>)

text \<open>
  The ceiling bounds the sum over all tenants: with a positive ceiling of at most \<open>G\<close> set before
  the first reservation, and every later ceiling also between 1 and \<open>G\<close>, at most \<open>G\<close>
  reservations of all scopes together are active, and the global counter is that number.
\<close>

theorem quota_global_bound:
  assumes "q_beforeCommit cfg ''setGlobalCapacity'' = None" "1 \<le> \<lfloor>n\<rfloor>" "\<lfloor>n\<rfloor> \<le> G"
    and "\<And>m. SetGlobalCapacity m \<in> set calls \<Longrightarrow> 1 \<le> \<lfloor>m\<rfloor> \<and> \<lfloor>m\<rfloor> \<le> G"
    and "db = quota_steps cfg (SetGlobalCapacity n # calls) QUOTA_MIGRATIONS"
  shows "int (length (filter (\<lambda>r. res_state r = R_active) (quota_reservations db))) \<le> G \<and>
    snd (getGlobalUsage db) = int (length (filter (\<lambda>r. res_state r = R_active) (quota_reservations db)))"
proof -
  let ?db = "quota_step cfg (SetGlobalCapacity n) QUOTA_MIGRATIONS"
  have pos: "0 \<le> G"
    using assms(2,3) by linarith
  have init: "quota_inv ?db" "ceiling_tracks G ?db"
    using quota_steps_inv [OF quota_inv_init, of cfg "[SetGlobalCapacity n]"] assms(1-3)
    by (simp_all add: quota_steps_def table_updates QUOTA_MIGRATIONS_def ceiling_tracks_def held_total_def pos)
  have "ceiling_tracks G (quota_steps cfg calls ?db)"
    by (rule conjunct2 [OF quota_steps_induct [where I = "ceiling_tracks G" and P = "\<lambda>c. \<forall>m. c = SetGlobalCapacity m \<longrightarrow> 1 \<le> \<lfloor>m\<rfloor> \<and> \<lfloor>m\<rfloor> \<le> G", OF init]])
      (use assms(4) in \<open>auto simp del: one_le_floor intro: ceiling_effect\<close>)
  moreover have "db = quota_steps cfg calls ?db"
    using assms(5) by (simp add: quota_steps_def)
  ultimately show ?thesis
    by (auto simp: ceiling_tracks_def getGlobalUsage_def held_total_def sql_count_def)
qed

subsection \<open>The period limit\<close>

lemma counted_effect:
  assumes "quota_effect c db db'" "0 < N" "N \<le> counted k db"
    and "\<And>now rid sc key job lims. c = Reserve now rid sc key job lims \<Longrightarrow> scope_of sc = k \<Longrightarrow> jobsPerPeriod lims \<le> N"
  shows "N \<le> counted k db'"
  using assms(1)
proof cases
  case (eff_reserve now rid sc key job lims r ex)
  have "counted (scope_of sc) db < jobsPerPeriod lims"
    using eff_reserve by (auto simp: denial_def split: if_splits)
  then have k: "scope_of sc \<noteq> k"
    using assms(3,4) eff_reserve(2) by fastforce
  have "sql_get (\<lambda>q. scope_of q = k) (sql_update (\<lambda>q. scope_of q = scope_of sc) f ps) = sql_get (\<lambda>q. scope_of q = k) ps"
    if "\<And>q. scope_of (f q) = scope_of q" for f and ps :: "period_row list"
    using k that sql_get_update [of "\<lambda>q. scope_of q = scope_of sc" "\<lambda>q. scope_of q = k" f ps]
    by (auto simp: option.map_ident_strong dest!: sql_get_Some intro!: option.map_ident_strong)
  then have "sql_get (\<lambda>q. scope_of q = k) (usage_periods db') = sql_get (\<lambda>q. scope_of q = k) (ensured_periods now sc (usage_periods db))"
    by (simp add: eff_reserve(1) claimed_def rolled_periods_def split: option.splits)
  also have "... = sql_get (\<lambda>q. scope_of q = k) (usage_periods db)"
    using k by (auto simp: ensured_periods_def sql_insert_ignore_get scope_of_def split: option.splits)
  finally show ?thesis
    using assms(3) by (simp add: counted_def)
qed (use assms(3) in \<open>auto simp: counted_def ended_def freed_def\<close>)

text \<open>
  A full period never reopens. The window is rolled in the table, but the limit is checked against
  the count read before, and the throw rolls the reset back with everything else. Once a scope has
  used up its jobs per period, every later request of it under that limit is denied, however much
  time has passed and whatever calls lie between.
\<close>

theorem period_never_reopens:
  assumes "db = quota_steps cfg before QUOTA_MIGRATIONS"
    and "sql_get (in_scope sc) (usage_periods db) = Some p" "0 < jobsPerPeriod lims" "jobsPerPeriod lims \<le> up_count p"
    and "\<And>now' rid' sc' key' job' lims'. Reserve now' rid' sc' key' job' lims' \<in> set calls \<Longrightarrow> in_scope sc sc' \<Longrightarrow>
       jobsPerPeriod lims' \<le> jobsPerPeriod lims"
    and "find_request (tenantId sc) key (quota_steps cfg calls db) = None" "getReservation rid (quota_steps cfg calls db) = None"
    and "q_beforeCommit cfg ''reserve'' = None"
  shows "reserve cfg now rid sc key job lims (quota_steps cfg calls db) =
    (Inl (QuotaError ''QUOTA_PERIOD_FULL''), quota_steps cfg calls db)"
proof -
  let ?db = "quota_steps cfg calls db" and ?k = "scope_of sc"
  let ?P = "\<lambda>c. \<forall>now' rid' sc' key' job' lims'. c = Reserve now' rid' sc' key' job' lims' \<longrightarrow> scope_of sc' = ?k \<longrightarrow> jobsPerPeriod lims' \<le> jobsPerPeriod lims"
  have inv: "quota_inv db"
    using assms(1) quota_steps_inv quota_inv_init by blast
  have "jobsPerPeriod lims \<le> counted ?k ?db"
  proof (rule conjunct2 [OF quota_steps_induct [where P = ?P, OF inv]])
    show "jobsPerPeriod lims \<le> counted ?k db"
      using assms(2,4) by (simp add: counted_def in_scope_eq)
    show "?P c" if "c \<in> set calls" for c
      using assms(5) that by (auto simp: in_scope_iff)
    show "jobsPerPeriod lims \<le> counted ?k d'" if "?P c" "quota_effect c d d'" "jobsPerPeriod lims \<le> counted ?k d" for c d d'
      using counted_effect [OF that(2) assms(3) that(3)] that(1) by blast
  qed
  then have "denial sc lims ?db = Some ''QUOTA_PERIOD_FULL''"
    by (simp add: denial_def)
  moreover have "fresh_row (new_reservation sc key job rid now (now + reservationTtlMs cfg) R_active None) ?db"
    using assms(6,7) by (auto simp: fresh_row_def sql_clash_iff reservation_clash_def find_request_def getReservation_def sql_get_None)
  ultimately show ?thesis
    using reserve_decides [OF assms(6) _ quota_steps_inv [OF inv] assms(8)] by simp
qed

text \<open>
  Denials leave no trace: the \<^verbatim>\<open>rejected\<close> row a denial writes is rolled back by the throw that
  reports it.
\<close>

lemma rejected_effect:
  assumes "quota_effect c db db'" "sql_get (\<lambda>r. res_state r = R_rejected) (quota_reservations db) = None"
  shows "sql_get (\<lambda>r. res_state r = R_rejected) (quota_reservations db') = None"
  using assms
proof cases
  case (eff_end row f)
  have "res_state (f r) \<noteq> R_rejected" for r
    using eff_end(5) [of r] by auto
  then show ?thesis
    using assms(2) by (auto simp: eff_end(1) sql_get_None ended_def set_sql_update)
qed (auto simp: sql_get_None set_sql_update split: option.splits dest: sql_get_Some)

lemma no_rejected_rows: "sql_get (\<lambda>r. res_state r = R_rejected) (quota_reservations (quota_steps cfg calls QUOTA_MIGRATIONS)) = None"
  by (rule conjunct2 [OF quota_steps_induct [where P = "\<lambda>_. True", OF quota_inv_init]])
    (auto intro: rejected_effect simp: QUOTA_MIGRATIONS_def)

section \<open>A sample store\<close>

definition sample_options :: quota_options where
  "sample_options = quota_constructor (\<lambda>_. None) None"

definition sample_scope :: quota_scope where
  "sample_scope = \<lparr>tenantId = ''t1'', orgId = ''o1'', projectId = ''p1''\<rparr>"

definition sample_limits :: "int \<Rightarrow> quota_limits" where
  "sample_limits n = \<lparr>maxConcurrentJobs = n, jobsPerPeriod = n, periodMs = 1000, maxTokens = 100, maxDurationMs = 100\<rparr>"

definition reserve_call :: "int \<Rightarrow> string \<Rightarrow> int \<Rightarrow> quota_call" where
  "reserve_call now i n = Reserve now (''res_'' @ i) sample_scope i None (sample_limits n)"

text \<open>
  The global counter is freed also by a reservation made while no ceiling was set, which never
  counted: with a ceiling of 1 two reservations are active.
\<close>

lemma ceiling_undercounts:
  "let db = quota_steps sample_options [reserve_call 0 ''a'' 3, SetGlobalCapacity 1, reserve_call 1 ''b'' 3,
       Settle 2 ''res_a'' 1 0 0, reserve_call 3 ''c'' 3] QUOTA_MIGRATIONS
   in getGlobalUsage db = (1, 1) \<and> snd (getUsage sample_scope db) = 2"
  by code_simp

lemma reserved_by:
  assumes "case fst (m db) of Inl _ \<Rightarrow> False | Inr r \<Rightarrow> P r"
  obtains r where "m db = (Inr r, snd (m db))" "P r"
  using assms by (cases "m db"; cases "fst (m db)") auto

theorem quota_never_oversold_witness:
  "int (snd (getUsage sample_scope (quota_steps sample_options [reserve_call 0 ''a'' 1, reserve_call 1 ''b'' 1] QUOTA_MIGRATIONS))) \<le> 1"
  by (rule quota_never_oversold) (auto simp: reserve_call_def sample_limits_def)

theorem reserve_idempotent_witness:
  "\<exists>r. reserve sample_options 9 ''res_x'' sample_scope ''a'' None (sample_limits 2)
      (quota_steps sample_options [reserve_call 5 ''b'' 2, Settle 6 ''res_a'' 1 0 0]
        (quota_step sample_options (reserve_call 0 ''a'' 2) QUOTA_MIGRATIONS)) =
     (Inr r, quota_steps sample_options [reserve_call 5 ''b'' 2, Settle 6 ''res_a'' 1 0 0]
        (quota_step sample_options (reserve_call 0 ''a'' 2) QUOTA_MIGRATIONS)) \<and> reservationId r = ''res_a''"
proof -
  let ?m = "reserve sample_options 0 ''res_a'' sample_scope ''a'' None (sample_limits 2)" and ?db = "quota_steps sample_options [] QUOTA_MIGRATIONS"
  have "case fst (?m ?db) of Inl _ \<Rightarrow> False | Inr r \<Rightarrow> reservationId r = ''res_a''"
    by code_simp
  then obtain r where r: "?m ?db = (Inr r, snd (?m ?db))" "reservationId r = ''res_a''"
    by (rule reserved_by)
  have db: "snd (?m ?db) = quota_step sample_options (reserve_call 0 ''a'' 2) QUOTA_MIGRATIONS"
    by (simp add: quota_steps_def reserve_call_def)
  show ?thesis
    using reserve_idempotent [OF r(1) refl] r(2) unfolding db by metis
qed

theorem quota_write_refines_witness:
  "\<exists>row. fst (quota_write sample_options ''res_a'' 1 (W_settle 5 7 9) (quota_steps sample_options [reserve_call 0 ''a'' 1] QUOTA_MIGRATIONS)) =
     reservation_wr 1 (W_settle 5 7 9) row \<and> is_active row"
proof -
  let ?db = "quota_steps sample_options [reserve_call 0 ''a'' 1] QUOTA_MIGRATIONS"
  have "case getReservation ''res_a'' ?db of None \<Rightarrow> False | Some r \<Rightarrow> is_active r"
    by code_simp
  then obtain row where "getReservation ''res_a'' ?db = Some row" "is_active row"
    by (auto split: option.splits)
  then show ?thesis
    using quota_write_refines [OF refl, of "''res_a''" sample_options "[reserve_call 0 ''a'' 1]" row "W_settle 5 7 9" 1]
    by (auto simp: sample_options_def quota_constructor_def)
qed

theorem quota_single_winner_witness:
  "let db = quota_step sample_options (Settle 5 ''res_a'' 1 7 9) (quota_steps sample_options [reserve_call 0 ''a'' 1] QUOTA_MIGRATIONS)
   in snd (release sample_options 8 ''res_a'' 1 (quota_steps sample_options [reserve_call 6 ''b'' 2] db)) =
      quota_steps sample_options [reserve_call 6 ''b'' 2] db"
proof -
  let ?db = "quota_steps sample_options [reserve_call 0 ''a'' 1] QUOTA_MIGRATIONS" and ?w = "W_settle 5 7 9"
  have "case getReservation ''res_a'' ?db of None \<Rightarrow> False | Some r \<Rightarrow> is_active r"
    by code_simp
  then obtain row where row: "getReservation ''res_a'' ?db = Some row" "is_active row"
    by (auto split: option.splits)
  have "case fst (quota_write sample_options ''res_a'' 1 ?w ?db) of Inl _ \<Rightarrow> False | Inr r \<Rightarrow> True"
    by code_simp
  then obtain r where "quota_write sample_options ''res_a'' 1 ?w ?db = (Inr r, snd (quota_write sample_options ''res_a'' 1 ?w ?db))"
    by (rule reserved_by)
  then show ?thesis
    using quota_single_winner [OF _ row, of 1 ?w r _ "W_release 8" "[reserve_call 6 ''b'' 2]"] by (simp add: Let_def)
qed

theorem quota_global_bound_witness:
  "let db = quota_steps sample_options (SetGlobalCapacity 1 # [reserve_call 0 ''a'' 2, reserve_call 1 ''b'' 2]) QUOTA_MIGRATIONS
   in int (length (filter (\<lambda>r. res_state r = R_active) (quota_reservations db))) \<le> 1 \<and> snd (getGlobalUsage db) = 1"
proof -
  let ?db = "quota_steps sample_options (SetGlobalCapacity 1 # [reserve_call 0 ''a'' 2, reserve_call 1 ''b'' 2]) QUOTA_MIGRATIONS"
  have "int (length (filter (\<lambda>r. res_state r = R_active) (quota_reservations ?db))) \<le> 1 \<and>
      snd (getGlobalUsage ?db) = int (length (filter (\<lambda>r. res_state r = R_active) (quota_reservations ?db)))"
    by (rule quota_global_bound [OF _ _ _ _ refl]) (auto simp: sample_options_def quota_constructor_def reserve_call_def)
  moreover have "snd (getGlobalUsage ?db) = 1"
    by code_simp
  ultimately show ?thesis by (simp add: Let_def)
qed

theorem period_never_reopens_witness:
  "fst (reserve sample_options 1000000000 ''res_b'' sample_scope ''b'' None (sample_limits 1)
     (quota_steps sample_options [Settle 5 ''res_a'' 1 0 0] (quota_steps sample_options [reserve_call 0 ''a'' 1] QUOTA_MIGRATIONS))) =
   Inl (QuotaError ''QUOTA_PERIOD_FULL'')"
proof -
  let ?db = "quota_steps sample_options [reserve_call 0 ''a'' 1] QUOTA_MIGRATIONS"
  have "case sql_get (in_scope sample_scope) (usage_periods ?db) of None \<Rightarrow> False | Some p \<Rightarrow> up_count p = 1"
    by code_simp
  then obtain p where p: "sql_get (in_scope sample_scope) (usage_periods ?db) = Some p" "up_count p = 1"
    by (auto split: option.splits)
  have "find_request (tenantId sample_scope) ''b'' (quota_steps sample_options [Settle 5 ''res_a'' 1 0 0] ?db) = None"
    "getReservation ''res_b'' (quota_steps sample_options [Settle 5 ''res_a'' 1 0 0] ?db) = None"
    by code_simp+
  then show ?thesis
    using period_never_reopens [OF refl p(1), of "sample_limits 1" "[Settle 5 ''res_a'' 1 0 0]" "''b''" "''res_b''"] p(2)
    by (simp add: sample_limits_def sample_options_def quota_constructor_def)
qed

end
