(* ===== verification/Schedule_Store.thy ===== *)
theory Schedule_Store
  imports Sql Contracts "HOL-Library.Sublist"
begin

text \<open>
  Schedules and their durable store (\<^verbatim>\<open>vaulltcore-scheduler/src/contracts.ts\<close>, \<^verbatim>\<open>store.ts\<close>).
  A row and the object the \<^verbatim>\<open>rowTo...\<close> functions make of it have the same fields and are one
  record; the input column holds JSON text, so an input comes back as its JSON copy. Clock readings
  are arguments. The property: of all the attempts to record one occurrence, one is told that it
  admits it.
\<close>

section \<open>Data\<close>

datatype schedule_kind = One_time | Recurring
datatype schedule_state = S_active | S_paused | S_cancelled
datatype missed_run_policy = Skip | Catch_up

text \<open>The part of a version the caller provides, and the stored version.\<close>

record schedule_spec =
  kind :: schedule_kind
  cron :: "string option"
  scheduledAt :: "int option"
  timezone :: string
  automationVersionId :: string
  missedRunPolicy :: missed_run_policy
  maxCatchUp :: int
  sv_input :: "json option"

record schedule_version = schedule_spec +
  sv_versionId :: string
  sv_scheduleId :: string
  sv_version :: int
  sv_createdAt :: int
  sv_checksum :: string

record schedule =
  scheduleId :: string
  s_owner :: job_identity
  s_name :: string
  s_state :: schedule_state
  currentVersion :: int
  lastAdmittedAt :: "int option"
  s_createdAt :: int
  s_updatedAt :: int

record schedule_occurrence =
  occurrenceId :: string
  occ_scheduleId :: string
  occ_version :: int
  scheduledTime :: int
  admittedRunId :: "string option"
  admittedAt :: "int option"
  occ_createdAt :: int

record schedule_db =
  schedules :: "schedule list"
  schedule_versions :: "schedule_version list"
  schedule_occurrences :: "schedule_occurrence list"

datatype schedule_error =
    ScheduleNotFound
  | VersionConflict
  | ConstraintFailed
  | MissingRow
  | HookThrew
  | BadCron
  | AdmitFailed string

type_synonym 'a schedule_op = "(schedule_db, schedule_error, 'a) op"
type_synonym commit_hook = "string \<Rightarrow> schedule_error option"

definition empty_schedules :: schedule_db where
  "empty_schedules = \<lparr>schedules = [], schedule_versions = [], schedule_occurrences = []\<rparr>"

definition schedule_clash :: "schedule \<Rightarrow> schedule \<Rightarrow> bool" where
  "schedule_clash a b \<longleftrightarrow> scheduleId a = scheduleId b"

definition version_clash :: "schedule_version \<Rightarrow> schedule_version \<Rightarrow> bool" where
  "version_clash a b \<longleftrightarrow>
     sv_versionId a = sv_versionId b \<or> sv_scheduleId a = sv_scheduleId b \<and> sv_version a = sv_version b"

definition occurrence_clash :: "schedule_occurrence \<Rightarrow> schedule_occurrence \<Rightarrow> bool" where
  "occurrence_clash a b \<longleftrightarrow> occurrenceId a = occurrenceId b"

section \<open>Checksums\<close>

definition kind_name :: "schedule_kind \<Rightarrow> string" where
  "kind_name k = (case k of One_time \<Rightarrow> ''one_time'' | Recurring \<Rightarrow> ''recurring'')"

definition policy_name :: "missed_run_policy \<Rightarrow> string" where
  "policy_name p = (case p of Skip \<Rightarrow> ''skip'' | Catch_up \<Rightarrow> ''catch_up'')"

definition int_text :: "host \<Rightarrow> int \<Rightarrow> string" where
  "int_text h n = num_str h (of_int n)"

definition versionChecksum :: "host \<Rightarrow> string \<Rightarrow> int \<Rightarrow> 'r schedule_spec_scheme \<Rightarrow> string" where
  "versionChecksum h sid n v = sha256 h
     (sid @ ''|'' @ int_text h n @ ''|'' @ kind_name (kind v) @ ''|'' @ (case cron v of None \<Rightarrow> [] | Some c \<Rightarrow> c) @ ''|'' @
      (case scheduledAt v of None \<Rightarrow> [] | Some t \<Rightarrow> int_text h t) @ ''|'' @ timezone v @ ''|'' @ automationVersionId v @ ''|'' @
      policy_name (missedRunPolicy v) @ ''|'' @ int_text h (maxCatchUp v) @ ''|'' @
      (case sv_input v of None \<Rightarrow> ''null'' | Some j \<Rightarrow> json_stringify h j))"

text \<open>The new version that \<^verbatim>\<open>createSchedule\<close> and \<^verbatim>\<open>publishVersion\<close> return, and its row.\<close>

definition new_version :: "host \<Rightarrow> int \<Rightarrow> string \<Rightarrow> int \<Rightarrow> schedule_spec \<Rightarrow> schedule_version" where
  "new_version h now sid n v = \<lparr>kind = kind v, cron = cron v, scheduledAt = scheduledAt v, timezone = timezone v,
     automationVersionId = automationVersionId v, missedRunPolicy = missedRunPolicy v, maxCatchUp = maxCatchUp v,
     sv_input = sv_input v, sv_versionId = ''sv_'' @ sid @ ''_'' @ int_text h n, sv_scheduleId = sid, sv_version = n,
     sv_createdAt = now, sv_checksum = versionChecksum h sid n v\<rparr>"

definition stored_version :: "schedule_version \<Rightarrow> schedule_version" where
  "stored_version v = v\<lparr>sv_input := map_option json_clone (sv_input v)\<rparr>"

section \<open>Operations\<close>

definition insert_row :: "((schedule_db \<Rightarrow> 'r list)) \<Rightarrow> (('r list \<Rightarrow> 'r list) \<Rightarrow> schedule_db \<Rightarrow> schedule_db) \<Rightarrow>
    ('r \<Rightarrow> 'r \<Rightarrow> bool) \<Rightarrow> 'r \<Rightarrow> unit schedule_op" where
  "insert_row sel upd clash row =
     andThen (reads (\<lambda>db. sql_clash clash row (sel db))) (\<lambda>c.
     if c then throw ConstraintFailed else modifies (upd (\<lambda>rows. rows @ [row])))"

definition insert_version :: "schedule_version \<Rightarrow> unit schedule_op" where
  "insert_version v = insert_row schedule_versions schedule_versions_update version_clash (stored_version v)"

definition find_schedule :: "string \<Rightarrow> schedule_db \<Rightarrow> schedule option" where
  "find_schedule sid db = sql_get (\<lambda>s. scheduleId s = sid) (schedules db)"

definition createSchedule ::
    "host \<Rightarrow> commit_hook \<Rightarrow> int \<Rightarrow> string \<Rightarrow> job_identity \<Rightarrow> string \<Rightarrow> schedule_spec \<Rightarrow> (schedule \<times> schedule_version) schedule_op" where
  "createSchedule h hook now sid owner nm spec =
     (let row = \<lparr>scheduleId = sid, s_owner = owner, s_name = nm, s_state = S_active, currentVersion = 1,
                 lastAdmittedAt = None, s_createdAt = now, s_updatedAt = now\<rparr>;
          v = new_version h now sid 1 spec
      in atomic hook ''createSchedule''
        (andThen (insert_row schedules schedules_update schedule_clash row) (\<lambda>_.
         andThen (insert_version v) (\<lambda>_. ok (row, v)))))"

text \<open>
  The update of the row whose version is the one just read. It throws when no row changes.
\<close>

definition update_current :: "string \<Rightarrow> int \<Rightarrow> (schedule \<Rightarrow> schedule) \<Rightarrow> unit schedule_op" where
  "update_current sid n f =
     andThen (reads (\<lambda>db. sql_count (\<lambda>s. scheduleId s = sid \<and> currentVersion s = n) (schedules db))) (\<lambda>changes.
     andThen (modifies (schedules_update (sql_update (\<lambda>s. scheduleId s = sid \<and> currentVersion s = n) f))) (\<lambda>_.
     if changes = 0 then throw VersionConflict else ok ()))"

definition publishVersion :: "host \<Rightarrow> commit_hook \<Rightarrow> int \<Rightarrow> string \<Rightarrow> schedule_spec \<Rightarrow> schedule_version schedule_op" where
  "publishVersion h hook now sid spec = atomic hook ''publishVersion''
     (andThen (reads (find_schedule sid)) (\<lambda>found.
      case found of None \<Rightarrow> throw ScheduleNotFound
      | Some sched \<Rightarrow>
          let n = currentVersion sched + 1; v = new_version h now sid n spec
          in andThen (update_current sid (currentVersion sched) (\<lambda>s. s\<lparr>currentVersion := n, s_updatedAt := now\<rparr>)) (\<lambda>_.
             andThen (insert_version v) (\<lambda>_. ok v))))"

definition setState :: "commit_hook \<Rightarrow> int \<Rightarrow> string \<Rightarrow> schedule_state \<Rightarrow> schedule schedule_op" where
  "setState hook now sid st = atomic hook ''setState''
     (andThen (reads (find_schedule sid)) (\<lambda>found.
      case found of None \<Rightarrow> throw ScheduleNotFound
      | Some sched \<Rightarrow>
          andThen (update_current sid (currentVersion sched) (\<lambda>s. s\<lparr>s_state := st, s_updatedAt := now\<rparr>)) (\<lambda>_.
          andThen (reads (find_schedule sid)) (\<lambda>updated.
          case updated of None \<Rightarrow> throw MissingRow | Some s \<Rightarrow> ok s))))"

definition getSchedule :: "string \<Rightarrow> string \<Rightarrow> schedule_db \<Rightarrow> schedule option" where
  "getSchedule tenant sid db = sql_get (\<lambda>s. tenantId (s_owner s) = tenant \<and> scheduleId s = sid) (schedules db)"

definition getCurrentVersion :: "string \<Rightarrow> schedule_db \<Rightarrow> schedule_version option" where
  "getCurrentVersion sid db =
     (case find_schedule sid db of None \<Rightarrow> None
      | Some s \<Rightarrow> sql_get (\<lambda>v. sv_scheduleId v = sid \<and> sv_version v = currentVersion s) (schedule_versions db))"

text \<open>An optional filter that is \<^verbatim>\<open>null\<close>, missing or empty does not filter.\<close>

definition admits_filter :: "string option \<Rightarrow> string \<Rightarrow> bool" where
  "admits_filter f x \<longleftrightarrow> (case f of None \<Rightarrow> True | Some y \<Rightarrow> y = [] \<or> x = y)"

definition listActive :: "string option \<Rightarrow> schedule_db \<Rightarrow> schedule list" where
  "listActive tenant db = filter (\<lambda>s. s_state s = S_active \<and> admits_filter tenant (tenantId (s_owner s))) (schedules db)"

definition listSchedules :: "string \<Rightarrow> string option \<Rightarrow> string option \<Rightarrow> schedule_db \<Rightarrow> schedule list" where
  "listSchedules tenant org project db = sort_key s_createdAt
     (filter (\<lambda>s. tenantId (s_owner s) = tenant \<and> admits_filter org (orgId (s_owner s)) \<and> admits_filter project (projectId (s_owner s)))
       (schedules db))"

definition find_occurrence :: "string \<Rightarrow> string \<Rightarrow> schedule_db \<Rightarrow> schedule_occurrence option" where
  "find_occurrence sid oid db = sql_get (\<lambda>r. occ_scheduleId r = sid \<and> occurrenceId r = oid) (schedule_occurrences db)"

definition recordOccurrence ::
    "commit_hook \<Rightarrow> string \<Rightarrow> string \<Rightarrow> int \<Rightarrow> int \<Rightarrow> int \<Rightarrow> (bool \<times> schedule_occurrence) schedule_op" where
  "recordOccurrence hook oid sid n t now = atomic hook ''recordOccurrence''
     (andThen (reads (find_occurrence sid oid)) (\<lambda>existing.
      case existing of Some r \<Rightarrow> ok (False, r)
      | None \<Rightarrow>
          let row = \<lparr>occurrenceId = oid, occ_scheduleId = sid, occ_version = n, scheduledTime = t,
                     admittedRunId = None, admittedAt = None, occ_createdAt = now\<rparr>
          in catch (andThen (insert_row schedule_occurrences schedule_occurrences_update occurrence_clash row) (\<lambda>_. ok (True, row)))
               (\<lambda>_. andThen (reads (find_occurrence sid oid)) (\<lambda>winner.
                  case winner of None \<Rightarrow> throw MissingRow | Some r \<Rightarrow> ok (False, r)))))"

definition setAdmittedRun :: "commit_hook \<Rightarrow> string \<Rightarrow> string \<Rightarrow> int \<Rightarrow> unit schedule_op" where
  "setAdmittedRun hook oid run now = atomic hook ''setAdmittedRun''
     (modifies (schedule_occurrences_update
        (sql_update (\<lambda>r. occurrenceId r = oid) (\<lambda>r. r\<lparr>admittedRunId := Some run, admittedAt := Some now\<rparr>))))"

definition advanceWatermark :: "commit_hook \<Rightarrow> int \<Rightarrow> string \<Rightarrow> int \<Rightarrow> int \<Rightarrow> bool schedule_op" where
  "advanceWatermark hook now sid t n = atomic hook ''advanceWatermark''
     (andThen (reads (\<lambda>db. sql_count (\<lambda>s. scheduleId s = sid \<and> currentVersion s = n) (schedules db))) (\<lambda>changes.
      andThen (modifies (schedules_update (sql_update (\<lambda>s. scheduleId s = sid \<and> currentVersion s = n)
        (\<lambda>s. s\<lparr>lastAdmittedAt := Some t, s_updatedAt := now\<rparr>)))) (\<lambda>_. ok (changes > 0))))"

definition listOccurrences :: "string \<Rightarrow> string \<Rightarrow> schedule_db \<Rightarrow> schedule_occurrence list" where
  "listOccurrences tenant sid db = sort_key scheduledTime
     (filter (\<lambda>r. occ_scheduleId r = sid \<and> list_ex (\<lambda>s. scheduleId s = occ_scheduleId r \<and> tenantId (s_owner s) = tenant) (schedules db))
       (schedule_occurrences db))"

section \<open>Sequences of calls\<close>

datatype schedule_call =
    Create int string job_identity string schedule_spec
  | Publish int string schedule_spec
  | Set_state int string schedule_state
  | Record string string int int int
  | Set_run string string int
  | Watermark int string int int

fun schedule_step :: "host \<Rightarrow> commit_hook \<Rightarrow> schedule_call \<Rightarrow> schedule_db \<Rightarrow> schedule_db" where
  "schedule_step h hook (Create now sid owner nm spec) db = snd (createSchedule h hook now sid owner nm spec db)"
| "schedule_step h hook (Publish now sid spec) db = snd (publishVersion h hook now sid spec db)"
| "schedule_step h hook (Set_state now sid st) db = snd (setState hook now sid st db)"
| "schedule_step h hook (Record oid sid n t now) db = snd (recordOccurrence hook oid sid n t now db)"
| "schedule_step h hook (Set_run oid run now) db = snd (setAdmittedRun hook oid run now db)"
| "schedule_step h hook (Watermark now sid t n) db = snd (advanceWatermark hook now sid t n db)"

definition schedule_steps :: "host \<Rightarrow> commit_hook \<Rightarrow> schedule_call list \<Rightarrow> schedule_db \<Rightarrow> schedule_db" where
  "schedule_steps h hook calls db = fold (schedule_step h hook) calls db"

section \<open>What the calls keep\<close>

lemma insert_row_app:
  "insert_row sel upd clash row db = (if sql_clash clash row (sel db) then (Inl ConstraintFailed, db) else (Inr (), upd (\<lambda>rows. rows @ [row]) db))"
  by (simp add: insert_row_def)

lemma update_current_app:
  "update_current sid n f db =
     (if sql_count (\<lambda>s. scheduleId s = sid \<and> currentVersion s = n) (schedules db) = 0 then Inl VersionConflict else Inr (),
      schedules_update (sql_update (\<lambda>s. scheduleId s = sid \<and> currentVersion s = n) f) db)"
  by (simp add: update_current_def)

text \<open>The shape of the state after each call.\<close>

lemma schedule_step_cases:
  obtains (none) "schedule_step h hook c db = db"
    | (create) now sid owner nm spec where "c = Create now sid owner nm spec" "\<forall>s \<in> set (schedules db). scheduleId s \<noteq> sid"
        "\<not> sql_clash version_clash (stored_version (new_version h now sid 1 spec)) (schedule_versions db)"
        "schedule_step h hook c db = db\<lparr>schedules := schedules db @ [\<lparr>scheduleId = sid, s_owner = owner, s_name = nm, s_state = S_active,
           currentVersion = 1, lastAdmittedAt = None, s_createdAt = now, s_updatedAt = now\<rparr>],
         schedule_versions := schedule_versions db @ [stored_version (new_version h now sid 1 spec)]\<rparr>"
    | (publish) now sid spec s where "c = Publish now sid spec" "find_schedule sid db = Some s"
        "\<not> sql_clash version_clash (stored_version (new_version h now sid (currentVersion s + 1) spec)) (schedule_versions db)"
        "schedule_step h hook c db = db\<lparr>
           schedules := sql_update (\<lambda>x. scheduleId x = sid \<and> currentVersion x = currentVersion s)
             (\<lambda>x. x\<lparr>currentVersion := currentVersion s + 1, s_updatedAt := now\<rparr>) (schedules db),
           schedule_versions := schedule_versions db @ [stored_version (new_version h now sid (currentVersion s + 1) spec)]\<rparr>"
    | (touch) p f where "schedule_step h hook c db = db\<lparr>schedules := sql_update p f (schedules db)\<rparr>"
        "\<And>s. scheduleId (f s) = scheduleId s" "\<And>s. currentVersion (f s) = currentVersion s"
    | (occur) row where "schedule_step h hook c db = db\<lparr>schedule_occurrences := schedule_occurrences db @ [row]\<rparr>"
        "\<forall>r \<in> set (schedule_occurrences db). occurrenceId r \<noteq> occurrenceId row" "admittedRunId row = None"
    | (run) oid r now where "schedule_step h hook c db = db\<lparr>schedule_occurrences :=
         sql_update (\<lambda>x. occurrenceId x = oid) (\<lambda>x. x\<lparr>admittedRunId := Some r, admittedAt := Some now\<rparr>) (schedule_occurrences db)\<rparr>"
proof (cases c)
  case (Create now sid owner nm spec)
  show ?thesis
  proof (cases "schedule_step h hook c db = db")
    case False
    then show ?thesis
      using create [OF Create] unfolding Create
      by (cases db) (auto simp: createSchedule_def insert_version_def insert_row_app atomic_def andThen_def Let_def sql_clash_iff
          schedule_clash_def split: if_splits option.splits)
  qed (rule none)
next
  case (Publish now sid spec)
  show ?thesis
  proof (cases "schedule_step h hook c db = db")
    case False
    then show ?thesis
      using publish [OF Publish] unfolding Publish
      by (cases db) (auto simp: publishVersion_def insert_version_def insert_row_app update_current_app atomic_def andThen_def Let_def
          find_schedule_def split: if_splits option.splits)
  qed (rule none)
next
  case (Set_state now sid st)
  show ?thesis
  proof (cases "schedule_step h hook c db = db")
    case False
    then obtain n where "schedule_step h hook c db = db\<lparr>schedules := sql_update (\<lambda>x. scheduleId x = sid \<and> currentVersion x = n)
        (\<lambda>x. x\<lparr>s_state := st, s_updatedAt := now\<rparr>) (schedules db)\<rparr>"
      unfolding Set_state by (cases db) (auto simp: setState_def update_current_app atomic_def andThen_def split: if_splits option.splits)
    then show ?thesis by (rule touch) simp_all
  qed (rule none)
next
  case (Record oid sid n t now)
  show ?thesis
  proof (cases "schedule_step h hook c db = db")
    case False
    then show ?thesis
      using occur unfolding Record
      by (cases db) (auto simp: recordOccurrence_def insert_row_app catch_def atomic_def andThen_def Let_def sql_clash_iff
          occurrence_clash_def split: if_splits option.splits)
  qed (rule none)
next
  case (Set_run oid r now)
  show ?thesis
  proof (cases "schedule_step h hook c db = db")
    case False
    then show ?thesis
      using run unfolding Set_run by (cases db) (auto simp: setAdmittedRun_def atomic_def split: option.splits)
  qed (rule none)
next
  case (Watermark now sid t n)
  show ?thesis
  proof (cases "schedule_step h hook c db = db")
    case False
    then have "schedule_step h hook c db = db\<lparr>schedules := sql_update (\<lambda>x. scheduleId x = sid \<and> currentVersion x = n)
        (\<lambda>x. x\<lparr>lastAdmittedAt := Some t, s_updatedAt := now\<rparr>) (schedules db)\<rparr>"
      unfolding Watermark by (cases db) (auto simp: advanceWatermark_def atomic_def andThen_def split: option.splits)
    then show ?thesis by (rule touch) simp_all
  qed (rule none)
qed

text \<open>
  Ids are unique, a schedule has its current version and no later one, and a version's row is what the
  checksum was computed for, up to the JSON copy of its input.
\<close>

definition schedule_inv :: "schedule_db \<Rightarrow> bool" where
  "schedule_inv db \<longleftrightarrow>
     distinct (map scheduleId (schedules db)) \<and> distinct (map occurrenceId (schedule_occurrences db)) \<and>
     distinct (map (\<lambda>v. (sv_scheduleId v, sv_version v)) (schedule_versions db)) \<and>
     (\<forall>s \<in> set (schedules db). \<exists>v \<in> set (schedule_versions db). sv_scheduleId v = scheduleId s \<and> sv_version v = currentVersion s)"

lemma schedule_invD:
  "schedule_inv db \<Longrightarrow> distinct (map scheduleId (schedules db))"
  "schedule_inv db \<Longrightarrow> distinct (map occurrenceId (schedule_occurrences db))"
  "schedule_inv db \<Longrightarrow> distinct (map (\<lambda>v. (sv_scheduleId v, sv_version v)) (schedule_versions db))"
  "schedule_inv db \<Longrightarrow> s \<in> set (schedules db) \<Longrightarrow> \<exists>v \<in> set (schedule_versions db). sv_scheduleId v = scheduleId s \<and> sv_version v = currentVersion s"
  unfolding schedule_inv_def by blast+

lemma stored_version_sel [simp]:
  "sv_scheduleId (stored_version (new_version h now sid n spec)) = sid" "sv_version (stored_version (new_version h now sid n spec)) = n"
  by (simp_all add: stored_version_def new_version_def)

lemma schedule_step_inv:
  assumes "schedule_inv db"
  shows "schedule_inv (schedule_step h hook c db)"
proof (cases rule: schedule_step_cases [where h = h and hook = hook and c = c and db = db])
  case (create now sid owner nm spec)
  then show ?thesis
    using schedule_invD [OF assms] by (auto simp: schedule_inv_def sql_clash_iff version_clash_def image_iff)
next
  case (publish now sid spec s)
  then show ?thesis
    using schedule_invD [OF assms]
    by (auto simp: schedule_inv_def sql_clash_iff version_clash_def image_iff map_sql_update set_sql_update)
next
  case (touch p f)
  then show ?thesis
    using schedule_invD [OF assms] by (auto simp: schedule_inv_def map_sql_update set_sql_update)
next
  case (occur row)
  then show ?thesis
    using schedule_invD [OF assms] by (auto simp: schedule_inv_def image_iff)
next
  case (run oid r now)
  then show ?thesis
    using schedule_invD [OF assms] by (auto simp: schedule_inv_def map_sql_update)
qed (use assms in simp)

lemma schedule_steps_inv: "schedule_inv db \<Longrightarrow> schedule_inv (schedule_steps h hook calls db)"
  by (induction calls arbitrary: db) (auto simp: schedule_steps_def schedule_step_inv)

lemma schedule_inv_empty: "schedule_inv empty_schedules"
  by (simp add: schedule_inv_def empty_schedules_def)

definition occ_ident :: "schedule_occurrence \<Rightarrow> string \<times> string" where
  "occ_ident r = (occ_scheduleId r, occurrenceId r)"

lemma schedule_step_history:
  "prefix (schedule_versions db) (schedule_versions (schedule_step h hook c db))"
  "prefix (map occ_ident (schedule_occurrences db)) (map occ_ident (schedule_occurrences (schedule_step h hook c db)))"
  by (cases rule: schedule_step_cases [where h = h and hook = hook and c = c and db = db]; simp add: map_sql_update occ_ident_def)+

lemma schedule_steps_history:
  "prefix (schedule_versions db) (schedule_versions (schedule_steps h hook calls db))"
  "prefix (map occ_ident (schedule_occurrences db)) (map occ_ident (schedule_occurrences (schedule_steps h hook calls db)))"
  by (induction calls arbitrary: db; simp add: schedule_steps_def; blast intro: prefix_order.trans schedule_step_history)+

section \<open>Properties\<close>

text \<open>
  C18. Published versions are immutable, and the current one is there: along any calls the table of
  versions only grows, a schedule read from a reachable database has a current version, and that is
  the row filed under the schedule's own id and version number.
\<close>

theorem schedule_versions_immutable:
  "prefix (schedule_versions db) (schedule_versions (schedule_steps h hook calls db)) \<and>
   (case getSchedule tenant sid (schedule_steps h hook calls empty_schedules) of None \<Rightarrow> True
    | Some s \<Rightarrow> map_option (\<lambda>v. (sv_scheduleId v, sv_version v)) (getCurrentVersion sid (schedule_steps h hook calls empty_schedules)) =
        Some (sid, currentVersion s))"
proof -
  let ?db = "schedule_steps h hook calls empty_schedules"
  have inv: "schedule_inv ?db"
    by (rule schedule_steps_inv [OF schedule_inv_empty])
  have "\<exists>v. getCurrentVersion sid ?db = Some v \<and> sv_scheduleId v = sid \<and> sv_version v = currentVersion s"
    if "getSchedule tenant sid ?db = Some s" for tenant sid s
  proof -
    have s: "s \<in> set (schedules ?db)" "scheduleId s = sid"
      using that by (auto simp: getSchedule_def dest: sql_get_Some)
    then have "find_schedule sid ?db = Some s"
      using sql_get_key [OF schedule_invD(1) [OF inv]] by (simp add: find_schedule_def)
    moreover obtain v where "v \<in> set (schedule_versions ?db)" "sv_scheduleId v = sid" "sv_version v = currentVersion s"
      using schedule_invD(4) [OF inv s(1)] s(2) by auto
    then have "sql_get (\<lambda>v. sv_scheduleId v = sid \<and> sv_version v = currentVersion s) (schedule_versions ?db) = Some v"
      using sql_get_key [OF schedule_invD(3) [OF inv], of "(sid, currentVersion s)" v] by simp
    ultimately show ?thesis
      by (auto simp: getCurrentVersion_def dest: sql_get_Some)
  qed
  then show ?thesis
    using schedule_steps_history(1) by (auto split: option.splits)
qed

lemma find_occurrence_kept:
  assumes "schedule_inv db" "find_occurrence sid oid db = Some r"
  shows "\<exists>r'. find_occurrence sid oid (schedule_steps h hook calls db) = Some r'"
proof -
  have "(sid, oid) \<in> set (map occ_ident (schedule_occurrences db))"
    using assms(2) by (force simp: find_occurrence_def occ_ident_def dest!: sql_get_Some)
  then have "(sid, oid) \<in> set (map occ_ident (schedule_occurrences (schedule_steps h hook calls db)))"
    using set_mono_prefix [OF schedule_steps_history(2)] by blast
  then have "find_occurrence sid oid (schedule_steps h hook calls db) \<noteq> None"
    by (auto simp: find_occurrence_def sql_get_None occ_ident_def)
  then show ?thesis by blast
qed

lemma recordOccurrence_True:
  assumes "recordOccurrence hook oid sid n t now db = (Inr (True, r), db')"
  shows "find_occurrence sid oid db = None" "db' = db\<lparr>schedule_occurrences := schedule_occurrences db @ [r]\<rparr>"
    "occ_scheduleId r = sid" "occurrenceId r = oid" "hook ''recordOccurrence'' = None"
  using assms by (cases db; auto simp: recordOccurrence_def atomic_Inr catch_def andThen_def insert_row_app Let_def
      split: option.splits if_splits)+

lemma recordOccurrence_False:
  "find_occurrence sid oid db = Some r \<Longrightarrow> hook ''recordOccurrence'' = None \<Longrightarrow>
     recordOccurrence hook oid sid n t now db = (Inr (False, r), db)"
  by (simp add: recordOccurrence_def atomic_def)

text \<open>
  An occurrence is admitted once: after a call of \<^verbatim>\<open>recordOccurrence\<close> was told that it admits
  an occurrence, every later call for the same occurrence, by whatever scheduler and after whatever
  calls, is told that it does not, and changes nothing.
\<close>

theorem occurrence_admitted_once:
  assumes "recordOccurrence hook oid sid n t now (schedule_steps h hook before empty_schedules) = (Inr (True, r), db)"
  shows "\<exists>r'. recordOccurrence hook oid sid n' t' now' (schedule_steps h hook calls db) = (Inr (False, r'), schedule_steps h hook calls db)"
proof -
  note rec = recordOccurrence_True [OF assms]
  have "schedule_inv db"
    using schedule_step_inv [OF schedule_steps_inv [OF schedule_inv_empty], of h hook "Record oid sid n t now" h hook before] assms by simp
  moreover have "find_occurrence sid oid db = Some r"
    using rec(1,3,4) by (simp add: find_occurrence_def rec(2))
  ultimately obtain r' where "find_occurrence sid oid (schedule_steps h hook calls db) = Some r'"
    using find_occurrence_kept by blast
  then show ?thesis
    using recordOccurrence_False rec(5) by blast
qed

end
