(* ===== verification/Cron.thy ===== *)
theory Cron
  imports Prelude
begin

text \<open>
  Cron expressions and the next-run search (\<^verbatim>\<open>vaulltcore-scheduler/src/cron.ts\<close>). The wall clock
  of a time zone, which the code takes from \<^verbatim>\<open>Intl.DateTimeFormat\<close>, is the argument \<open>intl\<close>:
  the formatted fields of an instant, or nothing for a zone the host does not support. The theorems:
  a parsed field holds only values of its range, and the search returns the first matching minute
  or reports that a year has none.
\<close>

section \<open>Fields\<close>

datatype cron_error = CronParseError | RangeError

record cron_range =
  range_min :: int
  range_max :: int
  range_name :: string

record parsed_cron =
  cron_minute :: "int set"
  cron_hour :: "int set"
  cron_dom :: "int set"
  cron_month :: "int set"
  cron_dow :: "int set"

definition FIELD_RANGES :: "cron_range list" where
  "FIELD_RANGES =
     [\<lparr>range_min = 0, range_max = 59, range_name = ''minute''\<rparr>,
      \<lparr>range_min = 0, range_max = 23, range_name = ''hour''\<rparr>,
      \<lparr>range_min = 1, range_max = 31, range_name = ''day-of-month''\<rparr>,
      \<lparr>range_min = 1, range_max = 12, range_name = ''month''\<rparr>,
      \<lparr>range_min = 0, range_max = 6, range_name = ''day-of-week''\<rparr>]"

text \<open>
  The patterns \<^verbatim>\<open>/^(.*)\\/(\\d+)$/\<close> and \<^verbatim>\<open>/^(\\d+)-(\\d+)$/\<close>. The digits at the end contain
  no slash, so the greedy group ends at the last one.
\<close>

definition step_match :: "string \<Rightarrow> (string \<times> string) option" where
  "step_match part =
     (let ds = takeWhile is_digit (rev part); rest = dropWhile is_digit (rev part)
      in if ds \<noteq> [] \<and> rest \<noteq> [] \<and> hd rest = CHR ''/'' then Some (rev (tl rest), rev ds) else None)"

definition range_match :: "string \<Rightarrow> (string \<times> string) option" where
  "range_match base =
     (let a = takeWhile is_digit base; rest = dropWhile is_digit base
      in if a \<noteq> [] \<and> rest \<noteq> [] \<and> hd rest = CHR ''-'' \<and> tl rest \<noteq> [] \<and> list_all is_digit (tl rest)
         then Some (a, tl rest) else None)"

text \<open>
  \<^verbatim>\<open>Number(digits)\<close>. It is not an integer exactly when it rounds to \<^verbatim>\<open>Infinity\<close>; below
  that its rounding keeps the order to the bounds of a field.
\<close>

definition number_of :: "string \<Rightarrow> int" where
  "number_of ds = int (decimal_value ds)"

definition is_integer :: "string \<Rightarrow> bool" where
  "is_integer ds \<longleftrightarrow> number_of ds < 2 ^ 1024 - 2 ^ 970"

text \<open>\<^verbatim>\<open>for (let v = lo; v <= hi; v += step) values.add(v)\<close>.\<close>

function range_from :: "int \<Rightarrow> int \<Rightarrow> int \<Rightarrow> int set" where
  "range_from lo hi step = (if lo > hi \<or> step < 1 then {} else insert lo (range_from (lo + step) hi step))"
  by pat_completeness auto
termination
  by (relation "measure (\<lambda>(lo, hi, step). nat (hi - lo + 1))") auto

declare range_from.simps [simp del]

definition parse_bounds :: "cron_range \<Rightarrow> int \<Rightarrow> int \<Rightarrow> int \<Rightarrow> cron_error + int set" where
  "parse_bounds rng lo hi step =
     check (lo < range_min rng \<or> hi > range_max rng \<or> lo > hi) CronParseError (Inr (range_from lo hi step))"

definition parse_part :: "cron_range \<Rightarrow> string \<Rightarrow> cron_error + int set" where
  "parse_part rng part =
     (let sm = step_match part;
          base = (case sm of None \<Rightarrow> part | Some (b, _) \<Rightarrow> b);
          step = (case sm of None \<Rightarrow> 1 | Some (_, ds) \<Rightarrow> number_of ds)
      in check (part = []) CronParseError
         (check (case sm of None \<Rightarrow> False | Some (_, ds) \<Rightarrow> \<not> is_integer ds \<or> step < 1) CronParseError
         (if base = ''*'' then parse_bounds rng (range_min rng) (range_max rng) step
          else case range_match base of
            Some (a, b) \<Rightarrow> parse_bounds rng (number_of a) (number_of b) step
          | None \<Rightarrow>
              if base \<noteq> [] \<and> list_all is_digit base
              then parse_bounds rng (number_of base) (if sm \<noteq> None then range_max rng else number_of base) step
              else if (base = ''L'' \<or> base = ''l'') \<and> range_name rng = ''day-of-month'' then Inr {- 1}
              else Inl CronParseError)))"

primrec parse_parts :: "cron_range \<Rightarrow> string list \<Rightarrow> cron_error + int set" where
  "parse_parts rng [] = Inr {}"
| "parse_parts rng (p # ps) =
     seq_res (parse_part rng p) (\<lambda>vs. seq_res (parse_parts rng ps) (\<lambda>ws. Inr (vs \<union> ws)))"

definition parseField :: "string \<Rightarrow> cron_range \<Rightarrow> cron_error + int set" where
  "parseField field rng =
     check (field = []) CronParseError
       (seq_res (parse_parts rng (split_on CHR '','' field))
         (\<lambda>values. check (values = {}) CronParseError (Inr values)))"

text \<open>\<^verbatim>\<open>expr.trim().split(/\\s+/)\<close>: the words, or one empty string.\<close>

definition trim_split :: "string \<Rightarrow> string list" where
  "trim_split s = (let ws = filter (\<lambda>w. w \<noteq> []) (split_acc is_space [] s) in if ws = [] then [[]] else ws)"

definition parseCron :: "string \<Rightarrow> cron_error + parsed_cron" where
  "parseCron expr =
     (let parts = trim_split expr
      in check (length parts \<noteq> 5) CronParseError
         (seq_res (parseField (parts ! 0) (FIELD_RANGES ! 0)) (\<lambda>minute.
          seq_res (parseField (parts ! 1) (FIELD_RANGES ! 1)) (\<lambda>hour.
          seq_res (parseField (parts ! 2) (FIELD_RANGES ! 2)) (\<lambda>dom.
          seq_res (parseField (parts ! 3) (FIELD_RANGES ! 3)) (\<lambda>month.
          seq_res (parseField (parts ! 4) (FIELD_RANGES ! 4)) (\<lambda>dow.
          Inr \<lparr>cron_minute = minute, cron_hour = hour, cron_dom = dom, cron_month = month, cron_dow = dow\<rparr>)))))))"

section \<open>The next run\<close>

record wall_fields =
  f_year :: int
  f_month :: int
  f_day :: int
  f_hour :: int
  f_minute :: int
  f_weekday :: string

type_synonym intl = "string \<Rightarrow> int \<Rightarrow> wall_fields option"

record tz_parts =
  p_year :: int
  p_month :: int
  p_day :: int
  p_hour :: int
  p_minute :: int
  p_dow :: int
  p_daysInMonth :: int

definition WEEKDAY :: "(string \<times> int) list" where
  "WEEKDAY = [(''Sun'', 0), (''Mon'', 1), (''Tue'', 2), (''Wed'', 3), (''Thu'', 4), (''Fri'', 5), (''Sat'', 6)]"

text \<open>
  \<^verbatim>\<open>new Date(Date.UTC(year, month, 0)).getUTCDate()\<close>: the last day of the month, counted from 1.
  \<^verbatim>\<open>Date.UTC\<close> reads the years 0 to 99 as 1900 to 1999.
\<close>

definition last_day :: "int \<Rightarrow> int \<Rightarrow> int" where
  "last_day year month =
     (let y = (if 0 \<le> year \<and> year \<le> 99 then 1900 + year else year)
      in if month = 2 then (if 4 dvd y \<and> (\<not> 100 dvd y \<or> 400 dvd y) then 29 else 28)
         else if month \<in> {4, 6, 9, 11} then 30 else 31)"

definition tzParts :: "intl \<Rightarrow> int \<Rightarrow> string \<Rightarrow> tz_parts option" where
  "tzParts intl epochMs tz = map_option (\<lambda>w.
     \<lparr>p_year = f_year w, p_month = f_month w, p_day = f_day w,
      p_hour = (if f_hour w = 24 then 0 else f_hour w), p_minute = f_minute w,
      p_dow = (case map_of WEEKDAY (f_weekday w) of None \<Rightarrow> 0 | Some d \<Rightarrow> d),
      p_daysInMonth = last_day (f_year w) (f_month w)\<rparr>) (intl tz epochMs)"

definition isFullRange :: "int set \<Rightarrow> int \<Rightarrow> int \<Rightarrow> bool" where
  "isFullRange values mn mx \<longleftrightarrow> int (card values) = mx - mn + 1 \<and> list_all (\<lambda>v. v \<in> values) [mn..mx]"

definition cron_matches :: "parsed_cron \<Rightarrow> tz_parts \<Rightarrow> bool" where
  "cron_matches c p =
     (let isLastDom = p_day p = p_daysInMonth p;
          domMatches = (p_day p \<in> cron_dom c \<or> - 1 \<in> cron_dom c \<and> isLastDom);
          monthMatches = p_month p \<in> cron_month c;
          dowMatches = p_dow p \<in> cron_dow c;
          domRestricted = (\<not> isFullRange (cron_dom c) 1 31);
          dowRestricted = (\<not> isFullRange (cron_dow c) 0 6);
          dayMatches = (if domRestricted \<and> dowRestricted then domMatches \<or> dowMatches else domMatches \<and> dowMatches)
      in monthMatches \<and> dayMatches \<and> p_hour p \<in> cron_hour c \<and> p_minute p \<in> cron_minute c)"

text \<open>\<^verbatim>\<open>cap = 366 * 24 * 60\<close> minutes.\<close>

definition SCAN_CAP :: int where
  "SCAN_CAP = 366 * 24 * 60"

function scan :: "intl \<Rightarrow> parsed_cron \<Rightarrow> string \<Rightarrow> int \<Rightarrow> int \<Rightarrow> cron_error + int" where
  "scan intl c tz i cursor =
     (if i < SCAN_CAP
      then case tzParts intl cursor tz of
        None \<Rightarrow> Inl RangeError
      | Some p \<Rightarrow> if cron_matches c p then Inr cursor else scan intl c tz (i + 1) (cursor + 60000)
      else Inl CronParseError)"
  by pat_completeness auto
termination
  by (relation "measure (\<lambda>(intl, c, tz, i, cursor). nat (SCAN_CAP - i))") auto

declare scan.simps [simp del]

definition nextRun :: "intl \<Rightarrow> parsed_cron \<Rightarrow> int \<Rightarrow> string \<Rightarrow> cron_error + int" where
  "nextRun intl c fromMs tz = scan intl c tz 0 (fromMs + 60000)"

definition validateTimezone :: "intl \<Rightarrow> int \<Rightarrow> string \<Rightarrow> cron_error + unit" where
  "validateTimezone intl now tz = (case intl tz now of None \<Rightarrow> Inl CronParseError | Some _ \<Rightarrow> Inr ())"

section \<open>Parsing\<close>

lemma range_from_eq: "step \<ge> 1 \<Longrightarrow> range_from lo hi step = {v. lo \<le> v \<and> v \<le> hi \<and> step dvd v - lo}"
proof (induction lo hi step rule: range_from.induct)
  case (1 lo hi step)
  show ?case
  proof (cases "lo > hi")
    case True
    then show ?thesis by (subst range_from.simps) auto
  next
    case False
    have unfolded: "v \<in> range_from lo hi step \<longleftrightarrow> v = lo \<or> lo + step \<le> v \<and> v \<le> hi \<and> step dvd v - (lo + step)" for v
      using 1 False by (subst range_from.simps) auto
    have "step dvd v - (lo + step) \<longleftrightarrow> step dvd v - lo" for v
      using dvd_add_right_iff [of step step "v - (lo + step)"] by (simp add: algebra_simps)
    moreover have "lo + step \<le> v" if "lo \<le> v" "v \<noteq> lo" "step dvd v - lo" for v
      using that zdvd_imp_le [of step "v - lo"] by simp
    ultimately have "v \<in> range_from lo hi step \<longleftrightarrow> lo \<le> v \<and> v \<le> hi \<and> step dvd v - lo" for v
      using False 1(2) unfolded [of v] by (cases "v = lo") auto
    then show ?thesis by blast
  qed
qed

lemma parse_bounds_range: "parse_bounds rng lo hi step = Inr vs \<Longrightarrow> step \<ge> 1 \<Longrightarrow> vs \<subseteq> {range_min rng .. range_max rng} \<and> vs \<noteq> {}"
  by (auto simp: parse_bounds_def range_from_eq)

text \<open>The values a field may hold: its range, and the marker for the last day of the month.\<close>

definition field_values :: "cron_range \<Rightarrow> int set" where
  "field_values rng = {range_min rng .. range_max rng} \<union> (if range_name rng = ''day-of-month'' then {- 1} else {})"

lemma parse_part_range: "parse_part rng part = Inr vs \<Longrightarrow> vs \<subseteq> field_values rng \<and> vs \<noteq> {}"
  by (auto simp: parse_part_def Let_def field_values_def split: option.splits if_splits dest!: parse_bounds_range)

lemma parse_parts_range: "parse_parts rng parts = Inr vs \<Longrightarrow> vs \<subseteq> field_values rng"
proof (induction parts arbitrary: vs)
  case (Cons p ps)
  then show ?case using parse_part_range by fastforce
qed auto

lemma parseField_range: "parseField field rng = Inr vs \<Longrightarrow> vs \<subseteq> field_values rng \<and> vs \<noteq> {}"
  using parse_parts_range by (auto simp: parseField_def)

text \<open>
  A parsed expression is within range: each of its five fields is a nonempty set of values of that
  field, and only the day of the month may also hold the last-day marker.
\<close>

theorem parseCron_bounds:
  assumes "parseCron expr = Inr c"
  shows "cron_minute c \<noteq> {} \<and> cron_minute c \<subseteq> {0..59} \<and> cron_hour c \<noteq> {} \<and> cron_hour c \<subseteq> {0..23} \<and>
    cron_dom c \<noteq> {} \<and> cron_dom c \<subseteq> {1..31} \<union> {- 1} \<and> cron_month c \<noteq> {} \<and> cron_month c \<subseteq> {1..12} \<and>
    cron_dow c \<noteq> {} \<and> cron_dow c \<subseteq> {0..6}"
  using assms by (auto simp: parseCron_def Let_def FIELD_RANGES_def field_values_def dest!: parseField_range)

section \<open>Searching\<close>

text \<open>The host knows the zone: its wall clock is defined at every instant.\<close>

definition tz_supported :: "intl \<Rightarrow> string \<Rightarrow> bool" where
  "tz_supported intl tz \<longleftrightarrow> (\<forall>t. intl tz t \<noteq> None)"

definition fires :: "intl \<Rightarrow> parsed_cron \<Rightarrow> string \<Rightarrow> int \<Rightarrow> bool" where
  "fires intl c tz t = (case tzParts intl t tz of None \<Rightarrow> False | Some p \<Rightarrow> cron_matches c p)"

lemma scan_unfold:
  assumes "tz_supported intl tz"
  shows "scan intl c tz i cursor =
    (if i < SCAN_CAP then if fires intl c tz cursor then Inr cursor else scan intl c tz (i + 1) (cursor + 60000) else Inl CronParseError)"
proof -
  obtain w where "intl tz cursor = Some w"
    using assms by (auto simp: tz_supported_def)
  then obtain p where "tzParts intl cursor tz = Some p"
    by (simp add: tzParts_def)
  then show ?thesis
    by (subst scan.simps) (simp add: fires_def)
qed

lemma find_first:
  fixes F :: "nat \<Rightarrow> 'b"
  shows "(case List.find P [0..<n] of None \<Rightarrow> Inl e | Some k \<Rightarrow> Inr (F k)) = Inr t \<longleftrightarrow> (\<exists>k < n. t = F k \<and> P k \<and> (\<forall>j < k. \<not> P j))"
    and "(case List.find P [0..<n] of None \<Rightarrow> Inl e | Some k \<Rightarrow> Inr (F k)) = Inl e' \<longleftrightarrow> e' = e \<and> (\<forall>k < n. \<not> P k)"
proof -
  have some: "List.find P [0..<n] = Some k \<longleftrightarrow> k < n \<and> P k \<and> (\<forall>j < k. \<not> P j)" for k
    by (auto simp: find_Some_iff)
  have none: "List.find P [0..<n] = None \<longleftrightarrow> (\<forall>k < n. \<not> P k)"
    by (auto simp: find_None_iff)
  show "(case List.find P [0..<n] of None \<Rightarrow> Inl e | Some k \<Rightarrow> Inr (F k)) = Inr t \<longleftrightarrow> (\<exists>k < n. t = F k \<and> P k \<and> (\<forall>j < k. \<not> P j))"
  proof (cases "List.find P [0..<n]")
    case (Some a)
    then have "k = a \<longleftrightarrow> k < n \<and> P k \<and> (\<forall>j < k. \<not> P j)" for k
      using some [of k] by auto
    then have "(\<exists>k < n. t = F k \<and> P k \<and> (\<forall>j < k. \<not> P j)) \<longleftrightarrow> t = F a"
      by metis
    then show ?thesis using Some by auto
  qed (use none in auto)
  show "(case List.find P [0..<n] of None \<Rightarrow> Inl e | Some k \<Rightarrow> Inr (F k)) = Inl e' \<longleftrightarrow> e' = e \<and> (\<forall>k < n. \<not> P k)"
    using some none by (cases "List.find P [0..<n]") auto
qed

text \<open>The search over \<open>n\<close> minutes returns the first that fires.\<close>

lemma scan_first:
  assumes "tz_supported intl tz" "int n = SCAN_CAP - i"
  shows "scan intl c tz i cursor =
    (case List.find (\<lambda>k. fires intl c tz (cursor + 60000 * int k)) [0..<n] of None \<Rightarrow> Inl CronParseError | Some k \<Rightarrow> Inr (cursor + 60000 * int k))"
  using assms(2)
proof (induction n arbitrary: i cursor)
  case 0
  then show ?case by (subst scan_unfold [OF assms(1)]) simp
next
  case (Suc n)
  have "[0..<Suc n] = 0 # map Suc [0..<n]"
    by (simp add: map_Suc_upt upt_conv_Cons del: upt_Suc)
  moreover have "List.find P (map Suc ks) = map_option Suc (List.find (P \<circ> Suc) ks)" for P ks
    by (induction ks) auto
  ultimately show ?case
    using Suc.prems Suc.IH [of "i + 1" "cursor + 60000"]
    by (subst scan_unfold [OF assms(1)]) (auto simp: comp_def algebra_simps split: option.splits)
qed

lemma nextRun_first:
  assumes "tz_supported intl tz"
  shows "nextRun intl c fromMs tz =
    (case List.find (\<lambda>k. fires intl c tz (fromMs + 60000 * int (Suc k))) [0..<nat SCAN_CAP] of
       None \<Rightarrow> Inl CronParseError | Some k \<Rightarrow> Inr (fromMs + 60000 * int (Suc k)))"
proof -
  have "int (nat SCAN_CAP) = SCAN_CAP - 0"
    by (simp add: SCAN_CAP_def)
  then show ?thesis
    using scan_first [OF assms, of "nat SCAN_CAP" 0 c "fromMs + 60000"]
    by (simp add: nextRun_def algebra_simps split: option.splits)
qed

text \<open>
  C19. The next run is the earliest: in a zone the host supports, \<^verbatim>\<open>nextRun\<close> returns \<open>t\<close> exactly
  when \<open>t\<close> is a whole number of minutes, at least one and at most 366 days, after \<open>from\<close>, the
  expression matches at \<open>t\<close>, and it matches at none of the minutes before; it throws exactly when
  it matches at none of them.
\<close>

theorem nextRun_earliest:
  assumes "tz_supported intl tz"
  shows "(nextRun intl c fromMs tz = Inr t \<longleftrightarrow>
      (\<exists>k < nat SCAN_CAP. t = fromMs + 60000 * int (Suc k) \<and> fires intl c tz t \<and> (\<forall>j < k. \<not> fires intl c tz (fromMs + 60000 * int (Suc j))))) \<and>
    (nextRun intl c fromMs tz = Inl e \<longleftrightarrow>
      e = CronParseError \<and> (\<forall>k < nat SCAN_CAP. \<not> fires intl c tz (fromMs + 60000 * int (Suc k))))"
  unfolding nextRun_first [OF assms] find_first by blast

text \<open>
  The search keeps the seconds of its starting point: it moves in whole minutes from \<open>from\<close>, and the
  wall clock it reads has none.
\<close>

lemma nextRun_shift:
  assumes "tz_supported intl tz" "\<And>t. 60000 dvd t \<Longrightarrow> intl tz (t + d) = intl tz t" "60000 dvd fromMs"
  shows "nextRun intl c (fromMs + d) tz = map_sum id (\<lambda>t. t + d) (nextRun intl c fromMs tz)"
proof -
  have "fires intl c tz (fromMs + d + 60000 * int (Suc k)) = fires intl c tz (fromMs + 60000 * int (Suc k))" for k
    using assms(2) [of "fromMs + 60000 * int (Suc k)"] assms(3)
    by (simp add: fires_def tzParts_def add.assoc add.left_commute add.commute [of d])
  then show ?thesis
    by (simp add: nextRun_first [OF assms(1)] split: option.splits)
qed

section \<open>A sample zone\<close>

text \<open>
  The wall clock of UTC: the proleptic Gregorian date of a day counted from 1970-01-01 (a Thursday), in
  cycles of 400 years that start in March.
\<close>

definition utc_fields :: "int \<Rightarrow> wall_fields" where
  "utc_fields ms =
     (let minutes = ms div 60000; days = minutes div 1440;
          z = days + 719468; era = z div 146097; doe = z mod 146097;
          yoe = (doe - doe div 1460 + doe div 36524 - doe div 146096) div 365;
          doy = doe - (365 * yoe + yoe div 4 - yoe div 100);
          mp = (5 * doy + 2) div 153;
          month = (if mp < 10 then mp + 3 else mp - 9)
      in \<lparr>f_year = yoe + era * 400 + (if month \<le> 2 then 1 else 0), f_month = month, f_day = doy - (153 * mp + 2) div 5 + 1,
          f_hour = minutes mod 1440 div 60, f_minute = minutes mod 60,
          f_weekday = [''Thu'', ''Fri'', ''Sat'', ''Sun'', ''Mon'', ''Tue'', ''Wed''] ! nat (days mod 7)\<rparr>)"

definition utc_intl :: intl where
  "utc_intl tz ms = (if tz = ''UTC'' then Some (utc_fields ms) else None)"

lemma utc_supported: "tz_supported utc_intl ''UTC''"
  by (simp add: tz_supported_def utc_intl_def)

lemma utc_whole_minutes: "60000 dvd t \<Longrightarrow> 0 \<le> d \<Longrightarrow> d < 60000 \<Longrightarrow> utc_intl tz (t + d) = utc_intl tz t"
proof -
  assume "60000 dvd t" "0 \<le> d" "d < 60000"
  then have "(t + d) div 60000 = t div 60000"
    by (auto elim!: dvdE)
  then show ?thesis
    unfolding utc_intl_def utc_fields_def by (simp only:)
qed

text \<open>Every day at 9:30, from 2025-03-01 09:28 UTC.\<close>

definition sample_cron :: parsed_cron where
  "sample_cron = \<lparr>cron_minute = {30}, cron_hour = {9}, cron_dom = {1..31}, cron_month = {1..12}, cron_dow = {0..6}\<rparr>"

theorem nextRun_earliest_witness: "nextRun utc_intl sample_cron 1740821280000 ''UTC'' = Inr 1740821400000"
proof -
  have "fires utc_intl sample_cron ''UTC'' (1740821280000 + 60000 * int (Suc 1))"
    "\<not> fires utc_intl sample_cron ''UTC'' (1740821280000 + 60000 * int (Suc 0))"
    by code_simp+
  moreover have "1 < nat SCAN_CAP"
    by (simp add: SCAN_CAP_def)
  ultimately show ?thesis
    using nextRun_earliest [OF utc_supported, of sample_cron 1740821280000 1740821400000] by fastforce
qed

theorem parseCron_bounds_witness: "\<exists>c. parseCron ''*/15 9-17 1,L * 1-5'' = Inr c \<and> cron_dom c \<subseteq> {1..31} \<union> {- 1}"
proof -
  have "case parseCron ''*/15 9-17 1,L * 1-5'' of Inl _ \<Rightarrow> False | Inr c \<Rightarrow> True"
    by code_simp
  then obtain c where "parseCron ''*/15 9-17 1,L * 1-5'' = Inr c"
    by (auto split: sum.splits)
  then show ?thesis
    using parseCron_bounds by blast
qed

subsection \<open>The 29th of February\<close>

text \<open>
  The cap of 366 days does not reach the 29th of February from most years: after 2025-03-01 the
  expression \<^verbatim>\<open>0 0 29 2 *\<close> parses, but has no next run.
\<close>

definition feb29_cron :: parsed_cron where
  "feb29_cron = \<lparr>cron_minute = {0}, cron_hour = {0}, cron_dom = {29}, cron_month = {2}, cron_dow = {0..6}\<rparr>"

lemma feb29_parses: "parseCron ''0 0 29 2 *'' = Inr feb29_cron"
  by code_simp

definition not_feb29 :: "int \<Rightarrow> bool" where
  "not_feb29 d = (let w = utc_fields (d * 86400000) in \<not> (f_month w = 2 \<and> f_day w = 29))"

lemma year_without_feb29: "list_all not_feb29 [20148..20514]"
  by code_simp

lemma not_feb29_in_year: "20148 \<le> d \<Longrightarrow> d \<le> 20514 \<Longrightarrow> not_feb29 d"
  using year_without_feb29 unfolding list_all_iff set_upto Ball_def atLeastAtMost_iff by blast

lemma utc_date: "f_month (utc_fields t) = f_month (utc_fields (t div 86400000 * 86400000))"
  "f_day (utc_fields t) = f_day (utc_fields (t div 86400000 * 86400000))"
proof -
  have "t div 60000 div 1440 = t div 86400000"
    by (simp add: zdiv_zmult2_eq [symmetric])
  moreover have "t div 86400000 * 86400000 div 60000 div 1440 = t div 86400000"
    by (simp add: zdiv_zmult2_eq [symmetric])
  ultimately show "f_month (utc_fields t) = f_month (utc_fields (t div 86400000 * 86400000))"
    "f_day (utc_fields t) = f_day (utc_fields (t div 86400000 * 86400000))"
    unfolding utc_fields_def by (simp_all only: Let_def wall_fields.simps)
qed

lemma feb29_never_scheduled: "nextRun utc_intl feb29_cron 1740787200000 ''UTC'' = Inl CronParseError"
proof -
  have "\<not> fires utc_intl feb29_cron ''UTC'' (1740787200000 + 60000 * int (Suc k))" if "k < nat SCAN_CAP" for k
  proof -
    let ?t = "1740787200000 + 60000 * int (Suc k)" and ?d = "(1740787200000 + 60000 * int (Suc k)) div 86400000"
    have "20148 \<le> ?d" "?d \<le> 20514"
      using that by (auto simp: SCAN_CAP_def)
    then have "not_feb29 ?d"
      by (rule not_feb29_in_year)
    moreover have "f_month (utc_fields ?t) = 2 \<and> f_day (utc_fields ?t) = 29" if "fires utc_intl feb29_cron ''UTC'' ?t"
    proof -
      have "isFullRange {0..6} 0 6"
        by code_simp
      then show ?thesis
        using that by (auto simp: fires_def tzParts_def utc_intl_def cron_matches_def feb29_cron_def Let_def)
    qed
    ultimately show ?thesis
      using utc_date [of ?t] by (auto simp: not_feb29_def Let_def)
  qed
  then show ?thesis
    unfolding nextRun_first [OF utc_supported] find_first by blast
qed

end
