(* ===== verification/Scheduler.thy ===== *)
theory Scheduler
  imports Schedule_Store Cron
begin

text \<open>
  The scheduler engine (\<^verbatim>\<open>vaulltcore-scheduler/src/scheduler.ts\<close>): due times, the missed-run
  policy and one tick over the active schedules. The admitter is an argument that acts on a state of
  its own. The properties: a tick admits exactly the occurrences it creates, each once and due, and
  one schedule without a next run stops the tick for all.
\<close>

section \<open>State\<close>

text \<open>\<open>'w\<close> is the state of the admitter.\<close>

record 'w sched_state =
  sdb :: schedule_db
  parsedCache :: "(string, parsed_cron) table"
  admitter_state :: 'w

type_synonym ('w, 'a) tick_op = "('w sched_state, schedule_error, 'a) op"

record admit_args =
  adm_owner :: job_identity
  adm_automationVersionId :: string
  adm_input :: "json option"
  adm_occurrenceId :: string
  adm_idempotencyKey :: string

record 'w scheduler =
  admit :: "admit_args \<Rightarrow> 'w \<Rightarrow> (string + string) \<times> 'w"
  maxPerTick :: int
  sch_intl :: intl
  sch_host :: host
  sch_hook :: commit_hook

text \<open>\<^verbatim>\<open>options.maxPerTick ?? 100\<close>.\<close>

definition scheduler_constructor ::
    "(admit_args \<Rightarrow> 'w \<Rightarrow> (string + string) \<times> 'w) \<Rightarrow> int option \<Rightarrow> intl \<Rightarrow> host \<Rightarrow> commit_hook \<Rightarrow> 'w scheduler" where
  "scheduler_constructor adm mx intl h hook = \<lparr>admit = adm, maxPerTick = (case mx of None \<Rightarrow> 100 | Some n \<Rightarrow> n),
     sch_intl = intl, sch_host = h, sch_hook = hook\<rparr>"

record admitted_run =
  ar_scheduleId :: string
  ar_occurrenceId :: string
  ar_runId :: string

definition on_store :: "'a schedule_op \<Rightarrow> ('w, 'a) tick_op" where
  "on_store m = (\<lambda>s. case m (sdb s) of (r, db) \<Rightarrow> (r, s\<lparr>sdb := db\<rparr>))"

definition cron_result :: "cron_error + 'a \<Rightarrow> ('w, 'a) tick_op" where
  "cron_result r = (case r of Inl _ \<Rightarrow> throw BadCron | Inr x \<Rightarrow> ok x)"

definition call_admitter :: "'w scheduler \<Rightarrow> admit_args \<Rightarrow> ('w, string) tick_op" where
  "call_admitter d a = (\<lambda>s. case admit d a (admitter_state s) of
       (Inl e, w) \<Rightarrow> (Inl (AdmitFailed e), s\<lparr>admitter_state := w\<rparr>)
     | (Inr run, w) \<Rightarrow> (Inr run, s\<lparr>admitter_state := w\<rparr>))"

section \<open>Due times\<close>

text \<open>The walk of at most 1000 matches from the cursor to \<^verbatim>\<open>now\<close>.\<close>

definition DUE_CAP :: int where
  "DUE_CAP = 1000"

function walk_due :: "intl \<Rightarrow> parsed_cron \<Rightarrow> string \<Rightarrow> int \<Rightarrow> int \<Rightarrow> int \<Rightarrow> int list \<Rightarrow> cron_error + int list" where
  "walk_due intl c tz now i cursor due =
     (if i < DUE_CAP
      then case nextRun intl c cursor tz of
        Inl e \<Rightarrow> Inl e
      | Inr t \<Rightarrow> if t > now then Inr due else walk_due intl c tz now (i + 1) t (due @ [t])
      else Inr due)"
  by pat_completeness auto
termination
  by (relation "measure (\<lambda>(intl, c, tz, now, i, cursor, due). nat (DUE_CAP - i))") auto

declare walk_due.simps [simp del]

text \<open>\<^verbatim>\<open>this.parsedCache.get(cron) ?? parseCron(cron)\<close>, cached.\<close>

definition cached_parse :: "string \<Rightarrow> ('w, parsed_cron) tick_op" where
  "cached_parse text' = andThen (reads (\<lambda>s. tget (parsedCache s) text')) (\<lambda>hit.
     andThen (case hit of Some c \<Rightarrow> ok c | None \<Rightarrow> cron_result (parseCron text')) (\<lambda>c.
     andThen (modifies (\<lambda>s. s\<lparr>parsedCache := tput text' c (parsedCache s)\<rparr>)) (\<lambda>_. ok c)))"

definition computeDue :: "'w scheduler \<Rightarrow> schedule_version \<Rightarrow> int option \<Rightarrow> int \<Rightarrow> ('w, int list) tick_op" where
  "computeDue d v lastAdmitted now =
     (case kind v of
        One_time \<Rightarrow>
          (case scheduledAt v of None \<Rightarrow> ok []
           | Some t \<Rightarrow>
               let after' = (case lastAdmitted of None \<Rightarrow> 0 | Some x \<Rightarrow> x)
               in if t \<le> now \<and> t > after' then ok [t] else ok [])
      | Recurring \<Rightarrow>
          (case cron v of None \<Rightarrow> ok []
           | Some expr \<Rightarrow>
               if expr = [] then ok []
               else andThen (cron_result (validateTimezone (sch_intl d) now (timezone v))) (\<lambda>_.
                    andThen (cached_parse expr) (\<lambda>c.
                    let after' = (case lastAdmitted of None \<Rightarrow> now - 24 * 60 * 60000 | Some x \<Rightarrow> x)
                    in cron_result (walk_due (sch_intl d) c (timezone v) now 0 after' [])))))"

text \<open>\<^verbatim>\<open>xs.slice(0, n)\<close>: a negative end counts from the back.\<close>

definition js_slice :: "int \<Rightarrow> 'a list \<Rightarrow> 'a list" where
  "js_slice n xs = (if 0 \<le> n then take (nat n) xs else take (nat (int (length xs) + n)) xs)"

definition missed_runs :: "'w scheduler \<Rightarrow> schedule_version \<Rightarrow> int list \<Rightarrow> int list" where
  "missed_runs d v due =
     (if missedRunPolicy v = Skip then [last due] else js_slice (min (maxCatchUp v) (maxPerTick d)) due)"

section \<open>The tick\<close>

text \<open>\<^verbatim>\<open>`occ:${scheduleId}:${t}`\<close>.\<close>

definition occurrence_id :: "host \<Rightarrow> string \<Rightarrow> int \<Rightarrow> string" where
  "occurrence_id h sid t = ''occ:'' @ sid @ '':'' @ int_text h t"

primrec tick_times ::
    "'w scheduler \<Rightarrow> int \<Rightarrow> schedule \<Rightarrow> schedule_version \<Rightarrow> int list \<Rightarrow> admitted_run list \<times> nat \<Rightarrow> ('w, admitted_run list \<times> nat) tick_op" where
  "tick_times d now sched v [] acc = ok acc"
| "tick_times d now sched v (t # ts) acc =
     (let oid = occurrence_id (sch_host d) (scheduleId sched) t in
      andThen (on_store (recordOccurrence (sch_hook d) oid (scheduleId sched) (currentVersion sched) t now)) (\<lambda>(fresh, _).
      if \<not> fresh then tick_times d now sched v ts (fst acc, Suc (snd acc))
      else
        andThen (call_admitter d \<lparr>adm_owner = s_owner sched, adm_automationVersionId = automationVersionId v,
            adm_input = sv_input v, adm_occurrenceId = oid, adm_idempotencyKey = oid\<rparr>) (\<lambda>run.
        andThen (on_store (setAdmittedRun (sch_hook d) oid run now)) (\<lambda>_.
        andThen (on_store (advanceWatermark (sch_hook d) now (scheduleId sched) t (currentVersion sched))) (\<lambda>_.
        tick_times d now sched v ts
          (fst acc @ [\<lparr>ar_scheduleId = scheduleId sched, ar_occurrenceId = oid, ar_runId = run\<rparr>], snd acc))))))"

primrec tick_schedules ::
    "'w scheduler \<Rightarrow> int \<Rightarrow> schedule list \<Rightarrow> admitted_run list \<times> nat \<Rightarrow> ('w, admitted_run list \<times> nat) tick_op" where
  "tick_schedules d now [] acc = ok acc"
| "tick_schedules d now (sched # ss) acc =
     andThen (reads (\<lambda>s. getCurrentVersion (scheduleId sched) (sdb s))) (\<lambda>version.
     case version of None \<Rightarrow> tick_schedules d now ss acc
     | Some v \<Rightarrow>
         andThen (computeDue d v (lastAdmittedAt sched) now) (\<lambda>due.
         if due = [] then tick_schedules d now ss acc
         else andThen (tick_times d now sched v (missed_runs d v due) acc) (tick_schedules d now ss)))"

definition tick :: "'w scheduler \<Rightarrow> int \<Rightarrow> string option \<Rightarrow> ('w, admitted_run list \<times> nat) tick_op" where
  "tick d now tenant = andThen (reads (\<lambda>s. listActive tenant (sdb s))) (\<lambda>ss. tick_schedules d now ss ([], 0))"

section \<open>Due times in order\<close>

lemma nextRun_after:
  assumes "tz_supported intl tz" "nextRun intl c cursor tz = Inr t"
  shows "cursor < t" "fires intl c tz t"
  using assms(2) unfolding nextRun_first [OF assms(1)] find_first by auto

lemma walk_due_induct:
  assumes "walk_due intl c tz now i cursor due = Inr res" "P i cursor due"
    and step: "\<And>i cursor due t. P i cursor due \<Longrightarrow> i < DUE_CAP \<Longrightarrow> nextRun intl c cursor tz = Inr t \<Longrightarrow> t \<le> now \<Longrightarrow> P (i + 1) t (due @ [t])"
  shows "\<exists>i cursor. P i cursor res"
  using assms(1,2)
proof (induction "nat (DUE_CAP - i)" arbitrary: i cursor due rule: less_induct)
  case less
  show ?case
  proof (cases "\<exists>t. i < DUE_CAP \<and> nextRun intl c cursor tz = Inr t \<and> t \<le> now")
    case True
    then obtain t where t: "i < DUE_CAP" "nextRun intl c cursor tz = Inr t" "t \<le> now"
      by blast
    then have "walk_due intl c tz now (i + 1) t (due @ [t]) = Inr res"
      using less.prems(1) by (subst (asm) walk_due.simps) simp
    then show ?thesis
      using less.hyps [of "i + 1" t "due @ [t]"] step [OF less.prems(2) t] t(1) by simp
  next
    case False
    then have "res = due"
      using less.prems(1) by (subst (asm) walk_due.simps) (auto split: if_splits sum.splits)
    then show ?thesis
      using less.prems(2) by blast
  qed
qed

lemma walk_due_sorted:
  assumes "tz_supported intl tz" "walk_due intl c tz now 0 start [] = Inr due"
  shows "sorted_wrt (<) due" "\<And>t. t \<in> set due \<Longrightarrow> start < t \<and> t \<le> now \<and> fires intl c tz t" "int (length due) \<le> DUE_CAP"
proof -
  define P where "P i cursor xs \<longleftrightarrow> sorted_wrt (<) xs \<and> start \<le> cursor \<and> int (length xs) = i \<and> i \<le> DUE_CAP \<and>
      (\<forall>t \<in> set xs. start < t \<and> t \<le> cursor \<and> t \<le> now \<and> fires intl c tz t)" for i cursor and xs :: "int list"
  have "P (i + 1) t (xs @ [t])" if "P i cursor xs" "i < DUE_CAP" "nextRun intl c cursor tz = Inr t" "t \<le> now" for i cursor xs t
    using that nextRun_after [OF assms(1) that(3)] by (fastforce simp: P_def sorted_wrt_append)
  moreover have "P 0 start []"
    by (simp add: P_def DUE_CAP_def)
  ultimately obtain i cursor where "P i cursor due"
    using walk_due_induct [OF assms(2), of P] by blast
  then show "sorted_wrt (<) due" "\<And>t. t \<in> set due \<Longrightarrow> start < t \<and> t \<le> now \<and> fires intl c tz t" "int (length due) \<le> DUE_CAP"
    by (auto simp: P_def)
qed

text \<open>The walk moves with its starting point and its end, as the search does.\<close>

lemma walk_due_shift:
  assumes "tz_supported intl tz" "\<And>t. 60000 dvd t \<Longrightarrow> intl tz (t + e) = intl tz t" "60000 dvd cursor"
  shows "walk_due intl c tz (now + e) i (cursor + e) (map (\<lambda>t. t + e) due) =
    map_sum id (map (\<lambda>t. t + e)) (walk_due intl c tz now i cursor due)"
  using assms(3)
proof (induction "nat (DUE_CAP - i)" arbitrary: i cursor due rule: less_induct)
  case less
  note shift = nextRun_shift [OF assms(1,2) less.prems, of c]
  show ?case
  proof (cases "\<exists>t. i < DUE_CAP \<and> nextRun intl c cursor tz = Inr t \<and> t \<le> now")
    case True
    then obtain t where t: "i < DUE_CAP" "nextRun intl c cursor tz = Inr t" "t \<le> now"
      by blast
    have "60000 dvd t"
      using t(2) less.prems unfolding nextRun_first [OF assms(1)] find_first by auto
    then have "walk_due intl c tz (now + e) (i + 1) (t + e) (map (\<lambda>t. t + e) (due @ [t])) =
        map_sum id (map (\<lambda>t. t + e)) (walk_due intl c tz now (i + 1) t (due @ [t]))"
      using less.hyps [of "i + 1" t "due @ [t]"] t(1) by simp
    then show ?thesis
      using t shift by (subst (1 2) walk_due.simps) simp
  next
    case False
    then show ?thesis
      using shift by (subst (1 2) walk_due.simps) (auto split: sum.splits)
  qed
qed

lemma cron_result_app [simp]: "cron_result r s = (case r of Inl _ \<Rightarrow> (Inl BadCron, s) | Inr x \<Rightarrow> (Inr x, s))"
  by (simp add: cron_result_def split: sum.splits)

lemma cached_parse_app:
  "cached_parse expr s = (case (case tget (parsedCache s) expr of Some c \<Rightarrow> Inr c | None \<Rightarrow> parseCron expr) of
     Inl _ \<Rightarrow> (Inl BadCron, s) | Inr c \<Rightarrow> (Inr c, s\<lparr>parsedCache := tput expr c (parsedCache s)\<rparr>))"
  by (auto simp: cached_parse_def andThen_def split: option.splits sum.splits)

lemma computeDue_frame:
  "sdb (snd (computeDue d v la now s)) = sdb s" "admitter_state (snd (computeDue d v la now s)) = admitter_state s"
  by (auto simp: computeDue_def andThen_def cached_parse_app Let_def split: schedule_kind.splits option.splits sum.splits)

lemma validate_supported: "tz_supported intl tz \<Longrightarrow> validateTimezone intl now tz = Inr ()"
  by (auto simp: validateTimezone_def tz_supported_def split: option.splits)

lemma walk_due_aligned:
  assumes "tz_supported intl tz" "60000 dvd start" "walk_due intl c tz now 0 start [] = Inr due"
  shows "list_all (\<lambda>t. 60000 dvd t) due"
proof -
  define P where "P i cursor xs \<longleftrightarrow> 60000 dvd cursor \<and> list_all (\<lambda>t. 60000 dvd t) xs" for i cursor :: int and xs :: "int list"
  have "P (i + 1) t (xs @ [t])" if "P i cursor xs" "nextRun intl c cursor tz = Inr t" for i cursor xs t
    using that unfolding nextRun_first [OF assms(1)] find_first by (auto simp: P_def)
  then obtain i cursor where "P i cursor due"
    using walk_due_induct [OF assms(3), of P] assms(2) by (auto simp: P_def)
  then show ?thesis by (simp add: P_def)
qed

text \<open>
  An occurrence is not determined by its minute. Before the first admission the walk starts a day
  before the clock reading, with its seconds. Two readings within one minute give due times that
  differ by the difference of the readings, so all their occurrence ids differ, although the wall
  clock shows the same minutes.
\<close>

theorem due_times_follow_the_clock:
  assumes "tz_supported (sch_intl d) (timezone v)" "\<And>t. 60000 dvd t \<Longrightarrow> sch_intl d (timezone v) (t + e) = sch_intl d (timezone v) t"
    and "kind v = Recurring" "60000 dvd now" "0 < e" "e < 60000"
  shows "fst (computeDue d v None (now + e) s) = map_sum id (map (\<lambda>t. t + e)) (fst (computeDue d v None now s)) \<and>
    (case (fst (computeDue d v None now s), fst (computeDue d v None (now + e) s)) of
       (Inr due, Inr due') \<Rightarrow> set due \<inter> set due' = {} | _ \<Rightarrow> True)"
proof -
  have start: "60000 dvd now - 86400000"
    using assms(4) by (simp add: dvd_diff)
  have shift: "walk_due (sch_intl d) c (timezone v) (now + e) 0 (now + e - 86400000) [] =
      map_sum id (map (\<lambda>t. t + e)) (walk_due (sch_intl d) c (timezone v) now 0 (now - 86400000) [])" for c
    using walk_due_shift [OF assms(1,2) start, of c now 0 "[]"] by (simp add: algebra_simps)
  have eq: "fst (computeDue d v None (now + e) s) = map_sum id (map (\<lambda>t. t + e)) (fst (computeDue d v None now s))"
    using assms(3) by (auto simp: computeDue_def andThen_def cached_parse_app validate_supported [OF assms(1)] Let_def shift
        split: option.splits sum.splits)
  have "list_all (\<lambda>t. 60000 dvd t) due" if "fst (computeDue d v None now s) = Inr due" for due
    using that assms(3) walk_due_aligned [OF assms(1) start]
    by (auto simp: computeDue_def andThen_def cached_parse_app validate_supported [OF assms(1)] Let_def split: option.splits sum.splits if_splits)
  moreover have "\<not> 60000 dvd t + e" if "60000 dvd t" for t
    using that assms(5,6) by (simp add: dvd_add_right_iff zdvd_not_zless)
  ultimately show ?thesis
    unfolding eq by (force simp: list_all_iff split: sum.splits)
qed

text \<open>
  One schedule without a next run stops the tick for all. When the first active schedule is
  recurring and its expression matches nothing for a year from its watermark, the tick throws before
  it has admitted anything, and leaves the store and the admitter as they were; the next tick meets
  the same schedule again.
\<close>

theorem poison_schedule_stops_tick:
  assumes "listActive tenant (sdb s) = sched # rest" "getCurrentVersion (scheduleId sched) (sdb s) = Some v"
    and "kind v = Recurring" "cron v = Some expr" "expr \<noteq> []" "parseCron expr = Inr c" "tget (parsedCache s) expr \<in> {None, Some c}"
    and "nextRun (sch_intl d) c (case lastAdmittedAt sched of None \<Rightarrow> now - 86400000 | Some t \<Rightarrow> t) (timezone v) = Inl e"
  shows "fst (tick d now tenant s) = Inl BadCron \<and> sdb (snd (tick d now tenant s)) = sdb s \<and>
    admitter_state (snd (tick d now tenant s)) = admitter_state s"
proof -
  have "walk_due (sch_intl d) c (timezone v) now 0 (case lastAdmittedAt sched of None \<Rightarrow> now - 86400000 | Some t \<Rightarrow> t) [] = Inl e"
    using assms(8) by (subst walk_due.simps) (simp add: DUE_CAP_def)
  then have "fst (computeDue d v (lastAdmittedAt sched) now s) = Inl BadCron"
    using assms(3-7) by (auto simp: computeDue_def andThen_def cached_parse_app Let_def split: sum.splits option.splits)
  then obtain s' where due: "computeDue d v (lastAdmittedAt sched) now s = (Inl BadCron, s')"
    by (metis prod.collapse)
  then have "tick d now tenant s = (Inl BadCron, s')"
    using assms(1,2) by (simp add: tick_def andThen_def)
  then show ?thesis
    using computeDue_frame [of d v "lastAdmittedAt sched" now s] due by simp
qed

section \<open>What a tick admits\<close>

definition occ_ids :: "schedule_db \<Rightarrow> string set" where
  "occ_ids db = occurrenceId ` set (schedule_occurrences db)"

text \<open>
  After some of a tick's work: the runs it reports are of different occurrences, none of which was in
  the store before, and each is recorded with its run.
\<close>

definition tick_good :: "schedule_db \<Rightarrow> 'w sched_state \<Rightarrow> admitted_run list \<Rightarrow> bool" where
  "tick_good db0 s adm \<longleftrightarrow> occ_ids db0 \<subseteq> occ_ids (sdb s) \<and> distinct (map ar_occurrenceId adm) \<and>
     (\<forall>a \<in> set adm. ar_occurrenceId a \<notin> occ_ids db0 \<and>
        (\<exists>r \<in> set (schedule_occurrences (sdb s)). occurrenceId r = ar_occurrenceId a \<and> admittedRunId r = Some (ar_runId a)))"

lemma on_store_Inr: "on_store m s = (Inr x, s') \<longleftrightarrow> (\<exists>db. m (sdb s) = (Inr x, db) \<and> s' = s\<lparr>sdb := db\<rparr>)"
  by (auto simp: on_store_def split: prod.splits)

lemma setAdmittedRun_Inr:
  "setAdmittedRun hook oid run now db = (Inr (), db') \<Longrightarrow> schedule_occurrences db' =
     sql_update (\<lambda>r. occurrenceId r = oid) (\<lambda>r. r\<lparr>admittedRunId := Some run, admittedAt := Some now\<rparr>) (schedule_occurrences db)"
  by (cases db) (auto simp: setAdmittedRun_def atomic_Inr)

lemma advanceWatermark_Inr: "advanceWatermark hook now sid t n db = (Inr b, db') \<Longrightarrow> schedule_occurrences db' = schedule_occurrences db"
  by (cases db) (auto simp: advanceWatermark_def atomic_Inr andThen_def)

lemma recordOccurrence_old: "recordOccurrence hook oid sid n t now db = (Inr (False, r), db') \<Longrightarrow> db' = db"
  by (cases db; auto simp: recordOccurrence_def atomic_Inr catch_def andThen_def insert_row_app Let_def split: option.splits if_splits)

lemma recordOccurrence_new:
  "recordOccurrence hook oid sid n t now db = (Inr (True, r), db') \<Longrightarrow> oid \<notin> occ_ids db"
  by (cases db; auto simp: recordOccurrence_def atomic_Inr catch_def andThen_def insert_row_app Let_def sql_clash_iff occurrence_clash_def
      occ_ids_def split: option.splits if_splits)

lemma call_admitter_sdb: "call_admitter d a s = (r, s') \<Longrightarrow> sdb s' = sdb s"
  by (auto simp: call_admitter_def split: prod.splits sum.splits)

lemma tick_good_admit:
  assumes good: "tick_good db0 s adm"
    and rec: "recordOccurrence hook oid sid n t now (sdb s) = (Inr (True, r), db1)"
    and occs: "schedule_occurrences (sdb s') = sql_update (\<lambda>r. occurrenceId r = oid) (\<lambda>r. r\<lparr>admittedRunId := Some run, admittedAt := Some now\<rparr>) (schedule_occurrences db1)"
  shows "tick_good db0 s' (adm @ [\<lparr>ar_scheduleId = sid, ar_occurrenceId = oid, ar_runId = run\<rparr>])"
proof -
  have new: "oid \<notin> occ_ids (sdb s)"
    by (rule recordOccurrence_new [OF rec])
  then have "\<forall>x \<in> set (schedule_occurrences (sdb s)). occurrenceId x \<noteq> oid"
    by (auto simp: occ_ids_def)
  then have "sql_update (\<lambda>r. occurrenceId r = oid) f (schedule_occurrences (sdb s)) = schedule_occurrences (sdb s)" for f
    by (rule sql_update_none)
  moreover have "schedule_occurrences db1 = schedule_occurrences (sdb s) @ [r]" "occurrenceId r = oid"
    using recordOccurrence_True [OF rec] by simp_all
  ultimately have rows: "set (schedule_occurrences (sdb s')) = insert (r\<lparr>admittedRunId := Some run, admittedAt := Some now\<rparr>) (set (schedule_occurrences (sdb s)))"
      and r: "occurrenceId r = oid"
    using occs by simp_all
  have "occ_ids (sdb s') = insert oid (occ_ids (sdb s))"
    using r by (simp add: occ_ids_def rows)
  moreover have "ar_occurrenceId ` set adm \<subseteq> occ_ids (sdb s)" "occ_ids db0 \<subseteq> occ_ids (sdb s)"
    using good unfolding tick_good_def occ_ids_def by (metis image_eqI image_subsetI)+
  ultimately have "occ_ids db0 \<subseteq> occ_ids (sdb s')" "oid \<notin> ar_occurrenceId ` set adm" "oid \<notin> occ_ids db0"
    using new by auto
  moreover have "\<exists>x \<in> set (schedule_occurrences (sdb s')). occurrenceId x = oid \<and> admittedRunId x = Some run"
    by (simp add: rows r)
  moreover have "\<exists>x \<in> set (schedule_occurrences (sdb s')). occurrenceId x = ar_occurrenceId a \<and> admittedRunId x = Some (ar_runId a)"
    if "a \<in> set adm" for a
    using good that by (simp add: tick_good_def rows)
  ultimately show ?thesis
    using good by (simp add: tick_good_def)
qed

lemma tick_times_good:
  assumes "tick_good db0 s (fst acc)" "tick_times d now sched v ts acc s = (Inr res, s')"
  shows "tick_good db0 s' (fst res)"
  using assms
proof (induction ts arbitrary: acc s)
  case (Cons t ts)
  define oid where "oid = occurrence_id (sch_host d) (scheduleId sched) t"
  let ?more = "\<lambda>run. tick_times d now sched v ts
      (fst acc @ [\<lparr>ar_scheduleId = scheduleId sched, ar_occurrenceId = oid, ar_runId = run\<rparr>], snd acc)"
  let ?admit = "call_admitter d \<lparr>adm_owner = s_owner sched, adm_automationVersionId = automationVersionId v,
      adm_input = sv_input v, adm_occurrenceId = oid, adm_idempotencyKey = oid\<rparr>"
  obtain x s1 where x: "on_store (recordOccurrence (sch_hook d) oid (scheduleId sched) (currentVersion sched) t now) s = (Inr x, s1)"
    and more: "(case x of (fresh, _) \<Rightarrow> if \<not> fresh then tick_times d now sched v ts (fst acc, Suc (snd acc))
      else andThen ?admit (\<lambda>run.
        andThen (on_store (setAdmittedRun (sch_hook d) oid run now)) (\<lambda>_.
        andThen (on_store (advanceWatermark (sch_hook d) now (scheduleId sched) t (currentVersion sched))) (\<lambda>_. ?more run)))) s1 = (Inr res, s')"
    using Cons.prems(2) unfolding tick_times.simps Let_def andThen_Inr_iff oid_def by blast
  obtain fresh r where fr: "x = (fresh, r)"
    by (cases x)
  obtain db1 where rec: "recordOccurrence (sch_hook d) oid (scheduleId sched) (currentVersion sched) t now (sdb s) = (Inr (fresh, r), db1)"
    and s1: "s1 = s\<lparr>sdb := db1\<rparr>"
    using x unfolding on_store_Inr fr by blast
  show ?case
  proof (cases fresh)
    case False
    then have "s1 = s"
      using recordOccurrence_old [of _ oid] rec s1 by simp
    then show ?thesis
      using more fr False Cons.IH [of s "(fst acc, Suc (snd acc))"] Cons.prems(1) by simp
  next
    case True
    obtain run s2 u s3 b s4 where admit: "?admit s1 = (Inr run, s2)"
      and set: "on_store (setAdmittedRun (sch_hook d) oid run now) s2 = (Inr u, s3)"
      and water: "on_store (advanceWatermark (sch_hook d) now (scheduleId sched) t (currentVersion sched)) s3 = (Inr b, s4)"
      and rest: "?more run s4 = (Inr res, s')"
      using more True fr by (simp add: andThen_Inr_iff) blast
    have "schedule_occurrences (sdb s4) = sql_update (\<lambda>r. occurrenceId r = oid) (\<lambda>r. r\<lparr>admittedRunId := Some run, admittedAt := Some now\<rparr>) (schedule_occurrences (sdb s1))"
      using set water call_admitter_sdb [OF admit] by (auto simp: on_store_Inr setAdmittedRun_Inr advanceWatermark_Inr)
    then have "tick_good db0 s4 (fst acc @ [\<lparr>ar_scheduleId = scheduleId sched, ar_occurrenceId = oid, ar_runId = run\<rparr>])"
      using tick_good_admit [OF Cons.prems(1), of "sch_hook d" oid "scheduleId sched"] rec True s1 by simp
    then show ?thesis
      using Cons.IH rest by fastforce
  qed
qed simp

lemma tick_good_frame: "tick_good db0 s adm \<Longrightarrow> sdb s' = sdb s \<Longrightarrow> tick_good db0 s' adm"
  by (simp add: tick_good_def)

lemma tick_schedules_good:
  assumes "tick_good db0 s (fst acc)" "tick_schedules d now ss acc s = (Inr res, s')"
  shows "tick_good db0 s' (fst res)"
  using assms
proof (induction ss arbitrary: acc s)
  case (Cons sched ss)
  show ?case
  proof (cases "getCurrentVersion (scheduleId sched) (sdb s)")
    case None
    then show ?thesis using Cons by simp
  next
    case (Some v)
    then obtain due s1 where due: "computeDue d v (lastAdmittedAt sched) now s = (Inr due, s1)"
      and rest: "(if due = [] then tick_schedules d now ss acc
         else andThen (tick_times d now sched v (missed_runs d v due) acc) (tick_schedules d now ss)) s1 = (Inr res, s')"
      using Cons.prems(2) by (auto simp: andThen_Inr_iff)
    have s1: "tick_good db0 s1 (fst acc)"
      using computeDue_frame(1) [of d v "lastAdmittedAt sched" now s] due tick_good_frame [OF Cons.prems(1)] by simp
    show ?thesis
    proof (cases "due = []")
      case True
      then show ?thesis using rest Cons.IH [OF s1] by simp
    next
      case False
      then obtain acc' s2 where "tick_times d now sched v (missed_runs d v due) acc s1 = (Inr acc', s2)" "tick_schedules d now ss acc' s2 = (Inr res, s')"
        using rest by (auto simp: andThen_Inr_iff)
      then show ?thesis
        using Cons.IH tick_times_good [OF s1] by blast
    qed
  qed
qed simp

text \<open>
  C17. A tick admits the occurrences it creates: when a tick returns, the runs it reports are of distinct
  occurrences that were not recorded before the tick, and each is recorded with the run the admitter
  returned for it.
\<close>

theorem tick_admits_new:
  assumes "tick d now tenant s = (Inr (adm, skipped), s')"
  shows "distinct (map ar_occurrenceId adm) \<and>
    (\<forall>a \<in> set adm. ar_occurrenceId a \<notin> occurrenceId ` set (schedule_occurrences (sdb s)) \<and>
      (\<exists>r \<in> set (schedule_occurrences (sdb s')). occurrenceId r = ar_occurrenceId a \<and> admittedRunId r = Some (ar_runId a)))"
proof -
  have "tick_good (sdb s) s []"
    by (simp add: tick_good_def)
  then have "tick_good (sdb s) s' adm"
    using assms tick_schedules_good [of "sdb s" s "([], 0)" d now "listActive tenant (sdb s)" "(adm, skipped)" s'] by (simp add: tick_def)
  then show ?thesis
    by (simp add: tick_good_def occ_ids_def)
qed

section \<open>A sample scheduler\<close>

definition sample_num :: "rat \<Rightarrow> string" where
  "sample_num q = replicate (nat \<lfloor>q\<rfloor>) (CHR ''1'')"

definition plain_host :: host where
  "plain_host = \<lparr>sha256 = id, num_str = sample_num\<rparr>"

text \<open>An admitter that counts its calls.\<close>

definition counting_scheduler :: "nat scheduler" where
  "counting_scheduler = scheduler_constructor (\<lambda>a n. (Inr ''run'', Suc n)) None utc_intl plain_host (\<lambda>_. None)"

definition one_time_spec :: "int \<Rightarrow> schedule_spec" where
  "one_time_spec t = \<lparr>kind = One_time, cron = None, scheduledAt = Some t, timezone = ''UTC'', automationVersionId = ''v'',
     missedRunPolicy = Skip, maxCatchUp = 1, sv_input = None\<rparr>"

definition cron_spec :: "string \<Rightarrow> schedule_spec" where
  "cron_spec expr = (one_time_spec 0)\<lparr>kind := Recurring, cron := Some expr, scheduledAt := None\<rparr>"

definition schedule_owner :: job_identity where
  "schedule_owner = \<lparr>tenantId = ''t1'', orgId = ''o1'', projectId = ''p1''\<rparr>"

definition sched_state_of :: "schedule_call list \<Rightarrow> nat sched_state" where
  "sched_state_of calls = \<lparr>sdb = schedule_steps plain_host (\<lambda>_. None) calls empty_schedules, parsedCache = [], admitter_state = 0\<rparr>"

theorem occurrence_admitted_once_witness:
  "\<exists>r. recordOccurrence (\<lambda>_. None) ''occ'' ''s1'' 1 5 8 (schedule_steps plain_host (\<lambda>_. None) [Set_run ''occ'' ''run'' 7]
      (schedule_step plain_host (\<lambda>_. None) (Record ''occ'' ''s1'' 1 5 6) empty_schedules)) =
    (Inr (False, r), schedule_steps plain_host (\<lambda>_. None) [Set_run ''occ'' ''run'' 7]
      (schedule_step plain_host (\<lambda>_. None) (Record ''occ'' ''s1'' 1 5 6) empty_schedules))"
proof -
  let ?m = "recordOccurrence (\<lambda>_. None) ''occ'' ''s1'' 1 5 6" and ?db = "schedule_steps plain_host (\<lambda>_. None) [] empty_schedules"
  have "case fst (?m ?db) of Inl _ \<Rightarrow> False | Inr (b, _) \<Rightarrow> b"
    by code_simp
  then obtain r where r: "?m ?db = (Inr (True, r), snd (?m ?db))"
    by (cases "?m ?db"; cases "fst (?m ?db)") auto
  have "snd (?m ?db) = schedule_step plain_host (\<lambda>_. None) (Record ''occ'' ''s1'' 1 5 6) empty_schedules"
    by (simp add: schedule_steps_def)
  then show ?thesis
    using occurrence_admitted_once [OF r] by simp
qed

theorem tick_admits_new_witness:
  "let s = sched_state_of [Create 0 ''s1'' schedule_owner ''n'' (one_time_spec 5)]
   in \<exists>adm sk s'. tick counting_scheduler 9 None s = (Inr (adm, sk), s') \<and> map ar_runId adm = [''run''] \<and>
     (\<exists>r \<in> set (schedule_occurrences (sdb s')). admittedRunId r = Some ''run'')"
proof -
  let ?s = "sched_state_of [Create 0 ''s1'' schedule_owner ''n'' (one_time_spec 5)]"
  have "case fst (tick counting_scheduler 9 None ?s) of Inl _ \<Rightarrow> False | Inr (adm, _) \<Rightarrow> map ar_runId adm = [''run'']"
    by code_simp
  then obtain adm sk s' where t: "tick counting_scheduler 9 None ?s = (Inr (adm, sk), s')" "map ar_runId adm = [''run'']"
    by (cases "tick counting_scheduler 9 None ?s"; cases "fst (tick counting_scheduler 9 None ?s)") auto
  then obtain a where "adm = [a]" "ar_runId a = ''run''"
    by (cases adm) auto
  then show ?thesis
    using tick_admits_new [OF t(1)] t by (auto simp: Let_def)
qed

theorem due_times_follow_the_clock_witness:
  "let v = new_version plain_host 0 ''s1'' 1 (cron_spec ''* * * * *''); s = sched_state_of []
   in fst (computeDue counting_scheduler v None (86400000 + 1) s) = map_sum id (map (\<lambda>t. t + 1)) (fst (computeDue counting_scheduler v None 86400000 s))"
proof -
  let ?v = "new_version plain_host 0 ''s1'' 1 (cron_spec ''* * * * *'')"
  have "sch_intl counting_scheduler = utc_intl" "timezone ?v = ''UTC''" "kind ?v = Recurring"
    by (simp_all add: counting_scheduler_def scheduler_constructor_def new_version_def cron_spec_def one_time_spec_def)
  then show ?thesis
    using due_times_follow_the_clock [of counting_scheduler ?v 1 86400000 "sched_state_of []"] utc_supported utc_whole_minutes
    by (simp add: Let_def)
qed

text \<open>A schedule for the 29th of February, a year and a day before which it was created, and another that is due.\<close>

theorem poison_schedule_stops_tick_witness:
  "let s = sched_state_of [Create 0 ''s1'' schedule_owner ''n'' (cron_spec ''0 0 29 2 *''), Create 0 ''s2'' schedule_owner ''n'' (one_time_spec 5)]
   in fst (tick counting_scheduler 1740873600000 None s) = Inl BadCron \<and> admitter_state (snd (tick counting_scheduler 1740873600000 None s)) = 0"
proof -
  let ?s = "sched_state_of [Create 0 ''s1'' schedule_owner ''n'' (cron_spec ''0 0 29 2 *''), Create 0 ''s2'' schedule_owner ''n'' (one_time_spec 5)]"
  have "case listActive None (sdb ?s) of [] \<Rightarrow> False | x # _ \<Rightarrow> scheduleId x = ''s1'' \<and> lastAdmittedAt x = None"
    by code_simp
  then obtain x rest where x: "listActive None (sdb ?s) = x # rest" "scheduleId x = ''s1''" "lastAdmittedAt x = None"
    by (auto split: list.splits)
  have "case getCurrentVersion ''s1'' (sdb ?s) of None \<Rightarrow> False | Some v \<Rightarrow> kind v = Recurring \<and> cron v = Some ''0 0 29 2 *'' \<and> timezone v = ''UTC''"
    by code_simp
  then obtain v where v: "getCurrentVersion ''s1'' (sdb ?s) = Some v" "kind v = Recurring" "cron v = Some ''0 0 29 2 *''" "timezone v = ''UTC''"
    by (auto split: option.splits)
  have "sch_intl counting_scheduler = utc_intl" "parsedCache ?s = []" "admitter_state ?s = 0"
    by (simp_all add: counting_scheduler_def scheduler_constructor_def sched_state_of_def)
  then show ?thesis
    using poison_schedule_stops_tick [OF x(1) _ v(2,3) _ feb29_parses, of counting_scheduler 1740873600000 CronParseError] x v feb29_never_scheduled
    by (simp add: Let_def)
qed

end
