(* ===== verification/Delivery_Guard.thy ===== *)
theory Delivery_Guard
  imports Audit_Log Contracts
begin

text \<open>
  The production delivery layer (\<^verbatim>\<open>vaulltcore-delivery/src\<close>): retry classes and the retry policy
  (\<^verbatim>\<open>contracts.ts\<close>, \<^verbatim>\<open>retry.ts\<close>) and the guard on outbound destinations
  (\<^verbatim>\<open>ssrf.ts\<close>). Address resolution and URL parsing are the platform's and arguments. Backoff
  times are computed with exact rationals.
\<close>

section \<open>Retry\<close>

datatype retry_class = Transient | Rate_limited | Auth_config | Permanent_validation | Provider_rejection | Unknown_uncertain

definition isRetriable :: "retry_class \<Rightarrow> bool" where
  "isRetriable c \<longleftrightarrow> c = Transient \<or> c = Rate_limited \<or> c = Unknown_uncertain"

text \<open>The options are optional; \<^verbatim>\<open>jitter\<close> is a draw of the jitter source.\<close>

record retry_policy =
  maxAttempts :: int
  baseMs :: rat
  maxMs :: rat
  multiplier :: rat

definition retry_constructor :: "int option \<Rightarrow> rat option \<Rightarrow> rat option \<Rightarrow> rat option \<Rightarrow> string + retry_policy" where
  "retry_constructor ma base mx mlt =
     (let p = \<lparr>maxAttempts = case_option 5 id ma, baseMs = case_option 1000 id base,
               maxMs = case_option (5 * 60 * 1000) id mx, multiplier = case_option 2 id mlt\<rparr>
      in check (maxAttempts p < 1) ''maxAttempts must be >= 1'' (Inr p))"

record retry_decision =
  rd_retriable :: bool
  nextRetryAt :: "int option"
  terminalFailureReason :: "string option"

definition terminalReason :: "retry_class \<Rightarrow> string" where
  "terminalReason c = (case c of
       Auth_config \<Rightarrow> ''auth_config_error''
     | Permanent_validation \<Rightarrow> ''permanent_validation_error''
     | Provider_rejection \<Rightarrow> ''provider_rejection''
     | _ \<Rightarrow> ''terminal'')"

text \<open>\<^verbatim>\<open>Math.pow(x, attempt - 1)\<close>, also for an attempt below 1.\<close>

definition pow_int :: "rat \<Rightarrow> int \<Rightarrow> rat" where
  "pow_int x n = (if 0 \<le> n then x ^ nat n else inverse (x ^ nat (- n)))"

definition backoffMs :: "retry_policy \<Rightarrow> int \<Rightarrow> rat" where
  "backoffMs p attempt = min (baseMs p * pow_int (multiplier p) (attempt - 1)) (maxMs p)"

definition decide :: "host \<Rightarrow> retry_policy \<Rightarrow> rat \<Rightarrow> int \<Rightarrow> retry_class \<Rightarrow> int \<Rightarrow> retry_decision" where
  "decide h p jitter attempt cls now =
     (if \<not> isRetriable cls then
        \<lparr>rd_retriable = False, nextRetryAt = None, terminalFailureReason = Some (terminalReason cls)\<rparr>
      else if attempt \<ge> maxAttempts p then
        \<lparr>rd_retriable = False, nextRetryAt = None,
         terminalFailureReason = Some (''max_attempts_exceeded ('' @ num_str h (of_int (maxAttempts p)) @ '')'')\<rparr>
      else
        (let exp = baseMs p * pow_int (multiplier p) (attempt - 1);
             capped = min exp (maxMs p);
             jittered = \<lfloor>capped * jitter\<rfloor>
         in \<lparr>rd_retriable = True, nextRetryAt = Some (now + jittered), terminalFailureReason = None\<rparr>))"

text \<open>
  The pattern \<^verbatim>\<open>/a.*b/\<close>: after an occurrence of \<open>a\<close>, \<open>b\<close> occurs before the line ends.
\<close>

fun contains_then :: "string \<Rightarrow> string \<Rightarrow> string \<Rightarrow> bool" where
  "contains_then a b [] = False"
| "contains_then a b (c # cs) =
     (take (length a) (c # cs) = a \<and>
        contains b (takeWhile (\<lambda>x. x \<noteq> CHR 0x0A \<and> x \<noteq> CHR 0x0D) (drop (length a) (c # cs))) \<or>
      contains_then a b cs)"

text \<open>The error is the message of an \<^verbatim>\<open>Error\<close>, or nothing; the response its status, or nothing.\<close>

definition defaultClassifier :: "string option \<Rightarrow> int option \<Rightarrow> retry_class" where
  "defaultClassifier err response =
     (let by_message = (case err of None \<Rightarrow> Unknown_uncertain
          | Some text' \<Rightarrow>
              let msg = map to_lower text'
              in if list_ex (\<lambda>w. contains w msg) [''timeout'', ''etimedout'', ''econnreset'', ''econnrefused'', ''enotfound'',
                   ''eai_again'', ''socket hang up'', ''fetch failed'', ''aborted'', ''connection reset''] then Transient
                 else if list_ex (\<lambda>w. contains w msg) [''rate limit'', ''429'', ''too many requests''] then Rate_limited
                 else if contains ''unauthorized'' msg \<or> contains ''forbidden'' msg \<or> contains_then ''invalid'' ''key'' msg \<or>
                   contains ''credential'' msg then Auth_config
                 else Unknown_uncertain)
      in case response of None \<Rightarrow> by_message
         | Some s \<Rightarrow>
             if s = 429 then Rate_limited
             else if s \<ge> 400 \<and> s < 500 \<and> s \<noteq> 408 \<and> s \<noteq> 429 then
               (if s = 401 \<or> s = 403 then Auth_config else Permanent_validation)
             else if s \<ge> 500 then Transient
             else by_message)"

section \<open>The guard\<close>

record delivery_error =
  de_code :: string
  de_message :: string
  de_retryClass :: retry_class
  de_status :: int

text \<open>
  A parsed URL: the components the code reads. \<open>parse_url\<close> is \<^verbatim>\<open>new URL(raw)\<close>,
  \<open>resolve_url\<close> is \<^verbatim>\<open>new URL(location, from)\<close>, \<open>bare_href\<close> is the text after the
  userinfo was cleared; \<open>isIPv6\<close> tells the texts that \<^verbatim>\<open>node:net\<close> takes for IPv6 addresses;
  \<open>resolve\<close> is the resolver, which acts on the state of the network.
\<close>

record url =
  u_protocol :: string
  u_username :: string
  u_password :: string
  u_hostname :: string
  u_port :: string
  u_pathname :: string
  u_search :: string
  u_href :: string

record 'w platform =
  parse_url :: "string \<Rightarrow> url option"
  resolve_url :: "string \<Rightarrow> string \<Rightarrow> url option"
  bare_href :: "url \<Rightarrow> string"
  isIPv6 :: "string \<Rightarrow> bool"
  resolve :: "string \<Rightarrow> 'w \<Rightarrow> string list option \<times> 'w"

record ssrf_guard =
  allowHttp :: bool
  allowPrivate :: bool

definition ssrf_constructor :: "bool option \<Rightarrow> bool option \<Rightarrow> ssrf_guard" where
  "ssrf_constructor http priv = \<lparr>allowHttp = case_option False id http, allowPrivate = case_option False id priv\<rparr>"

text \<open>\<^verbatim>\<open>net.isIP\<close>: four decimal octets without leading zeros, or an IPv6 address.\<close>

definition is_octet :: "string \<Rightarrow> bool" where
  "is_octet s \<longleftrightarrow> s \<noteq> [] \<and> list_all is_digit s \<and> length s \<le> 3 \<and> (length s > 1 \<longrightarrow> hd s \<noteq> CHR ''0'') \<and> decimal_value s \<le> 255"

definition isIPv4 :: "string \<Rightarrow> bool" where
  "isIPv4 s \<longleftrightarrow> length (split_on CHR ''.'' s) = 4 \<and> list_all is_octet (split_on CHR ''.'' s)"

definition isIP :: "(string \<Rightarrow> bool) \<Rightarrow> string \<Rightarrow> nat" where
  "isIP v6 s = (if isIPv4 s then 4 else if v6 s then 6 else 0)"

definition METADATA_HOSTS :: "string list" where
  "METADATA_HOSTS = [''169.254.169.254'', ''fd00:ec2::254'']"

definition startsWith :: "string \<Rightarrow> string \<Rightarrow> bool" where
  "startsWith p s \<longleftrightarrow> take (length p) s = p"

definition isForbiddenIp :: "(string \<Rightarrow> bool) \<Rightarrow> string \<Rightarrow> bool \<Rightarrow> bool" where
  "isForbiddenIp v6 ip allow =
     (let family = isIP v6 ip;
          v4 = (if startsWith ''::ffff:'' ip then drop 7 ip else ip)
      in if family = 0 then True
         else if List.member METADATA_HOSTS ip \<or> List.member METADATA_HOSTS v4 then True
         else if allow then False
         else if family = 4 then
           (case map decimal_value (split_on CHR ''.'' v4) of
              a # b # _ \<Rightarrow>
                a = 10 \<or> a = 127 \<or> a = 0 \<or> a = 169 \<and> b = 254 \<or> a = 172 \<and> b \<ge> 16 \<and> b \<le> 31 \<or>
                a = 192 \<and> b = 168 \<or> a = 100 \<and> b \<ge> 64 \<and> b \<le> 127 \<or> a \<ge> 224
            | _ \<Rightarrow> True)
         else
           (let low = map to_lower ip
            in low = ''::1'' \<or> startsWith ''fe80'' low \<or> startsWith ''fc'' low \<or> startsWith ''fd'' low \<or> startsWith ''ff'' low))"

text \<open>\<^verbatim>\<open>s.indexOf(w)\<close>.\<close>

fun index_of :: "string \<Rightarrow> string \<Rightarrow> int" where
  "index_of w [] = (if w = [] then 0 else - 1)"
| "index_of w (c # cs) = (if take (length w) (c # cs) = w then 0 else (let i = index_of w cs in if i < 0 then - 1 else i + 1))"

definition redactUrl :: "'w platform \<Rightarrow> string \<Rightarrow> string" where
  "redactUrl env raw = (case parse_url env raw of None \<Rightarrow> ''[invalid-url]''
     | Some u \<Rightarrow>
         let safe = bare_href env u; schemeEnd = nat (index_of ''://'' safe + 3)
         in if u_username u = [] \<and> u_password u = [] then safe
            else take schemeEnd safe @ ''[redacted]@'' @ drop schemeEnd safe)"

definition SsrfBlockedError :: "'w platform \<Rightarrow> string \<Rightarrow> string \<Rightarrow> delivery_error" where
  "SsrfBlockedError env dest reason = \<lparr>de_code = ''SSRF_BLOCKED'',
     de_message = ''Destination blocked by SSRF guard: '' @ reason @ '' ('' @ redactUrl env dest @ '')'',
     de_retryClass = Permanent_validation, de_status = 422\<rparr>"

definition check_url :: "'w platform \<Rightarrow> ssrf_guard \<Rightarrow> string \<Rightarrow> ('w, delivery_error, string \<times> string list) op" where
  "check_url env g raw =
     (let blocked = (\<lambda>reason. throw (SsrfBlockedError env raw reason)) in
      case parse_url env raw of None \<Rightarrow> blocked ''invalid URL''
      | Some u \<Rightarrow>
          if u_protocol u \<noteq> ''https:'' \<and> \<not> (allowHttp g \<and> u_protocol u = ''http:'')
          then blocked (''scheme '' @ u_protocol u @ '' not allowed'')
          else if u_username u \<noteq> [] \<or> u_password u \<noteq> [] then blocked ''userinfo in destination is not allowed''
          else if u_hostname u = [] then blocked ''empty host''
          else if list_ex is_space (u_hostname u) then blocked ''whitespace in host''
          else
            (\<lambda>w. case resolve env (u_hostname u) w of
               (None, w') \<Rightarrow> blocked ''DNS resolution failed'' w'
             | (Some addrs, w') \<Rightarrow>
                 (if addrs = [] then blocked ''no DNS records''
                  else case List.find (\<lambda>ip. isForbiddenIp (isIPv6 env) ip (allowPrivate g)) addrs of
                    Some ip \<Rightarrow> blocked (''resolves to forbidden address '' @ (if ip = u_hostname u then ip else ''[redacted]''))
                  | None \<Rightarrow> ok (u_href u, addrs)) w'))"

text \<open>\<^verbatim>\<open>checkRedirect\<close>; the error of \<^verbatim>\<open>new URL\<close> is not a guard error.\<close>

definition checkRedirect :: "'w platform \<Rightarrow> ssrf_guard \<Rightarrow> string \<Rightarrow> string \<Rightarrow> ('w, string + delivery_error, string \<times> string list) op" where
  "checkRedirect env g location from' = (case resolve_url env location from' of
       None \<Rightarrow> throw (Inl ''Invalid URL'')
     | Some u \<Rightarrow> (\<lambda>w. case check_url env g (u_href u) w of (Inl e, w') \<Rightarrow> (Inl (Inr e), w') | (Inr x, w') \<Rightarrow> (Inr x, w')))"

section \<open>Properties\<close>

text \<open>
  Retries are bounded: a decision to retry is made for a retriable class below the attempt cap
  only, and waits at least nothing and at most the maximum backoff, for a jitter in the unit interval
  and a policy with sensible options; otherwise the decision is terminal with a reason.
\<close>

theorem retry_bounded:
  assumes "0 \<le> jitter" "jitter \<le> 1" "0 \<le> baseMs p" "0 \<le> multiplier p" "0 \<le> maxMs p"
  shows "case nextRetryAt (decide h p jitter attempt cls now) of
      Some t \<Rightarrow> isRetriable cls \<and> attempt < maxAttempts p \<and> now \<le> t \<and> of_int (t - now) \<le> maxMs p \<and> of_int (t - now) \<le> backoffMs p attempt
    | None \<Rightarrow> terminalFailureReason (decide h p jitter attempt cls now) \<noteq> None"
proof -
  let ?c = "backoffMs p attempt"
  have "0 \<le> ?c" "?c \<le> maxMs p"
    using assms(3-5) by (auto simp: backoffMs_def pow_int_def)
  then have "0 \<le> ?c * jitter" "?c * jitter \<le> ?c"
    using assms(1,2) by (simp_all add: mult_left_le)
  then have "of_int \<lfloor>?c * jitter\<rfloor> \<le> ?c" "0 \<le> \<lfloor>?c * jitter\<rfloor>"
    using order.trans [OF of_int_floor_le] by simp_all
  then show ?thesis
    using \<open>?c \<le> maxMs p\<close> by (auto simp: decide_def Let_def backoffMs_def [symmetric])
qed

theorem retry_bounded_witness:
  "nextRetryAt (decide \<lparr>sha256 = id, num_str = (\<lambda>_. [])\<rparr> \<lparr>maxAttempts = 5, baseMs = 1000, maxMs = 3000, multiplier = 2\<rparr> (1 / 2) 3 Transient 100) = Some 1600 \<and>
   (1600 - 100 :: int) \<le> 3000"
  using retry_bounded [of "1 / 2" "\<lparr>maxAttempts = 5, baseMs = 1000, maxMs = 3000, multiplier = 2\<rparr>" "\<lparr>sha256 = id, num_str = (\<lambda>_. [])\<rparr>" 3 Transient 100]
  by (simp add: decide_def isRetriable_def pow_int_def Let_def)

text \<open>The networks an IPv4 destination must not be in: base address and prefix length.\<close>

definition FORBIDDEN_NETS :: "(nat \<times> nat) list" where
  "FORBIDDEN_NETS =
     [(10 * 2 ^ 24, 8), (127 * 2 ^ 24, 8), (0, 8), (169 * 2 ^ 24 + 254 * 2 ^ 16, 16), (172 * 2 ^ 24 + 16 * 2 ^ 16, 12),
      (192 * 2 ^ 24 + 168 * 2 ^ 16, 16), (100 * 2 ^ 24 + 64 * 2 ^ 16, 10), (224 * 2 ^ 24, 3)]"

definition in_net :: "nat \<Rightarrow> nat \<times> nat \<Rightarrow> bool" where
  "in_net addr n \<longleftrightarrow> addr div 2 ^ (32 - snd n) = fst n div 2 ^ (32 - snd n)"

definition ipv4_number :: "string \<Rightarrow> nat" where
  "ipv4_number ip = foldl (\<lambda>n x. 256 * n + x) 0 (map decimal_value (split_on CHR ''.'' ip))"

lemma octet_range:
  fixes a b k l u :: nat
  assumes "b < 256" "u < 256"
  shows "256 * k + l \<le> 256 * a + b \<and> 256 * a + b \<le> 256 * k + u \<longleftrightarrow> a = k \<and> l \<le> b \<and> b \<le> u"
  using assms by (cases a k rule: linorder_cases) auto

lemma div_range: "0 < n \<Longrightarrow> x div n = k \<longleftrightarrow> n * k \<le> x \<and> x \<le> n * k + (n - 1)" for n x k :: nat
  using div_nat_eqI [of n k x] by (auto simp: algebra_simps dest: dividend_less_times_div [of n x] intro: div_nat_eqI)

lemma octets_in_nets:
  assumes "a < 256" "b < 256" "c < 256" "d < 256"
  shows "list_ex (in_net (256 * (256 * (256 * a + b) + c) + d)) FORBIDDEN_NETS \<longleftrightarrow>
    a = 10 \<or> a = 127 \<or> a = 0 \<or> a = 169 \<and> b = 254 \<or> a = 172 \<and> b \<ge> 16 \<and> b \<le> 31 \<or>
    a = 192 \<and> b = 168 \<or> a = 100 \<and> b \<ge> 64 \<and> b \<le> 127 \<or> a \<ge> 224"
proof -
  define n where "n = 256 * (256 * (256 * a + b) + c) + d"
  have 16: "n div 65536 = 256 * a + b" and 24: "n div 16777216 = a"
    using assms by (simp_all add: n_def)
  have "n div 1048576 = n div 65536 div 16" "n div 4194304 = n div 65536 div 64" "n div 536870912 = n div 16777216 div 32"
    by (simp_all add: div_mult2_eq [symmetric])
  then have "n div 1048576 = (256 * a + b) div 16" "n div 4194304 = (256 * a + b) div 64" "n div 536870912 = a div 32"
    unfolding 16 24 by simp_all
  moreover have "(256 * a + b) div 16 = 2753 \<longleftrightarrow> a = 172 \<and> 16 \<le> b \<and> b \<le> 31"
    using octet_range [OF assms(2), of 31 172 16 a] div_range [of 16 "256 * a + b" 2753] by simp
  moreover have "(256 * a + b) div 64 = 401 \<longleftrightarrow> a = 100 \<and> 64 \<le> b \<and> b \<le> 127"
    using octet_range [OF assms(2), of 127 100 64 a] div_range [of 64 "256 * a + b" 401] by simp
  moreover have "a div 32 = 7 \<longleftrightarrow> 224 \<le> a"
    using assms(1) div_range [of 32 a 7] by simp
  moreover have "256 * a + b = 43518 \<longleftrightarrow> a = 169 \<and> b = 254" "256 * a + b = 49320 \<longleftrightarrow> a = 192 \<and> b = 168"
    using octet_range [OF assms(2), of 254 169 254 a] octet_range [OF assms(2), of 168 192 168 a] by auto
  ultimately show ?thesis
    unfolding n_def [symmetric] by (simp add: FORBIDDEN_NETS_def in_net_def 16 24)
qed

lemma split_acc_chars:
  "list_all (list_all P) (split_acc sep acc s) \<Longrightarrow> list_all P acc \<and> list_all (\<lambda>c. P c \<or> sep c) s"
  by (induction sep acc s rule: split_acc.induct) (auto split: if_splits)

lemma isIPv4_chars:
  assumes "isIPv4 ip"
  shows "list_all (\<lambda>c. is_digit c \<or> c = CHR ''.'') ip"
proof -
  have "list_all (list_all is_digit) (split_acc (\<lambda>c. c = CHR ''.'') [] ip)"
    using assms by (auto simp: isIPv4_def split_on_def is_octet_def list_all_iff)
  then show ?thesis
    using split_acc_chars by blast
qed

lemma colon_not_digit [simp]: "\<not> is_digit CHR '':''"
  by (simp add: is_digit_def)

lemma isIPv4_octets:
  assumes "isIPv4 ip"
  obtains a b c d where "map decimal_value (split_on CHR ''.'' ip) = [a, b, c, d]" "a < 256" "b < 256" "c < 256" "d < 256"
proof -
  obtain w x y z where p: "split_on CHR ''.'' ip = [w, x, y, z]"
    using assms by (auto simp: isIPv4_def length_Suc_conv numeral_eq_Suc)
  then show ?thesis
    using that [of "decimal_value w" "decimal_value x" "decimal_value y" "decimal_value z"] assms
    by (auto simp: isIPv4_def is_octet_def)
qed

lemma metadata_octets: "map decimal_value (split_on CHR ''.'' ''169.254.169.254'') = [169, 254, 169, 254]" "\<not> isIPv4 ''fd00:ec2::254''"
  by code_simp+

text \<open>
  For an IPv4 address the guard decides membership in the forbidden networks: with private
  destinations not allowed, an address is refused exactly when it is in one of 10/8, 127/8, 0/8,
  169.254/16, 172.16/12, 192.168/16, 100.64/10 and 224/3.
\<close>

theorem forbidden_ipv4_networks:
  assumes "isIPv4 ip"
  shows "isForbiddenIp v6 ip False \<longleftrightarrow> list_ex (in_net (ipv4_number ip)) FORBIDDEN_NETS"
proof -
  obtain a b c d where o: "map decimal_value (split_on CHR ''.'' ip) = [a, b, c, d]" "a < 256" "b < 256" "c < 256" "d < 256"
    by (rule isIPv4_octets [OF assms])
  have "\<not> startsWith ''::ffff:'' ip"
    using isIPv4_chars [OF assms] by (cases ip) (auto simp: startsWith_def)
  moreover have "ip = ''169.254.169.254'' \<Longrightarrow> a = 169 \<and> b = 254"
    using o(1) metadata_octets(1) by simp
  moreover have "ip \<noteq> ''fd00:ec2::254''"
    using assms metadata_octets(2) by blast
  moreover have "ipv4_number ip = 256 * (256 * (256 * a + b) + c) + d"
    by (simp add: ipv4_number_def o(1))
  ultimately show ?thesis
    using octets_in_nets [OF o(2-5)] assms o(1)
    by (auto simp: isForbiddenIp_def isIP_def METADATA_HOSTS_def)
qed

theorem forbidden_ipv4_networks_witness:
  "isForbiddenIp (\<lambda>_. False) ''172.20.0.9'' False \<and> list_ex (in_net (ipv4_number ''172.20.0.9'')) FORBIDDEN_NETS"
proof -
  have "isIPv4 ''172.20.0.9''" "isForbiddenIp (\<lambda>_. False) ''172.20.0.9'' False"
    by code_simp+
  then show ?thesis
    using forbidden_ipv4_networks by blast
qed

text \<open>
  An IPv4-mapped IPv6 address is not read as the IPv4 address it stands for: whatever IPv4 address
  other than the metadata one is written after the prefix, also a private or a loopback one, the
  guard lets it pass.
\<close>

lemma mapped_address_passes:
  assumes "isIPv4 ip" "v6 (''::ffff:'' @ ip)" "ip \<noteq> ''169.254.169.254''"
  shows "\<not> isForbiddenIp v6 (''::ffff:'' @ ip) False"
proof -
  have "\<not> isIPv4 (''::ffff:'' @ ip)"
    using isIPv4_chars [of "''::ffff:'' @ ip"] by auto
  moreover have "ip \<noteq> ''fd00:ec2::254''"
    using assms(1) metadata_octets(2) by blast
  ultimately show ?thesis
    using assms by (simp add: isForbiddenIp_def isIP_def METADATA_HOSTS_def startsWith_def to_lower_def is_upper_def)
qed

end
