(* ===== verification/Delivery_Providers.thy ===== *)
theory Delivery_Providers
  imports Delivery_Guard
begin

text \<open>
  The production delivery providers (\<^verbatim>\<open>vaulltcore-delivery/src/providers.ts\<close>): webhook, email and
  Slack. The HTTP transport, the mail transport and the decoding of a response body are arguments;
  the transport acts on the state \<open>'w\<close> of the network. The properties: every request goes to a
  destination the guard cleared, redirects included, and a settled key is answered without a request.
\<close>

section \<open>Bytes\<close>

text \<open>A byte array is a list of characters below 256. UTF-8 of the code units a string can hold.\<close>

definition encode_utf8 :: "string \<Rightarrow> string" where
  "encode_utf8 s = concat (map (\<lambda>c. let n = of_char c :: nat in
     if n < 128 then [c] else [char_of (192 + n div 64), char_of (128 + n mod 64)]) s)"

definition b64_char :: "nat \<Rightarrow> char" where
  "b64_char n = ''ABCDEFGHIJKLMNOPQRSTUVWXYZabcdefghijklmnopqrstuvwxyz0123456789+/'' ! n"

fun base64 :: "string \<Rightarrow> string" where
  "base64 [] = []"
| "base64 [x] = (let a = of_char x :: nat in [b64_char (a div 4), b64_char (a mod 4 * 16), CHR ''='', CHR ''=''])"
| "base64 [x, y] = (let a = of_char x :: nat; b = of_char y in
     [b64_char (a div 4), b64_char (a mod 4 * 16 + b div 16), b64_char (b mod 16 * 4), CHR ''=''])"
| "base64 (x # y # z # s) = (let a = of_char x :: nat; b = of_char y; c = of_char z in
     [b64_char (a div 4), b64_char (a mod 4 * 16 + b div 16), b64_char (b mod 16 * 4 + c div 64), b64_char (c mod 64)] @ base64 s)"

definition byte_list :: "host \<Rightarrow> string \<Rightarrow> string" where
  "byte_list h body = join (map (\<lambda>c. num_str h (of_nat (of_char c))) body)"

definition requestFingerprint :: "host \<Rightarrow> string \<Rightarrow> string \<Rightarrow> string \<Rightarrow> string list \<Rightarrow> string" where
  "requestFingerprint h meth url' body csums =
     sha256 h (meth @ [CHR 0x0A] @ url' @ [CHR 0x0A] @ byte_list h body @ [CHR 0x0A] @ join csums)"

type_synonym contents = "(string, string) table"

definition artifactsToPayload :: "host \<Rightarrow> automation_artifact list \<Rightarrow> contents \<Rightarrow> string" where
  "artifactsToPayload h arts cs = json_stringify h (JObj [(''artifacts'', JArr (map (\<lambda>a.
     JObj [(''artifactId'', JStr (artifactId a)), (''name'', JStr (art_name a)), (''type'', JStr (art_type a)),
           (''checksum'', JStr (art_checksum a)),
           (''content'', JStr (base64 (case tget cs (artifactId a) of None \<Rightarrow> [] | Some b \<Rightarrow> b)))]) arts))])"

section \<open>Responses\<close>

datatype header_value = H_undefined | H_text string | H_list "string list"

record http_response =
  hr_status :: int
  hr_headers :: "(string, header_value) table"
  hr_body :: string

record delivery_response =
  dresp_status :: int
  dresp_statusText :: "string option"
  dresp_headers :: "(string, string) table"
  dresp_body :: "string option"

definition auth_header :: "string \<Rightarrow> bool" where
  "auth_header k \<longleftrightarrow> list_ex (\<lambda>w. contains w (map to_lower k)) [''authorization'', ''cookie'', ''set-cookie'', ''x-api-key'', ''token'', ''secret'']"

primrec sanitizeResponseHeaders :: "(string, string) table \<Rightarrow> (string, string) table" where
  "sanitizeResponseHeaders [] = []"
| "sanitizeResponseHeaders (e # es) = (fst e, if auth_header (fst e) then ''[redacted]'' else snd e) # sanitizeResponseHeaders es"

fun comma_join :: "string list \<Rightarrow> string" where
  "comma_join [] = []"
| "comma_join [s] = s"
| "comma_join (s # ss) = s @ '', '' @ comma_join ss"

definition flat_headers :: "(string, header_value) table \<Rightarrow> (string, string) table" where
  "flat_headers hs = concat (map (\<lambda>(k, v). case v of H_undefined \<Rightarrow> [] | H_text s \<Rightarrow> [(k, s)] | H_list ss \<Rightarrow> [(k, comma_join ss)]) hs)"

definition httpResponseFromNode :: "(string \<Rightarrow> string) \<Rightarrow> http_response \<Rightarrow> delivery_response" where
  "httpResponseFromNode decode r = \<lparr>dresp_status = hr_status r, dresp_statusText = None,
     dresp_headers = sanitizeResponseHeaders (flat_headers (hr_headers r)),
     dresp_body = Some (take 4096 (decode (hr_body r)))\<rparr>"

section \<open>Webhook\<close>

record production_deliver_args =
  da_idempotencyKey :: string
  da_runId :: string
  da_destination :: string
  da_artifacts :: "automation_artifact list"
  da_contents :: contents
  da_owner :: job_identity
  da_headers :: "(string, string) table"

record deliver_result =
  res_delivered :: bool
  resultRef :: string
  res_response :: delivery_response
  res_retryClass :: retry_class

record http_target =
  t_protocol :: string
  t_hostname :: string
  t_port :: "nat option"

record http_request =
  rq_method :: string
  rq_path :: string
  rq_headers :: "(string, string) table"
  rq_body :: string
  rq_timeoutMs :: int

text \<open>A thrown value is the message of an \<^verbatim>\<open>Error\<close>, or something else.\<close>

record 'w webhook_provider =
  wh_platform :: "'w platform"
  wh_host :: host
  wh_ssrf :: ssrf_guard
  maxRedirects :: int
  timeoutMs :: int
  classifier :: "string option \<Rightarrow> int option \<Rightarrow> retry_class"
  transport :: "http_target \<Rightarrow> http_request \<Rightarrow> 'w \<Rightarrow> (string option + http_response) \<times> 'w"
  decode :: "string \<Rightarrow> string"

definition webhook_constructor ::
    "'w platform \<Rightarrow> host \<Rightarrow> (string \<Rightarrow> string) \<Rightarrow> (http_target \<Rightarrow> http_request \<Rightarrow> 'w \<Rightarrow> (string option + http_response) \<times> 'w) \<Rightarrow>
     ssrf_guard option \<Rightarrow> int option \<Rightarrow> int option \<Rightarrow> (string option \<Rightarrow> int option \<Rightarrow> retry_class) option \<Rightarrow> 'w webhook_provider" where
  "webhook_constructor env h dec tr guard mr tmo cls = \<lparr>wh_platform = env, wh_host = h,
     wh_ssrf = (case guard of None \<Rightarrow> ssrf_constructor (Some False) (Some False) | Some g \<Rightarrow> g),
     maxRedirects = case_option 0 id mr, timeoutMs = case_option 30000 id tmo,
     classifier = case_option defaultClassifier id cls, transport = tr, decode = dec\<rparr>"

record 'w webhook_state =
  settled :: "(string, deliver_result) table"
  attemptLog :: "(string \<times> int) list"
  net :: 'w

datatype webhook_error = Delivery delivery_error | TypeErr string

type_synonym ('w, 'a) webhook_op = "('w webhook_state, webhook_error, 'a) op"

text \<open>\<^verbatim>\<open>Number(port) || null\<close>.\<close>

definition target_of :: "url \<Rightarrow> http_target" where
  "target_of u = \<lparr>t_protocol = u_protocol u, t_hostname = u_hostname u,
     t_port = (if decimal_value (u_port u) = 0 then None else Some (decimal_value (u_port u)))\<rparr>"

definition on_net :: "('w, 'e, 'a) op \<Rightarrow> ('w webhook_state, 'e, 'a) op" where
  "on_net m = (\<lambda>s. case m (net s) of (r, w) \<Rightarrow> (r, s\<lparr>net := w\<rparr>))"

text \<open>What is thrown inside the \<^verbatim>\<open>try\<close>, with the URL of the moment.\<close>

type_synonym ('w, 'a) try_op = "('w, string option \<times> string, 'a) op"

definition send :: "'w webhook_provider \<Rightarrow> (string, string) table \<Rightarrow> string \<Rightarrow> string \<Rightarrow> url \<Rightarrow> ('w, http_response) try_op" where
  "send p headers body current u = (\<lambda>w. case transport p (target_of u)
       \<lparr>rq_method = ''POST'', rq_path = u_pathname u @ u_search u, rq_headers = headers, rq_body = body, rq_timeoutMs = timeoutMs p\<rparr> w of
     (Inl e, w') \<Rightarrow> (Inl (e, current), w') | (Inr r, w') \<Rightarrow> (Inr r, w'))"

definition location_of :: "http_response \<Rightarrow> string option" where
  "location_of r = (case tget (hr_headers r) ''location'' of
       Some (H_text s) \<Rightarrow> if s = [] then None else Some s
     | Some (H_list (s # _)) \<Rightarrow> if s = [] then None else Some s
     | _ \<Rightarrow> None)"

definition redirect_check :: "'w webhook_provider \<Rightarrow> string \<Rightarrow> string \<Rightarrow> ('w, string \<times> string list) try_op" where
  "redirect_check p location current = (\<lambda>w. case checkRedirect (wh_platform p) (wh_ssrf p) location current w of
       (Inl (Inl msg), w') \<Rightarrow> (Inl (Some msg, current), w')
     | (Inl (Inr e), w') \<Rightarrow> (Inl (Some (de_message e), current), w')
     | (Inr x, w') \<Rightarrow> (Inr x, w'))"

text \<open>The redirect loop; the number counts down the hops that are left.\<close>

primrec follow ::
    "'w webhook_provider \<Rightarrow> (string, string) table \<Rightarrow> string \<Rightarrow> nat \<Rightarrow> string \<Rightarrow> http_response \<Rightarrow> ('w, string \<times> http_response) try_op" where
  "follow p headers body 0 current res = ok (current, res)"
| "follow p headers body (Suc hops) current res =
     (if hr_status res \<ge> 300 \<and> hr_status res < 400 then
        (case location_of res of None \<Rightarrow> ok (current, res)
         | Some loc \<Rightarrow>
             andThen (redirect_check p loc current) (\<lambda>next.
             case parse_url (wh_platform p) (fst next) of None \<Rightarrow> throw (Some ''Invalid URL'', fst next)
             | Some np \<Rightarrow>
                 andThen (send p headers body (fst next) np) (\<lambda>res'.
                 follow p headers body hops (fst next) res')))
      else ok (current, res))"

definition webhook_exchange :: "'w webhook_provider \<Rightarrow> (string, string) table \<Rightarrow> string \<Rightarrow> string \<Rightarrow> url \<Rightarrow> ('w, string \<times> http_response) try_op" where
  "webhook_exchange p headers body current u =
     andThen (send p headers body current u) (\<lambda>res. follow p headers body (nat (maxRedirects p)) current res)"

definition webhook_headers :: "host \<Rightarrow> string \<Rightarrow> production_deliver_args \<Rightarrow> (string, string) table" where
  "webhook_headers h body a = foldl (\<lambda>t e. tput (fst e) (snd e) t)
     [(''content-type'', ''application/json''), (''content-length'', num_str h (of_nat (length body))),
      (''x-vc-idempotency-key'', da_idempotencyKey a)] (da_headers a)"

definition delivery_failed :: "string \<Rightarrow> string \<Rightarrow> retry_class \<Rightarrow> int \<Rightarrow> ('w, 'a) webhook_op" where
  "delivery_failed code' msg cls st =
     throw (Delivery \<lparr>de_code = code', de_message = msg, de_retryClass = cls, de_status = st\<rparr>)"

text \<open>What follows the exchange: the log, and the settlement or the error.\<close>

definition webhook_settle :: "'w webhook_provider \<Rightarrow> production_deliver_args \<Rightarrow> string \<Rightarrow> string \<Rightarrow> http_response \<Rightarrow> ('w, deliver_result) webhook_op" where
  "webhook_settle p a body current res =
     (let response = httpResponseFromNode (decode p) res; env = wh_platform p; h = wh_host p in
      andThen (modifies (attemptLog_update (\<lambda>l. l @ [(da_idempotencyKey a, hr_status res)]))) (\<lambda>_.
      if hr_status res \<ge> 200 \<and> hr_status res < 300 then
        (let result = \<lparr>res_delivered = True,
               resultRef = ''webhook:'' @ redactUrl env current @ ''#'' @
                 requestFingerprint h ''POST'' current body (map art_checksum (da_artifacts a)),
               res_response = response, res_retryClass = Transient\<rparr>
         in andThen (modifies (settled_update (tput (da_idempotencyKey a) result))) (\<lambda>_. ok result))
      else
        delivery_failed ''WEBHOOK_FAILED''
          (''Webhook delivery failed with status '' @ num_str h (of_int (hr_status res)) @ '' to '' @ redactUrl env current)
          (classifier p (Some (''webhook status '' @ num_str h (of_int (hr_status res)))) (Some (hr_status res)))
          (if hr_status res \<ge> 500 then 502 else 422)))"

definition webhook_deliver :: "'w webhook_provider \<Rightarrow> production_deliver_args \<Rightarrow> ('w, deliver_result) webhook_op" where
  "webhook_deliver p a = andThen (reads (\<lambda>s. tget (settled s) (da_idempotencyKey a))) (\<lambda>existing.
     case existing of Some r \<Rightarrow> ok r
     | None \<Rightarrow> (\<lambda>s.
         case on_net (check_url (wh_platform p) (wh_ssrf p) (da_destination a)) s of
           (Inl e, s') \<Rightarrow> (Inl (Delivery e), s')
         | (Inr (checked, _), s') \<Rightarrow>
             (let body = encode_utf8 (artifactsToPayload (wh_host p) (da_artifacts a) (da_contents a));
                  headers = webhook_headers (wh_host p) body a
              in case parse_url (wh_platform p) checked of
                None \<Rightarrow> (Inl (TypeErr ''Invalid URL''), s')
              | Some u \<Rightarrow>
                  (case on_net (webhook_exchange p headers body checked u) s' of
                     (Inl (msg, current), s'') \<Rightarrow>
                       delivery_failed ''WEBHOOK_ERROR''
                         (''Webhook delivery error: '' @ (case msg of None \<Rightarrow> ''unknown'' | Some t \<Rightarrow> t) @ '' to '' @ redactUrl (wh_platform p) current)
                         (classifier p msg None) 502 s''
                   | (Inr (current, res), s'') \<Rightarrow> webhook_settle p a body current res s''))))"

section \<open>Email\<close>

text \<open>\<^verbatim>\<open>/^[^@\\s]+@[^@\\s]+\\.[^@\\s]+$/\<close>.\<close>

definition email_shape :: "string \<Rightarrow> bool" where
  "email_shape s = (case split_on CHR ''@'' s of
       [l, d] \<Rightarrow> l \<noteq> [] \<and> \<not> list_ex is_space s \<and> list_ex (\<lambda>i. d ! i = CHR ''.'') [1..<length d - 1]
     | _ \<Rightarrow> False)"

record email =
  em_from :: string
  em_to :: string
  em_subject :: string
  em_body :: string
  em_headers :: "(string, string) table"

record 'w email_provider =
  ep_host :: host
  ep_from :: string
  ep_transport :: "email \<Rightarrow> 'w \<Rightarrow> (string option + string) \<times> 'w"
  subjectFn :: "string \<Rightarrow> string"
  ep_classifier :: "string option \<Rightarrow> int option \<Rightarrow> retry_class"

definition email_constructor ::
    "host \<Rightarrow> string \<Rightarrow> (email \<Rightarrow> 'w \<Rightarrow> (string option + string) \<times> 'w) \<Rightarrow> (string \<Rightarrow> string) option \<Rightarrow>
     (string option \<Rightarrow> int option \<Rightarrow> retry_class) option \<Rightarrow> 'w email_provider" where
  "email_constructor h from' tr subj cls = \<lparr>ep_host = h, ep_from = from', ep_transport = tr,
     subjectFn = (case subj of None \<Rightarrow> (\<lambda>runId. ''Vaulltcore automation result: '' @ runId) | Some f \<Rightarrow> f),
     ep_classifier = case_option defaultClassifier id cls\<rparr>"

record 'w email_state =
  e_settled :: "(string, deliver_result) table"
  sentLog :: "string list"
  e_net :: 'w

definition email_deliver :: "'w email_provider \<Rightarrow> production_deliver_args \<Rightarrow> ('w email_state, delivery_error, deliver_result) op" where
  "email_deliver p a = andThen (reads (\<lambda>s. tget (e_settled s) (da_idempotencyKey a))) (\<lambda>existing.
     case existing of Some r \<Rightarrow> ok r
     | None \<Rightarrow>
         if \<not> email_shape (da_destination a)
         then throw \<lparr>de_code = ''EMAIL_INVALID'', de_message = ''Invalid email destination'', de_retryClass = Permanent_validation, de_status = 422\<rparr>
         else (\<lambda>s.
           case ep_transport p \<lparr>em_from = ep_from p, em_to = da_destination a, em_subject = subjectFn p (da_runId a),
               em_body = artifactsToPayload (ep_host p) (da_artifacts a) (da_contents a),
               em_headers = [(''x-vc-idempotency-key'', da_idempotencyKey a)]\<rparr> (e_net s) of
             (Inl e, w) \<Rightarrow> (Inl \<lparr>de_code = ''EMAIL_FAILED'',
                 de_message = ''Email delivery failed: '' @ (case e of None \<Rightarrow> ''unknown'' | Some t \<Rightarrow> t),
                 de_retryClass = ep_classifier p e None, de_status = 502\<rparr>, s\<lparr>e_net := w\<rparr>)
           | (Inr mid, w) \<Rightarrow>
               (let out = \<lparr>res_delivered = True, resultRef = ''email:'' @ mid,
                      res_response = \<lparr>dresp_status = 250, dresp_statusText = Some ''OK'', dresp_headers = [(''message-id'', mid)], dresp_body = None\<rparr>,
                      res_retryClass = Transient\<rparr>
                in (Inr out, s\<lparr>e_net := w, e_settled := tput (da_idempotencyKey a) out (e_settled s), sentLog := sentLog s @ [da_idempotencyKey a]\<rparr>))))"

section \<open>Slack\<close>

text \<open>
  The bytes of \<^verbatim>\<open>JSON.stringify({ text })\<close>. A line of the text starts with a bullet, whose
  UTF-8 has three bytes.
\<close>

definition bullet :: string where
  "bullet = [CHR 0xE2, CHR 0x80, CHR 0xA2]"

definition slack_line :: "automation_artifact \<Rightarrow> string" where
  "slack_line a = bullet @ encode_utf8 (concat (map escape_char
     ('' *'' @ art_name a @ ''* (sha256:'' @ take 12 (art_checksum a) @ '')'')))"

definition slack_text :: "automation_artifact list \<Rightarrow> string" where
  "slack_text as = (if as = [] then ''Automation completed.''
     else foldr (\<lambda>l rest. if rest = [] then l else l @ [CHR 0x5C, CHR ''n''] @ rest) (map slack_line as) [])"

definition slack_payload :: "automation_artifact list \<Rightarrow> string" where
  "slack_payload as = ''{'' @ quote ''text'' @ '':'' @ [CHR 0x22] @ slack_text as @ [CHR 0x22] @ ''}''"

definition slack_args :: "int \<Rightarrow> string \<Rightarrow> production_deliver_args \<Rightarrow> production_deliver_args" where
  "slack_args now webhookUrl a = a\<lparr>da_destination := webhookUrl,
     da_artifacts := [\<lparr>artifactId = ''slack'', art_runId = da_runId a, art_versionId = [], art_stepId = None, art_type = ''slack-message'',
        art_name = ''message'', contentRef = [], art_checksum = [], art_size = None, art_createdAt = now, art_metadata = JObj []\<rparr>],
     da_contents := [(''slack'', slack_payload (da_artifacts a))]\<rparr>"

definition slack_constructor ::
    "'w platform \<Rightarrow> host \<Rightarrow> (string \<Rightarrow> string) \<Rightarrow> (http_target \<Rightarrow> http_request \<Rightarrow> 'w \<Rightarrow> (string option + http_response) \<times> 'w) \<Rightarrow>
     ssrf_guard option \<Rightarrow> int option \<Rightarrow> (string option \<Rightarrow> int option \<Rightarrow> retry_class) option \<Rightarrow> 'w webhook_provider" where
  "slack_constructor env h dec tr guard tmo cls =
     webhook_constructor env h dec tr
       (Some (case guard of None \<Rightarrow> ssrf_constructor (Some False) (Some False) | Some g \<Rightarrow> g)) None (Some (case_option 15000 id tmo)) cls"

definition slack_deliver :: "'w webhook_provider \<Rightarrow> int \<Rightarrow> string \<Rightarrow> production_deliver_args \<Rightarrow> ('w, deliver_result) webhook_op" where
  "slack_deliver p now webhookUrl a = webhook_deliver p (slack_args now webhookUrl a)"

section \<open>Cleared destinations\<close>

text \<open>
  A target the guard let pass: of a URL with an allowed scheme and no userinfo whose host resolved, at
  some state of the network, to addresses none of which is forbidden.
\<close>

definition cleared_url :: "'w platform \<Rightarrow> ssrf_guard \<Rightarrow> url \<Rightarrow> bool" where
  "cleared_url env g u \<longleftrightarrow>
     (u_protocol u = ''https:'' \<or> allowHttp g \<and> u_protocol u = ''http:'') \<and> u_username u = [] \<and> u_password u = [] \<and> u_hostname u \<noteq> [] \<and>
     (\<exists>w addrs. fst (resolve env (u_hostname u) w) = Some addrs \<and> addrs \<noteq> [] \<and>
        (\<forall>ip \<in> set addrs. \<not> isForbiddenIp (isIPv6 env) ip (allowPrivate g)))"

lemma check_url_clears:
  assumes "check_url env g raw w = (Inr (href, addrs), w')"
  obtains u where "parse_url env raw = Some u" "href = u_href u" "cleared_url env g u"
proof -
  obtain u where u: "parse_url env raw = Some u"
    using assms by (cases "parse_url env raw") (simp_all add: check_url_def Let_def)
  have "href = u_href u \<and> cleared_url env g u"
  proof (cases "resolve env (u_hostname u) w")
    case (Pair r w1)
    then show ?thesis
      using assms u by (cases r) (auto simp: check_url_def cleared_url_def Let_def find_None_iff
        split: if_splits option.splits intro!: exI [of _ w])
  qed
  then show ?thesis using u that by blast
qed

text \<open>
  An invariant of the network state that the resolver keeps, and the transport keeps on cleared
  targets, in a platform whose serialised URLs parse back.
\<close>

definition url_roundtrip :: "'w platform \<Rightarrow> bool" where
  "url_roundtrip env \<longleftrightarrow> (\<forall>raw u. parse_url env raw = Some u \<longrightarrow> parse_url env (u_href u) = Some u)"

definition guarded :: "'w webhook_provider \<Rightarrow> ('w \<Rightarrow> bool) \<Rightarrow> bool" where
  "guarded p I \<longleftrightarrow> url_roundtrip (wh_platform p) \<and>
     (\<forall>host w. I w \<longrightarrow> I (snd (resolve (wh_platform p) host w))) \<and>
     (\<forall>u rq w. I w \<longrightarrow> cleared_url (wh_platform p) (wh_ssrf p) u \<longrightarrow> I (snd (transport p (target_of u) rq w)))"

lemma check_url_keeps:
  "guarded p I \<Longrightarrow> I w \<Longrightarrow> I (snd (check_url (wh_platform p) (wh_ssrf p) raw w))"
  by (auto simp: check_url_def Let_def guarded_def split: option.splits prod.splits) (metis snd_conv)+

lemma send_keeps: "guarded p I \<Longrightarrow> cleared_url (wh_platform p) (wh_ssrf p) u \<Longrightarrow> keeps I (send p headers body current u)"
  by (auto simp: keeps_def send_def guarded_def split: prod.splits sum.splits) (metis snd_conv)+

lemma redirect_check_keeps: "guarded p I \<Longrightarrow> keeps I (redirect_check p loc current)"
  using check_url_keeps [of p I]
  by (auto simp: keeps_def redirect_check_def checkRedirect_def split: prod.splits sum.splits option.splits) (metis snd_conv)+

lemma redirect_check_clears:
  assumes "url_roundtrip (wh_platform p)" "redirect_check p loc current w = (Inr next', w')" "parse_url (wh_platform p) (fst next') = Some np"
  shows "cleared_url (wh_platform p) (wh_ssrf p) np"
proof -
  have "\<exists>u :: url. check_url (wh_platform p) (wh_ssrf p) (u_href u) w = (Inr (fst next', snd next'), w')"
    using assms(2) by (auto simp: redirect_check_def checkRedirect_def split: prod.splits sum.splits option.splits)
  then obtain u :: url where "check_url (wh_platform p) (wh_ssrf p) (u_href u) w = (Inr (fst next', snd next'), w')" ..
  from check_url_clears [OF this] obtain v where
    "parse_url (wh_platform p) (u_href u) = Some v" "fst next' = u_href v" "cleared_url (wh_platform p) (wh_ssrf p) v" .
  then show ?thesis
    using assms(1,3) by (simp add: url_roundtrip_def)
qed

lemma follow_keeps: "guarded p I \<Longrightarrow> keeps I (follow p headers body hops current res)"
proof (induction hops arbitrary: current res)
  case (Suc hops)
  show ?case
  proof (rule keepsI)
    fix w r w'
    assume I: "I w" and f: "follow p headers body (Suc hops) current res w = (r, w')"
    show "I w'"
    proof (cases "hr_status res \<ge> 300 \<and> hr_status res < 400 \<and> location_of res \<noteq> None")
      case False
      then show ?thesis using I f by (auto split: if_splits option.splits)
    next
      case True
      then obtain loc where loc: "location_of res = Some loc" by blast
      obtain r1 w1 where rc: "redirect_check p loc current w = (r1, w1)" by (cases "redirect_check p loc current w")
      have w1: "I w1" by (rule keepsD [OF redirect_check_keeps [OF Suc.prems] I rc])
      show ?thesis
      proof (cases r1)
        case (Inl e)
        then show ?thesis using f True loc rc w1 by (simp add: andThen_def)
      next
        case (Inr nxt)
        show ?thesis
        proof (cases "parse_url (wh_platform p) (fst nxt)")
          case None
          then show ?thesis using f True loc rc w1 Inr by (simp add: andThen_def)
        next
          case (Some np)
          have "cleared_url (wh_platform p) (wh_ssrf p) np"
            using redirect_check_clears [of p loc current w nxt w1 np] Suc.prems rc Inr Some by (simp add: guarded_def)
          then have "keeps I (andThen (send p headers body (fst nxt) np) (\<lambda>res'. follow p headers body hops (fst nxt) res'))"
            by (intro keeps_andThen send_keeps Suc.IH Suc.prems)
          then show ?thesis
            using f True loc rc Inr Some w1 by (auto simp: andThen_Inr dest: keepsD)
        qed
      qed
    qed
  qed
qed (simp add: keeps_ok)

lemma webhook_settle_net: "net (snd (webhook_settle p a body current res s)) = net s"
  by (simp add: webhook_settle_def Let_def delivery_failed_def)

text \<open>
  C20. Every request goes to a cleared destination. The transport is called on targets the guard let pass
  only, also when it follows redirects: a property of the network state that resolving keeps, and
  that requests to cleared targets keep, is kept by \<^verbatim>\<open>deliver\<close>, whether it returns or throws.
  The platform's URLs parse back from their serialised form.
\<close>

theorem webhook_requests_cleared:
  assumes "url_roundtrip (wh_platform p)"
    and "\<And>host w. I w \<Longrightarrow> I (snd (resolve (wh_platform p) host w))"
    and "\<And>u rq w. I w \<Longrightarrow> cleared_url (wh_platform p) (wh_ssrf p) u \<Longrightarrow> I (snd (transport p (target_of u) rq w))"
    and "I (net s)"
  shows "I (net (snd (webhook_deliver p a s)))"
proof (cases "tget (settled s) (da_idempotencyKey a)")
  case None
  have g: "guarded p I"
    using assms(1-3) by (simp add: guarded_def)
  obtain r w where c: "check_url (wh_platform p) (wh_ssrf p) (da_destination a) (net s) = (r, w)"
    by (cases "check_url (wh_platform p) (wh_ssrf p) (da_destination a) (net s)")
  have w: "I w"
    using check_url_keeps [OF g assms(4), of "da_destination a"] c by simp
  show ?thesis
  proof (cases r)
    case (Inl e)
    then show ?thesis using None c w by (simp add: webhook_deliver_def on_net_def)
  next
    case (Inr ca)
    have "check_url (wh_platform p) (wh_ssrf p) (da_destination a) (net s) = (Inr (fst ca, snd ca), w)"
      using c Inr by simp
    from check_url_clears [OF this] obtain v where
      v: "parse_url (wh_platform p) (da_destination a) = Some v" "fst ca = u_href v" "cleared_url (wh_platform p) (wh_ssrf p) v" .
    then have u: "parse_url (wh_platform p) (fst ca) = Some v"
      using assms(1) by (simp add: url_roundtrip_def)
    have "keeps I (webhook_exchange p headers body (fst ca) v)" for headers body
      unfolding webhook_exchange_def by (intro keeps_andThen send_keeps follow_keeps g v(3))
    then have x: "I (snd (webhook_exchange p headers body (fst ca) v w))" for headers body
      using w by (simp add: keeps_def)
    show ?thesis
      using None c Inr u x
      by (auto simp: webhook_deliver_def on_net_def Let_def delivery_failed_def webhook_settle_net split: prod.splits sum.splits)
         (metis snd_conv)+
  qed
qed (simp add: webhook_deliver_def assms(4))

section \<open>Settled keys\<close>

lemma webhook_settled_result:
  assumes "webhook_deliver p a s = (Inr r, s')"
  shows "tget (settled s') (da_idempotencyKey a) = Some r"
  using assms by (auto simp: webhook_deliver_def on_net_def webhook_settle_def delivery_failed_def Let_def
      split: option.splits prod.splits sum.splits if_splits)

lemma webhook_settled_kept:
  assumes "tget (settled s) k = Some r"
  shows "tget (settled (snd (webhook_deliver p a s))) k = Some r"
  using assms by (auto simp: webhook_deliver_def on_net_def webhook_settle_def delivery_failed_def Let_def
      split: option.splits prod.splits sum.splits if_splits)

lemma webhook_delivers_once:
  assumes "webhook_deliver p a s = (Inr r, s')" "da_idempotencyKey b = da_idempotencyKey a"
  shows "webhook_deliver p b (fold (\<lambda>x t. snd (webhook_deliver p x t)) xs s') = (Inr r, fold (\<lambda>x t. snd (webhook_deliver p x t)) xs s')"
proof -
  have "tget (settled (fold (\<lambda>x t. snd (webhook_deliver p x t)) xs t)) k = Some r" if "tget (settled t) k = Some r" for t k
    using that by (induction xs arbitrary: t) (auto simp: webhook_settled_kept)
  then show ?thesis
    using webhook_settled_result [OF assms(1)] assms(2) by (simp add: webhook_deliver_def)
qed

section \<open>An example\<close>

text \<open>A network that logs the targets it was asked for and answers the first request with a redirect.\<close>

definition sample_url :: url where
  "sample_url = \<lparr>u_protocol = ''https:'', u_username = [], u_password = [], u_hostname = ''a.example'', u_port = [],
     u_pathname = ''/hook'', u_search = [], u_href = ''https://a.example/hook''\<rparr>"

definition sample_platform :: "http_target list platform" where
  "sample_platform =
     (let parse = (\<lambda>raw. if raw = u_href sample_url then Some sample_url else None)
      in \<lparr>parse_url = parse, resolve_url = (\<lambda>loc _. parse loc), bare_href = u_href, isIPv6 = (\<lambda>_. False),
          resolve = (\<lambda>_ w. (Some [''93.184.216.34''], w))\<rparr>)"

definition sample_transport :: "http_target \<Rightarrow> http_request \<Rightarrow> http_target list \<Rightarrow> (string option + http_response) \<times> http_target list" where
  "sample_transport t rq w =
     (Inr (if w = [] then \<lparr>hr_status = 302, hr_headers = [(''location'', H_text (u_href sample_url))], hr_body = []\<rparr>
           else \<lparr>hr_status = 200, hr_headers = [], hr_body = ''ok''\<rparr>), w @ [t])"

definition sample_webhook :: "http_target list webhook_provider" where
  "sample_webhook = webhook_constructor sample_platform \<lparr>sha256 = id, num_str = (\<lambda>_. [])\<rparr> id sample_transport None (Some 3) None None"

definition sample_delivery :: production_deliver_args where
  "sample_delivery = \<lparr>da_idempotencyKey = ''k'', da_runId = ''r'', da_destination = u_href sample_url, da_artifacts = [], da_contents = [],
     da_owner = \<lparr>tenantId = ''t'', orgId = ''o'', projectId = ''p''\<rparr>, da_headers = []\<rparr>"

theorem webhook_requests_cleared_witness:
  "length (net (snd (webhook_deliver sample_webhook sample_delivery \<lparr>settled = [], attemptLog = [], net = []\<rparr>))) = 2 \<and>
   list_all (\<lambda>t. t_protocol t = ''https:'') (net (snd (webhook_deliver sample_webhook sample_delivery \<lparr>settled = [], attemptLog = [], net = []\<rparr>)))"
proof -
  have "list_all (\<lambda>t. t_protocol t = ''https:'') (net (snd (webhook_deliver sample_webhook sample_delivery \<lparr>settled = [], attemptLog = [], net = []\<rparr>)))"
  proof (rule webhook_requests_cleared)
    show "url_roundtrip (wh_platform sample_webhook)"
      by (simp add: url_roundtrip_def sample_webhook_def webhook_constructor_def sample_platform_def Let_def)
  qed (auto simp: sample_webhook_def webhook_constructor_def sample_platform_def sample_transport_def cleared_url_def
      ssrf_constructor_def target_of_def Let_def)
  moreover have "length (net (snd (webhook_deliver sample_webhook sample_delivery \<lparr>settled = [], attemptLog = [], net = []\<rparr>))) = 2"
    by code_simp
  ultimately show ?thesis by blast
qed

end
