(* ===== verification/Job_Contracts.thy ===== *)
theory Job_Contracts
  imports Projection
begin

text \<open>
  The contracts of the durable job runner (\<^verbatim>\<open>vaulltcore-runner/src/contracts.ts\<close>), its errors
  (\<^verbatim>\<open>errors.ts\<close>) and the integrity of its checkpoints (\<^verbatim>\<open>checkpoint.ts\<close>). The job statuses
  and events are in \<open>Contracts\<close>. An error is its class with the data the class is built from; the
  text of its message is a function of it that the environment of the runner supplies.
\<close>

section \<open>Policy and specification\<close>

datatype uncertain_tool_call_policy = Mark_uncertain | Fail_job

record execution_policy =
  pol_version :: string
  pol_maxSteps :: int
  onUncertainToolCall :: uncertain_tool_call_policy
  allowedTools :: "string list"
  idempotentTools :: "string list"
  pol_leaseMs :: int
  pol_maxTokens :: "int option"
  pol_maxDurationMs :: "int option"

definition DEFAULT_EXECUTION_POLICY :: execution_policy where
  "DEFAULT_EXECUTION_POLICY = \<lparr>pol_version = ''1'', pol_maxSteps = 25, onUncertainToolCall = Mark_uncertain,
     allowedTools = [], idempotentTools = [], pol_leaseMs = 60000, pol_maxTokens = None, pol_maxDurationMs = None\<rparr>"

datatype budget_exhaustion_reason = Token_budget_exhausted | Duration_budget_exhausted

record job_spec =
  sp_engine :: string
  sp_model :: string
  sp_input :: string
  sp_engineOptions :: "json optional"

record execution_snapshot =
  snapshotId :: string
  snap_jobId :: string
  snap_attempt :: nat
  snap_engineVersion :: string
  snap_environmentVersion :: string
  snap_createdAt :: int
  snap_checksum :: string
  snap_storage :: "string \<times> string"
  snap_workspaceState :: "json optional"

record job_record = job_identity +
  jr_jobId :: string
  jr_spec :: job_spec
  jr_status :: job_status
  jr_attempt :: nat
  leaseToken :: "string option"
  leaseExpiresAt :: "int option"
  cancelRequested :: bool
  jr_error :: "string option"
  jr_env :: "(string, string) table"
  jr_policy :: execution_policy
  latestSnapshot :: "execution_snapshot option"
  jr_createdAt :: int
  jr_updatedAt :: int

record new_job_event =
  ne_jobId :: string
  ne_timestamp :: int
  ne_type :: job_event_type
  ne_data :: json

section \<open>Usage\<close>

record job_metrics =
  inputTokens :: int
  outputTokens :: int
  reasoningTokens :: int
  totalTokens :: int
  steps :: nat
  toolCallCount :: nat

definition emptyMetrics :: job_metrics where
  "emptyMetrics = \<lparr>inputTokens = 0, outputTokens = 0, reasoningTokens = 0, totalTokens = 0, steps = 0, toolCallCount = 0\<rparr>"

record turn_usage =
  tu_input :: "int option"
  tu_output :: "int option"
  tu_reasoning :: "int option"

definition addUsage :: "job_metrics \<Rightarrow> turn_usage \<Rightarrow> job_metrics" where
  "addUsage m u =
     (let i = inputTokens m + case_option 0 id (tu_input u);
          out = outputTokens m + case_option 0 id (tu_output u);
          r = reasoningTokens m + case_option 0 id (tu_reasoning u)
      in m\<lparr>inputTokens := i, outputTokens := out, reasoningTokens := r, totalTokens := i + out + r\<rparr>)"

section \<open>Checkpoints\<close>

datatype tool_call_state =
    TC_recorded (recordedAtSeq: nat)
  | TC_completed (recordedAtSeq: nat) (completedAtSeq: nat) (resultSeq: nat)
  | TC_uncertain (recordedAtSeq: nat) (uncertainReason: string)

datatype continuation_point =
    Provider_turn (nextStepIndex: nat)
  | Settle_tools (settleStep: nat) (pendingToolCallIds: "string list")
  | Done

text \<open>A draft is a checkpoint without its checksum.\<close>

record draft = job_identity +
  cp_jobId :: string
  executionId :: string
  cp_status :: job_status
  cp_attempt :: nat
  lastEventSeq :: nat
  lastCompletedStep :: "(nat \<times> int) option"
  toolCallTable :: "(string, tool_call_state) table"
  pendingInput :: "string list"
  continuation :: continuation_point
  contextThroughSeq :: nat
  usage :: job_metrics
  policyVersion :: string
  engineVersion :: string
  cp_createdAt :: int

record job_checkpoint = draft +
  checksum :: string

definition CHECKPOINT_SCHEMA_VERSION :: nat where
  "CHECKPOINT_SCHEMA_VERSION = 1"

definition jnat :: "nat \<Rightarrow> json" where
  "jnat n = JNum (Finite (of_nat n))"

definition jint :: "int \<Rightarrow> json" where
  "jint n = JNum (Finite (of_int n))"

primrec status_text :: "job_status \<Rightarrow> string" where
  "status_text JQueued = ''queued''"
| "status_text JLeased = ''leased''"
| "status_text JPreparing = ''preparing''"
| "status_text JRunning = ''running''"
| "status_text JCheckpointing = ''checkpointing''"
| "status_text JSuspended = ''suspended''"
| "status_text JResuming = ''resuming''"
| "status_text JCompleted = ''completed''"
| "status_text JFailed = ''failed''"
| "status_text JCancelled = ''cancelled''"

primrec tool_call_json :: "tool_call_state \<Rightarrow> json" where
  "tool_call_json (TC_recorded r) = JObj [(''status'', JStr ''recorded''), (''recordedAtSeq'', jnat r)]"
| "tool_call_json (TC_completed r c s) =
     JObj [(''status'', JStr ''completed''), (''recordedAtSeq'', jnat r), (''completedAtSeq'', jnat c), (''resultSeq'', jnat s)]"
| "tool_call_json (TC_uncertain r why) =
     JObj [(''status'', JStr ''uncertain''), (''recordedAtSeq'', jnat r), (''reason'', JStr why)]"

primrec continuation_json :: "continuation_point \<Rightarrow> json" where
  "continuation_json (Provider_turn n) = JObj [(''type'', JStr ''provider_turn''), (''nextStepIndex'', jnat n)]"
| "continuation_json (Settle_tools n ks) =
     JObj [(''type'', JStr ''settle_tools''), (''stepIndex'', jnat n), (''pendingToolCallIds'', JArr (map JStr ks))]"
| "continuation_json Done = JObj [(''type'', JStr ''done'')]"

definition metrics_json :: "job_metrics \<Rightarrow> json" where
  "metrics_json m = JObj [(''inputTokens'', jint (inputTokens m)), (''outputTokens'', jint (outputTokens m)),
     (''reasoningTokens'', jint (reasoningTokens m)), (''totalTokens'', jint (totalTokens m)),
     (''steps'', jnat (steps m)), (''toolCalls'', jnat (toolCallCount m))]"

text \<open>The object \<^verbatim>\<open>{ schemaVersion, ...rest }\<close> of a checkpoint.\<close>

definition draft_json :: "'c draft_scheme \<Rightarrow> json" where
  "draft_json d = JObj [(''schemaVersion'', jnat CHECKPOINT_SCHEMA_VERSION), (''jobId'', JStr (cp_jobId d)),
     (''tenantId'', JStr (tenantId d)), (''orgId'', JStr (orgId d)), (''projectId'', JStr (projectId d)),
     (''executionId'', JStr (executionId d)), (''status'', JStr (status_text (cp_status d))), (''attempt'', jnat (cp_attempt d)),
     (''lastEventSeq'', jnat (lastEventSeq d)),
     (''lastCompletedStep'', case lastCompletedStep d of None \<Rightarrow> JNull
        | Some (i, t) \<Rightarrow> JObj [(''stepIndex'', jnat i), (''finishedAt'', jint t)]),
     (''toolCalls'', JObj (map (\<lambda>(k, s). (k, tool_call_json s)) (toolCallTable d))),
     (''pendingInput'', JArr (map JStr (pendingInput d))), (''continuation'', continuation_json (continuation d)),
     (''contextRef'', JObj [(''kind'', JStr ''event_projection''), (''throughSeq'', jnat (contextThroughSeq d))]),
     (''usage'', metrics_json (usage d)), (''policyVersion'', JStr (policyVersion d)), (''engineVersion'', JStr (engineVersion d)),
     (''createdAt'', jint (cp_createdAt d))]"

text \<open>\<^verbatim>\<open>canonicalize\<close> is the \<open>stableString\<close> of \<open>Json\<close>.\<close>

definition checksumCheckpoint :: "host \<Rightarrow> 'c draft_scheme \<Rightarrow> string" where
  "checksumCheckpoint h d = sha256 h (stableString h (draft_json d))"

definition finalizeCheckpoint :: "host \<Rightarrow> draft \<Rightarrow> job_checkpoint" where
  "finalizeCheckpoint h d = draft.extend d \<lparr>checksum = checksumCheckpoint h d\<rparr>"

definition draft_of :: "job_checkpoint \<Rightarrow> draft" where
  "draft_of c = draft.truncate c"

section \<open>Errors\<close>

datatype runner_error =
    VaulltcoreError string
  | JobNotFoundError string
  | InvalidJobStateError string job_status string
  | InvalidCheckpointError string string
  | IdentityMismatchError string string
  | LeaseFencedError string
  | EngineNotFoundError string
  | SimulatedCrashError
  | OtherThrown string

section \<open>Validation\<close>

definition assertIdentityMatches :: "string \<Rightarrow> 'a job_identity_scheme \<Rightarrow> 'b job_identity_scheme \<Rightarrow> string \<Rightarrow> runner_error + unit" where
  "assertIdentityMatches jid a b whr =
     check (tenantId a \<noteq> tenantId b) (IdentityMismatchError jid (whr @ '': tenantId changed''))
    (check (orgId a \<noteq> orgId b) (IdentityMismatchError jid (whr @ '': orgId changed''))
    (check (projectId a \<noteq> projectId b) (IdentityMismatchError jid (whr @ '': projectId changed'')) (Inr ())))"

record validation_input =
  vi_checkpoint :: job_checkpoint
  vi_record :: job_record
  vi_policy :: execution_policy
  vi_engineVersion :: string
  eventsThroughWatermark :: "job_event list"
  storedMaxSeq :: nat

definition validate_tool_call :: "string \<Rightarrow> nat \<Rightarrow> nat set \<Rightarrow> string \<times> tool_call_state \<Rightarrow> runner_error + unit" where
  "validate_tool_call jid watermark responses e =
     check (recordedAtSeq (snd e) > watermark) (InvalidCheckpointError jid ''tool call recorded beyond the committed watermark'')
       (case snd e of
          TC_completed _ _ r \<Rightarrow> check (r \<notin> responses) (InvalidCheckpointError jid ''completed tool call references missing tool_response'') (Inr ())
        | _ \<Rightarrow> Inr ())"

text \<open>
  The checks of the shape of the value hold of every member of the type; the others are in the order of
  the source.
\<close>

definition validateCheckpoint :: "host \<Rightarrow> validation_input \<Rightarrow> runner_error + unit" where
  "validateCheckpoint h v =
     (let cp = vi_checkpoint v; r = vi_record v; jid = jr_jobId r; bad = InvalidCheckpointError jid;
          responses = set (map je_seq (filter (\<lambda>e. je_type e = EvToolResponse) (eventsThroughWatermark v)))
      in check (length (checksum cp) \<noteq> 64) (bad ''missing or malformed checksum'')
        (check (checksumCheckpoint h cp \<noteq> checksum cp) (bad ''checksum mismatch (corrupt or tampered checkpoint)'')
        (check (cp_jobId cp \<noteq> jid) (bad ''checkpoint jobId'')
        (seq_res (assertIdentityMatches jid cp r ''checkpoint'') (\<lambda>_.
         check (policyVersion cp \<noteq> pol_version (vi_policy v)) (bad ''policy version'')
        (check (engineVersion cp \<noteq> vi_engineVersion v) (bad ''engine version'')
        (check (lastEventSeq cp > storedMaxSeq v) (bad ''watermark beyond durable log'')
        (check (contextThroughSeq cp \<noteq> lastEventSeq cp) (bad ''contextRef does not cover exactly the committed watermark'')
        (seq_res (check_all (validate_tool_call jid (lastEventSeq cp) responses) (toolCallTable cp)) (\<lambda>_.
         case continuation cp of
           Settle_tools _ pending \<Rightarrow>
             check_all (\<lambda>k. check (\<not> thas (toolCallTable cp) k) (bad ''pending tool call missing from tool-call table'') (Inr ())) pending
         | _ \<Rightarrow> Inr ()))))))))))"

end
