(* ===== verification/Job_Store.thy ===== *)
theory Job_Store
  imports Sql Job_Contracts
begin

text \<open>
  The transactional job store (\<^verbatim>\<open>vaulltcore-store-sql/src/sql-store.ts\<close>): the tables of
  its first migration and one operation per method of \<^verbatim>\<open>SqlJobStore\<close>, with the patch
  check of \<^verbatim>\<open>vaulltcore-runner/src/store.ts\<close>. Columns that hold JSON text hold the value;
  an object of a type is written with its properties in one order, so that texts are equal when
  values are. Clock readings are arguments. The other stores of the database extend the tables, so the
  operations are polymorphic in the extension.
\<close>

section \<open>Tables\<close>

record job_row = job_identity +
  row_jobId :: string
  row_status :: job_status
  row_attempt :: nat
  row_cancelRequested :: bool
  row_error :: "string option"
  row_spec :: job_spec
  row_env :: "(string, string) table"
  row_policy :: execution_policy
  row_latestSnapshot :: "execution_snapshot option"
  last_seq :: nat
  row_createdAt :: int
  row_updatedAt :: int

record lease_row =
  ls_jobId :: string
  ls_token :: string
  ls_generation :: nat
  ls_expires_at :: int
  ls_acquired_at :: int

record checkpoint_row =
  ck_jobId :: string
  ck_checkpoint :: job_checkpoint
  ck_last_event_seq :: nat
  ck_attempt :: nat
  ck_updated_at :: int

record snapshot_row =
  sn_jobId :: string
  sn_snapshotId :: string
  sn_snapshot :: execution_snapshot
  sn_created_at :: int

record job_db =
  jobs :: "job_row list"
  job_leases :: "lease_row list"
  job_events :: "job_event list"
  job_checkpoints :: "checkpoint_row list"
  job_snapshots :: "snapshot_row list"

type_synonym ('z, 'a) job_op = "('z job_db_scheme, runner_error, 'a) op"

definition empty_job_db :: job_db where
  "empty_job_db = \<lparr>jobs = [], job_leases = [], job_events = [], job_checkpoints = [], job_snapshots = []\<rparr>"

definition job_clash :: "job_row \<Rightarrow> job_row \<Rightarrow> bool" where
  "job_clash a b \<longleftrightarrow> row_jobId a = row_jobId b"

definition lease_clash :: "lease_row \<Rightarrow> lease_row \<Rightarrow> bool" where
  "lease_clash a b \<longleftrightarrow> ls_jobId a = ls_jobId b"

definition event_clash :: "job_event \<Rightarrow> job_event \<Rightarrow> bool" where
  "event_clash a b \<longleftrightarrow> je_jobId a = je_jobId b \<and> je_seq a = je_seq b"

definition checkpoint_clash :: "checkpoint_row \<Rightarrow> checkpoint_row \<Rightarrow> bool" where
  "checkpoint_clash a b \<longleftrightarrow> ck_jobId a = ck_jobId b"

definition snapshot_clash :: "snapshot_row \<Rightarrow> snapshot_row \<Rightarrow> bool" where
  "snapshot_clash a b \<longleftrightarrow> sn_jobId a = sn_jobId b \<and> sn_snapshotId a = sn_snapshotId b"

section \<open>Patches\<close>

text \<open>
  A patch of type \<^verbatim>\<open>Partial<JobRecord>\<close>: a field that is not \<open>None\<close> is a key of the
  patch.
\<close>

record job_patch =
  pt_jobId :: "string option"
  pt_tenantId :: "string option"
  pt_orgId :: "string option"
  pt_projectId :: "string option"
  pt_createdAt :: "int option"
  pt_spec :: "job_spec option"
  pt_env :: "(string, string) table option"
  pt_policy :: "execution_policy option"
  pt_status :: "job_status option"
  pt_attempt :: "nat option"
  pt_leaseToken :: "string option option"
  pt_leaseExpiresAt :: "int option option"
  pt_cancelRequested :: "bool option"
  pt_error :: "string option option"
  pt_latestSnapshot :: "execution_snapshot option option"

definition no_patch :: job_patch where
  "no_patch = \<lparr>pt_jobId = None, pt_tenantId = None, pt_orgId = None, pt_projectId = None, pt_createdAt = None,
     pt_spec = None, pt_env = None, pt_policy = None, pt_status = None, pt_attempt = None, pt_leaseToken = None,
     pt_leaseExpiresAt = None, pt_cancelRequested = None, pt_error = None, pt_latestSnapshot = None\<rparr>"

definition mutates :: "'a option \<Rightarrow> 'a \<Rightarrow> bool" where
  "mutates p v \<longleftrightarrow> (case p of None \<Rightarrow> False | Some w \<Rightarrow> w \<noteq> v)"

definition assertImmutableJobUpdate :: "string \<Rightarrow> job_record \<Rightarrow> job_patch \<Rightarrow> runner_error + unit" where
  "assertImmutableJobUpdate jid r p =
     (let bad = IdentityMismatchError jid
      in check (mutates (pt_jobId p) (jr_jobId r)) (bad ''jobId'')
        (check (mutates (pt_tenantId p) (tenantId r)) (bad ''tenantId'')
        (check (mutates (pt_orgId p) (orgId r)) (bad ''orgId'')
        (check (mutates (pt_projectId p) (projectId r)) (bad ''projectId'')
        (check (mutates (pt_createdAt p) (jr_createdAt r)) (bad ''createdAt'')
        (check (mutates (pt_spec p) (jr_spec r)) (bad ''spec'')
        (check (mutates (pt_env p) (jr_env r)) (bad ''env'')
        (check (mutates (pt_policy p) (jr_policy r)) (bad ''policy'') (Inr ())))))))))"

abbreviation orElse :: "'a option \<Rightarrow> 'a \<Rightarrow> 'a" where
  "orElse p v \<equiv> case p of None \<Rightarrow> v | Some w \<Rightarrow> w"

text \<open>\<^verbatim>\<open>{ ...record, ...patch, updatedAt: now }\<close>.\<close>

definition patched :: "job_record \<Rightarrow> job_patch \<Rightarrow> int \<Rightarrow> job_record" where
  "patched r p now = r\<lparr>jr_jobId := orElse (pt_jobId p) (jr_jobId r), tenantId := orElse (pt_tenantId p) (tenantId r),
     orgId := orElse (pt_orgId p) (orgId r), projectId := orElse (pt_projectId p) (projectId r),
     jr_createdAt := orElse (pt_createdAt p) (jr_createdAt r), jr_spec := orElse (pt_spec p) (jr_spec r),
     jr_env := orElse (pt_env p) (jr_env r), jr_policy := orElse (pt_policy p) (jr_policy r),
     jr_status := orElse (pt_status p) (jr_status r), jr_attempt := orElse (pt_attempt p) (jr_attempt r),
     leaseToken := orElse (pt_leaseToken p) (leaseToken r), leaseExpiresAt := orElse (pt_leaseExpiresAt p) (leaseExpiresAt r),
     cancelRequested := orElse (pt_cancelRequested p) (cancelRequested r), jr_error := orElse (pt_error p) (jr_error r),
     latestSnapshot := orElse (pt_latestSnapshot p) (latestSnapshot r), jr_updatedAt := now\<rparr>"

section \<open>Reading\<close>

definition find_job :: "string \<Rightarrow> 'z job_db_scheme \<Rightarrow> job_row option" where
  "find_job jid db = sql_get (\<lambda>r. row_jobId r = jid) (jobs db)"

definition readLease :: "string \<Rightarrow> 'z job_db_scheme \<Rightarrow> lease_row option" where
  "readLease jid db = sql_get (\<lambda>l. ls_jobId l = jid) (job_leases db)"

definition readRow :: "string \<Rightarrow> ('z, job_row) job_op" where
  "readRow jid = andThen (reads (find_job jid)) (\<lambda>r. case r of None \<Rightarrow> throw (JobNotFoundError jid) | Some r \<Rightarrow> ok r)"

definition toRecord :: "job_row \<Rightarrow> lease_row option \<Rightarrow> job_record" where
  "toRecord r l = \<lparr>tenantId = tenantId r, orgId = orgId r, projectId = projectId r, jr_jobId = row_jobId r,
     jr_spec = row_spec r, jr_status = row_status r, jr_attempt = row_attempt r,
     leaseToken = map_option ls_token l, leaseExpiresAt = map_option ls_expires_at l,
     cancelRequested = row_cancelRequested r, jr_error = row_error r, jr_env = row_env r, jr_policy = row_policy r,
     latestSnapshot = row_latestSnapshot r, jr_createdAt = row_createdAt r, jr_updatedAt = row_updatedAt r\<rparr>"

definition getJobRecord :: "string \<Rightarrow> 'z job_db_scheme \<Rightarrow> job_record option" where
  "getJobRecord jid db = map_option (\<lambda>r. toRecord r (readLease jid db)) (find_job jid db)"

section \<open>Records\<close>

definition row_of :: "job_record \<Rightarrow> job_row" where
  "row_of r = \<lparr>tenantId = tenantId r, orgId = orgId r, projectId = projectId r, row_jobId = jr_jobId r,
     row_status = jr_status r, row_attempt = jr_attempt r, row_cancelRequested = cancelRequested r,
     row_error = jr_error r, row_spec = jr_spec r, row_env = jr_env r, row_policy = jr_policy r,
     row_latestSnapshot = latestSnapshot r, last_seq = 0, row_createdAt = jr_createdAt r, row_updatedAt = jr_updatedAt r\<rparr>"

type_synonym job_hook = "string \<Rightarrow> runner_error option"

definition createJobRecord :: "job_hook \<Rightarrow> job_record \<Rightarrow> ('z, unit) job_op" where
  "createJobRecord hook r = atomic hook ''createJobRecord''
     (andThen (reads (\<lambda>db. sql_clash job_clash (row_of r) (jobs db))) (\<lambda>clash.
      if clash then throw (VaulltcoreError ''JOB_EXISTS'')
      else modifies (jobs_update (\<lambda>rows. rows @ [row_of r]))))"

text \<open>\<^verbatim>\<open>UPDATE jobs SET ... WHERE job_id = ? AND attempt = ?\<close>, which throws when no row changes.\<close>

definition cas_job :: "string \<Rightarrow> nat \<Rightarrow> (job_row \<Rightarrow> job_row) \<Rightarrow> ('z, unit) job_op" where
  "cas_job jid attempt f =
     andThen (reads (\<lambda>db. sql_count (\<lambda>r. row_jobId r = jid \<and> row_attempt r = attempt) (jobs db))) (\<lambda>changes.
     andThen (modifies (jobs_update (sql_update (\<lambda>r. row_jobId r = jid \<and> row_attempt r = attempt) f))) (\<lambda>_.
     if changes = 0 then throw (LeaseFencedError jid) else ok ()))"

definition upsert_lease :: "lease_row \<Rightarrow> ('z, unit) job_op" where
  "upsert_lease l = modifies (job_leases_update (sql_upsert lease_clash l
     (\<lambda>x. x\<lparr>ls_token := ls_token l, ls_generation := ls_generation l, ls_expires_at := ls_expires_at l,
          ls_acquired_at := ls_acquired_at l\<rparr>)))"

text \<open>The lease part of a patch, and the snapshot part.\<close>

definition patch_lease :: "string \<Rightarrow> nat \<Rightarrow> job_patch \<Rightarrow> job_record \<Rightarrow> int \<Rightarrow> ('z, unit) job_op" where
  "patch_lease jid attempt p next now = (case pt_leaseToken p of
       None \<Rightarrow> ok ()
     | Some None \<Rightarrow> modifies (job_leases_update (filter (\<lambda>l. ls_jobId l \<noteq> jid)))
     | Some (Some token) \<Rightarrow>
         upsert_lease \<lparr>ls_jobId = jid, ls_token = token, ls_generation = attempt,
           ls_expires_at = (case pt_leaseExpiresAt p of Some (Some t) \<Rightarrow> t | _ \<Rightarrow> orElse (leaseExpiresAt next) 0),
           ls_acquired_at = now\<rparr>)"

definition patch_snapshot :: "string \<Rightarrow> job_patch \<Rightarrow> ('z, unit) job_op" where
  "patch_snapshot jid p = (case pt_latestSnapshot p of
       Some (Some sn) \<Rightarrow> modifies (job_snapshots_update (sql_upsert snapshot_clash
         \<lparr>sn_jobId = jid, sn_snapshotId = snapshotId sn, sn_snapshot = sn, sn_created_at = snap_createdAt sn\<rparr>
         (\<lambda>x. x\<lparr>sn_snapshot := sn\<rparr>)))
     | _ \<Rightarrow> ok ())"

definition written_row :: "job_record \<Rightarrow> job_row \<Rightarrow> job_row" where
  "written_row next r = r\<lparr>row_status := jr_status next, row_cancelRequested := cancelRequested next,
     row_error := jr_error next, row_latestSnapshot := latestSnapshot next, row_updatedAt := jr_updatedAt next\<rparr>"

definition updateJobRecord :: "job_hook \<Rightarrow> string \<Rightarrow> nat \<Rightarrow> (job_record \<Rightarrow> job_patch) \<Rightarrow> int \<Rightarrow> ('z, job_record) job_op" where
  "updateJobRecord hook jid expected mut now = atomic hook ''updateJobRecord''
     (andThen (readRow jid) (\<lambda>row.
      if row_attempt row \<noteq> expected then throw (LeaseFencedError jid)
      else
        andThen (reads (readLease jid)) (\<lambda>lease.
        let record = toRecord row lease; p = mut record; next = patched record p now in
        andThen (lift_res (assertImmutableJobUpdate jid record p)) (\<lambda>_.
        andThen (cas_job jid expected (written_row next)) (\<lambda>_.
        andThen (patch_lease jid expected p next now) (\<lambda>_.
        andThen (patch_snapshot jid p) (\<lambda>_. ok next)))))))"

section \<open>Leases\<close>

record lease_grant =
  lg_attempt :: nat
  lg_leaseToken :: string
  lg_leaseExpiresAt :: int

definition granted_row :: "nat \<Rightarrow> int \<Rightarrow> job_row \<Rightarrow> job_row" where
  "granted_row n now r = r\<lparr>row_attempt := n, row_updatedAt := now\<rparr>"

definition acquireLease :: "job_hook \<Rightarrow> string \<Rightarrow> string \<Rightarrow> int \<Rightarrow> int \<Rightarrow> ('z, lease_grant) job_op" where
  "acquireLease hook jid token ms now = atomic hook ''acquireLease''
     (andThen (readRow jid) (\<lambda>row.
      andThen (reads (readLease jid)) (\<lambda>lease.
      if (case lease of None \<Rightarrow> False | Some l \<Rightarrow> ls_expires_at l > now \<and> ls_token l \<noteq> token)
      then throw (VaulltcoreError ''LEASE_HELD'')
      else
        let grant = \<lparr>lg_attempt = row_attempt row + 1, lg_leaseToken = token, lg_leaseExpiresAt = now + ms\<rparr> in
        andThen (cas_job jid (row_attempt row) (granted_row (lg_attempt grant) now)) (\<lambda>_.
        andThen (upsert_lease \<lparr>ls_jobId = jid, ls_token = token, ls_generation = lg_attempt grant,
            ls_expires_at = lg_leaseExpiresAt grant, ls_acquired_at = now\<rparr>) (\<lambda>_. ok grant)))))"

definition releaseLease :: "job_hook \<Rightarrow> string \<Rightarrow> string \<Rightarrow> ('z, unit) job_op" where
  "releaseLease hook jid token = atomic hook ''releaseLease''
     (andThen (readRow jid) (\<lambda>_.
      andThen (reads (readLease jid)) (\<lambda>lease.
      if (case lease of None \<Rightarrow> True | Some l \<Rightarrow> ls_token l \<noteq> token) then ok ()
      else modifies (job_leases_update (filter (\<lambda>l. \<not> (ls_jobId l = jid \<and> ls_token l = token)))))))"

datatype lease_renewal_result = Renewed int | Renewal_fenced | Renewal_not_found | Renewal_expired int

definition renewLease :: "job_hook \<Rightarrow> string \<Rightarrow> string \<Rightarrow> int \<Rightarrow> int \<Rightarrow> ('z, lease_renewal_result) job_op" where
  "renewLease hook jid token ms now = atomic hook ''renewLease''
     (andThen (readRow jid) (\<lambda>_.
      andThen (reads (readLease jid)) (\<lambda>lease.
      case lease of None \<Rightarrow> ok Renewal_not_found
      | Some l \<Rightarrow>
          if ls_token l \<noteq> token then ok Renewal_fenced
          else if ls_expires_at l \<le> now then ok (Renewal_expired (ls_expires_at l))
          else
            andThen (reads (\<lambda>db. sql_count (\<lambda>l. ls_jobId l = jid \<and> ls_token l = token) (job_leases db))) (\<lambda>changes.
            andThen (modifies (job_leases_update (sql_update (\<lambda>l. ls_jobId l = jid \<and> ls_token l = token)
              (\<lambda>l. l\<lparr>ls_expires_at := now + ms\<rparr>)))) (\<lambda>_.
            if changes = 0 then ok Renewal_fenced else ok (Renewed (now + ms)))))))"

section \<open>Events\<close>

definition stored_data :: "json \<Rightarrow> json" where
  "stored_data d = (if d = JUndefined \<or> d = JNull then JNull else json_clone d)"

definition stamp :: "nat \<Rightarrow> new_job_event \<Rightarrow> job_event" where
  "stamp n e = \<lparr>je_jobId = ne_jobId e, je_seq = n, je_timestamp = ne_timestamp e, je_type = ne_type e, je_data = ne_data e\<rparr>"

definition event_row :: "string \<Rightarrow> nat \<Rightarrow> new_job_event \<Rightarrow> job_event" where
  "event_row jid n e = \<lparr>je_jobId = jid, je_seq = n, je_timestamp = ne_timestamp e, je_type = ne_type e,
     je_data = stored_data (ne_data e)\<rparr>"

text \<open>The insertion loop, which numbers the events on from \<open>seq\<close>.\<close>

primrec insert_events :: "string \<Rightarrow> nat \<Rightarrow> new_job_event list \<Rightarrow> ('z, job_event list) job_op" where
  "insert_events jid seq [] = ok []"
| "insert_events jid seq (e # es) =
     andThen (reads (\<lambda>db. sql_clash event_clash (event_row jid (seq + 1) e) (job_events db))) (\<lambda>clash.
     if clash then throw (VaulltcoreError ''EVENT_SEQ_CONFLICT'')
     else
       andThen (modifies (job_events_update (\<lambda>rows. rows @ [event_row jid (seq + 1) e]))) (\<lambda>_.
       andThen (insert_events jid (seq + 1) es) (\<lambda>rest. ok (stamp (seq + 1) e # rest))))"

definition appendEvents :: "job_hook \<Rightarrow> string \<Rightarrow> new_job_event list \<Rightarrow> nat option \<Rightarrow> ('z, job_event list) job_op" where
  "appendEvents hook jid evs expected =
     (if evs = [] then ok []
      else atomic hook ''appendEvents''
        (andThen (readRow jid) (\<lambda>row.
         if (case expected of None \<Rightarrow> False | Some n \<Rightarrow> row_attempt row \<noteq> n) then throw (LeaseFencedError jid)
         else
           andThen (insert_events jid (last_seq row) evs) (\<lambda>stamped.
           let seq = last_seq row + length evs in
           andThen (reads (\<lambda>db. sql_count (\<lambda>r. row_jobId r = jid \<and> last_seq r < seq) (jobs db))) (\<lambda>changes.
           andThen (modifies (jobs_update (sql_update (\<lambda>r. row_jobId r = jid \<and> last_seq r < seq) (\<lambda>r. r\<lparr>last_seq := seq\<rparr>)))) (\<lambda>_.
           if changes = 0 then throw (VaulltcoreError ''EVENT_SEQ_CONFLICT'') else ok stamped))))))"

definition job_log :: "string \<Rightarrow> 'z job_db_scheme \<Rightarrow> job_event list" where
  "job_log jid db = filter (\<lambda>e. je_jobId e = jid) (job_events db)"

definition listEvents :: "string \<Rightarrow> nat \<Rightarrow> ('z, job_event list) job_op" where
  "listEvents jid afterSeq =
     andThen (reads (getJobRecord jid)) (\<lambda>r.
     case r of None \<Rightarrow> throw (JobNotFoundError jid)
     | Some _ \<Rightarrow> reads (\<lambda>db. sort_key je_seq (filter (\<lambda>e. je_jobId e = jid \<and> je_seq e > afterSeq) (job_events db))))"

text \<open>The columns that \<^verbatim>\<open>listJobsByTenant\<close> selects are read from the row.\<close>

definition listJobsByTenant :: "string \<Rightarrow> 'z job_db_scheme \<Rightarrow> job_row list" where
  "listJobsByTenant tenant db = sort_key row_createdAt (filter (\<lambda>r. tenantId r = tenant) (jobs db))"

section \<open>Checkpoints\<close>

definition saveCheckpoint :: "job_hook \<Rightarrow> string \<Rightarrow> job_checkpoint \<Rightarrow> int \<Rightarrow> ('z, unit) job_op" where
  "saveCheckpoint hook jid cp now = atomic hook ''saveCheckpoint''
     (andThen (readRow jid) (\<lambda>row.
      if row_attempt row \<noteq> cp_attempt cp then throw (LeaseFencedError jid)
      else if lastEventSeq cp > last_seq row then throw (VaulltcoreError ''CHECKPOINT_AHEAD_OF_LOG'')
      else
        let row' = \<lparr>ck_jobId = jid, ck_checkpoint = cp, ck_last_event_seq = lastEventSeq cp, ck_attempt = cp_attempt cp,
              ck_updated_at = now\<rparr>
        in modifies (job_checkpoints_update (sql_upsert checkpoint_clash row' (\<lambda>_. row')))))"

definition find_checkpoint :: "string \<Rightarrow> 'z job_db_scheme \<Rightarrow> job_checkpoint option" where
  "find_checkpoint jid db = map_option ck_checkpoint (sql_get (\<lambda>c. ck_jobId c = jid) (job_checkpoints db))"

definition getCheckpoint :: "string \<Rightarrow> ('z, job_checkpoint option) job_op" where
  "getCheckpoint jid =
     andThen (reads (getJobRecord jid)) (\<lambda>r.
     case r of None \<Rightarrow> throw (JobNotFoundError jid) | Some _ \<Rightarrow> reads (find_checkpoint jid))"

end
