(* ===== verification/Job_Store_Properties.thy ===== *)
theory Job_Store_Properties
  imports Job_Store
begin

text \<open>
  What the job store promises: the consistency of its tables, and the history relation every one of
  its operations stays inside, from which the fencing results follow.
\<close>

section \<open>Consistency of the tables\<close>

definition jobs_ok :: "'z job_db_scheme \<Rightarrow> bool" where
  "jobs_ok db \<longleftrightarrow> distinct (map row_jobId (jobs db))"

text \<open>At most one lease per job, and it is of the job's current generation.\<close>

definition leases_ok :: "'z job_db_scheme \<Rightarrow> bool" where
  "leases_ok db \<longleftrightarrow> distinct (map ls_jobId (job_leases db)) \<and>
     (\<forall>l \<in> set (job_leases db). \<exists>r. find_job (ls_jobId l) db = Some r \<and> ls_generation l = row_attempt r)"

text \<open>The log of a job is numbered without gaps from 1 to its last sequence number.\<close>

definition last_number :: "string \<Rightarrow> 'z job_db_scheme \<Rightarrow> nat" where
  "last_number jid db = (case find_job jid db of None \<Rightarrow> 0 | Some r \<Rightarrow> last_seq r)"

definition log_ok :: "'z job_db_scheme \<Rightarrow> bool" where
  "log_ok db \<longleftrightarrow> (\<forall>jid. map je_seq (job_log jid db) = [1..<Suc (last_number jid db)])"

text \<open>A checkpoint is of a job, not ahead of its log and not of a later generation.\<close>

definition checkpoints_ok :: "'z job_db_scheme \<Rightarrow> bool" where
  "checkpoints_ok db \<longleftrightarrow> distinct (map ck_jobId (job_checkpoints db)) \<and>
     (\<forall>c \<in> set (job_checkpoints db). \<exists>r. find_job (ck_jobId c) db = Some r \<and>
        lastEventSeq (ck_checkpoint c) \<le> last_seq r \<and> cp_attempt (ck_checkpoint c) \<le> row_attempt r \<and>
        ck_last_event_seq c = lastEventSeq (ck_checkpoint c) \<and> ck_attempt c = cp_attempt (ck_checkpoint c))"

definition job_db_ok :: "'z job_db_scheme \<Rightarrow> bool" where
  "job_db_ok db \<longleftrightarrow> jobs_ok db \<and> leases_ok db \<and> log_ok db \<and> checkpoints_ok db"

lemma empty_job_db_ok: "job_db_ok empty_job_db"
  by (simp add: job_db_ok_def jobs_ok_def leases_ok_def log_ok_def checkpoints_ok_def empty_job_db_def find_job_def job_log_def last_number_def)

section \<open>History\<close>

text \<open>
  What can become of a job: its identity, specification, environment and policy are fixed, its
  generation and its sequence number only grow.
\<close>

definition job_grows :: "job_row \<Rightarrow> job_row \<Rightarrow> bool" where
  "job_grows r r' \<longleftrightarrow> row_jobId r' = row_jobId r \<and> tenantId r' = tenantId r \<and> orgId r' = orgId r \<and> projectId r' = projectId r \<and>
     row_spec r' = row_spec r \<and> row_env r' = row_env r \<and> row_policy r' = row_policy r \<and> row_createdAt r' = row_createdAt r \<and>
     row_attempt r \<le> row_attempt r' \<and> last_seq r \<le> last_seq r'"

definition jobs_grow :: "'z job_db_scheme \<Rightarrow> 'z job_db_scheme \<Rightarrow> bool" where
  "jobs_grow s t \<longleftrightarrow> (\<forall>jid r. find_job jid s = Some r \<longrightarrow> (\<exists>r'. find_job jid t = Some r' \<and> job_grows r r'))"

definition log_extends :: "'z job_db_scheme \<Rightarrow> 'z job_db_scheme \<Rightarrow> bool" where
  "log_extends s t \<longleftrightarrow> (\<exists>es. job_events t = job_events s @ es)"

definition job_history :: "'z job_db_scheme \<Rightarrow> 'z job_db_scheme \<Rightarrow> bool" where
  "job_history s t \<longleftrightarrow> (job_db_ok s \<longrightarrow> job_db_ok t \<and> jobs_grow s t \<and> log_extends s t)"

lemma job_grows_refl [simp]: "job_grows r r"
  by (simp add: job_grows_def)

lemma jobs_grow_refl [simp]: "jobs_grow s s"
  by (auto simp: jobs_grow_def)

lemma log_extends_refl [simp]: "log_extends s s"
  by (auto simp: log_extends_def)

lemma job_grows_trans: "job_grows a b \<Longrightarrow> job_grows b c \<Longrightarrow> job_grows a c"
  by (auto simp: job_grows_def)

lemma jobs_grow_trans: "jobs_grow s t \<Longrightarrow> jobs_grow t u \<Longrightarrow> jobs_grow s u"
  unfolding jobs_grow_def by (meson job_grows_trans)

lemma log_extends_trans: "log_extends s t \<Longrightarrow> log_extends t u \<Longrightarrow> log_extends s u"
  by (auto simp: log_extends_def)

interpretation jh: op_relation "job_history :: 'z job_db_scheme \<Rightarrow> 'z job_db_scheme \<Rightarrow> bool"
  by unfold_locales (auto simp: job_history_def intro: jobs_grow_trans log_extends_trans)

lemma obeys_atomic:
  assumes "\<And>s x t. m s = (Inr x, t) \<Longrightarrow> job_history s t"
  shows "jh.obeys (atomic hook name m)"
proof (rule jh.obeysI)
  fix s r t
  assume a: "atomic hook name m s = (r, t)"
  show "job_history s t"
  proof (cases r)
    case (Inl e)
    then show ?thesis using a atomic_Inl by (metis jh.R_refl)
  next
    case (Inr x)
    then show ?thesis using a assms by (simp add: atomic_Inr)
  qed
qed

section \<open>Writes to the tables\<close>

lemma find_job_Some: "jobs_ok db \<Longrightarrow> find_job jid db = Some r \<longleftrightarrow> r \<in> set (jobs db) \<and> row_jobId r = jid"
  unfolding find_job_def jobs_ok_def by (rule sql_get_key)

lemma find_job_id: "find_job jid db = Some r \<Longrightarrow> row_jobId r = jid"
  by (auto simp: find_job_def dest: sql_get_Some)

text \<open>Writes that leave the rows of the jobs alone.\<close>

lemma find_job_cong [simp]:
  "find_job jid (job_leases_update f db) = find_job jid db" "find_job jid (job_events_update g db) = find_job jid db"
  "find_job jid (job_checkpoints_update h db) = find_job jid db" "find_job jid (job_snapshots_update k db) = find_job jid db"
  by (simp_all add: find_job_def)

lemma job_log_cong [simp]:
  "job_log jid (job_leases_update f db) = job_log jid db" "job_log jid (jobs_update g db) = job_log jid db"
  "job_log jid (job_checkpoints_update h db) = job_log jid db" "job_log jid (job_snapshots_update k db) = job_log jid db"
  by (simp_all add: job_log_def)

lemma ok_frames [simp]:
  "jobs_ok (job_leases_update f db) = jobs_ok db" "jobs_ok (job_events_update g db) = jobs_ok db"
  "jobs_ok (job_checkpoints_update h db) = jobs_ok db" "jobs_ok (job_snapshots_update k db) = jobs_ok db"
  "leases_ok (job_events_update g db) = leases_ok db" "leases_ok (job_checkpoints_update h db) = leases_ok db"
  "leases_ok (job_snapshots_update k db) = leases_ok db"
  "log_ok (job_leases_update f db) = log_ok db" "log_ok (job_checkpoints_update h db) = log_ok db"
  "log_ok (job_snapshots_update k db) = log_ok db"
  "checkpoints_ok (job_leases_update f db) = checkpoints_ok db" "checkpoints_ok (job_events_update g db) = checkpoints_ok db"
  "checkpoints_ok (job_snapshots_update k db) = checkpoints_ok db"
  by (simp_all add: jobs_ok_def leases_ok_def log_ok_def last_number_def checkpoints_ok_def)

lemma grow_frames [simp]:
  "jobs_grow s (job_leases_update f t) = jobs_grow s t" "jobs_grow s (job_events_update g t) = jobs_grow s t"
  "jobs_grow s (job_checkpoints_update h t) = jobs_grow s t" "jobs_grow s (job_snapshots_update k t) = jobs_grow s t"
  "log_extends s (job_leases_update f t) = log_extends s t" "log_extends s (jobs_update j t) = log_extends s t"
  "log_extends s (job_checkpoints_update h t) = log_extends s t" "log_extends s (job_snapshots_update k t) = log_extends s t"
  by (simp_all add: jobs_grow_def log_extends_def)

subsection \<open>Jobs\<close>

text \<open>An update of one row that keeps its id.\<close>

definition set_job :: "string \<Rightarrow> (job_row \<Rightarrow> job_row) \<Rightarrow> 'z job_db_scheme \<Rightarrow> 'z job_db_scheme" where
  "set_job jid f = jobs_update (sql_update (\<lambda>r. row_jobId r = jid) f)"

lemma find_set_job:
  assumes "\<And>r. row_jobId (f r) = row_jobId r"
  shows "find_job k (set_job jid f db) = (if k = jid then map_option f (find_job jid db) else find_job k db)"
proof -
  have "find_job k (set_job jid f db) = map_option (\<lambda>r. if row_jobId r = jid then f r else r) (find_job k db)"
    unfolding find_job_def set_job_def by (simp add: sql_get_update assms)
  then show ?thesis
    using find_job_id [of k db] by (cases "find_job k db") auto
qed

lemma jobs_ok_set_job: "(\<And>r. row_jobId (f r) = row_jobId r) \<Longrightarrow> jobs_ok (set_job jid f db) = jobs_ok db"
  by (simp add: jobs_ok_def set_job_def map_sql_update)

lemma jobs_grow_set_job:
  assumes "\<And>r. row_jobId (f r) = row_jobId r" "find_job jid db = Some r" "job_grows r (f r)"
  shows "jobs_grow db (set_job jid f db)"
  using assms(2,3) by (auto simp: jobs_grow_def find_set_job [OF assms(1)])


lemma update_unique:
  assumes "distinct (map key rows)" "r \<in> set rows" "key r = k" "q r"
  shows "sql_update (\<lambda>x. key x = k \<and> q x) f rows = sql_update (\<lambda>x. key x = k) f rows"
  using assms by (auto simp: sql_update_def distinct_map inj_on_def)

lemma cas_job_found:
  assumes "jobs_ok db" "find_job jid db = Some r" "row_attempt r = n"
  shows "cas_job jid n f db = (Inr (), set_job jid f db)"
proof -
  have r: "r \<in> set (jobs db)" "row_jobId r = jid"
    using assms(1,2) by (simp_all add: find_job_Some)
  have "sql_count (\<lambda>r. row_jobId r = jid \<and> row_attempt r = n) (jobs db) \<noteq> 0"
    using r assms(3) by (auto simp: sql_count_0 sql_get_None)
  moreover have "sql_update (\<lambda>r. row_jobId r = jid \<and> row_attempt r = n) f (jobs db) = sql_update (\<lambda>r. row_jobId r = jid) f (jobs db)"
    using update_unique [of row_jobId "jobs db" r jid "\<lambda>x. row_attempt x = n" f] assms(1,3) r by (simp add: jobs_ok_def)
  ultimately show ?thesis
    by (simp add: cas_job_def set_job_def)
qed

lemma andThen_cas:
  assumes "jobs_ok db" "find_job jid db = Some r" "row_attempt r = n"
  shows "andThen (cas_job jid n f) g db = g () (set_job jid f db)"
  using cas_job_found [OF assms] by (simp add: andThen_def)

lemma readRow_app: "readRow jid db = (case find_job jid db of None \<Rightarrow> (Inl (JobNotFoundError jid), db) | Some r \<Rightarrow> (Inr r, db))"
  by (simp add: readRow_def split: option.splits)

lemma andThen_readRow:
  "andThen (readRow jid) g db = (case find_job jid db of None \<Rightarrow> (Inl (JobNotFoundError jid), db) | Some r \<Rightarrow> g r db)"
  by (simp add: andThen_def readRow_app split: option.splits)

subsection \<open>Leases\<close>

text \<open>Putting the lease of the current generation in place.\<close>

lemma set_upsert_lease:
  "set (sql_upsert lease_clash l f rows) \<subseteq> {x \<in> set rows. ls_jobId x \<noteq> ls_jobId l} \<union> {f x |x. x \<in> set rows \<and> ls_jobId x = ls_jobId l} \<union> {l}"
  by (auto simp: sql_upsert_def sql_clash_iff lease_clash_def set_sql_update)

lemma distinct_upsert_lease:
  "(\<And>x. ls_jobId (f x) = ls_jobId x) \<Longrightarrow> distinct (map ls_jobId rows) \<Longrightarrow> distinct (map ls_jobId (sql_upsert lease_clash l f rows))"
  by (auto simp: sql_upsert_def sql_clash_iff lease_clash_def map_sql_update)

lemma leases_ok_upsert:
  assumes "distinct (map ls_jobId (job_leases db))"
    and "\<And>l'. l' \<in> set (job_leases db) \<Longrightarrow> ls_jobId l' \<noteq> ls_jobId l \<Longrightarrow> \<exists>r. find_job (ls_jobId l') db = Some r \<and> ls_generation l' = row_attempt r"
    and "find_job (ls_jobId l) db = Some r" "ls_generation l = row_attempt r"
  shows "leases_ok (snd (upsert_lease l db))"
  unfolding upsert_lease_def leases_ok_def
  using assms set_upsert_lease [of l "\<lambda>x. x\<lparr>ls_token := ls_token l, ls_generation := ls_generation l, ls_expires_at := ls_expires_at l, ls_acquired_at := ls_acquired_at l\<rparr>" "job_leases db"]
  by (auto intro!: distinct_upsert_lease)


lemma leases_ok_filter: "leases_ok db \<Longrightarrow> leases_ok (job_leases_update (filter P) db)"
  by (auto simp: leases_ok_def distinct_map_filter)

lemma leases_ok_set_job:
  assumes "leases_ok db" "\<And>r. row_jobId (f r) = row_jobId r" "\<And>r. row_attempt (f r) = row_attempt r"
  shows "leases_ok (set_job jid f db)"
proof -
  have [simp]: "job_leases (set_job jid f db) = job_leases db"
    by (simp add: set_job_def)
  show ?thesis
    using assms(1) unfolding leases_ok_def by (fastforce simp: find_set_job assms(2,3))
qed

subsection \<open>Logs and checkpoints\<close>

lemma job_log_set_job [simp]: "job_log k (set_job jid f db) = job_log k db"
  by (simp add: set_job_def)

lemma log_ok_set_job:
  assumes "log_ok db" "\<And>r. row_jobId (f r) = row_jobId r" "\<And>r. last_seq (f r) = last_seq r"
  shows "log_ok (set_job jid f db)"
proof -
  have "last_number k (set_job jid f db) = last_number k db" for k
    by (simp add: last_number_def find_set_job assms(2,3) split: option.splits)
  then show ?thesis
    using assms(1) unfolding log_ok_def by (simp only: job_log_set_job simp_thms)
qed

lemma checkpoints_ok_grow:
  assumes "checkpoints_ok db" "jobs_grow db t" "job_checkpoints t = job_checkpoints db"
  shows "checkpoints_ok t"
  unfolding checkpoints_ok_def
proof (intro conjI ballI)
  show "distinct (map ck_jobId (job_checkpoints t))"
    using assms(1,3) by (simp add: checkpoints_ok_def)
next
  fix c
  assume "c \<in> set (job_checkpoints t)"
  then obtain r where r: "find_job (ck_jobId c) db = Some r" "lastEventSeq (ck_checkpoint c) \<le> last_seq r"
    "cp_attempt (ck_checkpoint c) \<le> row_attempt r" "ck_last_event_seq c = lastEventSeq (ck_checkpoint c)"
    "ck_attempt c = cp_attempt (ck_checkpoint c)"
    using assms(1,3) by (auto simp: checkpoints_ok_def)
  moreover obtain r' where "find_job (ck_jobId c) t = Some r'" "job_grows r r'"
    using assms(2) r(1) by (auto simp: jobs_grow_def)
  ultimately show "\<exists>r. find_job (ck_jobId c) t = Some r \<and> lastEventSeq (ck_checkpoint c) \<le> last_seq r \<and>
      cp_attempt (ck_checkpoint c) \<le> row_attempt r \<and> ck_last_event_seq c = lastEventSeq (ck_checkpoint c) \<and>
      ck_attempt c = cp_attempt (ck_checkpoint c)"
    by (auto simp: job_grows_def intro: order_trans)
qed

lemma insert_events_Inr:
  "insert_events jid seq es s = (Inr st, t) \<Longrightarrow>
    t = job_events_update (\<lambda>rows. rows @ map (\<lambda>(n, e). event_row jid n e) (enumerate (Suc seq) es)) s \<and>
    st = map (\<lambda>(n, e). stamp n e) (enumerate (Suc seq) es)"
proof (induction es arbitrary: seq s st t)
  case (Cons e es)
  then show ?case
    by (fastforce simp: andThen_Inr_iff split: if_splits)
qed simp

lemma insert_events_total:
  assumes "\<forall>e \<in> set (job_events s). je_jobId e = jid \<longrightarrow> je_seq e \<le> seq"
  shows "\<exists>st t. insert_events jid seq es s = (Inr st, t)"
  using assms
proof (induction es arbitrary: seq s)
  case (Cons e es)
  let ?s = "job_events_update (\<lambda>rows. rows @ [event_row jid (seq + 1) e]) s"
  have "\<not> sql_clash event_clash (event_row jid (seq + 1) e) (job_events s)"
    using Cons.prems by (fastforce simp: sql_clash_iff event_clash_def event_row_def)
  moreover have "\<forall>e \<in> set (job_events ?s). je_jobId e = jid \<longrightarrow> je_seq e \<le> seq + 1"
    using Cons.prems by (auto simp: event_row_def)
  then have "\<exists>st t. insert_events jid (seq + 1) es ?s = (Inr st, t)"
    by (rule Cons.IH)
  ultimately show ?case
    by (auto simp: andThen_def)
qed simp

lemma job_log_append:
  "job_log k (job_events_update (\<lambda>rows. rows @ map (\<lambda>(n, e). event_row jid n e) (enumerate m es)) db) =
    job_log k db @ (if k = jid then map (\<lambda>(n, e). event_row jid n e) (enumerate m es) else [])"
  by (auto simp: job_log_def event_row_def filter_map comp_def split_beta filter_empty_conv intro: filter_True)

lemma map_je_seq_rows: "map je_seq (map (\<lambda>(n, e). event_row jid n e) (enumerate m es)) = [m..<m + length es]"
proof -
  have "map je_seq (map (\<lambda>(n, e). event_row jid n e) (enumerate m es)) = map fst (enumerate m es)"
    by (simp add: event_row_def split_beta comp_def)
  then show ?thesis by simp
qed


section \<open>The operations stay inside the history relation\<close>

lemma history_atomic:
  assumes "\<And>x t. job_db_ok s \<Longrightarrow> atomic hook name m s = (Inr x, t) \<Longrightarrow> job_history s t" "atomic hook name m s = (r, u)"
  shows "job_history s u"
proof (cases r)
  case (Inl e)
  then have "u = s" using assms(2) by (auto dest: atomic_Inl)
  then show ?thesis by (simp add: jh.R_refl)
next
  case (Inr x)
  then show ?thesis using assms by (auto simp: job_history_def)
qed

lemma obeys_createJobRecord: "jh.obeys (createJobRecord hook rec)"
  unfolding createJobRecord_def
proof (rule obeys_atomic)
  fix s :: "'a job_db_scheme" and x t
  assume a: "andThen (reads (\<lambda>db. sql_clash job_clash (row_of rec) (jobs db))) (\<lambda>clash.
      if clash then throw (VaulltcoreError ''JOB_EXISTS'') else modifies (jobs_update (\<lambda>rows. rows @ [row_of rec]))) s = (Inr x, t)"
  let ?j = "row_jobId (row_of rec)"
  have t: "t = jobs_update (\<lambda>rows. rows @ [row_of rec]) s" and new: "find_job ?j s = None" "\<forall>r \<in> set (jobs s). row_jobId r \<noteq> ?j"
    using a by (auto simp: sql_clash_iff job_clash_def find_job_def sql_get_None split: if_splits)
  have f: "find_job k t = (if k = ?j then Some (row_of rec) else find_job k s)" for k
    using new(1) by (auto simp: t find_job_def split: option.splits)
  show "job_history s t"
    unfolding job_history_def
  proof (intro impI conjI)
    assume k: "job_db_ok s"
    have g: "jobs_grow s t"
      using new(1) by (auto simp: jobs_grow_def f)
    have "jobs_ok t"
      using k new(2) by (auto simp: job_db_ok_def jobs_ok_def t)
    moreover have "leases_ok t"
      using k new(1) unfolding job_db_ok_def leases_ok_def f by (fastforce simp: t)
    moreover have "last_number j t = last_number j s" for j
      using new(1) by (simp add: last_number_def f row_of_def)
    then have "log_ok t"
      using k unfolding job_db_ok_def log_ok_def by (simp only: t job_log_cong simp_thms)
    moreover have "checkpoints_ok t"
      using checkpoints_ok_grow [OF _ g] k by (simp add: job_db_ok_def t)
    ultimately show "job_db_ok t"
      by (simp add: job_db_ok_def)
    show "jobs_grow s t" by (rule g)
    show "log_extends s t" by (simp add: t)
  qed
qed

text \<open>An update of a row that keeps the frozen columns, the generation and the sequence number.\<close>

definition frozen :: "(job_row \<Rightarrow> job_row) \<Rightarrow> bool" where
  "frozen f \<longleftrightarrow> (\<forall>r. job_grows r (f r) \<and> row_attempt (f r) = row_attempt r \<and> last_seq (f r) = last_seq r)"

lemma frozenD:
  "frozen f \<Longrightarrow> row_jobId (f r) = row_jobId r" "frozen f \<Longrightarrow> row_attempt (f r) = row_attempt r"
  "frozen f \<Longrightarrow> last_seq (f r) = last_seq r" "frozen f \<Longrightarrow> job_grows r (f r)"
  by (simp_all add: frozen_def job_grows_def)

lemma set_job_frames [simp]:
  "job_leases (set_job jid f db) = job_leases db" "job_checkpoints (set_job jid f db) = job_checkpoints db"
  "job_events (set_job jid f db) = job_events db" "job_snapshots (set_job jid f db) = job_snapshots db"
  by (simp_all add: set_job_def)

lemma jobs_grow_frozen: "frozen f \<Longrightarrow> jobs_grow db (set_job jid f db)"
  by (auto simp: jobs_grow_def find_set_job frozenD)

lemma log_extends_set_job [simp]: "log_extends db (set_job jid f db)"
  by (simp add: set_job_def)

lemma job_db_ok_frozen:
  assumes "job_db_ok db" "frozen f"
  shows "job_db_ok (set_job jid f db)"
  using assms checkpoints_ok_grow [OF _ jobs_grow_frozen [OF assms(2), of db jid]]
  by (auto simp: job_db_ok_def jobs_ok_set_job leases_ok_set_job log_ok_set_job frozenD)

lemma history_frozen: "frozen f \<Longrightarrow> job_history db (set_job jid f db)"
  by (simp add: job_history_def job_db_ok_frozen jobs_grow_frozen)

lemma history_leases:
  "(job_db_ok db \<Longrightarrow> leases_ok (job_leases_update f db)) \<Longrightarrow> job_history db (job_leases_update f db)"
  by (auto simp: job_history_def job_db_ok_def)

lemma history_snapshots: "job_history db (job_snapshots_update f db)"
  by (auto simp: job_history_def job_db_ok_def)

lemma obeys_patch_snapshot: "jh.obeys (patch_snapshot jid p)"
  by (auto simp: patch_snapshot_def jh.obeys_def jh.R_refl history_snapshots split: option.splits)

lemma upsert_lease_history:
  assumes "find_job (ls_jobId l) db = Some r" "row_attempt r = ls_generation l"
  shows "job_history db (snd (upsert_lease l db))"
  unfolding upsert_lease_def modifies_app snd_conv
proof (rule history_leases)
  assume "job_db_ok db"
  then show "leases_ok (job_leases_update (sql_upsert lease_clash l (\<lambda>x. x\<lparr>ls_token := ls_token l, ls_generation := ls_generation l,
      ls_expires_at := ls_expires_at l, ls_acquired_at := ls_acquired_at l\<rparr>)) db)"
    using leases_ok_upsert [of db l r] assms unfolding upsert_lease_def
    by (simp add: job_db_ok_def leases_ok_def)
qed

lemma patch_lease_history:
  assumes "find_job jid db = Some r" "row_attempt r = n" "patch_lease jid n p next now db = (x, t)"
  shows "job_history db t"
proof (cases "pt_leaseToken p")
  case None
  then show ?thesis using assms(3) by (simp add: patch_lease_def jh.R_refl)
next
  case (Some tok)
  show ?thesis
  proof (cases tok)
    case None
    then show ?thesis
      using assms(3) Some by (auto simp: patch_lease_def job_db_ok_def intro!: history_leases leases_ok_filter)
  next
    case (Some token)
    let ?l = "\<lparr>ls_jobId = jid, ls_token = token, ls_generation = n,
           ls_expires_at = (case pt_leaseExpiresAt p of Some (Some t) \<Rightarrow> t | _ \<Rightarrow> orElse (leaseExpiresAt next) 0), ls_acquired_at = now\<rparr>"
    have "t = snd (upsert_lease ?l db)"
      using assms(3) \<open>pt_leaseToken p = Some tok\<close> Some by (simp add: patch_lease_def)
    then show ?thesis
      using upsert_lease_history [of ?l db r] assms(1,2) by simp
  qed
qed


lemma frozen_written: "frozen (written_row next)"
  by (simp add: frozen_def job_grows_def written_row_def)

lemma updateJobRecord_Inr:
  assumes "job_db_ok s" "updateJobRecord hook jid n mut now s = (Inr x, t)"
  obtains row u where "find_job jid s = Some row" "row_attempt row = n"
    "x = patched (toRecord row (readLease jid s)) (mut (toRecord row (readLease jid s))) now"
    "patch_lease jid n (mut (toRecord row (readLease jid s))) x now (set_job jid (written_row x) s) = (Inr (), u)"
    "patch_snapshot jid (mut (toRecord row (readLease jid s))) u = (Inr (), t)"
proof -
  obtain row where row: "find_job jid s = Some row" "row_attempt row = n"
    using assms(2) by (auto simp: updateJobRecord_def atomic_Inr andThen_readRow split: option.splits if_splits)
  have c: "jobs_ok s"
    using assms(1) by (simp add: job_db_ok_def)
  let ?r = "toRecord row (readLease jid s)"
  let ?x = "patched ?r (mut ?r) now"
  have "andThen (lift_res (assertImmutableJobUpdate jid ?r (mut ?r))) (\<lambda>_. andThen (cas_job jid n (written_row ?x)) (\<lambda>_.
      andThen (patch_lease jid n (mut ?r) ?x now) (\<lambda>_. andThen (patch_snapshot jid (mut ?r)) (\<lambda>_. ok ?x)))) s = (Inr x, t)"
    using assms(2) row by (simp add: updateJobRecord_def atomic_Inr andThen_readRow Let_def)
  then have "andThen (patch_lease jid n (mut ?r) ?x now) (\<lambda>_. andThen (patch_snapshot jid (mut ?r)) (\<lambda>_. ok ?x))
      (set_job jid (written_row ?x) s) = (Inr x, t)"
    by (simp add: andThen_cas [OF c row] split: sum.splits)
  then show ?thesis
    using that [OF row] by (auto simp: andThen_Inr_iff)
qed

lemma obeys_updateJobRecord: "jh.obeys (updateJobRecord hook jid n mut now)"
proof (rule jh.obeysI)
  fix s :: "'a job_db_scheme" and r t0
  assume a0: "updateJobRecord hook jid n mut now s = (r, t0)"
  show "job_history s t0"
  proof (rule history_atomic [OF _ a0 [unfolded updateJobRecord_def], folded updateJobRecord_def])
  fix x t
  assume k: "job_db_ok s" and a: "updateJobRecord hook jid n mut now s = (Inr x, t)"
  from updateJobRecord_Inr [OF k a] obtain row u where o: "find_job jid s = Some row" "row_attempt row = n"
      "patch_lease jid n (mut (toRecord row (readLease jid s))) x now (set_job jid (written_row x) s) = (Inr (), u)"
      "patch_snapshot jid (mut (toRecord row (readLease jid s))) u = (Inr (), t)"
    by metis
  have "find_job jid (set_job jid (written_row x) s) = Some (written_row x row)"
    using o(1) by (simp add: find_set_job written_row_def)
  then have "job_history (set_job jid (written_row x) s) u"
    by (rule patch_lease_history [OF _ _ o(3)]) (simp add: written_row_def o(2))
  moreover have "job_history u t"
    using jh.obeysD [OF obeys_patch_snapshot o(4)] .
  ultimately show "job_history s t"
    using history_frozen [OF frozen_written] jh.R_trans by blast
qed
qed

lemma granted_row_sel [simp]:
  "row_jobId (granted_row n now r) = row_jobId r" "row_attempt (granted_row n now r) = n" "last_seq (granted_row n now r) = last_seq r"
  "job_grows r (granted_row n now r) \<longleftrightarrow> row_attempt r \<le> n"
  by (simp_all add: granted_row_def job_grows_def)

lemma acquireLease_Inr:
  assumes "job_db_ok s" "acquireLease hook jid token ms now s = (Inr g, t)"
  obtains row where "find_job jid s = Some row" "g = \<lparr>lg_attempt = row_attempt row + 1, lg_leaseToken = token, lg_leaseExpiresAt = now + ms\<rparr>"
    "t = snd (upsert_lease \<lparr>ls_jobId = jid, ls_token = token, ls_generation = row_attempt row + 1, ls_expires_at = now + ms, ls_acquired_at = now\<rparr>
      (set_job jid (granted_row (row_attempt row + 1) now) s))"
    "\<And>l. readLease jid s = Some l \<Longrightarrow> ls_expires_at l \<le> now \<or> ls_token l = token"
proof -
  obtain row where row: "find_job jid s = Some row"
    using assms(2) by (auto simp: acquireLease_def atomic_Inr andThen_readRow split: option.splits)
  have c: "jobs_ok s"
    using assms(1) by (simp add: job_db_ok_def)
  have "\<not> (case readLease jid s of None \<Rightarrow> False | Some l \<Rightarrow> ls_expires_at l > now \<and> ls_token l \<noteq> token)"
    using assms(2) row by (auto simp: acquireLease_def atomic_Inr andThen_readRow)
  moreover from this have "t = snd (upsert_lease \<lparr>ls_jobId = jid, ls_token = token, ls_generation = row_attempt row + 1, ls_expires_at = now + ms, ls_acquired_at = now\<rparr>
      (set_job jid (granted_row (row_attempt row + 1) now) s)) \<and>
      g = \<lparr>lg_attempt = row_attempt row + 1, lg_leaseToken = token, lg_leaseExpiresAt = now + ms\<rparr>"
    using assms(2) row by (simp add: acquireLease_def atomic_Inr andThen_readRow Let_def andThen_cas [OF c row] upsert_lease_def)
  ultimately show ?thesis
    using that [OF row] by (auto split: option.splits)
qed

lemma obeys_acquireLease: "jh.obeys (acquireLease hook jid token ms now)"
proof (rule jh.obeysI)
  fix s :: "'a job_db_scheme" and r t0
  assume a0: "acquireLease hook jid token ms now s = (r, t0)"
  show "job_history s t0"
  proof (rule history_atomic [OF _ a0 [unfolded acquireLease_def], folded acquireLease_def])
  fix x t
  assume k: "job_db_ok s" and a: "acquireLease hook jid token ms now s = (Inr x, t)"
      from acquireLease_Inr [OF k a] obtain row where row: "find_job jid s = Some row"
    and t: "t = snd (upsert_lease \<lparr>ls_jobId = jid, ls_token = token, ls_generation = row_attempt row + 1, ls_expires_at = now + ms, ls_acquired_at = now\<rparr>
      (set_job jid (granted_row (row_attempt row + 1) now) s))" (is "t = snd (upsert_lease ?l ?u)")
    by metis
  have fu: "find_job j ?u = (if j = jid then Some (granted_row (row_attempt row + 1) now row) else find_job j s)" for j
    using row by (simp add: find_set_job)
  have g: "jobs_grow s t"
    using row by (auto simp: t upsert_lease_def jobs_grow_def fu simp del: One_nat_def add_Suc_right Nat.add_0_right)
  have "leases_ok (snd (upsert_lease ?l ?u))"
    using k row by (intro leases_ok_upsert [where r = "granted_row (row_attempt row + 1) now row"])
      (auto simp: job_db_ok_def leases_ok_def find_set_job)
  moreover have "jobs_ok t"
    using k by (simp add: t upsert_lease_def job_db_ok_def jobs_ok_set_job)
  moreover have "log_ok t"
    using k log_ok_set_job [of s "granted_row (row_attempt row + 1) now" jid]
    by (simp add: t upsert_lease_def job_db_ok_def)
  moreover have "checkpoints_ok t"
    using checkpoints_ok_grow [OF _ g] k by (simp add: job_db_ok_def t upsert_lease_def)
  ultimately show "job_history s t"
    using g by (simp add: job_history_def job_db_ok_def t upsert_lease_def)
qed
qed


lemma history_filter_leases: "job_history db (job_leases_update (filter P) db)"
  by (rule history_leases) (simp add: leases_ok_filter job_db_ok_def)

lemma obeys_releaseLease: "jh.obeys (releaseLease hook jid token)"
  unfolding releaseLease_def
  by (rule obeys_atomic)
    (auto simp: andThen_readRow split: option.splits if_splits intro: jh.R_refl history_filter_leases)

lemma leases_ok_update:
  "leases_ok db \<Longrightarrow> (\<And>l. ls_jobId (f l) = ls_jobId l \<and> ls_generation (f l) = ls_generation l) \<Longrightarrow>
    leases_ok (job_leases_update (sql_update p f) db)"
  by (fastforce simp: leases_ok_def map_sql_update set_sql_update)

lemma obeys_renewLease: "jh.obeys (renewLease hook jid token ms now)"
  unfolding renewLease_def
  by (rule obeys_atomic)
    (auto simp: andThen_readRow job_db_ok_def split: option.splits if_splits intro: jh.R_refl intro!: history_leases leases_ok_update)

text \<open>Appending.\<close>

lemma appendEvents_Inr:
  assumes "job_db_ok s" "appendEvents hook jid evs expected s = (Inr st, t)" "evs \<noteq> []"
  obtains row where "find_job jid s = Some row" "expected = None \<or> expected = Some (row_attempt row)"
    "t = set_job jid (\<lambda>r. r\<lparr>last_seq := last_seq row + length evs\<rparr>)
       (job_events_update (\<lambda>rows. rows @ map (\<lambda>(n, e). event_row jid n e) (enumerate (Suc (last_seq row)) evs)) s)"
    "st = map (\<lambda>(n, e). stamp n e) (enumerate (Suc (last_seq row)) evs)"
proof -
  obtain row where row: "find_job jid s = Some row" and x: "expected = None \<or> expected = Some (row_attempt row)"
    using assms(2,3) by (auto simp: appendEvents_def atomic_Inr andThen_readRow split: option.splits if_splits)
  let ?e = "job_events_update (\<lambda>rows. rows @ map (\<lambda>(n, e). event_row jid n e) (enumerate (Suc (last_seq row)) evs)) s"
  have r: "row \<in> set (jobs ?e)" "row_jobId row = jid" "distinct (map row_jobId (jobs ?e))" "last_seq row < last_seq row + length evs"
    using assms(1,3) row by (auto simp: job_db_ok_def find_job_Some jobs_ok_def)
  have "t = jobs_update (sql_update (\<lambda>r. row_jobId r = jid \<and> last_seq r < last_seq row + length evs)
         (\<lambda>r. r\<lparr>last_seq := last_seq row + length evs\<rparr>)) ?e \<and> st = map (\<lambda>(n, e). stamp n e) (enumerate (Suc (last_seq row)) evs)"
    using assms(2,3) row x
    by (auto simp: appendEvents_def atomic_Inr andThen_readRow andThen_Inr_iff Let_def dest!: insert_events_Inr split: if_splits option.splits)
  then show ?thesis
    using that [OF row x] update_unique [OF r(3,1,2), where q = "\<lambda>r. last_seq r < last_seq row + length evs", OF r(4)]
    by (simp add: set_job_def)
qed

lemma log_ok_append:
  assumes "log_ok db" "find_job jid db = Some row"
  shows "log_ok (set_job jid (\<lambda>r. r\<lparr>last_seq := last_seq row + length evs\<rparr>)
    (job_events_update (\<lambda>rows. rows @ map (\<lambda>(n, e). event_row jid n e) (enumerate (Suc (last_seq row)) evs)) db))" (is "log_ok ?t")
  unfolding log_ok_def
proof
  fix k
  have "map je_seq (job_log k db) = [1..<Suc (last_number k db)]"
    using assms(1) by (simp only: log_ok_def)
  moreover have "last_number k ?t = (if k = jid then last_seq row + length evs else last_number k db)" "last_number jid db = last_seq row"
    using assms(2) by (simp_all add: last_number_def find_set_job)
  moreover have "[1..<Suc (last_seq row)] @ [Suc (last_seq row)..<Suc (last_seq row) + length evs] = [1..<Suc (last_seq row + length evs)]"
    using upt_add_eq_append [of 1 "Suc (last_seq row)" "length evs"] by simp
  ultimately show "map je_seq (job_log k ?t) = [1..<Suc (last_number k ?t)]"
    by (cases "k = jid") (simp_all only: job_log_set_job job_log_append map_append map_je_seq_rows if_True if_False append_Nil2 simp_thms)
qed

lemma obeys_appendEvents: "jh.obeys (appendEvents hook jid evs expected)"
proof (cases "evs = []")
  case True
  then show ?thesis by (simp add: appendEvents_def jh.obeys_basic)
next
  case False
  show ?thesis
  proof (rule jh.obeysI)
    fix s :: "'a job_db_scheme" and r t0
    assume a0: "appendEvents hook jid evs expected s = (r, t0)"
    show "job_history s t0"
    proof (cases r)
      case (Inl e)
      then have "t0 = s" using a0 False atomic_Inl by (fastforce simp: appendEvents_def)
      then show ?thesis by (simp add: jh.R_refl)
    next
      case (Inr st)
      show ?thesis
        unfolding job_history_def
      proof (intro impI)
        assume k: "job_db_ok s"
        from appendEvents_Inr [OF k a0 [unfolded Inr] False] obtain row where row: "find_job jid s = Some row"
          and t: "t0 = set_job jid (\<lambda>r. r\<lparr>last_seq := last_seq row + length evs\<rparr>)
            (job_events_update (\<lambda>rows. rows @ map (\<lambda>(n, e). event_row jid n e) (enumerate (Suc (last_seq row)) evs)) s)"
          by metis
        have g: "jobs_grow s t0"
          using row by (auto simp: t jobs_grow_def find_set_job job_grows_def)
        moreover have "log_ok t0" "jobs_ok t0" "leases_ok t0"
          using k log_ok_append [OF _ row] by (simp_all add: t job_db_ok_def jobs_ok_set_job leases_ok_set_job)
        moreover have "checkpoints_ok t0"
          using checkpoints_ok_grow [OF _ g] k by (simp add: job_db_ok_def t)
        moreover have "log_extends s t0"
          by (simp add: t log_extends_def)
        ultimately show "job_db_ok t0 \<and> jobs_grow s t0 \<and> log_extends s t0"
          by (simp add: job_db_ok_def)
      qed
    qed
  qed
qed


lemma saveCheckpoint_Inr:
  assumes "saveCheckpoint hook jid cp now s = (Inr u, t)"
  obtains row where "find_job jid s = Some row" "row_attempt row = cp_attempt cp" "lastEventSeq cp \<le> last_seq row"
    "t = job_checkpoints_update (sql_upsert checkpoint_clash \<lparr>ck_jobId = jid, ck_checkpoint = cp, ck_last_event_seq = lastEventSeq cp,
        ck_attempt = cp_attempt cp, ck_updated_at = now\<rparr> (\<lambda>_. \<lparr>ck_jobId = jid, ck_checkpoint = cp, ck_last_event_seq = lastEventSeq cp,
        ck_attempt = cp_attempt cp, ck_updated_at = now\<rparr>)) s"
  using assms by (auto simp: saveCheckpoint_def atomic_Inr andThen_readRow Let_def split: option.splits if_splits)

lemma checkpoints_ok_upsert:
  assumes "checkpoints_ok s" "find_job (ck_jobId c) s = Some row"
    "lastEventSeq (ck_checkpoint c) \<le> last_seq row" "cp_attempt (ck_checkpoint c) \<le> row_attempt row"
    "ck_last_event_seq c = lastEventSeq (ck_checkpoint c)" "ck_attempt c = cp_attempt (ck_checkpoint c)"
  shows "checkpoints_ok (job_checkpoints_update (sql_upsert checkpoint_clash c (\<lambda>_. c)) s)"
proof -
  have "map ck_jobId (sql_update (checkpoint_clash c) (\<lambda>_. c) rows) = map ck_jobId rows" for rows
    by (auto simp: sql_update_def checkpoint_clash_def)
  then show ?thesis
    using assms by (auto simp: checkpoints_ok_def sql_upsert_def sql_clash_iff checkpoint_clash_def set_sql_update)
qed

lemma obeys_saveCheckpoint: "jh.obeys (saveCheckpoint hook jid cp now)"
proof (rule jh.obeysI)
  fix s :: "'a job_db_scheme" and r t0
  assume a0: "saveCheckpoint hook jid cp now s = (r, t0)"
  show "job_history s t0"
  proof (rule history_atomic [OF _ a0 [unfolded saveCheckpoint_def], folded saveCheckpoint_def])
    fix x t
    assume "job_db_ok s" "saveCheckpoint hook jid cp now s = (Inr x, t)"
    then show "job_history s t"
      by (auto elim!: saveCheckpoint_Inr simp: job_history_def job_db_ok_def checkpoints_ok_upsert)
  qed
qed

lemma obeys_listEvents: "jh.obeys (listEvents jid n)"
  unfolding listEvents_def by (intro jh.obeys_intros)

lemma obeys_getCheckpoint: "jh.obeys (getCheckpoint jid)"
  unfolding getCheckpoint_def by (intro jh.obeys_intros)

lemmas obeys_store = obeys_createJobRecord obeys_updateJobRecord obeys_acquireLease obeys_releaseLease obeys_renewLease
  obeys_appendEvents obeys_saveCheckpoint obeys_listEvents obeys_getCheckpoint

section \<open>Owners\<close>

text \<open>A write that names another generation than the current one is refused and changes nothing.\<close>

lemma stale_update: "find_job jid s = Some r \<Longrightarrow> row_attempt r \<noteq> n \<Longrightarrow> updateJobRecord hook jid n mut now s = (Inl (LeaseFencedError jid), s)"
  unfolding updateJobRecord_def by (rule atomic_throws) (simp add: andThen_readRow)

lemma stale_append: "find_job jid s = Some r \<Longrightarrow> row_attempt r \<noteq> n \<Longrightarrow> evs \<noteq> [] \<Longrightarrow>
    appendEvents hook jid evs (Some n) s = (Inl (LeaseFencedError jid), s)"
  unfolding appendEvents_def by (simp, rule atomic_throws) (simp add: andThen_readRow)

lemma stale_checkpoint: "find_job jid s = Some r \<Longrightarrow> row_attempt r \<noteq> cp_attempt cp \<Longrightarrow> saveCheckpoint hook jid cp now s = (Inl (LeaseFencedError jid), s)"
  unfolding saveCheckpoint_def by (rule atomic_throws) (simp add: andThen_readRow)

lemma acquired:
  assumes "job_db_ok s" "acquireLease hook jid token ms now s = (Inr g, t)"
  obtains r r' where "find_job jid s = Some r" "find_job jid t = Some r'" "row_attempt r' = lg_attempt g" "lg_attempt g = Suc (row_attempt r)"
  using acquireLease_Inr [OF assms]
proof -
  obtain row where "find_job jid s = Some row" "lg_attempt g = Suc (row_attempt row)"
    "t = snd (upsert_lease \<lparr>ls_jobId = jid, ls_token = token, ls_generation = row_attempt row + 1, ls_expires_at = now + ms, ls_acquired_at = now\<rparr>
      (set_job jid (granted_row (row_attempt row + 1) now) s))"
    by (rule acquireLease_Inr [OF assms]) simp
  then show ?thesis
    using that by (simp add: upsert_lease_def find_set_job)
qed

lemma history_attempt_mono:
  "job_history s t \<Longrightarrow> job_db_ok s \<Longrightarrow> find_job jid s = Some r \<Longrightarrow> \<exists>r'. find_job jid t = Some r' \<and> row_attempt r \<le> row_attempt r' \<and> last_seq r \<le> last_seq r'"
  by (fastforce simp: job_history_def jobs_grow_def job_grows_def)

end
