(* ===== verification/Distributed_Store.thy ===== *)
theory Distributed_Store
  imports Job_Store_Properties
begin

text \<open>
  The distributed control plane over the job database
  (\<^verbatim>\<open>vaulltcore-store-sql/src/distributed-store.ts\<close>, its adapters in \<^verbatim>\<open>registries.ts\<close>, and the
  contracts of \<^verbatim>\<open>vaulltcore-runner/src/distributed.ts\<close>): request idempotency, the worker
  registry, the dispatch of queued jobs to workers, recovery candidates and the life cycle of
  snapshots. It shares the tables of the job store, which its own tables extend. Clock readings and
  the token that \<^verbatim>\<open>claim\<close> draws are arguments.
\<close>

section \<open>Tables\<close>

record idempotency_row =
  ir_tenantId :: string
  ir_key :: string
  ir_requestHash :: string
  ir_jobId :: "string option"
  ir_responseStatus :: "int option"
  ir_responseBody :: "json option"
  ir_createdAt :: int
  ir_expiresAt :: "int option"

record worker_identity =
  workerId :: string
  bootToken :: string
  wk_label :: "string option"

record worker_row =
  wr_workerId :: string
  wr_bootToken :: string
  wr_label :: "string option"
  wr_status :: string
  wr_last_seen_at :: int
  wr_created_at :: int

record heartbeat_row =
  hb_workerId :: string
  hb_at :: int
  hb_activeJobs :: "string list"

record claim_row =
  dc_jobId :: string
  dc_workerId :: string
  dc_bootToken :: string
  dc_generation :: nat
  dc_token :: string
  dc_expires_at :: int
  dc_claimed_at :: int
  dc_acknowledged :: bool

datatype snapshot_state = SnCreated | SnActive | SnSuperseded | SnExpired | SnDeleting | SnDeleted | SnFailed

definition ACTIVE_SNAPSHOT_STATES :: "snapshot_state list" where
  "ACTIVE_SNAPSHOT_STATES = [SnCreated, SnActive]"

record snapshot_record =
  sr_snapshotId :: string
  sr_tenantId :: string
  sr_jobId :: string
  sr_provider :: string
  sr_sizeBytes :: "int option"
  sr_createdAt :: int
  sr_expiresAt :: "int option"
  sr_integrityHash :: string
  sr_attempt :: nat
  sr_state :: snapshot_state
  sr_supersededBy :: "string option"
  sr_updatedAt :: int

record dist_db = job_db +
  idempotency_records :: "idempotency_row list"
  workers :: "worker_row list"
  worker_heartbeats :: "heartbeat_row list"
  dispatch_claims :: "claim_row list"
  snapshot_lifecycle :: "snapshot_record list"

type_synonym ('z, 'a) dist_op = "('z dist_db_scheme, runner_error, 'a) op"

definition empty_dist_db :: dist_db where
  "empty_dist_db = job_db.extend empty_job_db \<lparr>idempotency_records = [], workers = [], worker_heartbeats = [], dispatch_claims = [],
     snapshot_lifecycle = []\<rparr>"

text \<open>The store has no commit hook.\<close>

abbreviation dist_atomic :: "('z, 'a) dist_op \<Rightarrow> ('z, 'a) dist_op" where
  "dist_atomic m \<equiv> atomic (\<lambda>_. None) [] m"

section \<open>Idempotency\<close>

record idempotency_claim =
  ic_tenantId :: string
  ic_key :: string
  ic_requestHash :: string

datatype idempotency_claim_result =
    Idem_new string
  | Idem_fulfilled string int
  | Idem_pending string
  | Idem_conflict "string option"

definition requestHash :: "host \<Rightarrow> json \<Rightarrow> string" where
  "requestHash h body = sha256 h (stableString h body)"

definition slotId :: "host \<Rightarrow> idempotency_claim \<Rightarrow> string" where
  "slotId h c = sha256 h (stableString h (JObj [(''tenantId'', JStr (ic_tenantId c)), (''key'', JStr (ic_key c)),
     (''requestHash'', JStr (ic_requestHash c))]))"

definition has_key :: "string \<Rightarrow> string \<Rightarrow> idempotency_row \<Rightarrow> bool" where
  "has_key tenant key r \<longleftrightarrow> ir_tenantId r = tenant \<and> ir_key r = key"

definition find_record :: "string \<Rightarrow> string \<Rightarrow> 'z dist_db_scheme \<Rightarrow> idempotency_row option" where
  "find_record tenant key db = sql_get (has_key tenant key) (idempotency_records db)"

definition idempotency_clash :: "idempotency_row \<Rightarrow> idempotency_row \<Rightarrow> bool" where
  "idempotency_clash a b \<longleftrightarrow> ir_tenantId a = ir_tenantId b \<and> ir_key a = ir_key b"

definition insert_record :: "idempotency_row \<Rightarrow> ('z, unit) dist_op" where
  "insert_record r = andThen (reads (\<lambda>db. sql_clash idempotency_clash r (idempotency_records db))) (\<lambda>clash.
     if clash then throw (OtherThrown ''UNIQUE constraint failed'') else modifies (idempotency_records_update (\<lambda>rows. rows @ [r])))"

definition insert_pending :: "host \<Rightarrow> idempotency_claim \<Rightarrow> int \<Rightarrow> ('z, idempotency_claim_result) dist_op" where
  "insert_pending h c now = andThen (insert_record \<lparr>ir_tenantId = ic_tenantId c, ir_key = ic_key c, ir_requestHash = ic_requestHash c,
       ir_jobId = None, ir_responseStatus = None, ir_responseBody = None, ir_createdAt = now, ir_expiresAt = None\<rparr>)
     (\<lambda>_. ok (Idem_new (slotId h c)))"

definition claimIdempotency :: "host \<Rightarrow> idempotency_claim \<Rightarrow> int \<Rightarrow> ('z, idempotency_claim_result) dist_op" where
  "claimIdempotency h c now = dist_atomic
     (andThen (reads (find_record (ic_tenantId c) (ic_key c))) (\<lambda>existing.
      case existing of None \<Rightarrow> insert_pending h c now
      | Some r \<Rightarrow>
          if (case ir_expiresAt r of None \<Rightarrow> False | Some t \<Rightarrow> t < now) then
            andThen (modifies (idempotency_records_update (filter (\<lambda>x. \<not> has_key (ic_tenantId c) (ic_key c) x)))) (\<lambda>_.
            insert_pending h c now)
          else if ir_requestHash r \<noteq> ic_requestHash c then ok (Idem_conflict (ir_jobId r))
          else (case (ir_jobId r, ir_responseStatus r) of
              (Some j, Some st) \<Rightarrow> ok (Idem_fulfilled j st)
            | _ \<Rightarrow> ok (Idem_pending (slotId h c)))))"

definition fulfillIdempotency :: "idempotency_claim \<Rightarrow> string \<Rightarrow> int \<Rightarrow> json option \<Rightarrow> int \<Rightarrow> ('z, unit) dist_op" where
  "fulfillIdempotency c job st body now = dist_atomic
     (andThen (reads (find_record (ic_tenantId c) (ic_key c))) (\<lambda>existing.
      case existing of None \<Rightarrow>
          insert_record \<lparr>ir_tenantId = ic_tenantId c, ir_key = ic_key c, ir_requestHash = ic_requestHash c,
            ir_jobId = Some job, ir_responseStatus = Some st, ir_responseBody = body, ir_createdAt = now, ir_expiresAt = None\<rparr>
      | Some _ \<Rightarrow>
          modifies (idempotency_records_update (sql_update (has_key (ic_tenantId c) (ic_key c))
            (\<lambda>r. r\<lparr>ir_jobId := Some job, ir_responseStatus := Some st, ir_responseBody := body\<rparr>)))))"

text \<open>The read model leaves the response body out; a record is read as its row.\<close>

definition getIdempotencyRecord :: "string \<Rightarrow> string \<Rightarrow> 'z dist_db_scheme \<Rightarrow> idempotency_row option" where
  "getIdempotencyRecord tenant key db = find_record tenant key db"

definition deleteIdempotencyRecord :: "string \<Rightarrow> string \<Rightarrow> ('z, unit) dist_op" where
  "deleteIdempotencyRecord tenant key = dist_atomic (modifies (idempotency_records_update (filter (\<lambda>r. \<not> has_key tenant key r))))"

definition claim_of :: "idempotency_row \<Rightarrow> idempotency_claim" where
  "claim_of r = \<lparr>ic_tenantId = ir_tenantId r, ic_key = ir_key r, ic_requestHash = ir_requestHash r\<rparr>"

definition getIdempotencyRecordBySlotId :: "host \<Rightarrow> string \<Rightarrow> 'z dist_db_scheme \<Rightarrow> idempotency_row option" where
  "getIdempotencyRecordBySlotId h sid db = sql_get (\<lambda>r. slotId h (claim_of r) = sid) (idempotency_records db)"

text \<open>\<^verbatim>\<open>SqlIdempotencyRegistry.fulfill\<close> and \<^verbatim>\<open>lookup\<close>.\<close>

definition registry_fulfill :: "host \<Rightarrow> string \<Rightarrow> string \<Rightarrow> int \<Rightarrow> int \<Rightarrow> ('z, unit) dist_op" where
  "registry_fulfill h sid job st now = andThen (reads (getIdempotencyRecordBySlotId h sid)) (\<lambda>rec.
     case rec of None \<Rightarrow> ok () | Some r \<Rightarrow> fulfillIdempotency (claim_of r) job st None now)"

definition registry_lookup :: "string \<Rightarrow> string \<Rightarrow> 'z dist_db_scheme \<Rightarrow> (string \<times> int option) option" where
  "registry_lookup tenant key db = (case getIdempotencyRecord tenant key db of
       None \<Rightarrow> None | Some r \<Rightarrow> (case ir_jobId r of None \<Rightarrow> None | Some j \<Rightarrow> Some (j, ir_responseStatus r)))"

section \<open>Workers\<close>

definition registerWorker :: "worker_identity \<Rightarrow> string option \<Rightarrow> int \<Rightarrow> ('z, unit) dist_op" where
  "registerWorker w label now =
     (let l = (case label of None \<Rightarrow> wk_label w | Some x \<Rightarrow> Some x);
          row = \<lparr>wr_workerId = workerId w, wr_bootToken = bootToken w, wr_label = l, wr_status = ''active'', wr_last_seen_at = now, wr_created_at = now\<rparr>
      in dist_atomic (modifies (workers_update (sql_upsert (\<lambda>a b. wr_workerId a = wr_workerId b) row
           (\<lambda>r. r\<lparr>wr_bootToken := bootToken w, wr_label := l, wr_status := ''active'', wr_last_seen_at := now\<rparr>)))))"

definition recordHeartbeat :: "worker_identity \<Rightarrow> int \<Rightarrow> string list \<Rightarrow> ('z, unit) dist_op" where
  "recordHeartbeat w tm activeJobs = dist_atomic
     (andThen (modifies (workers_update (sql_update (\<lambda>r. wr_workerId r = workerId w) (\<lambda>r. r\<lparr>wr_last_seen_at := tm, wr_status := ''active''\<rparr>)))) (\<lambda>_.
      modifies (worker_heartbeats_update (sql_insert_ignore (\<lambda>a b. hb_workerId a = hb_workerId b \<and> hb_at a = hb_at b)
        \<lparr>hb_workerId = workerId w, hb_at = tm, hb_activeJobs = activeJobs\<rparr>))))"

definition departWorker :: "string \<Rightarrow> int \<Rightarrow> ('z, unit) dist_op" where
  "departWorker wid now = dist_atomic (modifies (workers_update (sql_update (\<lambda>r. wr_workerId r = wid)
     (\<lambda>r. r\<lparr>wr_status := ''departed'', wr_last_seen_at := now\<rparr>))))"

definition listWorkers :: "'z dist_db_scheme \<Rightarrow> worker_row list" where
  "listWorkers db = workers db"

section \<open>Dispatch\<close>

record dispatch_claim =
  cl_jobId :: string
  cl_worker :: worker_identity
  cl_generation :: nat
  cl_token :: string
  cl_expiresAt :: int

definition enqueue :: "string \<Rightarrow> int \<Rightarrow> ('z, unit) dist_op" where
  "enqueue jid now = dist_atomic
     (andThen (readRow jid) (\<lambda>row.
      if row_status row = JSuspended then
        andThen (modifies (jobs_update (sql_update (\<lambda>r. row_jobId r = jid) (\<lambda>r. r\<lparr>row_status := JQueued, row_updatedAt := now\<rparr>)))) (\<lambda>_.
        andThen (modifies (dispatch_claims_update (filter (\<lambda>c. dc_jobId c \<noteq> jid)))) (\<lambda>_.
        modifies (job_leases_update (filter (\<lambda>l. ls_jobId l \<noteq> jid)))))
      else ok ()))"

definition find_claim :: "string \<Rightarrow> 'z dist_db_scheme \<Rightarrow> claim_row option" where
  "find_claim jid db = sql_get (\<lambda>c. dc_jobId c = jid) (dispatch_claims db)"

definition claimable :: "int \<Rightarrow> 'z dist_db_scheme \<Rightarrow> job_row \<Rightarrow> bool" where
  "claimable now db j \<longleftrightarrow> row_status j = JQueued \<and>
     (case find_claim (row_jobId j) db of None \<Rightarrow> True | Some d \<Rightarrow> dc_expires_at d \<le> now)"

text \<open>The query: the oldest queued job without a live assignment.\<close>

definition candidate :: "int \<Rightarrow> 'z dist_db_scheme \<Rightarrow> job_row option" where
  "candidate now db = (case sort_key row_createdAt (filter (claimable now db) (jobs db)) of [] \<Rightarrow> None | j # _ \<Rightarrow> Some j)"

definition claim_clash :: "claim_row \<Rightarrow> claim_row \<Rightarrow> bool" where
  "claim_clash a b \<longleftrightarrow> dc_jobId a = dc_jobId b"

text \<open>The conditional upsert: an assignment that is still live is not overwritten.\<close>

definition claimed_row :: "worker_identity \<Rightarrow> int \<Rightarrow> string \<Rightarrow> int \<Rightarrow> job_row \<Rightarrow> claim_row" where
  "claimed_row w ms token now j = \<lparr>dc_jobId = row_jobId j, dc_workerId = workerId w, dc_bootToken = bootToken w,
     dc_generation = row_attempt j, dc_token = token, dc_expires_at = now + ms, dc_claimed_at = now, dc_acknowledged = False\<rparr>"

definition claim :: "worker_identity \<Rightarrow> int \<Rightarrow> string \<Rightarrow> int \<Rightarrow> ('z, dispatch_claim option) dist_op" where
  "claim w ms token now = dist_atomic
     (andThen (reads (candidate now)) (\<lambda>found.
      case found of None \<Rightarrow> ok None
      | Some j \<Rightarrow>
          let row = claimed_row w ms token now j in
          andThen (reads (\<lambda>db. if sql_clash claim_clash row (dispatch_claims db)
              then sql_count (\<lambda>c. claim_clash row c \<and> dc_expires_at c \<le> now) (dispatch_claims db) else 1)) (\<lambda>changes.
          andThen (modifies (dispatch_claims_update (sql_upsert claim_clash row (\<lambda>c. if dc_expires_at c \<le> now then row else c)))) (\<lambda>_.
          if changes = 0 then ok None
          else ok (Some \<lparr>cl_jobId = row_jobId j, cl_worker = w, cl_generation = row_attempt j, cl_token = token, cl_expiresAt = now + ms\<rparr>)))))"

definition acknowledge :: "dispatch_claim \<Rightarrow> ('z, unit) dist_op" where
  "acknowledge c = dist_atomic
     (andThen (reads (\<lambda>db. sql_count (\<lambda>d. dc_jobId d = cl_jobId c \<and> dc_token d = cl_token c) (dispatch_claims db))) (\<lambda>changes.
      andThen (modifies (dispatch_claims_update (sql_update (\<lambda>d. dc_jobId d = cl_jobId c \<and> dc_token d = cl_token c)
        (\<lambda>d. d\<lparr>dc_acknowledged := True\<rparr>)))) (\<lambda>_.
      if changes = 0 then throw (VaulltcoreError ''DISPATCH_FENCED'') else ok ())))"

definition heartbeat :: "dispatch_claim \<Rightarrow> int \<Rightarrow> int \<Rightarrow> ('z, lease_renewal_result) dist_op" where
  "heartbeat c ms now = dist_atomic
     (andThen (reads (find_claim (cl_jobId c))) (\<lambda>row.
      case row of None \<Rightarrow> ok Renewal_not_found
      | Some d \<Rightarrow>
          if dc_token d \<noteq> cl_token c then ok Renewal_fenced
          else if dc_expires_at d \<le> now then ok (Renewal_expired (dc_expires_at d))
          else
            andThen (reads (\<lambda>db. (sql_count (\<lambda>d. dc_jobId d = cl_jobId c \<and> dc_token d = cl_token c) (dispatch_claims db),
              sql_count (\<lambda>l. ls_jobId l = cl_jobId c \<and> ls_token l = cl_token c) (job_leases db)))) (\<lambda>(r1, r2).
            andThen (modifies (dispatch_claims_update (sql_update (\<lambda>d. dc_jobId d = cl_jobId c \<and> dc_token d = cl_token c)
              (\<lambda>d. d\<lparr>dc_expires_at := now + ms\<rparr>)))) (\<lambda>_.
            andThen (modifies (job_leases_update (sql_update (\<lambda>l. ls_jobId l = cl_jobId c \<and> ls_token l = cl_token c)
              (\<lambda>l. l\<lparr>ls_expires_at := now + ms\<rparr>)))) (\<lambda>_.
            if r1 = 0 \<or> r2 = 0 then ok Renewal_fenced else ok (Renewed (now + ms)))))))"

definition release :: "dispatch_claim \<Rightarrow> ('z, unit) dist_op" where
  "release c = dist_atomic
     (andThen (modifies (dispatch_claims_update (filter (\<lambda>d. \<not> (dc_jobId d = cl_jobId c \<and> dc_token d = cl_token c))))) (\<lambda>_.
      modifies (job_leases_update (filter (\<lambda>l. \<not> (ls_jobId l = cl_jobId c \<and> ls_token l = cl_token c))))))"

section \<open>Recovery candidates\<close>

datatype recovery_reason = Orphaned | Lease_expired

record worker_lease =
  wl_jobId :: string
  wl_workerId :: string
  wl_bootToken :: string
  wl_generation :: nat
  wl_token :: string
  wl_expiresAt :: int
  wl_lastHeartbeatAt :: int

record recovery_candidate =
  rc_jobId :: string
  rc_reason :: recovery_reason
  rc_lease :: "worker_lease option"

definition candidate_of :: "int \<Rightarrow> 'z dist_db_scheme \<Rightarrow> job_row \<Rightarrow> recovery_candidate list" where
  "candidate_of now db j =
     (let l = readLease (row_jobId j) db; d = find_claim (row_jobId j) db
      in if (case l of None \<Rightarrow> True | Some x \<Rightarrow> ls_expires_at x \<le> now) then
           [\<lparr>rc_jobId = row_jobId j, rc_reason = (if l = None then Orphaned else Lease_expired),
             rc_lease = (case (l, d) of
                 (Some x, Some c) \<Rightarrow> Some \<lparr>wl_jobId = row_jobId j, wl_workerId = dc_workerId c, wl_bootToken = dc_bootToken c,
                   wl_generation = ls_generation x, wl_token = ls_token x, wl_expiresAt = ls_expires_at x, wl_lastHeartbeatAt = ls_acquired_at x\<rparr>
               | _ \<Rightarrow> None)\<rparr>]
         else [])"

definition RECOVERABLE :: "job_status list" where
  "RECOVERABLE = [JLeased, JPreparing, JRunning, JCheckpointing, JResuming]"

definition findRecoveryCandidates :: "int \<Rightarrow> 'z dist_db_scheme \<Rightarrow> recovery_candidate list" where
  "findRecoveryCandidates now db =
     concat (map (candidate_of now db) (filter (\<lambda>j. row_status j \<in> set RECOVERABLE) (jobs db)))"

section \<open>Snapshots\<close>

definition is_active :: "snapshot_record \<Rightarrow> bool" where
  "is_active r \<longleftrightarrow> sr_state r \<in> set ACTIVE_SNAPSHOT_STATES"

definition snapshot_key :: "snapshot_record \<Rightarrow> snapshot_record \<Rightarrow> bool" where
  "snapshot_key a b \<longleftrightarrow> sr_snapshotId a = sr_snapshotId b"

definition update_snapshot :: "string \<Rightarrow> (snapshot_record \<Rightarrow> snapshot_record) \<Rightarrow> ('z, unit) dist_op" where
  "update_snapshot sid f = dist_atomic (modifies (snapshot_lifecycle_update (sql_update (\<lambda>r. sr_snapshotId r = sid) f)))"

text \<open>The argument's state, replacement and time of update are not read (its type leaves them out).\<close>

definition recordSnapshotCreated :: "snapshot_record \<Rightarrow> int \<Rightarrow> ('z, unit) dist_op" where
  "recordSnapshotCreated r now = dist_atomic (modifies (snapshot_lifecycle_update
     (sql_upsert snapshot_key (r\<lparr>sr_state := SnCreated, sr_supersededBy := None, sr_updatedAt := now\<rparr>)
       (\<lambda>x. x\<lparr>sr_state := SnActive, sr_updatedAt := now\<rparr>))))"

definition activateSnapshot :: "string \<Rightarrow> int \<Rightarrow> ('z, unit) dist_op" where
  "activateSnapshot sid now = update_snapshot sid (\<lambda>r. r\<lparr>sr_state := SnActive, sr_updatedAt := now\<rparr>)"

definition supersedeSnapshot :: "string \<Rightarrow> string \<Rightarrow> int \<Rightarrow> ('z, unit) dist_op" where
  "supersedeSnapshot sid replacement now =
     update_snapshot sid (\<lambda>r. r\<lparr>sr_state := SnSuperseded, sr_supersededBy := Some replacement, sr_updatedAt := now\<rparr>)"

definition markSnapshotState :: "string \<Rightarrow> snapshot_state \<Rightarrow> int \<Rightarrow> ('z, unit) dist_op" where
  "markSnapshotState sid st now = update_snapshot sid (\<lambda>r. r\<lparr>sr_state := st, sr_updatedAt := now\<rparr>)"

definition deleteSnapshotRecord :: "string \<Rightarrow> ('z, unit) dist_op" where
  "deleteSnapshotRecord sid = dist_atomic (modifies (snapshot_lifecycle_update (filter (\<lambda>r. sr_snapshotId r \<noteq> sid))))"

definition getSnapshotRecord :: "string \<Rightarrow> 'z dist_db_scheme \<Rightarrow> snapshot_record option" where
  "getSnapshotRecord sid db = sql_get (\<lambda>r. sr_snapshotId r = sid) (snapshot_lifecycle db)"

definition listJobSnapshots :: "string \<Rightarrow> 'z dist_db_scheme \<Rightarrow> snapshot_record list" where
  "listJobSnapshots jid db = sort_key sr_createdAt (filter (\<lambda>r. sr_jobId r = jid) (snapshot_lifecycle db))"

definition latestSnapshotForJob :: "string \<Rightarrow> 'z dist_db_scheme \<Rightarrow> snapshot_record option" where
  "latestSnapshotForJob jid db = (let active = filter is_active (listJobSnapshots jid db) in if active = [] then None else Some (last active))"

subsection \<open>Garbage collection\<close>

definition GC_BUFFER_MS :: int where
  "GC_BUFFER_MS = 60000"

definition expired :: "int \<Rightarrow> snapshot_record \<Rightarrow> bool" where
  "expired now r \<longleftrightarrow> (case sr_expiresAt r of None \<Rightarrow> False | Some t \<Rightarrow> t + GC_BUFFER_MS < now)"

definition hasActiveReplacement :: "snapshot_record list \<Rightarrow> snapshot_record \<Rightarrow> bool" where
  "hasActiveReplacement records r \<longleftrightarrow> (case sr_supersededBy r of None \<Rightarrow> False
     | Some sid \<Rightarrow> list_ex (\<lambda>x. sr_snapshotId x = sid \<and> sr_state x = SnActive) records)"

definition activeForJob :: "snapshot_record list \<Rightarrow> string \<Rightarrow> snapshot_record list" where
  "activeForJob records jid = filter (\<lambda>r. is_active r \<and> sr_jobId r = jid) records"

definition isLastActive :: "snapshot_record list \<Rightarrow> snapshot_record \<Rightarrow> bool" where
  "isLastActive records r \<longleftrightarrow> (case activeForJob records (sr_jobId r) of [x] \<Rightarrow> sr_snapshotId x = sr_snapshotId r | _ \<Rightarrow> False)"

definition deletes :: "int \<Rightarrow> snapshot_record list \<Rightarrow> snapshot_record \<Rightarrow> bool" where
  "deletes now records r \<longleftrightarrow>
     (if sr_state r = SnDeleted then False
      else if sr_state r = SnFailed then True
      else (expired now r \<and> hasActiveReplacement records r \<and> \<not> isLastActive records r) \<or>
           (sr_state r = SnSuperseded \<and> hasActiveReplacement records r \<and> \<not> isLastActive records r))"

definition gc_reason :: "int \<Rightarrow> snapshot_record list \<Rightarrow> snapshot_record \<Rightarrow> string" where
  "gc_reason now records r =
     (if sr_state r = SnDeleted then ''already deleted''
      else if sr_state r = SnFailed then ''snapshot in failed state; safe to delete''
      else if expired now r \<and> hasActiveReplacement records r \<and> \<not> isLastActive records r then
        ''expired and superseded by a durably-committed active replacement''
      else if sr_state r = SnSuperseded \<and> hasActiveReplacement records r \<and> \<not> isLastActive records r then
        ''superseded by an active replacement; retention no longer required''
      else if isLastActive records r then ''last valid recovery artifact for a non-terminal job; retained until replacement commits''
      else ''not yet eligible'')"

record gc_decision =
  deletable :: "snapshot_record list"
  retained :: "snapshot_record list"
  reasons :: "(string \<times> string) list"

definition gcDecision :: "int \<Rightarrow> 'z dist_db_scheme \<Rightarrow> gc_decision" where
  "gcDecision now db =
     \<lparr>deletable = filter (deletes now (snapshot_lifecycle db)) (snapshot_lifecycle db),
      retained = filter (\<lambda>r. \<not> deletes now (snapshot_lifecycle db) r) (snapshot_lifecycle db),
      reasons = map (\<lambda>r. (sr_snapshotId r, gc_reason now (snapshot_lifecycle db) r)) (snapshot_lifecycle db)\<rparr>"

subsection \<open>The registry\<close>

text \<open>\<^verbatim>\<open>SqlSnapshotRegistry\<close>: a statement followed by a read of the row it wrote.\<close>

definition register_snapshot :: "snapshot_record \<Rightarrow> int \<Rightarrow> ('z, snapshot_record option) dist_op" where
  "register_snapshot r now = andThen (recordSnapshotCreated r now) (\<lambda>_. reads (getSnapshotRecord (sr_snapshotId r)))"

definition activate :: "string \<Rightarrow> int \<Rightarrow> ('z, snapshot_record option) dist_op" where
  "activate sid now = andThen (activateSnapshot sid now) (\<lambda>_. reads (getSnapshotRecord sid))"

definition supersede :: "string \<Rightarrow> string \<Rightarrow> int \<Rightarrow> ('z, snapshot_record option) dist_op" where
  "supersede sid replacement now = andThen (supersedeSnapshot sid replacement now) (\<lambda>_. reads (getSnapshotRecord sid))"

definition listForJob :: "string \<Rightarrow> 'z dist_db_scheme \<Rightarrow> snapshot_record list" where
  "listForJob jid db = rev (listJobSnapshots jid db)"

primrec apply_deletions :: "snapshot_record list \<Rightarrow> int \<Rightarrow> ('z, unit) dist_op" where
  "apply_deletions [] now = ok ()"
| "apply_deletions (r # rs) now = andThen (markSnapshotState (sr_snapshotId r) SnDeleting now) (\<lambda>_.
     andThen (deleteSnapshotRecord (sr_snapshotId r)) (\<lambda>_. apply_deletions rs now))"

definition applyGc :: "gc_decision \<Rightarrow> int \<Rightarrow> ('z, unit) dist_op" where
  "applyGc d now = apply_deletions (deletable d) now"

end
