(* ===== verification/Distributed_Properties.thy ===== *)
theory Distributed_Properties
  imports Distributed_Store
begin

text \<open>
  The job store and the control plane as one state machine. \<open>store_step\<close> has one rule per
  operation of \<^verbatim>\<open>SqlJobStore\<close> and \<^verbatim>\<open>DistributedSqlStore\<close>, \<open>store_run\<close> is any
  sequence of them, by any number of callers in any order, each labelled with the operation's name,
  the job it names (if it names one) and its clock reading. The properties are stated over such runs from the empty database.
\<close>

section \<open>Runs of operations\<close>

record label =
  op_name :: string
  op_job :: string
  op_time :: int

inductive store_step :: "label \<Rightarrow> dist_db \<Rightarrow> dist_db \<Rightarrow> bool" where
  step_create: "createJobRecord hook r s = (x, t) \<Longrightarrow> store_step \<lparr>op_name = ''createJobRecord'', op_job = jr_jobId r, op_time = 0\<rparr> s t"
| step_update: "updateJobRecord hook jid n mut now s = (x, t) \<Longrightarrow> store_step \<lparr>op_name = ''updateJobRecord'', op_job = jid, op_time = now\<rparr> s t"
| step_acquire: "acquireLease hook jid token ms now s = (x, t) \<Longrightarrow> store_step \<lparr>op_name = ''acquireLease'', op_job = jid, op_time = now\<rparr> s t"
| step_renew: "renewLease hook jid token ms now s = (x, t) \<Longrightarrow> store_step \<lparr>op_name = ''renewLease'', op_job = jid, op_time = now\<rparr> s t"
| step_releaseLease: "releaseLease hook jid token s = (x, t) \<Longrightarrow> store_step \<lparr>op_name = ''releaseLease'', op_job = jid, op_time = 0\<rparr> s t"
| step_append: "appendEvents hook jid evs expected s = (x, t) \<Longrightarrow> store_step \<lparr>op_name = ''appendEvents'', op_job = jid, op_time = 0\<rparr> s t"
| step_checkpoint: "saveCheckpoint hook jid cp now s = (x, t) \<Longrightarrow> store_step \<lparr>op_name = ''saveCheckpoint'', op_job = jid, op_time = now\<rparr> s t"
| step_claimIdempotency: "claimIdempotency h c now s = (x, t) \<Longrightarrow> store_step \<lparr>op_name = ''claimIdempotency'', op_job = '''', op_time = now\<rparr> s t"
| step_fulfill: "fulfillIdempotency c job st body now s = (x, t) \<Longrightarrow> store_step \<lparr>op_name = ''fulfillIdempotency'', op_job = '''', op_time = now\<rparr> s t"
| step_deleteKey: "deleteIdempotencyRecord tenant key s = (x, t) \<Longrightarrow> store_step \<lparr>op_name = ''deleteIdempotencyRecord'', op_job = '''', op_time = 0\<rparr> s t"
| step_register: "registerWorker w label now s = (x, t) \<Longrightarrow> store_step \<lparr>op_name = ''registerWorker'', op_job = '''', op_time = now\<rparr> s t"
| step_workerHeartbeat: "recordHeartbeat w tm active s = (x, t) \<Longrightarrow> store_step \<lparr>op_name = ''recordHeartbeat'', op_job = '''', op_time = tm\<rparr> s t"
| step_depart: "departWorker wid now s = (x, t) \<Longrightarrow> store_step \<lparr>op_name = ''departWorker'', op_job = '''', op_time = now\<rparr> s t"
| step_enqueue: "enqueue jid now s = (x, t) \<Longrightarrow> store_step \<lparr>op_name = ''enqueue'', op_job = jid, op_time = now\<rparr> s t"
| step_claim: "claim w ms token now s = (x, t) \<Longrightarrow> store_step \<lparr>op_name = ''claim'', op_job = '''', op_time = now\<rparr> s t"
| step_acknowledge: "acknowledge c s = (x, t) \<Longrightarrow> store_step \<lparr>op_name = ''acknowledge'', op_job = cl_jobId c, op_time = 0\<rparr> s t"
| step_heartbeat: "heartbeat c ms now s = (x, t) \<Longrightarrow> store_step \<lparr>op_name = ''heartbeat'', op_job = cl_jobId c, op_time = now\<rparr> s t"
| step_release: "release c s = (x, t) \<Longrightarrow> store_step \<lparr>op_name = ''release'', op_job = cl_jobId c, op_time = 0\<rparr> s t"
| step_snapshotCreated: "recordSnapshotCreated r now s = (x, t) \<Longrightarrow> store_step \<lparr>op_name = ''recordSnapshotCreated'', op_job = sr_jobId r, op_time = now\<rparr> s t"
| step_activate: "activateSnapshot sid now s = (x, t) \<Longrightarrow> store_step \<lparr>op_name = ''activateSnapshot'', op_job = '''', op_time = now\<rparr> s t"
| step_supersede: "supersedeSnapshot sid sid' now s = (x, t) \<Longrightarrow> store_step \<lparr>op_name = ''supersedeSnapshot'', op_job = '''', op_time = now\<rparr> s t"
| step_mark: "markSnapshotState sid st now s = (x, t) \<Longrightarrow> store_step \<lparr>op_name = ''markSnapshotState'', op_job = '''', op_time = now\<rparr> s t"
| step_deleteSnapshot: "deleteSnapshotRecord sid s = (x, t) \<Longrightarrow> store_step \<lparr>op_name = ''deleteSnapshotRecord'', op_job = '''', op_time = 0\<rparr> s t"

inductive store_run :: "label list \<Rightarrow> dist_db \<Rightarrow> dist_db \<Rightarrow> bool" where
  run_done: "store_run [] s s"
| run_step: "store_step l s t \<Longrightarrow> store_run ls t u \<Longrightarrow> store_run (l # ls) s u"

text \<open>An invariant of every step is one of every run.\<close>

lemma store_run_keeps:
  "store_run ls s t \<Longrightarrow> (\<And>l s t. l \<in> set ls \<Longrightarrow> store_step l s t \<Longrightarrow> I s \<Longrightarrow> I t) \<Longrightarrow> I s \<Longrightarrow> I t"
  by (induction rule: store_run.induct) auto

section \<open>The job tables\<close>

lemma job_history_cong:
  assumes "jobs t = jobs s" "job_leases t = job_leases s" "job_events t = job_events s" "job_checkpoints t = job_checkpoints s"
  shows "job_history s t"
proof -
  have [simp]: "find_job jid t = find_job jid s" "job_log jid t = job_log jid s" "last_number jid t = last_number jid s" for jid
    by (simp_all add: find_job_def job_log_def last_number_def assms)
  show ?thesis
    by (simp add: job_history_def job_db_ok_def jobs_ok_def leases_ok_def log_ok_def checkpoints_ok_def jobs_grow_def log_extends_def assms)
qed

lemma history_dist_tables [intro]:
  "job_history s (idempotency_records_update f1 s)" "job_history s (workers_update f2 s)"
  "job_history s (worker_heartbeats_update f3 s)" "job_history s (dispatch_claims_update f4 s)"
  "job_history s (snapshot_lifecycle_update f5 s)"
  by (rule job_history_cong; simp)+

lemma obeys_dist_modifies:
  "jh.obeys (modifies (idempotency_records_update f1))" "jh.obeys (modifies (workers_update f2))"
  "jh.obeys (modifies (worker_heartbeats_update f3))" "jh.obeys (modifies (dispatch_claims_update f4))"
  "jh.obeys (modifies (snapshot_lifecycle_update f5))"
  by (auto simp: jh.obeys_def)

lemma obeys_atomic_op: "jh.obeys m \<Longrightarrow> jh.obeys (atomic hook name m)"
  by (rule obeys_atomic) (rule jh.obeysD)

lemma history_requeue: "job_history s (jobs_update (sql_update (\<lambda>r. row_jobId r = jid) (\<lambda>r. r\<lparr>row_status := st, row_updatedAt := now\<rparr>)) s)"
  using history_frozen [of "\<lambda>r. r\<lparr>row_status := st, row_updatedAt := now\<rparr>" s jid]
  by (simp add: set_job_def frozen_def job_grows_def)

lemma history_touch_leases:
  "job_history s (job_leases_update (sql_update p (\<lambda>l. l\<lparr>ls_expires_at := e\<rparr>)) s)"
  by (rule history_leases) (auto simp: job_db_ok_def intro!: leases_ok_update)

lemma obeys_job_modifies:
  "jh.obeys (modifies (jobs_update (sql_update (\<lambda>r. row_jobId r = jid) (\<lambda>r. r\<lparr>row_status := st, row_updatedAt := now\<rparr>))))"
  "jh.obeys (modifies (job_leases_update (filter P)))"
  "jh.obeys (modifies (job_leases_update (sql_update p (\<lambda>l. l\<lparr>ls_expires_at := e\<rparr>))))"
  by (auto simp: jh.obeys_def history_requeue history_filter_leases history_touch_leases)

lemma obeys_readRow: "jh.obeys (readRow jid)"
  unfolding readRow_def by (intro jh.obeys_intros)

lemmas obeys_dist_intros = jh.obeys_intros obeys_atomic_op obeys_dist_modifies obeys_job_modifies obeys_readRow

lemma obeys_idempotency:
  "jh.obeys (claimIdempotency h c now)" "jh.obeys (fulfillIdempotency c job st body now)" "jh.obeys (deleteIdempotencyRecord tenant key)"
  unfolding claimIdempotency_def fulfillIdempotency_def deleteIdempotencyRecord_def insert_pending_def insert_record_def
  by (intro obeys_dist_intros)+

lemma obeys_workers: "jh.obeys (registerWorker w label now)" "jh.obeys (recordHeartbeat w tm active)" "jh.obeys (departWorker wid now)"
  unfolding registerWorker_def recordHeartbeat_def departWorker_def by (intro obeys_dist_intros)+

lemma obeys_dispatch:
  "jh.obeys (enqueue jid now)" "jh.obeys (claim w ms token now)" "jh.obeys (acknowledge cl)" "jh.obeys (heartbeat cl ms now)"
  "jh.obeys (release cl)"
  unfolding enqueue_def claim_def acknowledge_def heartbeat_def release_def by (intro obeys_dist_intros)+

lemma obeys_snapshots:
  "jh.obeys (recordSnapshotCreated r now)" "jh.obeys (activateSnapshot sid now)" "jh.obeys (supersedeSnapshot sid sid' now)"
  "jh.obeys (markSnapshotState sid sst now)" "jh.obeys (deleteSnapshotRecord sid)"
  unfolding recordSnapshotCreated_def activateSnapshot_def supersedeSnapshot_def markSnapshotState_def deleteSnapshotRecord_def update_snapshot_def
  by (intro obeys_dist_intros)+

lemmas obeys_dist = obeys_idempotency obeys_workers obeys_dispatch obeys_snapshots

lemma store_step_history: "store_step l s t \<Longrightarrow> job_history s t"
  by (erule store_step.cases) (auto intro: obeys_store [THEN jh.obeysD] obeys_dist [THEN jh.obeysD])

lemma store_run_history: "store_run ls s t \<Longrightarrow> job_history s t"
  by (induction rule: store_run.induct) (auto intro: jh.R_refl jh.R_trans store_step_history)

lemma empty_dist_db_ok: "job_db_ok empty_dist_db"
  by (simp add: job_db_ok_def jobs_ok_def leases_ok_def log_ok_def checkpoints_ok_def empty_dist_db_def empty_job_db_def find_job_def
    job_log_def last_number_def job_db.extend_def)

lemma reached_ok: "store_run ls empty_dist_db s \<Longrightarrow> job_db_ok s"
  using store_run_history empty_dist_db_ok by (auto simp: job_history_def)

lemma run_ok: "store_run ls s t \<Longrightarrow> job_db_ok s \<Longrightarrow> job_db_ok t"
  using store_run_history by (auto simp: job_history_def)


section \<open>The tables of the control plane\<close>

definition dist_tables :: "dist_db \<Rightarrow> idempotency_row list \<times> worker_row list \<times> heartbeat_row list \<times> claim_row list \<times> snapshot_record list" where
  "dist_tables s = (idempotency_records s, workers s, worker_heartbeats s, dispatch_claims s, snapshot_lifecycle s)"

text \<open>The operations of the job store do not write them.\<close>

lemma dist_tables_frames [simp]:
  "dist_tables (jobs_update f1 s) = dist_tables s" "dist_tables (job_leases_update f2 s) = dist_tables s"
  "dist_tables (job_events_update f3 s) = dist_tables s" "dist_tables (job_checkpoints_update f4 s) = dist_tables s"
  "dist_tables (job_snapshots_update f5 s) = dist_tables s"
  by (simp_all add: dist_tables_def)

lemma keeps_let: "keeps I (f x) \<Longrightarrow> keeps I (Let x f)"
  by simp

lemma keeps_case_prod: "(\<And>x y. keeps I (f x y)) \<Longrightarrow> keeps I (case p of (x, y) \<Rightarrow> f x y)"
  by (cases p) simp

lemma keeps_tables_modifies:
  "keeps (\<lambda>s. dist_tables s = v) (modifies (jobs_update f1))" "keeps (\<lambda>s. dist_tables s = v) (modifies (job_leases_update f2))"
  "keeps (\<lambda>s. dist_tables s = v) (modifies (job_events_update f3))" "keeps (\<lambda>s. dist_tables s = v) (modifies (job_checkpoints_update f4))"
  "keeps (\<lambda>s. dist_tables s = v) (modifies (job_snapshots_update f5))"
  by (simp_all add: keeps_def)

lemma keeps_insert_events: "keeps (\<lambda>s. dist_tables s = v) (insert_events jid seq es)"
  by (induction es arbitrary: seq) (auto intro!: keeps_intros keeps_tables_modifies)

lemmas tables_intros = keeps_intros keeps_tables_modifies keeps_let keeps_case_prod keeps_insert_events

lemma keeps_tables:
  "keeps (\<lambda>s. dist_tables s = v) (createJobRecord hook r)" "keeps (\<lambda>s. dist_tables s = v) (updateJobRecord hook jid n mut now)"
  "keeps (\<lambda>s. dist_tables s = v) (acquireLease hook jid token ms now)" "keeps (\<lambda>s. dist_tables s = v) (renewLease hook jid token ms now)"
  "keeps (\<lambda>s. dist_tables s = v) (releaseLease hook jid token)" "keeps (\<lambda>s. dist_tables s = v) (appendEvents hook jid evs expected)"
  "keeps (\<lambda>s. dist_tables s = v) (saveCheckpoint hook jid cp now)"
  unfolding createJobRecord_def updateJobRecord_def acquireLease_def renewLease_def releaseLease_def appendEvents_def saveCheckpoint_def
    readRow_def cas_job_def patch_lease_def patch_snapshot_def upsert_lease_def
  by (intro tables_intros | simp split: prod.splits option.splits)+

lemma tables_kept:
  assumes "keeps (\<lambda>s. dist_tables s = dist_tables s0) m" "m s0 = (r, t)"
  shows "dist_tables t = dist_tables s0"
  using keepsD [OF assms(1) _ assms(2)] by simp

lemmas job_ops_tables = keeps_tables [THEN tables_kept]

subsection \<open>What each operation writes\<close>

lemma atomic_modifies: "dist_atomic (modifies f) s = (Inr (), f s)"
  by (simp add: atomic_def)

text \<open>The tables a step of each operation may leave changed.\<close>

definition writes_idempotency :: "string list" where
  "writes_idempotency = [''claimIdempotency'', ''fulfillIdempotency'', ''deleteIdempotencyRecord'']"

definition writes_dispatch :: "string list" where
  "writes_dispatch = [''enqueue'', ''claim'', ''acknowledge'', ''heartbeat'', ''release'']"

definition writes_snapshots :: "string list" where
  "writes_snapshots = [''recordSnapshotCreated'', ''activateSnapshot'', ''supersedeSnapshot'', ''markSnapshotState'', ''deleteSnapshotRecord'']"

lemma keeps_column_modifies:
  "keeps (\<lambda>s. idempotency_records s = v1) (modifies (jobs_update f1))" "keeps (\<lambda>s. idempotency_records s = v1) (modifies (job_leases_update f2))"
  "keeps (\<lambda>s. idempotency_records s = v1) (modifies (workers_update f3))" "keeps (\<lambda>s. idempotency_records s = v1) (modifies (worker_heartbeats_update f4))"
  "keeps (\<lambda>s. idempotency_records s = v1) (modifies (dispatch_claims_update f5))" "keeps (\<lambda>s. idempotency_records s = v1) (modifies (snapshot_lifecycle_update f6))"
  "keeps (\<lambda>s. dispatch_claims s = v2) (modifies (workers_update f3))" "keeps (\<lambda>s. dispatch_claims s = v2) (modifies (worker_heartbeats_update f4))"
  "keeps (\<lambda>s. dispatch_claims s = v2) (modifies (idempotency_records_update f7))" "keeps (\<lambda>s. dispatch_claims s = v2) (modifies (snapshot_lifecycle_update f6))"
  "keeps (\<lambda>s. snapshot_lifecycle s = v3) (modifies (jobs_update f1))" "keeps (\<lambda>s. snapshot_lifecycle s = v3) (modifies (job_leases_update f2))"
  "keeps (\<lambda>s. snapshot_lifecycle s = v3) (modifies (workers_update f3))" "keeps (\<lambda>s. snapshot_lifecycle s = v3) (modifies (worker_heartbeats_update f4))"
  "keeps (\<lambda>s. snapshot_lifecycle s = v3) (modifies (dispatch_claims_update f5))" "keeps (\<lambda>s. snapshot_lifecycle s = v3) (modifies (idempotency_records_update f7))"
  by (simp_all add: keeps_def)

lemmas column_intros = keeps_intros keeps_column_modifies keeps_let keeps_case_prod

lemma keeps_idempotency:
  "keeps (\<lambda>s. idempotency_records s = v) (registerWorker w label now)" "keeps (\<lambda>s. idempotency_records s = v) (recordHeartbeat w tm active)"
  "keeps (\<lambda>s. idempotency_records s = v) (departWorker wid now)" "keeps (\<lambda>s. idempotency_records s = v) (enqueue jid now)"
  "keeps (\<lambda>s. idempotency_records s = v) (claim w ms token now)" "keeps (\<lambda>s. idempotency_records s = v) (acknowledge c)"
  "keeps (\<lambda>s. idempotency_records s = v) (heartbeat c ms now)" "keeps (\<lambda>s. idempotency_records s = v) (release c)"
  "keeps (\<lambda>s. idempotency_records s = v) (recordSnapshotCreated r now)" "keeps (\<lambda>s. idempotency_records s = v) (activateSnapshot sid now)"
  "keeps (\<lambda>s. idempotency_records s = v) (supersedeSnapshot sid sid' now)" "keeps (\<lambda>s. idempotency_records s = v) (markSnapshotState sid sst now)"
  "keeps (\<lambda>s. idempotency_records s = v) (deleteSnapshotRecord sid)"
  unfolding registerWorker_def recordHeartbeat_def departWorker_def enqueue_def claim_def acknowledge_def heartbeat_def release_def
    recordSnapshotCreated_def activateSnapshot_def supersedeSnapshot_def markSnapshotState_def deleteSnapshotRecord_def update_snapshot_def readRow_def
  by (intro column_intros | simp split: prod.splits option.splits)+

lemma keeps_dispatch:
  "keeps (\<lambda>s. dispatch_claims s = v) (registerWorker w label now)" "keeps (\<lambda>s. dispatch_claims s = v) (recordHeartbeat w tm active)"
  "keeps (\<lambda>s. dispatch_claims s = v) (departWorker wid now)" "keeps (\<lambda>s. dispatch_claims s = v) (claimIdempotency h ic now)"
  "keeps (\<lambda>s. dispatch_claims s = v) (fulfillIdempotency ic job st body now)" "keeps (\<lambda>s. dispatch_claims s = v) (deleteIdempotencyRecord tenant key)"
  "keeps (\<lambda>s. dispatch_claims s = v) (recordSnapshotCreated r now)" "keeps (\<lambda>s. dispatch_claims s = v) (activateSnapshot sid now)"
  "keeps (\<lambda>s. dispatch_claims s = v) (supersedeSnapshot sid sid' now)" "keeps (\<lambda>s. dispatch_claims s = v) (markSnapshotState sid sst now)"
  "keeps (\<lambda>s. dispatch_claims s = v) (deleteSnapshotRecord sid)"
  unfolding registerWorker_def recordHeartbeat_def departWorker_def claimIdempotency_def fulfillIdempotency_def deleteIdempotencyRecord_def insert_pending_def
    insert_record_def recordSnapshotCreated_def activateSnapshot_def supersedeSnapshot_def markSnapshotState_def deleteSnapshotRecord_def update_snapshot_def
  by (intro column_intros | simp split: prod.splits option.splits)+

lemma keeps_snapshots:
  "keeps (\<lambda>s. snapshot_lifecycle s = v) (registerWorker w label now)" "keeps (\<lambda>s. snapshot_lifecycle s = v) (recordHeartbeat w tm active)"
  "keeps (\<lambda>s. snapshot_lifecycle s = v) (departWorker wid now)" "keeps (\<lambda>s. snapshot_lifecycle s = v) (claimIdempotency h ic now)"
  "keeps (\<lambda>s. snapshot_lifecycle s = v) (fulfillIdempotency ic job st body now)" "keeps (\<lambda>s. snapshot_lifecycle s = v) (deleteIdempotencyRecord tenant key)"
  "keeps (\<lambda>s. snapshot_lifecycle s = v) (enqueue jid now)" "keeps (\<lambda>s. snapshot_lifecycle s = v) (claim w ms token now)"
  "keeps (\<lambda>s. snapshot_lifecycle s = v) (acknowledge c)" "keeps (\<lambda>s. snapshot_lifecycle s = v) (heartbeat c ms now)"
  "keeps (\<lambda>s. snapshot_lifecycle s = v) (release c)"
  unfolding registerWorker_def recordHeartbeat_def departWorker_def claimIdempotency_def fulfillIdempotency_def deleteIdempotencyRecord_def insert_pending_def
    insert_record_def enqueue_def claim_def acknowledge_def heartbeat_def release_def readRow_def
  by (intro column_intros | simp split: prod.splits option.splits)+

lemma column_kept:
  assumes "keeps (\<lambda>s. g s = g s0) m" "m s0 = (r, t)"
  shows "g t = g s0"
  using keepsD [OF assms(1) _ assms(2)] by simp

lemma step_idempotency_kept:
  "store_step l s t \<Longrightarrow> op_name l \<notin> set writes_idempotency \<Longrightarrow> idempotency_records t = idempotency_records s"
  by (erule store_step.cases)
    (auto simp: writes_idempotency_def dist_tables_def dest: job_ops_tables keeps_idempotency [THEN column_kept])

lemma step_dispatch_kept:
  "store_step l s t \<Longrightarrow> op_name l \<notin> set writes_dispatch \<Longrightarrow> dispatch_claims t = dispatch_claims s"
  by (erule store_step.cases)
    (auto simp: writes_dispatch_def dist_tables_def dest: job_ops_tables keeps_dispatch [THEN column_kept])


section \<open>Dispatch\<close>

text \<open>At most one assignment per job.\<close>

definition dispatch_ok :: "dist_db \<Rightarrow> bool" where
  "dispatch_ok s \<longleftrightarrow> distinct (map dc_jobId (dispatch_claims s))"

lemma find_claim_Some: "dispatch_ok s \<Longrightarrow> find_claim jid s = Some d \<longleftrightarrow> d \<in> set (dispatch_claims s) \<and> dc_jobId d = jid"
  unfolding find_claim_def dispatch_ok_def by (rule sql_get_key)

lemma find_claim_None: "find_claim jid s = None \<longleftrightarrow> (\<forall>d \<in> set (dispatch_claims s). dc_jobId d \<noteq> jid)"
  by (simp add: find_claim_def sql_get_None)

lemma find_claim_cong: "dispatch_claims t = dispatch_claims s \<Longrightarrow> find_claim jid t = find_claim jid s"
  by (simp add: find_claim_def)

lemma candidate_claimable:
  assumes "candidate now s = Some j"
  shows "j \<in> set (jobs s)" "claimable now s j"
proof -
  have "j \<in> set (filter (claimable now s) (jobs s))"
    using assms by (auto simp: candidate_def split: list.splits dest!: arg_cong [where f = set])
  then show "j \<in> set (jobs s)" "claimable now s j"
    by simp_all
qed

lemma claimed_row_sel [simp]:
  "dc_jobId (claimed_row w ms token now j) = row_jobId j" "dc_token (claimed_row w ms token now j) = token"
  "dc_expires_at (claimed_row w ms token now j) = now + ms" "dc_generation (claimed_row w ms token now j) = row_attempt j"
  by (simp_all add: claimed_row_def)

definition put_claim :: "claim_row \<Rightarrow> dist_db \<Rightarrow> dist_db" where
  "put_claim row = dispatch_claims_update (sql_upsert claim_clash row (\<lambda>_. row))"

lemma sql_get_upsert:
  "sql_get (\<lambda>x. key x = k) (sql_upsert (\<lambda>a b. key a = key b) row (\<lambda>_. row) rows) =
    (if k = key row then Some row else sql_get (\<lambda>x. key x = k) rows)"
proof (cases "\<exists>x \<in> set rows. key row = key x")
  case True
  have "sql_get (\<lambda>x. key x = k) (sql_update (\<lambda>b. key row = key b) (\<lambda>_. row) rows) =
      map_option (\<lambda>b. if key row = key b then row else b) (sql_get (\<lambda>x. key x = k) rows)"
    by (rule sql_get_update) simp
  moreover have "sql_get (\<lambda>x. key x = key row) rows \<noteq> None"
    using True by (auto simp: sql_get_None)
  moreover have "sql_get (\<lambda>x. key x = k) rows = Some x \<Longrightarrow> key x = k" for x
    by (auto dest: sql_get_Some)
  ultimately show ?thesis
    using True by (cases "sql_get (\<lambda>x. key x = k) rows") (auto simp: sql_upsert_def sql_clash_iff)
next
  case False
  then have "sql_get (\<lambda>x. key x = key row) rows = None"
    by (auto simp: sql_get_None)
  then show ?thesis using False by (auto simp: sql_upsert_def sql_clash_iff split: option.splits)
qed

lemma find_put_claim:
  "find_claim k (put_claim row s) = (if k = dc_jobId row then Some row else find_claim k s)"
  using sql_get_upsert [of dc_jobId k row "dispatch_claims s"] by (simp add: find_claim_def put_claim_def claim_clash_def [abs_def])

lemma dispatch_ok_put: "dispatch_ok s \<Longrightarrow> dispatch_ok (put_claim row s)"
proof -
  have "map dc_jobId (sql_update (claim_clash row) (\<lambda>_. row) rows) = map dc_jobId rows" for rows
    by (auto simp: sql_update_def claim_clash_def)
  then show "dispatch_ok s \<Longrightarrow> dispatch_ok (put_claim row s)"
    by (auto simp: dispatch_ok_def put_claim_def sql_upsert_def sql_clash_iff claim_clash_def)
qed

lemma dispatch_update_cong:
  "f (dispatch_claims s) = g (dispatch_claims s) \<Longrightarrow> dispatch_claims_update f s = dispatch_claims_update g (s :: dist_db)"
  by (cases s) simp

lemma claim_run:
  assumes "dispatch_ok s"
  shows "claim w ms token now s = (case candidate now s of None \<Rightarrow> (Inr None, s)
     | Some j \<Rightarrow> (Inr (Some \<lparr>cl_jobId = row_jobId j, cl_worker = w, cl_generation = row_attempt j, cl_token = token, cl_expiresAt = now + ms\<rparr>),
         put_claim (claimed_row w ms token now j) s))"
proof (cases "candidate now s")
  case None
  then show ?thesis by (simp add: claim_def atomic_def)
next
  case (Some j)
  let ?row = "claimed_row w ms token now j"
  have c: "d \<in> set (dispatch_claims s) \<Longrightarrow> dc_jobId d = row_jobId j \<Longrightarrow> dc_expires_at d \<le> now" for d
    using candidate_claimable(2) [OF Some] find_claim_Some [OF assms, of "row_jobId j" d] by (auto simp: claimable_def)
  have u: "sql_upsert claim_clash ?row (\<lambda>c. if dc_expires_at c \<le> now then ?row else c) (dispatch_claims s) =
      sql_upsert claim_clash ?row (\<lambda>_. ?row) (dispatch_claims s)"
    using c by (auto simp: sql_upsert_def sql_update_def claim_clash_def)
  have n: "sql_clash claim_clash ?row (dispatch_claims s) \<Longrightarrow>
      0 < sql_count (\<lambda>c. claim_clash ?row c \<and> dc_expires_at c \<le> now) (dispatch_claims s)"
    using c by (auto simp: sql_count_def sql_clash_iff claim_clash_def filter_empty_conv)
  have put: "dispatch_claims_update (sql_upsert claim_clash ?row (\<lambda>c. if dc_expires_at c \<le> now then ?row else c)) s = put_claim ?row s"
    unfolding put_claim_def by (rule dispatch_update_cong) (rule u)
  show ?thesis
    using Some n by (simp add: claim_def atomic_def Let_def put)
qed


lemma acknowledge_claims:
  "acknowledge c s = (x, t) \<Longrightarrow> dispatch_claims t = dispatch_claims s \<or>
     dispatch_claims t = sql_update (\<lambda>d. dc_jobId d = cl_jobId c \<and> dc_token d = cl_token c) (\<lambda>d. d\<lparr>dc_acknowledged := True\<rparr>) (dispatch_claims s)"
  by (auto simp: acknowledge_def atomic_def split: if_splits)

lemma release_claims:
  "release c s = (x, t) \<Longrightarrow> dispatch_claims t = filter (\<lambda>d. \<not> (dc_jobId d = cl_jobId c \<and> dc_token d = cl_token c)) (dispatch_claims s)"
  by (auto simp: release_def atomic_def)

lemma enqueue_claims:
  "enqueue jid now s = (x, t) \<Longrightarrow> dispatch_claims t = dispatch_claims s \<or> dispatch_claims t = filter (\<lambda>d. dc_jobId d \<noteq> jid) (dispatch_claims s)"
  by (auto simp: enqueue_def atomic_def andThen_readRow split: if_splits option.splits)

lemma heartbeat_claims:
  "heartbeat c ms now s = (x, t) \<Longrightarrow> dispatch_claims t = dispatch_claims s \<or>
     dispatch_claims t = sql_update (\<lambda>d. dc_jobId d = cl_jobId c \<and> dc_token d = cl_token c) (\<lambda>d. d\<lparr>dc_expires_at := now + ms\<rparr>) (dispatch_claims s)"
  by (auto simp: heartbeat_def atomic_def split: if_splits option.splits)

lemma claim_claims:
  assumes "dispatch_ok s" "claim w ms token now s = (x, t)"
  shows "t = s \<or> (\<exists>j. candidate now s = Some j \<and> t = put_claim (claimed_row w ms token now j) s)"
  using assms(2) by (auto simp: claim_run [OF assms(1)] split: option.splits)

lemma dispatch_ok_cong: "dispatch_claims t = dispatch_claims s \<Longrightarrow> dispatch_ok s \<Longrightarrow> dispatch_ok t"
  by (simp add: dispatch_ok_def)

lemma dispatch_ok_filter: "dispatch_ok s \<Longrightarrow> dispatch_claims t = filter p (dispatch_claims s) \<Longrightarrow> dispatch_ok t"
  by (simp add: dispatch_ok_def distinct_map_filter)

lemma dispatch_ok_update:
  "dispatch_ok s \<Longrightarrow> (\<And>d. dc_jobId (f d) = dc_jobId d) \<Longrightarrow> dispatch_claims t = sql_update p f (dispatch_claims s) \<Longrightarrow> dispatch_ok t"
  by (simp add: dispatch_ok_def map_sql_update)

lemma step_dispatch_ok:
  assumes "store_step l s t" "dispatch_ok s"
  shows "dispatch_ok t"
proof (cases "op_name l \<in> set writes_dispatch")
  case False
  then show ?thesis using assms step_dispatch_kept dispatch_ok_cong by blast
next
  case True
  with assms show ?thesis
  proof cases
    case (step_acknowledge c x)
    from acknowledge_claims [OF step_acknowledge(2)] show ?thesis
      using dispatch_ok_cong [OF _ assms(2)] dispatch_ok_update [OF assms(2), where f = "\<lambda>d. d\<lparr>dc_acknowledged := True\<rparr>"] by fastforce
  next
    case (step_heartbeat c ms now x)
    from heartbeat_claims [OF step_heartbeat(2)] show ?thesis
      using dispatch_ok_cong [OF _ assms(2)] dispatch_ok_update [OF assms(2), where f = "\<lambda>d. d\<lparr>dc_expires_at := now + ms\<rparr>"] by fastforce
  next
    case (step_release c x)
    then show ?thesis using assms(2) release_claims dispatch_ok_filter by blast
  next
    case (step_enqueue jid now x)
    then show ?thesis using assms(2) enqueue_claims dispatch_ok_filter dispatch_ok_cong by blast
  next
    case (step_claim w ms token now x)
    then show ?thesis using assms(2) claim_claims dispatch_ok_put by blast
  qed (auto simp: writes_dispatch_def)
qed

lemma run_dispatch_ok: "store_run ls s t \<Longrightarrow> dispatch_ok s \<Longrightarrow> dispatch_ok t"
  by (erule store_run_keeps) (auto intro: step_dispatch_ok)

lemma reached_dispatch_ok: "store_run ls empty_dist_db s \<Longrightarrow> dispatch_ok s"
  by (erule run_dispatch_ok) (simp add: dispatch_ok_def empty_dist_db_def job_db.extend_def)

text \<open>An assignment that is held until \<open>T\<close> under a token.\<close>

definition held :: "string \<Rightarrow> string \<Rightarrow> int \<Rightarrow> dist_db \<Rightarrow> bool" where
  "held jid token T s \<longleftrightarrow> dispatch_ok s \<and> (\<exists>d. find_claim jid s = Some d \<and> dc_token d = token \<and> dc_expires_at d = T)"

lemma held_not_candidate: "held jid token T s \<Longrightarrow> now < T \<Longrightarrow> candidate now s = Some j \<Longrightarrow> row_jobId j \<noteq> jid"
  by (auto simp: held_def claimable_def dest!: candidate_claimable(2))

lemma find_claim_update:
  "(\<And>d. dc_jobId (f d) = dc_jobId d) \<Longrightarrow> dispatch_claims t = sql_update p f (dispatch_claims s) \<Longrightarrow>
    find_claim jid t = map_option (\<lambda>d. if p d then f d else d) (find_claim jid s)"
  by (simp add: find_claim_def sql_get_update)

lemma find_claim_filter:
  fixes s t :: dist_db
  assumes "dispatch_ok s" "dispatch_claims t = filter p (dispatch_claims s)" "find_claim jid s = Some d" "p d"
  shows "find_claim jid t = Some d"
  using assms find_claim_Some [OF dispatch_ok_filter [OF assms(1,2)]] by (simp add: find_claim_Some)

lemma step_held:
  assumes "store_step l s t" "held jid token T s"
    "op_job l = jid \<longrightarrow> op_name l \<notin> {''release'', ''enqueue'', ''heartbeat''}" "op_name l = ''claim'' \<longrightarrow> op_time l < T"
  shows "held jid token T t"
proof (cases "op_name l \<in> set writes_dispatch")
  case False
  then have "dispatch_claims t = dispatch_claims s" using assms step_dispatch_kept by blast
  then show ?thesis using assms(2) by (simp add: held_def dispatch_ok_def find_claim_def)
next
  case True
  obtain d where d: "find_claim jid s = Some d" "dc_token d = token" "dc_expires_at d = T" "dispatch_ok s"
    using assms(2) by (auto simp: held_def)
  then have j: "dc_jobId d = jid" by (simp add: find_claim_Some)
  have "\<exists>d. find_claim jid t = Some d \<and> dc_token d = token \<and> dc_expires_at d = T"
    using assms(1) True
  proof cases
    case (step_acknowledge c x)
    from acknowledge_claims [OF step_acknowledge(2)] show ?thesis
      using d(1-3) find_claim_cong [of t s jid] find_claim_update [where f = "\<lambda>d. d\<lparr>dc_acknowledged := True\<rparr>" and jid = jid and s = s and t = t] by fastforce
  next
    case (step_heartbeat c ms now x)
    then have "\<not> (dc_jobId d = cl_jobId c \<and> dc_token d = cl_token c)"
      using assms(3) j by auto
    with heartbeat_claims [OF step_heartbeat(2)] show ?thesis
      using d(1-3) find_claim_cong [of t s jid] find_claim_update [where f = "\<lambda>d. d\<lparr>dc_expires_at := now + ms\<rparr>" and jid = jid and s = s and t = t]
      by fastforce
  next
    case (step_release c x)
    then show ?thesis using d j assms(3) find_claim_filter [OF d(4) release_claims [OF step_release(2)] d(1)] by auto
  next
    case (step_enqueue jid' now x)
    then have "jid' \<noteq> jid" using assms(3) by auto
    with enqueue_claims [OF step_enqueue(2)] show ?thesis
      using d j find_claim_cong [of t s jid] find_claim_filter [OF d(4) _ d(1), of t "\<lambda>d. dc_jobId d \<noteq> jid'"] by metis
  next
    case (step_claim w ms token' now x)
    then have "candidate now s = Some j' \<Longrightarrow> row_jobId j' \<noteq> jid" for j'
      using assms(4) held_not_candidate [OF assms(2)] by auto
    with claim_claims [OF d(4) step_claim(2)] d(1-3) show ?thesis
      by (auto simp: find_put_claim)
  qed (auto simp: writes_dispatch_def)
  then show ?thesis using assms(1,2) step_dispatch_ok by (auto simp: held_def)
qed

lemma claim_held:
  assumes "dispatch_ok s" "claim w ms token now s = (Inr (Some c), t)"
  shows "held (cl_jobId c) (cl_token c) (cl_expiresAt c) t"
  using assms(2) by (auto simp: claim_run [OF assms(1)] held_def find_put_claim dispatch_ok_put assms(1) split: option.splits)


section \<open>Idempotency\<close>

text \<open>One record per key; no operation gives a record an expiry.\<close>

definition keys_ok :: "dist_db \<Rightarrow> bool" where
  "keys_ok s \<longleftrightarrow> distinct (map (\<lambda>r. (ir_tenantId r, ir_key r)) (idempotency_records s)) \<and>
     (\<forall>r \<in> set (idempotency_records s). ir_expiresAt r = None)"

definition pending_row :: "idempotency_claim \<Rightarrow> int \<Rightarrow> idempotency_row" where
  "pending_row c now = \<lparr>ir_tenantId = ic_tenantId c, ir_key = ic_key c, ir_requestHash = ic_requestHash c,
     ir_jobId = None, ir_responseStatus = None, ir_responseBody = None, ir_createdAt = now, ir_expiresAt = None\<rparr>"

definition fulfilled_row :: "idempotency_claim \<Rightarrow> string \<Rightarrow> int \<Rightarrow> json option \<Rightarrow> int \<Rightarrow> idempotency_row" where
  "fulfilled_row c job st body now = (pending_row c now)\<lparr>ir_jobId := Some job, ir_responseStatus := Some st, ir_responseBody := body\<rparr>"

lemma row_sel [simp]:
  "ir_tenantId (pending_row c now) = ic_tenantId c" "ir_key (pending_row c now) = ic_key c" "ir_requestHash (pending_row c now) = ic_requestHash c"
  "ir_expiresAt (pending_row c now) = None" "ir_jobId (pending_row c now) = None"
  "ir_tenantId (fulfilled_row c job st body now) = ic_tenantId c" "ir_key (fulfilled_row c job st body now) = ic_key c"
  "ir_requestHash (fulfilled_row c job st body now) = ic_requestHash c" "ir_expiresAt (fulfilled_row c job st body now) = None"
  "ir_jobId (fulfilled_row c job st body now) = Some job" "ir_responseStatus (fulfilled_row c job st body now) = Some st"
  by (simp_all add: pending_row_def fulfilled_row_def)

text \<open>The answer to a claim of a key that has a record.\<close>

definition answer :: "host \<Rightarrow> idempotency_claim \<Rightarrow> idempotency_row \<Rightarrow> idempotency_claim_result" where
  "answer h c r = (if ir_requestHash r \<noteq> ic_requestHash c then Idem_conflict (ir_jobId r)
     else (case (ir_jobId r, ir_responseStatus r) of (Some j, Some st) \<Rightarrow> Idem_fulfilled j st | _ \<Rightarrow> Idem_pending (slotId h c)))"

lemma find_record_Some:
  "find_record tn k s = Some r \<Longrightarrow> r \<in> set (idempotency_records s) \<and> ir_tenantId r = tn \<and> ir_key r = k"
  by (auto simp: find_record_def has_key_def dest: sql_get_Some)

lemma no_record_no_clash:
  "find_record (ir_tenantId r) (ir_key r) s = None \<Longrightarrow> \<not> sql_clash idempotency_clash r (idempotency_records s)"
  by (auto simp: find_record_def has_key_def sql_get_None sql_clash_iff idempotency_clash_def)

lemma insert_record_new:
  "find_record (ir_tenantId r) (ir_key r) s = None \<Longrightarrow> insert_record r s = (Inr (), idempotency_records_update (\<lambda>rows. rows @ [r]) s)"
  using no_record_no_clash by (simp add: insert_record_def)

lemma claimIdempotency_run:
  assumes "keys_ok s"
  shows "claimIdempotency h c now s = (case find_record (ic_tenantId c) (ic_key c) s of
       None \<Rightarrow> (Inr (Idem_new (slotId h c)), idempotency_records_update (\<lambda>rows. rows @ [pending_row c now]) s)
     | Some r \<Rightarrow> (Inr (answer h c r), s))"
proof (cases "find_record (ic_tenantId c) (ic_key c) s")
  case None
  then show ?thesis
    using insert_record_new [of "pending_row c now" s]
    by (simp add: claimIdempotency_def insert_pending_def atomic_def andThen_def flip: pending_row_def)
next
  case (Some r)
  then have "ir_expiresAt r = None"
    using assms find_record_Some [OF Some] by (auto simp: keys_ok_def)
  then show ?thesis
    using Some by (simp add: claimIdempotency_def atomic_def answer_def split: option.splits)
qed

lemma fulfillIdempotency_run:
  "fulfillIdempotency c job st body now s = (Inr (), idempotency_records_update
     (case find_record (ic_tenantId c) (ic_key c) s of
        None \<Rightarrow> (\<lambda>rows. rows @ [fulfilled_row c job st body now])
      | Some _ \<Rightarrow> sql_update (has_key (ic_tenantId c) (ic_key c))
          (\<lambda>r. r\<lparr>ir_jobId := Some job, ir_responseStatus := Some st, ir_responseBody := body\<rparr>)) s)"
proof (cases "find_record (ic_tenantId c) (ic_key c) s")
  case None
  then show ?thesis
    using insert_record_new [of "fulfilled_row c job st body now" s]
    by (simp add: fulfillIdempotency_def atomic_def fulfilled_row_def pending_row_def)
next
  case (Some r)
  then show ?thesis by (simp add: fulfillIdempotency_def atomic_def)
qed

lemma keys_ok_append:
  "keys_ok s \<Longrightarrow> find_record (ir_tenantId r) (ir_key r) s = None \<Longrightarrow> ir_expiresAt r = None \<Longrightarrow>
    keys_ok (idempotency_records_update (\<lambda>rows. rows @ [r]) s)"
  by (auto simp: keys_ok_def find_record_def has_key_def sql_get_None)

lemma keys_ok_update:
  assumes "keys_ok s" "\<And>r. ir_tenantId (f r) = ir_tenantId r \<and> ir_key (f r) = ir_key r \<and> ir_expiresAt (f r) = ir_expiresAt r"
  shows "keys_ok (idempotency_records_update (sql_update p f) s)"
  using assms by (auto simp: keys_ok_def map_sql_update set_sql_update)

lemma keys_ok_filter: "keys_ok s \<Longrightarrow> keys_ok (idempotency_records_update (filter p) s)"
  by (auto simp: keys_ok_def distinct_map_filter)

lemma keys_ok_fulfilled:
  assumes "keys_ok s" "fulfillIdempotency c job st body now s = (x, t)"
  shows "keys_ok t"
  using assms(2) keys_ok_append [OF assms(1), of "fulfilled_row c job st body now"]
    keys_ok_update [OF assms(1), of "\<lambda>r. r\<lparr>ir_jobId := Some job, ir_responseStatus := Some st, ir_responseBody := body\<rparr>"]
  by (auto simp: fulfillIdempotency_run split: option.splits)

lemma step_keys_ok:
  assumes "store_step l s t" "keys_ok s"
  shows "keys_ok t"
proof (cases "op_name l \<in> set writes_idempotency")
  case False
  then show ?thesis using assms step_idempotency_kept by (fastforce simp: keys_ok_def)
next
  case True
  with assms(1) show ?thesis
  proof cases
    case (step_claimIdempotency h c now x)
    then show ?thesis using assms(2) keys_ok_append [OF assms(2), of "pending_row c now"]
      by (auto simp: claimIdempotency_run split: option.splits)
  next
    case (step_fulfill c job st body now x)
    then show ?thesis using assms(2) keys_ok_fulfilled by blast
  next
    case (step_deleteKey tenant key x)
    then show ?thesis using keys_ok_filter [OF assms(2)] by (auto simp: deleteIdempotencyRecord_def atomic_def)
  qed (auto simp: writes_idempotency_def)
qed

lemma reached_keys_ok: "store_run ls empty_dist_db s \<Longrightarrow> keys_ok s"
  by (erule store_run_keeps) (auto intro: step_keys_ok, simp add: keys_ok_def empty_dist_db_def job_db.extend_def)

text \<open>What becomes of a record: only a deletion takes it away, only a fulfilment changes it, and never its hash.\<close>

lemma step_record:
  assumes "store_step l s t" "keys_ok s" "find_record tn k s = Some r" "op_name l \<noteq> ''deleteIdempotencyRecord''"
  obtains r' where "find_record tn k t = Some r'" "ir_requestHash r' = ir_requestHash r" "op_name l \<noteq> ''fulfillIdempotency'' \<Longrightarrow> r' = r"
proof (cases "op_name l \<in> set writes_idempotency")
  case False
  then show ?thesis using assms that step_idempotency_kept by (fastforce simp: find_record_def)
next
  case True
  with assms(1) show ?thesis
  proof cases
    case (step_claimIdempotency h c now x)
    then show ?thesis using assms(2,3) that
      by (auto simp: claimIdempotency_run find_record_def split: option.splits)
  next
    case (step_fulfill c job st body now x)
    have "sql_get (has_key tn k) (sql_update (has_key (ic_tenantId c) (ic_key c)) (\<lambda>r. r\<lparr>ir_jobId := Some job, ir_responseStatus := Some st, ir_responseBody := body\<rparr>) rows)
      = map_option (\<lambda>r. if has_key (ic_tenantId c) (ic_key c) r then r\<lparr>ir_jobId := Some job, ir_responseStatus := Some st, ir_responseBody := body\<rparr> else r)
        (sql_get (has_key tn k) rows)" for rows
      by (rule sql_get_update) (simp add: has_key_def)
    then show ?thesis using assms(3) that step_fulfill
      by (auto simp: fulfillIdempotency_run find_record_def split: option.splits if_splits)
  next
    case (step_deleteKey tenant key x)
    then show ?thesis using assms(4) by simp
  qed (auto simp: writes_idempotency_def)
qed


section \<open>Snapshots\<close>

definition snapshots_ok :: "dist_db \<Rightarrow> bool" where
  "snapshots_ok s \<longleftrightarrow> distinct (map sr_snapshotId (snapshot_lifecycle s))"

lemma update_snapshot_run:
  "update_snapshot sid f s = (Inr (), snapshot_lifecycle_update (sql_update (\<lambda>r. sr_snapshotId r = sid) f) s)"
  by (simp add: update_snapshot_def atomic_def)

lemma snapshots_ok_update:
  "(\<And>r. sr_snapshotId (f r) = sr_snapshotId r) \<Longrightarrow> snapshots_ok s \<Longrightarrow>
    snapshots_ok (snapshot_lifecycle_update (sql_update p f) s)"
  by (simp add: snapshots_ok_def map_sql_update)

lemma step_snapshots_kept:
  "store_step l s t \<Longrightarrow> op_name l \<notin> set writes_snapshots \<Longrightarrow> snapshot_lifecycle t = snapshot_lifecycle s"
  by (erule store_step.cases)
    (auto simp: writes_snapshots_def dist_tables_def dest: job_ops_tables keeps_snapshots [THEN column_kept])

lemma step_snapshots_ok:
  assumes "store_step l s t" "snapshots_ok s"
  shows "snapshots_ok t"
proof (cases "op_name l \<in> set writes_snapshots")
  case False
  then show ?thesis using assms step_snapshots_kept by (fastforce simp: snapshots_ok_def)
next
  case True
  with assms(1) show ?thesis
  proof cases
    case (step_snapshotCreated r now x)
    then show ?thesis using assms(2)
      by (auto simp: recordSnapshotCreated_def atomic_def snapshots_ok_def sql_upsert_def sql_clash_iff snapshot_key_def map_sql_update)
  next
    case (step_deleteSnapshot sid x)
    then show ?thesis using assms(2) by (auto simp: deleteSnapshotRecord_def atomic_def snapshots_ok_def distinct_map_filter)
  qed (insert assms(2), auto simp: writes_snapshots_def activateSnapshot_def supersedeSnapshot_def markSnapshotState_def update_snapshot_run
      intro: snapshots_ok_update)
qed

lemma reached_snapshots_ok: "store_run ls empty_dist_db s \<Longrightarrow> snapshots_ok s"
  by (erule store_run_keeps) (auto intro: step_snapshots_ok, simp add: snapshots_ok_def empty_dist_db_def job_db.extend_def)

text \<open>The sweep deletes the rows with the ids it was given and no other.\<close>

lemma filter_marked:
  "filter (\<lambda>x. sr_snapshotId x \<noteq> sid) (sql_update (\<lambda>x. sr_snapshotId x = sid) (\<lambda>x. x\<lparr>sr_state := st, sr_updatedAt := now\<rparr>) rows) =
    filter (\<lambda>x. sr_snapshotId x \<noteq> sid) rows"
  by (induction rows) (auto simp: sql_update_def)

lemma apply_deletions_Cons:
  "apply_deletions (r # rs) now s = apply_deletions rs now (snapshot_lifecycle_update (\<lambda>rows. filter (\<lambda>x. sr_snapshotId x \<noteq> sr_snapshotId r)
      (sql_update (\<lambda>x. sr_snapshotId x = sr_snapshotId r) (\<lambda>x. x\<lparr>sr_state := SnDeleting, sr_updatedAt := now\<rparr>) rows)) s)"
  by (simp add: markSnapshotState_def update_snapshot_run deleteSnapshotRecord_def atomic_def andThen_def comp_def)

lemma apply_deletions_run:
  "fst (apply_deletions rs now s) = Inr () \<and>
     snapshot_lifecycle (snd (apply_deletions rs now s)) = filter (\<lambda>r. sr_snapshotId r \<notin> sr_snapshotId ` set rs) (snapshot_lifecycle s)"
proof (induction rs arbitrary: s)
  case (Cons r rs)
  show ?case
    unfolding apply_deletions_Cons using Cons.IH by (simp add: filter_marked conj_commute)
qed simp

lemma applyGc_run:
  assumes "snapshots_ok s"
  shows "fst (applyGc (gcDecision now s) now' s) = Inr () \<and>
     snapshot_lifecycle (snd (applyGc (gcDecision now s) now' s)) = filter (\<lambda>r. \<not> deletes now (snapshot_lifecycle s) r) (snapshot_lifecycle s)"
proof -
  let ?rows = "snapshot_lifecycle s"
  have "r \<in> set ?rows \<Longrightarrow> sr_snapshotId r \<in> sr_snapshotId ` set (filter (deletes now ?rows) ?rows) \<longleftrightarrow> deletes now ?rows r" for r
    using assms by (auto simp: snapshots_ok_def distinct_map inj_on_def)
  then have "filter (\<lambda>r. sr_snapshotId r \<notin> sr_snapshotId ` set (filter (deletes now ?rows) ?rows)) ?rows = filter (\<lambda>r. \<not> deletes now ?rows r) ?rows"
    by (intro filter_cong) auto
  then show ?thesis
    using apply_deletions_run [of "filter (deletes now ?rows) ?rows" now' s] by (simp add: applyGc_def gcDecision_def)
qed

end
