(* ===== verification/Control_Plane.thy ===== *)
theory Control_Plane
  imports Distributed_Properties
begin

text \<open>
  What the job store and the control plane promise, over any run of their operations from the empty
  database: ownership and fencing, the log, idempotency, dispatch and the collection of snapshots.
\<close>

section \<open>A sample job\<close>

definition sample_job :: job_record where
  "sample_job = \<lparr>tenantId = ''t'', orgId = ''o'', projectId = ''p'', jr_jobId = ''j'',
     jr_spec = \<lparr>sp_engine = ''e'', sp_model = ''m'', sp_input = ''i'', sp_engineOptions = Undefined\<rparr>, jr_status = JQueued, jr_attempt = 0,
     leaseToken = None, leaseExpiresAt = None, cancelRequested = False, jr_error = None, jr_env = [], jr_policy = DEFAULT_EXECUTION_POLICY,
     latestSnapshot = None, jr_createdAt = 0, jr_updatedAt = 0\<rparr>"

definition no_hook :: job_hook where
  "no_hook = (\<lambda>_. None)"

definition sample_event :: new_job_event where
  "sample_event = \<lparr>ne_jobId = ''j'', ne_timestamp = 0, ne_type = EvQueued, ne_data = JNull\<rparr>"

definition db_created :: dist_db where
  "db_created = snd (createJobRecord no_hook sample_job empty_dist_db)"

definition db_acquired :: dist_db where
  "db_acquired = snd (acquireLease no_hook ''j'' ''a'' 10 0 db_created)"

lemma step_result: "(\<And>x t. m s = (x, t) \<Longrightarrow> P t) \<Longrightarrow> P (snd (m s))"
  by (cases "m s") simp

lemma sample_job_id: "jr_jobId sample_job = ''j''"
  by (simp add: sample_job_def)

lemma run_created: "store_run [\<lparr>op_name = ''createJobRecord'', op_job = ''j'', op_time = 0\<rparr>] empty_dist_db db_created"
  unfolding db_created_def sample_job_id [symmetric]
  by (rule run_step [OF _ run_done], rule step_result, rule step_create)

lemma run_snoc: "store_run ls s t \<Longrightarrow> store_step l t u \<Longrightarrow> store_run (ls @ [l]) s u"
  by (induction rule: store_run.induct) (auto intro: store_run.intros)

lemma run_append: "store_run ls s t \<Longrightarrow> store_run ks t u \<Longrightarrow> store_run (ls @ ks) s u"
  by (induction rule: store_run.induct) (auto intro: store_run.intros)

section \<open>Ownership\<close>

text \<open>
  The tables of the job store are consistent after any sequence of operations of any number of
  callers, whether they return or throw: job ids are unique, a lease is of its job's newest
  generation, every log is numbered 1, 2, ... up to the job's last sequence number without a gap, and
  no checkpoint is ahead of the log or of a later generation.
\<close>

theorem job_store_invariant:
  assumes "store_run ls empty_dist_db s"
  shows "job_db_ok s"
  by (rule reached_ok [OF assms])

text \<open>
  C22. A newer owner fences the older: once two callers acquired a job one after the other, the
  second has the larger generation, and from then on every update, fenced append and checkpoint of
  the first is refused and changes nothing.
\<close>

theorem newer_owner_fences_older:
  assumes "store_run ls0 empty_dist_db s" "acquireLease hook1 jid tok1 ms1 now1 s = (Inr g1, s1)"
    and "store_run ls1 s1 s2" "acquireLease hook2 jid tok2 ms2 now2 s2 = (Inr g2, s3)"
    and "store_run ls2 s3 s4"
  shows "lg_attempt g1 < lg_attempt g2 \<and>
     updateJobRecord hook jid (lg_attempt g1) mut now s4 = (Inl (LeaseFencedError jid), s4) \<and>
     (evs \<noteq> [] \<longrightarrow> appendEvents hook jid evs (Some (lg_attempt g1)) s4 = (Inl (LeaseFencedError jid), s4)) \<and>
     (cp_attempt cp = lg_attempt g1 \<longrightarrow> saveCheckpoint hook jid cp now s4 = (Inl (LeaseFencedError jid), s4))"
proof -
  have ok: "job_db_ok s" "job_db_ok s1" "job_db_ok s2" "job_db_ok s3"
    using reached_ok [OF assms(1)] assms(2-4) by (metis obeys_acquireLease jh.obeysD job_history_def run_ok)+
  obtain r1 where r1: "find_job jid s1 = Some r1" "row_attempt r1 = lg_attempt g1"
    by (rule acquired [OF ok(1) assms(2)]) blast
  obtain r2 where r2: "find_job jid s2 = Some r2" "row_attempt r1 \<le> row_attempt r2"
    using history_attempt_mono [OF store_run_history [OF assms(3)] ok(2) r1(1)] by blast
  obtain r3 where r3: "find_job jid s3 = Some r3" "row_attempt r3 = lg_attempt g2" "lg_attempt g2 = Suc (row_attempt r2)"
    using acquired [OF ok(3) assms(4)] r2(1) by (metis option.inject)
  obtain r4 where r4: "find_job jid s4 = Some r4" "row_attempt r3 \<le> row_attempt r4"
    using history_attempt_mono [OF store_run_history [OF assms(5)] ok(4) r3(1)] by blast
  have less: "lg_attempt g1 < lg_attempt g2"
    using r1(2) r2(2) r3(3) by simp
  then have "row_attempt r4 \<noteq> lg_attempt g1"
    using r3(2) r4(2) by simp
  then show ?thesis
    using less r4(1) by (auto intro: stale_update stale_append stale_checkpoint)
qed


section \<open>The log\<close>

lemma last_numbers:
  assumes "map je_seq es = [1..<Suc k]"
  shows "filter (\<lambda>e. n < je_seq e) es = drop n es" and "sort_key je_seq (drop n es) = drop n es"
proof -
  have len: "length es = k"
    using arg_cong [OF assms, of length] by simp
  have nth: "i < k \<Longrightarrow> je_seq (es ! i) = Suc i" for i
    using assms len by (metis add.commute length_map nth_map nth_upt plus_1_eq_Suc Suc_leI le_imp_less_Suc less_Suc_eq_le diff_Suc_1 length_upt)
  have t: "x \<in> set (take n es) \<Longrightarrow> \<not> n < je_seq x" for x
    using nth len by (auto simp: in_set_conv_nth)
  have d: "x \<in> set (drop n es) \<Longrightarrow> n < je_seq x" for x
    using nth len by (auto simp: in_set_conv_nth)
  have "filter (\<lambda>e. n < je_seq e) (take n es @ drop n es) = drop n es"
    unfolding filter_append using t d by (simp add: filter_empty_conv)
  then show "filter (\<lambda>e. n < je_seq e) es = drop n es" by simp
  have "sorted (map je_seq (drop n es))"
    unfolding drop_map [symmetric] assms by (intro sorted_wrt_drop sorted_upt)
  then show "sort_key je_seq (drop n es) = drop n es"
    by (rule sort_key_id_if_sorted)
qed

lemma listEvents_run:
  assumes "job_db_ok s" "find_job jid s = Some r"
  shows "listEvents jid n s = (Inr (drop n (job_log jid s)), s)"
proof -
  have m: "map je_seq (job_log jid s) = [1..<Suc (last_seq r)]"
    using assms by (simp add: job_db_ok_def log_ok_def last_number_def)
  have "filter (\<lambda>e. je_jobId e = jid \<and> n < je_seq e) (job_events s) = filter (\<lambda>e. n < je_seq e) (job_log jid s)"
    by (simp add: job_log_def conj_commute)
  then show ?thesis
    using assms(2) last_numbers [OF m, of n] by (simp add: listEvents_def getJobRecord_def)
qed

text \<open>
  C23. Logs are append-only: whatever runs, the log of a job at an earlier point is a prefix of its
  log later, and a reader that resumes after sequence number n gets exactly the events n+1, n+2, ...,
  in order and without a gap.
\<close>

theorem log_append_only:
  assumes "store_run ls0 empty_dist_db s" "store_run ls s t" "find_job jid t = Some r"
  shows "(\<exists>es. job_log jid t = job_log jid s @ es) \<and> listEvents jid n t = (Inr (drop n (job_log jid t)), t)"
proof -
  have "log_extends s t"
    using store_run_history [OF assms(2)] reached_ok [OF assms(1)] by (simp add: job_history_def)
  then have "\<exists>es. job_log jid t = job_log jid s @ es"
    by (auto simp: log_extends_def job_log_def)
  then show ?thesis
    using listEvents_run [OF run_ok [OF assms(2) reached_ok [OF assms(1)]] assms(3)] by simp
qed

lemma insert_events_fresh:
  assumes "log_ok s" "find_job jid s = Some row"
  shows "\<exists>st t. insert_events jid (last_seq row) evs s = (Inr st, t)"
proof (rule insert_events_total, intro ballI impI)
  fix e
  assume "e \<in> set (job_events s)" "je_jobId e = jid"
  then have "je_seq e \<in> set (map je_seq (job_log jid s))"
    by (simp add: job_log_def)
  then show "je_seq e \<le> last_seq row"
    using assms(1) [unfolded log_ok_def, rule_format, of jid] assms(2) by (simp add: last_number_def del: upt_Suc)
qed

lemma append_run:
  assumes ok: "job_db_ok s" and "find_job jid s = Some row" "evs \<noteq> []"
    and "expected = None \<or> expected = Some (row_attempt row)" "hook ''appendEvents'' = None"
  shows "\<exists>t. appendEvents hook jid evs expected s = (Inr (map (\<lambda>(n, e). stamp n e) (enumerate (Suc (last_seq row)) evs)), t) \<and>
     job_log jid t = job_log jid s @ map (\<lambda>(n, e). event_row jid n e) (enumerate (Suc (last_seq row)) evs) \<and>
     (\<forall>k. k \<noteq> jid \<longrightarrow> job_log k t = job_log k s)"
proof -
  obtain st u where i: "insert_events jid (last_seq row) evs s = (Inr st, u)"
    using insert_events_fresh [OF _ assms(2)] ok unfolding job_db_ok_def by metis
  have at: "andThen (insert_events jid (last_seq row) evs) f s = f st u" for f :: "job_event list \<Rightarrow> (_, _, job_event list) op"
    by (simp add: andThen_def i)
  have u: "jobs u = jobs s"
    using insert_events_Inr [OF i] by simp
  have row: "row \<in> set (jobs s)" "row_jobId row = jid"
    using ok assms(2) by (simp_all add: job_db_ok_def find_job_Some)
  have "sql_count (\<lambda>r. row_jobId r = jid \<and> last_seq r < last_seq row + length evs) (jobs u) \<noteq> 0"
    using row assms(3) by (auto simp: u sql_count_0 sql_get_None)
  then obtain st' t where a: "appendEvents hook jid evs expected s = (Inr st', t)"
    using assms(2-5) i by (auto simp: appendEvents_def atomic_def andThen_readRow at Let_def)
  show ?thesis
  proof (rule appendEvents_Inr [OF ok a assms(3)])
    fix row'
    assume "find_job jid s = Some row'"
      and t: "t = set_job jid (\<lambda>r. r\<lparr>last_seq := last_seq row' + length evs\<rparr>)
        (job_events_update (\<lambda>rows. rows @ map (\<lambda>(n, e). event_row jid n e) (enumerate (Suc (last_seq row')) evs)) s)"
      and st: "st' = map (\<lambda>(n, e). stamp n e) (enumerate (Suc (last_seq row')) evs)"
    then have "row' = row" using assms(2) by simp
    then show ?thesis
      using a by (intro exI [of _ t]) (simp add: t st job_log_append)
  qed
qed

text \<open>
  An append by the owner succeeds: on a database that any run left behind, unless the commit
  itself fails, it never reports a sequence conflict, numbers the events on from the last number and
  puts exactly them at the end of the log, all of them or none.
\<close>

theorem append_numbers_on:
  assumes "store_run ls empty_dist_db s" "find_job jid s = Some row" "evs \<noteq> []"
    and "expected = None \<or> expected = Some (row_attempt row)" "hook ''appendEvents'' = None"
  shows "\<exists>t. appendEvents hook jid evs expected s = (Inr (map (\<lambda>(n, e). stamp n e) (enumerate (Suc (last_seq row)) evs)), t) \<and>
     job_log jid t = job_log jid s @ map (\<lambda>(n, e). event_row jid n e) (enumerate (Suc (last_seq row)) evs) \<and>
     (\<forall>k. k \<noteq> jid \<longrightarrow> job_log k t = job_log k s)"
  by (rule append_run [where expected = expected and hook = hook, OF reached_ok [OF assms(1)] assms(2-5)])

section \<open>Checkpoints\<close>

lemma keeps_checkpoint_modifies:
  "keeps (\<lambda>s. job_checkpoints s = v) (modifies (jobs_update f1))" "keeps (\<lambda>s. job_checkpoints s = v) (modifies (job_leases_update f2))"
  "keeps (\<lambda>s. job_checkpoints s = v) (modifies (job_events_update f3))" "keeps (\<lambda>s. job_checkpoints s = v) (modifies (job_snapshots_update f4))"
  "keeps (\<lambda>s. job_checkpoints s = v) (modifies (idempotency_records_update g1))" "keeps (\<lambda>s. job_checkpoints s = v) (modifies (workers_update g2))"
  "keeps (\<lambda>s. job_checkpoints s = v) (modifies (worker_heartbeats_update g3))" "keeps (\<lambda>s. job_checkpoints s = v) (modifies (dispatch_claims_update g4))"
  "keeps (\<lambda>s. job_checkpoints s = v) (modifies (snapshot_lifecycle_update g5))"
  by (simp_all add: keeps_def)

lemma keeps_checkpoint_insert: "keeps (\<lambda>s. job_checkpoints s = v) (insert_events jid seq es)"
  by (induction es arbitrary: seq) (auto intro!: keeps_intros keeps_checkpoint_modifies)

lemmas checkpoint_intros = keeps_intros keeps_checkpoint_modifies keeps_checkpoint_insert keeps_let keeps_case_prod

lemma keeps_checkpoints_jobs:
  "keeps (\<lambda>s. job_checkpoints s = v) (createJobRecord hook r)" "keeps (\<lambda>s. job_checkpoints s = v) (updateJobRecord hook jid n mut now)"
  "keeps (\<lambda>s. job_checkpoints s = v) (acquireLease hook jid token ms now)" "keeps (\<lambda>s. job_checkpoints s = v) (renewLease hook jid token ms now)"
  "keeps (\<lambda>s. job_checkpoints s = v) (releaseLease hook jid token)" "keeps (\<lambda>s. job_checkpoints s = v) (appendEvents hook jid evs expected)"
  unfolding createJobRecord_def updateJobRecord_def acquireLease_def renewLease_def releaseLease_def appendEvents_def
    readRow_def cas_job_def patch_lease_def patch_snapshot_def upsert_lease_def
  by (intro checkpoint_intros | simp split: prod.splits option.splits)+

lemma keeps_checkpoints_control:
  "keeps (\<lambda>s. job_checkpoints s = v) (claimIdempotency h ic now)" "keeps (\<lambda>s. job_checkpoints s = v) (fulfillIdempotency ic job st body now)"
  "keeps (\<lambda>s. job_checkpoints s = v) (deleteIdempotencyRecord tenant key)" "keeps (\<lambda>s. job_checkpoints s = v) (registerWorker w label now)"
  "keeps (\<lambda>s. job_checkpoints s = v) (recordHeartbeat w tm active)" "keeps (\<lambda>s. job_checkpoints s = v) (departWorker wid now)"
  "keeps (\<lambda>s. job_checkpoints s = v) (enqueue jid now)" "keeps (\<lambda>s. job_checkpoints s = v) (claim w ms token now)"
  "keeps (\<lambda>s. job_checkpoints s = v) (acknowledge c)" "keeps (\<lambda>s. job_checkpoints s = v) (heartbeat c ms now)"
  "keeps (\<lambda>s. job_checkpoints s = v) (release c)" "keeps (\<lambda>s. job_checkpoints s = v) (recordSnapshotCreated r now)"
  "keeps (\<lambda>s. job_checkpoints s = v) (activateSnapshot sid now)" "keeps (\<lambda>s. job_checkpoints s = v) (supersedeSnapshot sid sid' now)"
  "keeps (\<lambda>s. job_checkpoints s = v) (markSnapshotState sid sst now)" "keeps (\<lambda>s. job_checkpoints s = v) (deleteSnapshotRecord sid)"
  unfolding claimIdempotency_def fulfillIdempotency_def deleteIdempotencyRecord_def insert_pending_def insert_record_def
    registerWorker_def recordHeartbeat_def departWorker_def enqueue_def claim_def acknowledge_def heartbeat_def release_def readRow_def
    recordSnapshotCreated_def activateSnapshot_def supersedeSnapshot_def markSnapshotState_def deleteSnapshotRecord_def update_snapshot_def
  by (intro checkpoint_intros | simp split: prod.splits option.splits)+

lemma find_checkpoint_saved:
  assumes "saveCheckpoint hook jid cp now s = (Inr u, t)"
  shows "find_checkpoint k t = (if k = jid then Some cp else find_checkpoint k s)"
  using assms by (rule saveCheckpoint_Inr)
    (use sql_get_upsert [of ck_jobId k "\<lparr>ck_jobId = jid, ck_checkpoint = cp, ck_last_event_seq = lastEventSeq cp,
        ck_attempt = cp_attempt cp, ck_updated_at = now\<rparr>" "job_checkpoints s"] in
      \<open>simp add: find_checkpoint_def checkpoint_clash_def [abs_def]\<close>)

lemma step_checkpoint_kept:
  assumes "store_step l s t" "\<not> (op_name l = ''saveCheckpoint'' \<and> op_job l = jid)"
  shows "find_checkpoint jid t = find_checkpoint jid s"
  using assms(1)
proof cases
  case (step_checkpoint hook j cp now x)
  then show ?thesis
    using assms(2) find_checkpoint_saved [of hook j cp now s] by (cases x) (auto simp: saveCheckpoint_def dest: atomic_Inl)
qed (auto simp: find_checkpoint_def dest: keeps_checkpoints_jobs [THEN column_kept] keeps_checkpoints_control [THEN column_kept])

text \<open>
  C26. A committed checkpoint is what recovery reads: until the next checkpoint of the job, whatever
  else runs (new owners, appends, cancellations, other jobs), reading it returns it unchanged.
\<close>

theorem checkpoint_roundtrip:
  assumes "store_run ls0 empty_dist_db s" "saveCheckpoint hook jid cp now s = (Inr (), t)"
    and "store_run ls t u" "\<forall>l \<in> set ls. \<not> (op_name l = ''saveCheckpoint'' \<and> op_job l = jid)"
  shows "getCheckpoint jid u = (Inr (Some cp), u)"
proof -
  have ok: "job_db_ok s" by (rule reached_ok [OF assms(1)])
  have t: "find_checkpoint jid t = Some cp"
    using find_checkpoint_saved [OF assms(2)] by simp
  have "find_checkpoint jid u = Some cp"
    using store_run_keeps [OF assms(3), of "\<lambda>s. find_checkpoint jid s = Some cp"] step_checkpoint_kept assms(4) t by fastforce
  moreover obtain r where "find_job jid t = Some r"
    by (rule saveCheckpoint_Inr [OF assms(2)]) simp
  then obtain r' where "find_job jid u = Some r'"
    using history_attempt_mono [OF store_run_history [OF assms(3)]] ok assms(2) obeys_saveCheckpoint
    by (metis jh.obeysD job_history_def)
  ultimately show ?thesis
    by (simp add: getCheckpoint_def getJobRecord_def)
qed


section \<open>Dispatch\<close>


lemma candidate_oldest:
  assumes "candidate now s = Some j" "k \<in> set (jobs s)" "claimable now s k"
  shows "row_createdAt j \<le> row_createdAt k"
proof -
  obtain js where js: "sort_key row_createdAt (filter (claimable now s) (jobs s)) = j # js"
    using assms(1) by (auto simp: candidate_def split: list.splits)
  have "k \<in> set (j # js)"
    using assms(2,3) by (simp flip: js)
  moreover have "sorted (map row_createdAt (j # js))"
    by (simp flip: js)
  ultimately show ?thesis by auto
qed

text \<open>
  A claim hands out the oldest queued job that no live assignment covers, at its current
  generation, and it answers none only when there is no such job.
\<close>

theorem claim_takes_oldest:
  assumes "store_run ls empty_dist_db s" "claim w ms token now s = (Inr found, t)"
  shows "case found of
      None \<Rightarrow> t = s \<and> \<not> (\<exists>k \<in> set (jobs s). claimable now s k)
    | Some c \<Rightarrow> (\<exists>j. find_job (cl_jobId c) s = Some j \<and> claimable now s j \<and> cl_generation c = row_attempt j \<and>
        \<not> (\<exists>k \<in> set (jobs s). claimable now s k \<and> row_createdAt k < row_createdAt j))"
proof (cases "candidate now s")
  case None
  then have "sort_key row_createdAt (filter (claimable now s) (jobs s)) = []"
    by (auto simp: candidate_def split: list.splits)
  then have "set (filter (claimable now s) (jobs s)) = {}"
    by (metis set_sort list.set(1))
  then show ?thesis
    using None assms(2) by (auto simp: claim_run [OF reached_dispatch_ok [OF assms(1)]])
next
  case (Some j)
  have "find_job (row_jobId j) s = Some j"
    using candidate_claimable [OF Some] reached_ok [OF assms(1)] by (simp add: job_db_ok_def find_job_Some)
  then show ?thesis
    using Some assms(2) candidate_claimable(2) [OF Some] candidate_oldest [OF Some]
    by (auto simp: claim_run [OF reached_dispatch_ok [OF assms(1)]] not_less)
qed

text \<open>
  A worker whose job was handed to another is fenced: its acknowledgement throws, its heartbeat
  is refused, and neither they nor its release change an assignment.
\<close>

theorem reassigned_worker_fenced:
  assumes "store_run ls empty_dist_db s" "claim w ms token now s = (Inr (Some c2), t)"
    and "cl_jobId c1 = cl_jobId c2" "cl_token c1 \<noteq> cl_token c2"
  shows "acknowledge c1 t = (Inl (VaulltcoreError ''DISPATCH_FENCED''), t) \<and> heartbeat c1 ms' now' t = (Inr Renewal_fenced, t) \<and>
     dispatch_claims (snd (release c1 t)) = dispatch_claims t"
proof -
  obtain d where d: "find_claim (cl_jobId c1) t = Some d" "dc_token d = cl_token c2" and ok: "dispatch_ok t"
    using claim_held [OF reached_dispatch_ok [OF assms(1)] assms(2)] assms(3) by (auto simp: held_def)
  have n: "\<not> (dc_jobId x = cl_jobId c1 \<and> dc_token x = cl_token c1)" if "x \<in> set (dispatch_claims t)" for x
    using that d assms(4) find_claim_Some [OF ok, of "cl_jobId c1" x] by auto
  then have "sql_count (\<lambda>d. dc_jobId d = cl_jobId c1 \<and> dc_token d = cl_token c1) (dispatch_claims t) = 0"
    by (simp add: sql_count_0 sql_get_None)
  then show ?thesis
    using d assms(4) n release_claims [of c1 t] by (auto simp: acknowledge_def heartbeat_def atomic_def intro!: filter_True prod.collapse [symmetric])
qed

text \<open>
  A heartbeat renews only when the job's lease carries the dispatch token itself: when the
  runner leased the job under a token of its own, the answer is that the worker is fenced, although
  the heartbeat has extended the assignment.
\<close>

theorem heartbeat_fenced_by_lease_token:
  assumes "store_run ls empty_dist_db s" "find_claim (cl_jobId c) s = Some d" "dc_token d = cl_token c" "now < dc_expires_at d"
    and "\<forall>l. readLease (cl_jobId c) s = Some l \<longrightarrow> ls_token l \<noteq> cl_token c"
  shows "\<exists>t. heartbeat c ms now s = (Inr Renewal_fenced, t) \<and>
     (\<exists>d'. find_claim (cl_jobId c) t = Some d' \<and> dc_token d' = cl_token c \<and> dc_expires_at d' = now + ms)"
proof -
  have "distinct (map ls_jobId (job_leases s))"
    using reached_ok [OF assms(1)] by (simp add: job_db_ok_def leases_ok_def)
  then have "\<not> (ls_jobId l = cl_jobId c \<and> ls_token l = cl_token c)" if "l \<in> set (job_leases s)" for l
    using that assms(5) sql_get_key [of ls_jobId "job_leases s" "cl_jobId c" l] by (auto simp: readLease_def)
  then have "sql_count (\<lambda>l. ls_jobId l = cl_jobId c \<and> ls_token l = cl_token c) (job_leases s) = 0"
    by (simp add: sql_count_0 sql_get_None)
  then have h: "heartbeat c ms now s = (Inr Renewal_fenced, snd (heartbeat c ms now s))"
    and t: "dispatch_claims (snd (heartbeat c ms now s)) =
      sql_update (\<lambda>d. dc_jobId d = cl_jobId c \<and> dc_token d = cl_token c) (\<lambda>d. d\<lparr>dc_expires_at := now + ms\<rparr>) (dispatch_claims s)"
    using assms(2-4) by (simp_all add: heartbeat_def atomic_def)
  have "dc_jobId d = cl_jobId c"
    using assms(2) by (auto simp: find_claim_def dest: sql_get_Some)
  then have "find_claim (cl_jobId c) (snd (heartbeat c ms now s)) = Some (d\<lparr>dc_expires_at := now + ms\<rparr>)"
    using find_claim_update [OF _ t] assms(2,3) by simp
  then show ?thesis
    using h assms(3) by auto
qed


section \<open>Idempotency\<close>

lemma answer_not_new [simp]: "answer h c r \<noteq> Idem_new sid"
  by (auto simp: answer_def split: option.splits)

lemma answer_hash: "(\<exists>j. answer h c r = Idem_conflict j) \<longleftrightarrow> ir_requestHash r \<noteq> ic_requestHash c"
  by (auto simp: answer_def split: option.splits)

lemma run_record:
  assumes "store_run ls s t" "keys_ok s" "find_record tn k s = Some r" "\<forall>l \<in> set ls. op_name l \<noteq> ''deleteIdempotencyRecord''"
  shows "\<exists>r'. find_record tn k t = Some r' \<and> ir_requestHash r' = ir_requestHash r \<and>
    ((\<forall>l \<in> set ls. op_name l \<noteq> ''fulfillIdempotency'') \<longrightarrow> r' = r)"
  using assms
proof (induction arbitrary: r rule: store_run.induct)
  case (run_step l s t ls u)
  obtain r' where r': "find_record tn k t = Some r'" "ir_requestHash r' = ir_requestHash r" "op_name l \<noteq> ''fulfillIdempotency'' \<Longrightarrow> r' = r"
    by (rule step_record [OF run_step.hyps(1) run_step.prems(1,2)]) (use run_step.prems(3) in auto)
  then show ?case
    using run_step.IH [OF step_keys_ok [OF run_step.hyps(1) run_step.prems(1)] r'(1)] run_step.prems(3) by auto
qed simp


text \<open>
  A fulfilled key is replayed: once the creator fulfilled its key with a job and a status, every
  later claim of the key with the same request hash gets that job and status, and with another hash is
  told that it conflicts with that job, until the key is fulfilled again or deleted.
\<close>

theorem idempotency_replay:
  assumes "store_run ls0 empty_dist_db s" "find_record (ic_tenantId c) (ic_key c) s = Some r" "ir_requestHash r = ic_requestHash c"
    and "fulfillIdempotency c job st body now s = (x, t)" "store_run ls t u"
    and "\<forall>l \<in> set ls. op_name l \<noteq> ''deleteIdempotencyRecord'' \<and> op_name l \<noteq> ''fulfillIdempotency''"
    and "ic_tenantId c' = ic_tenantId c" "ic_key c' = ic_key c"
  shows "claimIdempotency h c' now' u =
     (Inr (if ic_requestHash c' = ic_requestHash c then Idem_fulfilled job st else Idem_conflict (Some job)), u)"
proof -
  have kt: "keys_ok t" and ku: "keys_ok u"
    using reached_keys_ok assms(1,4,5) run_append run_snoc step_fulfill by blast+
  have "find_record (ic_tenantId c) (ic_key c) t = Some (r\<lparr>ir_jobId := Some job, ir_responseStatus := Some st, ir_responseBody := body\<rparr>)"
    using assms(2,4) find_record_Some [OF assms(2)]
      sql_get_update [of "has_key (ic_tenantId c) (ic_key c)" "has_key (ic_tenantId c) (ic_key c)"
        "\<lambda>r. r\<lparr>ir_jobId := Some job, ir_responseStatus := Some st, ir_responseBody := body\<rparr>" "idempotency_records s"]
    by (auto simp: fulfillIdempotency_run find_record_def has_key_def)
  then have "find_record (ic_tenantId c) (ic_key c) u = Some (r\<lparr>ir_jobId := Some job, ir_responseStatus := Some st, ir_responseBody := body\<rparr>)"
    using run_record [OF assms(5) kt] assms(6) by fastforce
  then show ?thesis
    using assms(3,7,8) by (simp add: claimIdempotency_run [OF ku] answer_def)
qed

section \<open>Garbage collection\<close>

text \<open>A replacement is a later snapshot of the same job.\<close>

definition replaced_by_later :: "snapshot_record list \<Rightarrow> bool" where
  "replaced_by_later rows \<longleftrightarrow> (\<forall>r \<in> set rows. \<forall>x \<in> set rows. sr_supersededBy r = Some (sr_snapshotId x) \<longrightarrow>
     sr_jobId x = sr_jobId r \<and> sr_createdAt r < sr_createdAt x)"

lemma deletes_replaced:
  assumes "deletes now rows r" "is_active r"
  obtains x where "x \<in> set rows" "sr_supersededBy r = Some (sr_snapshotId x)" "is_active x" "\<not> isLastActive rows r"
  using assms by (auto simp: deletes_def is_active_def ACTIVE_SNAPSHOT_STATES_def hasActiveReplacement_def list_ex_iff split: if_splits option.splits)

lemma latest_active_kept:
  assumes "replaced_by_later rows" "r \<in> set rows" "is_active r"
    and "\<And>x. x \<in> set rows \<Longrightarrow> is_active x \<Longrightarrow> sr_jobId x = sr_jobId r \<Longrightarrow> sr_createdAt x \<le> sr_createdAt r"
  shows "\<not> deletes now rows r"
proof
  assume "deletes now rows r"
  then obtain x where "x \<in> set rows" "sr_supersededBy r = Some (sr_snapshotId x)" "is_active x"
    using assms(3) by (rule deletes_replaced)
  moreover from this have "sr_jobId x = sr_jobId r \<and> sr_createdAt r < sr_createdAt x"
    using assms(1,2) unfolding replaced_by_later_def by blast
  ultimately show False
    using assms(4) [of x] by simp
qed


section \<open>Witnesses\<close>

definition worker_a :: worker_identity where
  "worker_a = \<lparr>workerId = ''wa'', bootToken = ''ba'', wk_label = None\<rparr>"

definition worker_b :: worker_identity where
  "worker_b = \<lparr>workerId = ''wb'', bootToken = ''bb'', wk_label = None\<rparr>"

definition db_taken :: dist_db where
  "db_taken = snd (acquireLease no_hook ''j'' ''b'' 10 20 db_acquired)"

definition sample_checkpoint :: job_checkpoint where
  "sample_checkpoint = \<lparr>tenantId = ''t'', orgId = ''o'', projectId = ''p'', cp_jobId = ''j'', executionId = ''x'', cp_status = JRunning,
     cp_attempt = 1, lastEventSeq = 0, lastCompletedStep = None, toolCallTable = [], pendingInput = [], continuation = Provider_turn 0,
     contextThroughSeq = 0, usage = emptyMetrics, policyVersion = ''1'', engineVersion = ''v'', cp_createdAt = 0, checksum = ''c''\<rparr>"

definition db_checkpointed :: dist_db where
  "db_checkpointed = snd (saveCheckpoint no_hook ''j'' sample_checkpoint 3 db_acquired)"

definition db_appended :: dist_db where
  "db_appended = snd (appendEvents no_hook ''j'' [sample_event, sample_event] None db_created)"

definition db_claimed :: dist_db where
  "db_claimed = snd (claim worker_a 5 ''x'' 0 db_created)"

definition db_reclaimed :: dist_db where
  "db_reclaimed = snd (claim worker_b 5 ''y'' 6 db_claimed)"

definition key_claim :: idempotency_claim where
  "key_claim = \<lparr>ic_tenantId = ''t'', ic_key = ''k'', ic_requestHash = ''h''\<rparr>"

definition text_host :: host where
  "text_host = \<lparr>sha256 = id, num_str = (\<lambda>_. ''0'')\<rparr>"

definition db_keyed :: dist_db where
  "db_keyed = snd (claimIdempotency text_host key_claim 0 empty_dist_db)"

definition db_fulfilled :: dist_db where
  "db_fulfilled = snd (fulfillIdempotency key_claim ''j'' 201 None 1 db_keyed)"

definition snapshot_a :: snapshot_record where
  "snapshot_a = \<lparr>sr_snapshotId = ''s'', sr_tenantId = ''t'', sr_jobId = ''j'', sr_provider = ''p'', sr_sizeBytes = None, sr_createdAt = 0,
     sr_expiresAt = Some 1, sr_integrityHash = ''i'', sr_attempt = 1, sr_state = SnCreated, sr_supersededBy = None, sr_updatedAt = 0\<rparr>"

definition db_snapshot :: dist_db where
  "db_snapshot = snd (recordSnapshotCreated snapshot_a 0 empty_dist_db)"

lemma run_one: "store_step l s t \<Longrightarrow> store_run [l] s t"
  by (rule run_step [OF _ run_done])

lemma db_steps:
  "store_step \<lparr>op_name = ''acquireLease'', op_job = ''j'', op_time = 0\<rparr> db_created db_acquired"
  "store_step \<lparr>op_name = ''acquireLease'', op_job = ''j'', op_time = 20\<rparr> db_acquired db_taken"
  "store_step \<lparr>op_name = ''saveCheckpoint'', op_job = ''j'', op_time = 3\<rparr> db_acquired db_checkpointed"
  "store_step \<lparr>op_name = ''appendEvents'', op_job = ''j'', op_time = 0\<rparr> db_created db_appended"
  "store_step \<lparr>op_name = ''claim'', op_job = '''', op_time = 0\<rparr> db_created db_claimed"
  "store_step \<lparr>op_name = ''claimIdempotency'', op_job = '''', op_time = 0\<rparr> empty_dist_db db_keyed"
  "store_step \<lparr>op_name = ''recordSnapshotCreated'', op_job = sr_jobId snapshot_a, op_time = 0\<rparr> empty_dist_db db_snapshot"
  unfolding db_acquired_def db_taken_def db_checkpointed_def db_appended_def db_claimed_def db_keyed_def db_snapshot_def
  by (rule step_result, rule step_acquire step_checkpoint step_append step_claim step_claimIdempotency step_snapshotCreated, assumption)+

lemmas run_to_acquired = run_snoc [OF run_created db_steps(1)]
lemmas run_to_claimed = run_snoc [OF run_created db_steps(5)]

lemma fst_result: "fst (m s) = x \<Longrightarrow> m s = (x, snd (m s))"
  by (metis prod.collapse)

lemma db_results:
  "acquireLease no_hook ''j'' ''a'' 10 0 db_created = (Inr \<lparr>lg_attempt = 1, lg_leaseToken = ''a'', lg_leaseExpiresAt = 10\<rparr>, db_acquired)"
  "acquireLease no_hook ''j'' ''b'' 10 20 db_acquired = (Inr \<lparr>lg_attempt = 2, lg_leaseToken = ''b'', lg_leaseExpiresAt = 30\<rparr>, db_taken)"
  "saveCheckpoint no_hook ''j'' sample_checkpoint 3 db_acquired = (Inr (), db_checkpointed)"
  "claim worker_a 5 ''x'' 0 db_created =
    (Inr (Some \<lparr>cl_jobId = ''j'', cl_worker = worker_a, cl_generation = 0, cl_token = ''x'', cl_expiresAt = 5\<rparr>), db_claimed)"
  "claim worker_b 5 ''y'' 6 db_claimed =
    (Inr (Some \<lparr>cl_jobId = ''j'', cl_worker = worker_b, cl_generation = 0, cl_token = ''y'', cl_expiresAt = 11\<rparr>), db_reclaimed)"
  "fulfillIdempotency key_claim ''j'' 201 None 1 db_keyed = (Inr (), db_fulfilled)"
  unfolding db_acquired_def db_taken_def db_checkpointed_def db_claimed_def db_reclaimed_def db_fulfilled_def
  by (rule fst_result, code_simp)+

theorem job_store_invariant_witness: "job_db_ok db_acquired"
  by (rule job_store_invariant [OF run_to_acquired])

theorem newer_owner_fences_older_witness:
  "updateJobRecord no_hook ''j'' 1 (\<lambda>_. no_patch) 30 db_taken = (Inl (LeaseFencedError ''j''), db_taken)"
  using newer_owner_fences_older [OF run_created db_results(1) run_done db_results(2) run_done, of no_hook "\<lambda>_. no_patch" 30] by simp

theorem log_append_only_witness:
  "listEvents ''j'' 1 db_appended = (Inr (drop 1 (job_log ''j'' db_appended)), db_appended)"
proof -
  have "find_job ''j'' db_appended = Some (the (find_job ''j'' db_appended))"
    unfolding db_appended_def by code_simp
  then show ?thesis
    using log_append_only [OF run_created run_one [OF db_steps(4)], of "''j''" _ 1] by simp
qed

theorem append_numbers_on_witness:
  "\<exists>t. appendEvents no_hook ''j'' [sample_event] None db_created = (Inr [stamp 1 sample_event], t) \<and>
     job_log ''j'' t = job_log ''j'' db_created @ [event_row ''j'' 1 sample_event]"
proof -
  have "find_job ''j'' db_created = Some (row_of sample_job)"
    unfolding db_created_def by code_simp
  from append_numbers_on [OF run_created this, of "[sample_event]" None no_hook] show ?thesis
    by (auto simp: no_hook_def row_of_def)
qed

theorem checkpoint_roundtrip_witness: "getCheckpoint ''j'' db_checkpointed = (Inr (Some sample_checkpoint), db_checkpointed)"
  using checkpoint_roundtrip [OF run_to_acquired db_results(3) run_done] by simp

definition other_job :: job_record where
  "other_job = sample_job\<lparr>jr_jobId := ''k''\<rparr>"

definition db_two :: dist_db where
  "db_two = snd (createJobRecord no_hook other_job db_claimed)"

lemma run_two: "store_run [\<lparr>op_name = ''createJobRecord'', op_job = jr_jobId other_job, op_time = 0\<rparr>] db_claimed db_two"
  unfolding db_two_def by (rule run_one, rule step_result, rule step_create)

lemma claim_two: "claim worker_b 5 ''y'' 3 db_two =
    (Inr (Some \<lparr>cl_jobId = ''k'', cl_worker = worker_b, cl_generation = 0, cl_token = ''y'', cl_expiresAt = 8\<rparr>), snd (claim worker_b 5 ''y'' 3 db_two))"
  unfolding db_two_def by (rule fst_result) code_simp


theorem claim_takes_oldest_witness:
  "\<exists>j. find_job ''j'' db_created = Some j \<and> claimable 0 db_created j \<and> row_attempt j = 0"
  using claim_takes_oldest [OF run_created db_results(4)] by auto

theorem reassigned_worker_fenced_witness:
  "acknowledge \<lparr>cl_jobId = ''j'', cl_worker = worker_a, cl_generation = 0, cl_token = ''x'', cl_expiresAt = 5\<rparr> db_reclaimed
     = (Inl (VaulltcoreError ''DISPATCH_FENCED''), db_reclaimed)"
  using reassigned_worker_fenced [OF run_to_claimed db_results(5), of
      "\<lparr>cl_jobId = ''j'', cl_worker = worker_a, cl_generation = 0, cl_token = ''x'', cl_expiresAt = 5\<rparr>"] by simp

theorem heartbeat_fenced_by_lease_token_witness:
  "\<exists>t. heartbeat \<lparr>cl_jobId = ''j'', cl_worker = worker_a, cl_generation = 0, cl_token = ''x'', cl_expiresAt = 5\<rparr> 5 3 db_claimed
     = (Inr Renewal_fenced, t)"
proof -
  have "find_claim ''j'' db_claimed = Some (claimed_row worker_a 5 ''x'' 0 (row_of sample_job))"
    "readLease ''j'' db_claimed = None"
    unfolding db_claimed_def by code_simp+
  then show ?thesis
    using heartbeat_fenced_by_lease_token [OF run_to_claimed, of
      "\<lparr>cl_jobId = ''j'', cl_worker = worker_a, cl_generation = 0, cl_token = ''x'', cl_expiresAt = 5\<rparr>" _ 3 5] by auto
qed

lemma keyed_new: "claimIdempotency text_host key_claim 0 empty_dist_db = (Inr (Idem_new (slotId text_host key_claim)), db_keyed)"
  unfolding db_keyed_def by (rule fst_result) code_simp


theorem idempotency_replay_witness: "claimIdempotency text_host key_claim 9 db_fulfilled = (Inr (Idem_fulfilled ''j'' 201), db_fulfilled)"
proof -
  have "find_record (ic_tenantId key_claim) (ic_key key_claim) db_keyed = Some (pending_row key_claim 0)"
    unfolding db_keyed_def by code_simp
  then show ?thesis
    using idempotency_replay [OF run_one [OF db_steps(6)] _ _ db_results(6) run_done, of _ key_claim text_host 9] by simp
qed


end
