(* ===== verification/Runner_World.thy ===== *)
theory Runner_World
  imports Distributed_Properties
begin

text \<open>
  What the job runner works with (\<^verbatim>\<open>vaulltcore-runner/src/contracts.ts\<close>,
  \<^verbatim>\<open>runner.ts\<close>): the shared database, the runner's own memory, and the interfaces it is
  built over: engines, tools, environments and workspaces. They are not code of the runner, so each is
  an argument: an operation on the whole world. An operation of an interface may therefore also do
  what others do in the meantime (another worker, the control plane, an abort of the run), because
  the runner awaits it.
\<close>

section \<open>Data of the interfaces\<close>

record workspace_handle =
  ws_id :: string
  ws_root :: "string option"

record tool_definition =
  td_name :: string
  td_description :: string
  td_parameters :: json
  td_idempotent :: bool

datatype suspension_reason =
    Worker_loss | Infrastructure_eviction | Idle_policy | Waiting_for_input | Planned_hibernation | Worker_unavailable

primrec reason_text :: "suspension_reason \<Rightarrow> string" where
  "reason_text Worker_loss = ''worker_loss''"
| "reason_text Infrastructure_eviction = ''infrastructure_eviction''"
| "reason_text Idle_policy = ''idle_policy''"
| "reason_text Waiting_for_input = ''waiting_for_input''"
| "reason_text Planned_hibernation = ''planned_hibernation''"
| "reason_text Worker_unavailable = ''worker_unavailable''"

record execution_capabilities =
  nativeSuspend :: bool
  nativeSnapshot :: bool
  nativeRestore :: bool
  durableWorkspace :: bool

definition FULL_EXECUTION_CAPABILITIES :: execution_capabilities where
  "FULL_EXECUTION_CAPABILITIES = \<lparr>nativeSuspend = True, nativeSnapshot = True, nativeRestore = True, durableWorkspace = True\<rparr>"

datatype content_part =
    Part_text string
  | Part_tool_call string string json
  | Part_tool_result string string json bool bool

record chat_message =
  cm_role :: string
  cm_content :: "content_part list"

datatype engine_turn_event =
    Turn_text string
  | Turn_tool_call string string json
  | Turn_usage turn_usage
  | Turn_finish string

record tool_call =
  tc_id :: string
  tc_name :: string
  tc_input :: json

record job_key = job_identity +
  key_jobId :: string
  key_executionId :: string

section \<open>The world\<close>

text \<open>
  An active run: the abort controller (a number; its signal is aborted when the number is in
  \<open>waborted\<close>), the generation and the lease token.
\<close>

record active_run =
  ar_signal :: nat
  ar_attempt :: nat
  ar_leaseToken :: string

record 'o world =
  wdb :: dist_db
  wticks :: nat
  wsignals :: nat
  wactive :: "(string, active_run) table"
  waborted :: "nat list"
  outside :: 'o

type_synonym ('o, 'a) wop = "('o world, runner_error, 'a) op"

record tool_context =
  ctx_job :: job_key
  ctx_idempotencyKey :: string
  ctx_workspace :: "workspace_handle option"
  ctx_env :: "(string, string) table"
  ctx_signal :: nat

record 'o tool =
  tl_definition :: tool_definition
  tl_execute :: "json \<Rightarrow> tool_context \<Rightarrow> ('o, json) wop"

record ('o, 'h) agent_engine =
  en_id :: string
  en_version :: string
  en_createSession :: "job_key \<Rightarrow> job_spec \<Rightarrow> workspace_handle option \<Rightarrow> ('o, 'h) wop"
  en_restoreSession :: "job_key \<Rightarrow> job_spec \<Rightarrow> workspace_handle option \<Rightarrow> chat_message list \<Rightarrow> ('o, 'h) wop"
  en_runTurn :: "'h \<Rightarrow> tool_definition list \<Rightarrow> nat \<Rightarrow> ('o, engine_turn_event list \<times> 'h) wop"
  en_projectHistory :: "job_event list \<Rightarrow> chat_message list"
  en_recordAssistantTurn :: "'h \<Rightarrow> chat_message \<Rightarrow> 'h"
  en_recordToolResults :: "'h \<Rightarrow> chat_message list \<Rightarrow> 'h"
  en_recordUserInput :: "'h \<Rightarrow> string \<Rightarrow> 'h"

record 'o execution_environment =
  environmentVersion :: string
  xe_capabilities :: "('o, execution_capabilities) wop option"
  xe_create :: "string \<Rightarrow> ('o, workspace_handle) wop"
  xe_snapshot :: "workspace_handle \<Rightarrow> string \<Rightarrow> nat \<Rightarrow> string \<Rightarrow> ('o, execution_snapshot option) wop"
  xe_restore :: "execution_snapshot \<Rightarrow> ('o, workspace_handle) wop"
  xe_suspend :: "workspace_handle \<Rightarrow> ('o, unit) wop"
  xe_destroy :: "workspace_handle \<Rightarrow> ('o, unit) wop"

record 'o workspace_provider =
  wp_prepare :: "string \<Rightarrow> ('o, workspace_handle) wop"
  wp_destroy :: "workspace_handle \<Rightarrow> ('o, unit) wop"

section \<open>Advice on snapshots\<close>

datatype snapshot_decision_kind = Snapshot_now | Defer_snapshot | Skip_snapshot | Logical_checkpoint_only

primrec decision_text :: "snapshot_decision_kind \<Rightarrow> string" where
  "decision_text Snapshot_now = ''snapshot_now''"
| "decision_text Defer_snapshot = ''defer''"
| "decision_text Skip_snapshot = ''skip''"
| "decision_text Logical_checkpoint_only = ''logical_checkpoint_only''"

datatype suspension_risk = Risk_none | Risk_low | Risk_high

record snapshot_facts =
  sf_elapsedMs :: int
  sf_stepsSinceLastSnapshot :: nat
  sf_cumulativeTokens :: int
  sf_hasSnapshot :: bool
  sf_capabilities :: execution_capabilities
  sf_suspensionRisk :: suspension_risk

section \<open>The runner's dependencies\<close>

record ('o, 'h) runner_env =
  rv_host :: host
  rv_clock :: "nat \<Rightarrow> int"
  rv_newJobId :: "nat \<Rightarrow> string"
  rv_newExecutionId :: "nat \<Rightarrow> string"
  rv_newLeaseToken :: "nat \<Rightarrow> string"
  rv_hook :: job_hook
  rv_message :: "runner_error \<Rightarrow> string"
  rv_engines :: "(string, ('o, 'h) agent_engine) table"
  rv_tools :: "(string, 'o tool) table"
  rv_workspace :: "'o workspace_provider option"
  rv_environment :: "'o execution_environment option"
  rv_snapshotPolicy :: "(snapshot_facts \<Rightarrow> snapshot_decision_kind \<times> string) option"

section \<open>Primitives\<close>

text \<open>A reading of the clock, and a draw of an id: both step the tick.\<close>

definition tick :: "(nat \<Rightarrow> 'a) \<Rightarrow> ('o, 'a) wop" where
  "tick f = (\<lambda>w. (Inr (f (wticks w)), w\<lparr>wticks := wticks w + 1\<rparr>))"

definition Date_now :: "('o, 'h) runner_env \<Rightarrow> ('o, int) wop" where
  "Date_now E = tick (rv_clock E)"

definition in_db :: "(dist_db, runner_error, 'a) op \<Rightarrow> ('o, 'a) wop" where
  "in_db m = (\<lambda>w. case m (wdb w) of (r, d) \<Rightarrow> (r, w\<lparr>wdb := d\<rparr>))"

definition new_event :: "string \<Rightarrow> int \<Rightarrow> job_event_type \<Rightarrow> json \<Rightarrow> new_job_event" where
  "new_event jid now t d = \<lparr>ne_jobId = jid, ne_timestamp = now, ne_type = t, ne_data = d\<rparr>"

text \<open>\<^verbatim>\<open>append\<close>; the subscribers of a stream are not modelled.\<close>

definition append_events :: "('o, 'h) runner_env \<Rightarrow> string \<Rightarrow> new_job_event list \<Rightarrow> nat option \<Rightarrow> ('o, job_event list) wop" where
  "append_events E jid evs expected = in_db (appendEvents (rv_hook E) jid evs expected)"

definition append_one :: "('o, 'h) runner_env \<Rightarrow> string \<Rightarrow> job_event_type \<Rightarrow> json \<Rightarrow> nat option \<Rightarrow> ('o, job_event) wop" where
  "append_one E jid t d expected = andThen (Date_now E) (\<lambda>now.
     andThen (append_events E jid [new_event jid now t d] expected) (\<lambda>stamped. ok (hd stamped)))"

definition update_record :: "('o, 'h) runner_env \<Rightarrow> string \<Rightarrow> nat \<Rightarrow> job_patch \<Rightarrow> ('o, job_record) wop" where
  "update_record E jid attempt p = andThen (Date_now E) (\<lambda>now. in_db (updateJobRecord (rv_hook E) jid attempt (\<lambda>_. p) now))"

definition status_patch :: "job_status \<Rightarrow> job_patch" where
  "status_patch st = no_patch\<lparr>pt_status := Some st\<rparr>"

definition unleased_patch :: "job_status \<Rightarrow> job_patch" where
  "unleased_patch st = no_patch\<lparr>pt_status := Some st, pt_leaseToken := Some None, pt_leaseExpiresAt := Some None\<rparr>"

definition requireRecord :: "string \<Rightarrow> ('o, job_record) wop" where
  "requireRecord jid = andThen (reads (\<lambda>w. getJobRecord jid (wdb w))) (\<lambda>r.
     case r of None \<Rightarrow> throw (JobNotFoundError jid) | Some r \<Rightarrow> ok r)"

definition engineFor :: "('o, 'h) runner_env \<Rightarrow> job_record \<Rightarrow> ('o, ('o, 'h) agent_engine) wop" where
  "engineFor E r = (case tget (rv_engines E) (sp_engine (jr_spec r)) of
     None \<Rightarrow> throw (EngineNotFoundError (sp_engine (jr_spec r))) | Some e \<Rightarrow> ok e)"

definition job_key_of :: "job_record \<Rightarrow> string \<Rightarrow> string \<Rightarrow> job_key" where
  "job_key_of r jid exe = \<lparr>tenantId = tenantId r, orgId = orgId r, projectId = projectId r, key_jobId = jid, key_executionId = exe\<rparr>"

text \<open>\<^verbatim>\<open>m.catch(() => {})\<close>.\<close>

definition quietly :: "('o, unit) wop \<Rightarrow> ('o, unit) wop" where
  "quietly m = catch m (\<lambda>_. ok ())"

definition is_aborted :: "nat \<Rightarrow> ('o, bool) wop" where
  "is_aborted sig = reads (\<lambda>w. sig \<in> set (waborted w))"

definition abort_run :: "string \<Rightarrow> ('o, unit) wop" where
  "abort_run jid = modifies (\<lambda>w. case tget (wactive w) jid of None \<Rightarrow> w | Some r \<Rightarrow> w\<lparr>waborted := ar_signal r # waborted w\<rparr>)"

section \<open>The state of a job\<close>

record runner_state = job_identity +
  rs_jobId :: string
  rs_status :: job_status
  rs_attempt :: nat
  rs_lastEventSeq :: nat
  rs_usage :: job_metrics
  rs_error :: "string option"
  rs_checkpoint :: "job_checkpoint option"

definition toState :: "job_record \<Rightarrow> ('o, runner_state) wop" where
  "toState r = andThen (in_db (getCheckpoint (jr_jobId r))) (\<lambda>cp.
     let seq = (case cp of None \<Rightarrow> 0 | Some c \<Rightarrow> lastEventSeq c) in
     andThen (if seq = 0 then andThen (in_db (listEvents (jr_jobId r) 0)) (\<lambda>es. ok (length es)) else ok seq) (\<lambda>seq.
     ok \<lparr>tenantId = tenantId r, orgId = orgId r, projectId = projectId r, rs_jobId = jr_jobId r, rs_status = jr_status r,
       rs_attempt = jr_attempt r, rs_lastEventSeq = seq, rs_usage = (case cp of None \<Rightarrow> emptyMetrics | Some c \<Rightarrow> usage c),
       rs_error = jr_error r, rs_checkpoint = cp\<rparr>))"

end
