(* ===== verification/Actor.thy ===== *)
theory Actor
  imports Runner_World
begin

text \<open>
  The actor controller (\<^verbatim>\<open>vaulltcore-runner/src/actor.ts\<close>): ownership, suspension, the
  recovery algorithm, snapshots and the destruction of an execution environment.
\<close>

section \<open>Ownership\<close>

record ownership_grant =
  ow_generation :: nat
  ow_token :: string
  ow_expiresAt :: int

record actor_handle =
  ah_jobId :: string
  ah_ownership :: ownership_grant
  ah_record :: job_record

definition acquire :: "('o, 'h) runner_env \<Rightarrow> string \<Rightarrow> ('o, actor_handle) wop" where
  "acquire E jid = andThen (requireRecord jid) (\<lambda>r.
     if isTerminal (jr_status r) then throw (InvalidJobStateError jid (jr_status r) ''acquire execution ownership of'')
     else
       andThen (tick (rv_newLeaseToken E)) (\<lambda>token.
       andThen (Date_now E) (\<lambda>now.
       andThen (in_db (acquireLease (rv_hook E) jid token (pol_leaseMs (jr_policy r)) now)) (\<lambda>grant.
       andThen (requireRecord jid) (\<lambda>fresh.
       ok \<lparr>ah_jobId = jid, ah_ownership = \<lparr>ow_generation = lg_attempt grant, ow_token = lg_leaseToken grant,
             ow_expiresAt = lg_leaseExpiresAt grant\<rparr>, ah_record = fresh\<rparr>)))))"

definition start :: "('o, 'h) runner_env \<Rightarrow> actor_handle \<Rightarrow> ('o, job_record) wop" where
  "start E ha = update_record E (ah_jobId ha) (ow_generation (ah_ownership ha)) (status_patch JPreparing)"

definition release_handle :: "('o, 'h) runner_env \<Rightarrow> actor_handle \<Rightarrow> ('o, unit) wop" where
  "release_handle E ha = in_db (releaseLease (rv_hook E) (ah_jobId ha) (ow_token (ah_ownership ha)))"

section \<open>Suspension\<close>

definition capabilitiesOf :: "'o execution_environment \<Rightarrow> ('o, execution_capabilities) wop" where
  "capabilitiesOf env = (case xe_capabilities env of None \<Rightarrow> ok FULL_EXECUTION_CAPABILITIES | Some c \<Rightarrow> c)"

definition snapshotFacts :: "('o, 'h) runner_env \<Rightarrow> job_record \<Rightarrow> job_checkpoint option \<Rightarrow> execution_capabilities \<Rightarrow> suspension_reason
    \<Rightarrow> ('o, snapshot_facts) wop" where
  "snapshotFacts E r cp caps reason = andThen (Date_now E) (\<lambda>now.
     let has = latestSnapshot r \<noteq> None in
     ok \<lparr>sf_elapsedMs = now - jr_createdAt r,
       sf_stepsSinceLastSnapshot = (if has then 0 else case cp of None \<Rightarrow> 0 | Some c \<Rightarrow> steps (usage c)),
       sf_cumulativeTokens = (case cp of None \<Rightarrow> 0 | Some c \<Rightarrow> totalTokens (usage c)), sf_hasSnapshot = has, sf_capabilities = caps,
       sf_suspensionRisk = (if reason = Infrastructure_eviction then Risk_high else Risk_none)\<rparr>)"

definition reportSnapshotUnsupported :: "('o, 'h) runner_env \<Rightarrow> string \<Rightarrow> nat \<Rightarrow> string \<Rightarrow> ('o, unit) wop" where
  "reportSnapshotUnsupported E jid attempt detail = andThen (append_one E jid EvWarning
     (JObj [(''reason'', JStr ''snapshot_unsupported''), (''detail'', JStr detail)]) (Some attempt)) (\<lambda>_. ok ())"

text \<open>The part of \<^verbatim>\<open>suspend\<close> that an execution environment brings.\<close>

definition suspend_environment :: "('o, 'h) runner_env \<Rightarrow> 'o execution_environment \<Rightarrow> string \<Rightarrow> job_record \<Rightarrow> suspension_reason
    \<Rightarrow> ('o, execution_snapshot option) wop" where
  "suspend_environment E env jid r reason =
     andThen (xe_create env jid) (\<lambda>ws.
     andThen (capabilitiesOf env) (\<lambda>caps.
     andThen (case rv_snapshotPolicy E of None \<Rightarrow> ok None
       | Some decide \<Rightarrow> andThen (in_db (getCheckpoint jid)) (\<lambda>cp. andThen (snapshotFacts E r cp caps reason) (\<lambda>f. ok (Some (decide f))))) (\<lambda>decision.
     andThen (case decision of None \<Rightarrow> ok ()
       | Some (d, why) \<Rightarrow> andThen (append_one E jid EvWarning (JObj [(''reason'', JStr ''snapshot_decision''), (''detail'', JStr why),
             (''decision'', JStr (decision_text d))]) (Some (jr_attempt r))) (\<lambda>_. ok ())) (\<lambda>_.
     andThen (if (case decision of None \<Rightarrow> nativeSnapshot caps | Some (d, _) \<Rightarrow> d = Snapshot_now) then
           andThen (engineFor E r) (\<lambda>en.
           andThen (xe_snapshot env ws jid (jr_attempt r) (en_version en)) (\<lambda>sn.
           case sn of
             Some s \<Rightarrow> andThen (update_record E jid (jr_attempt r) (no_patch\<lparr>pt_latestSnapshot := Some (Some s)\<rparr>)) (\<lambda>_. ok (Some s))
           | None \<Rightarrow> andThen (reportSnapshotUnsupported E jid (jr_attempt r) ''environment returned no snapshot (explicit unsupported capture)'') (\<lambda>_. ok None)))
         else if decision = None then
           andThen (reportSnapshotUnsupported E jid (jr_attempt r) ''environment reports no native snapshot capability'') (\<lambda>_. ok None)
         else ok None) (\<lambda>sn.
     if \<not> nativeSuspend caps then throw (VaulltcoreError ''CAPABILITY_UNSUPPORTED'')
     else andThen (xe_suspend env ws) (\<lambda>_. ok sn))))))"

definition suspend :: "('o, 'h) runner_env \<Rightarrow> string \<Rightarrow> suspension_reason \<Rightarrow> ('o, runner_state) wop" where
  "suspend E jid reason = andThen (requireRecord jid) (\<lambda>r.
     if isTerminal (jr_status r) then toState r
     else
       andThen (case rv_environment E of None \<Rightarrow> ok None | Some env \<Rightarrow> suspend_environment E env jid r reason) (\<lambda>sn.
       andThen (append_one E jid EvWarning (JObj [(''reason'', JStr ''suspended''), (''detail'', JStr (reason_text reason)),
           (''snapshotId'', case sn of None \<Rightarrow> JNull | Some s \<Rightarrow> JStr (snapshotId s))]) (Some (jr_attempt r))) (\<lambda>_.
       andThen (update_record E jid (jr_attempt r) (unleased_patch JSuspended)) toState)))"

section \<open>Recovery\<close>

record recovery_context =
  rx_handle :: actor_handle
  rx_checkpoint :: "job_checkpoint option"
  rx_committedEvents :: "job_event list"
  rx_orphanedEvents :: "job_event list"
  rx_workspace :: "workspace_handle option"
  rx_restoredFromSnapshot :: bool
  rx_reusedToolCalls :: nat

definition materializeWorkspace :: "('o, 'h) runner_env \<Rightarrow> string \<Rightarrow> ('o, workspace_handle option) wop" where
  "materializeWorkspace E jid = (case rv_environment E of
       Some env \<Rightarrow> andThen (xe_create env jid) (\<lambda>ws. ok (Some ws))
     | None \<Rightarrow> (case rv_workspace E of Some p \<Rightarrow> andThen (wp_prepare p jid) (\<lambda>ws. ok (Some ws)) | None \<Rightarrow> ok None))"

definition restoreSnapshot :: "'o execution_environment \<Rightarrow> job_record \<Rightarrow> execution_snapshot \<Rightarrow> string \<Rightarrow> ('o, workspace_handle) wop" where
  "restoreSnapshot env r sn version =
     (if snap_jobId sn \<noteq> jr_jobId r \<or> snap_engineVersion sn \<noteq> version \<or> snap_environmentVersion sn \<noteq> environmentVersion env
      then throw (VaulltcoreError ''SNAPSHOT_MISMATCH'') else xe_restore env sn)"

definition completed_calls :: "(string, tool_call_state) table \<Rightarrow> nat" where
  "completed_calls t = length (filter (\<lambda>c. case c of TC_completed _ _ _ \<Rightarrow> True | _ \<Rightarrow> False) (tvals t))"

primrec continuation_type :: "continuation_point \<Rightarrow> string" where
  "continuation_type (Provider_turn n) = ''provider_turn''"
| "continuation_type (Settle_tools n ks) = ''settle_tools''"
| "continuation_type Done = ''done''"

text \<open>The workspace of a recovered job: from its snapshot when that can be restored.\<close>

definition recovered_workspace :: "('o, 'h) runner_env \<Rightarrow> string \<Rightarrow> job_record \<Rightarrow> string \<Rightarrow> ('o, workspace_handle option \<times> bool) wop" where
  "recovered_workspace E jid r version = (case (rv_environment E, latestSnapshot r) of
       (Some env, Some sn) \<Rightarrow>
         catch (andThen (restoreSnapshot env r sn version) (\<lambda>ws. ok (Some ws, True))) (\<lambda>e.
           andThen (materializeWorkspace E (jr_jobId r)) (\<lambda>ws.
           andThen (append_one E jid EvWarning (JObj [(''reason'', JStr ''snapshot_restore_failed''),
               (''detail'', JStr (''compute restore failed: '' @ rv_message E e @ ''; falling back to logical resume'')),
               (''snapshotId'', JStr (snapshotId sn))]) None) (\<lambda>_. ok (ws, False))))
     | _ \<Rightarrow> andThen (materializeWorkspace E (jr_jobId r)) (\<lambda>ws. ok (ws, False)))"

definition orphan_warning :: "('o, 'h) runner_env \<Rightarrow> job_event list \<Rightarrow> json" where
  "orphan_warning E orphaned = JObj [(''reason'', JStr ''orphaned_events''),
     (''detail'', JStr (num_str (rv_host E) (of_nat (length orphaned)) @ '' event(s) committed after the checkpoint watermark are in-flight remnants and will not be replayed'')),
     (''fromSeq'', jnat (je_seq (hd orphaned))), (''toSeq'', jnat (je_seq (last orphaned)))]"

definition proceedValidated :: "('o, 'h) runner_env \<Rightarrow> string \<Rightarrow> job_record \<Rightarrow> ('o, 'h) agent_engine \<Rightarrow> actor_handle \<Rightarrow> ('o, recovery_context) wop" where
  "proceedValidated E jid r en ha =
     andThen (update_record E jid (ow_generation (ah_ownership ha)) (status_patch JResuming)) (\<lambda>_.
     andThen (in_db (getCheckpoint jid)) (\<lambda>found.
     case found of
       None \<Rightarrow> andThen (materializeWorkspace E (jr_jobId r)) (\<lambda>ws.
         ok \<lparr>rx_handle = ha, rx_checkpoint = None, rx_committedEvents = [], rx_orphanedEvents = [], rx_workspace = ws,
           rx_restoredFromSnapshot = False, rx_reusedToolCalls = 0\<rparr>)
     | Some cp \<Rightarrow>
         andThen (in_db (listEvents jid 0)) (\<lambda>all.
         let committed = filter (\<lambda>e. je_seq e \<le> lastEventSeq cp) all; orphaned = filter (\<lambda>e. je_seq e > lastEventSeq cp) all;
             reused = completed_calls (toolCallTable cp) in
         andThen (lift_res (validateCheckpoint (rv_host E) \<lparr>vi_checkpoint = cp, vi_record = r, vi_policy = jr_policy r,
             vi_engineVersion = en_version en, eventsThroughWatermark = committed, storedMaxSeq = length all\<rparr>)) (\<lambda>_.
         andThen (recovered_workspace E jid r (en_version en)) (\<lambda>(ws, restored).
         andThen (Date_now E) (\<lambda>t1.
         andThen (if orphaned = [] then ok [] else andThen (Date_now E) (\<lambda>t2. ok [new_event jid t2 EvWarning (orphan_warning E orphaned)])) (\<lambda>warning.
         andThen (append_events E jid (new_event jid t1 EvResumed (JObj [(''attempt'', jnat (ow_generation (ah_ownership ha))),
               (''executionId'', JStr (executionId cp)), (''fromSeq'', jnat (lastEventSeq cp)),
               (''fromStep'', case lastCompletedStep cp of None \<Rightarrow> JNull | Some (i, _) \<Rightarrow> jnat i),
               (''continuation'', JStr (continuation_type (continuation cp))), (''reusedToolCalls'', jnat reused),
               (''restoredFromSnapshot'', JBool restored)]) # warning) (Some (ow_generation (ah_ownership ha)))) (\<lambda>_.
         ok \<lparr>rx_handle = ha, rx_checkpoint = Some cp, rx_committedEvents = committed, rx_orphanedEvents = orphaned, rx_workspace = ws,
           rx_restoredFromSnapshot = restored, rx_reusedToolCalls = reused\<rparr>))))))))"

text \<open>\<^verbatim>\<open>recover\<close> and \<^verbatim>\<open>resume\<close> are this one algorithm.\<close>

definition proceed :: "('o, 'h) runner_env \<Rightarrow> string \<Rightarrow> ('o, recovery_context) wop" where
  "proceed E jid = andThen (requireRecord jid) (\<lambda>r.
     if isTerminal (jr_status r) then throw (InvalidJobStateError jid (jr_status r) ''recover'')
     else
       andThen (Date_now E) (\<lambda>now.
       if (case (leaseToken r, leaseExpiresAt r) of (Some tok, Some t) \<Rightarrow> tok \<noteq> [] \<and> t \<noteq> 0 \<and> t > now | _ \<Rightarrow> False)
       then throw (VaulltcoreError ''LEASE_HELD'')
       else
         andThen (engineFor E r) (\<lambda>en.
         andThen (acquire E jid) (\<lambda>ha.
         catch (proceedValidated E jid r en ha) (\<lambda>e.
           if e = SimulatedCrashError then throw e
           else
             andThen (quietly (release_handle E ha)) (\<lambda>_.
             andThen (quietly (andThen (update_record E jid (ow_generation (ah_ownership ha))
               ((status_patch JSuspended)\<lparr>pt_error := Some (Some (rv_message E e))\<rparr>)) (\<lambda>_. ok ()))) (\<lambda>_. throw e)))))))"

section \<open>Snapshots and destruction\<close>

definition snapshot :: "('o, 'h) runner_env \<Rightarrow> actor_handle \<Rightarrow> workspace_handle option \<Rightarrow> string \<Rightarrow> ('o, execution_snapshot option) wop" where
  "snapshot E ha ws version = (case (rv_environment E, ws) of
       (Some env, Some w) \<Rightarrow>
         andThen (xe_snapshot env w (ah_jobId ha) (ow_generation (ah_ownership ha)) version) (\<lambda>sn.
         case sn of None \<Rightarrow> ok None
         | Some s \<Rightarrow> andThen (update_record E (ah_jobId ha) (ow_generation (ah_ownership ha)) (no_patch\<lparr>pt_latestSnapshot := Some (Some s)\<rparr>)) (\<lambda>_. ok (Some s)))
     | _ \<Rightarrow> ok None)"

definition destroy :: "('o, 'h) runner_env \<Rightarrow> workspace_handle option \<Rightarrow> ('o, unit) wop" where
  "destroy E ws = (case ws of None \<Rightarrow> ok ()
     | Some w \<Rightarrow> (case rv_environment E of
         Some env \<Rightarrow> xe_destroy env w
       | None \<Rightarrow> (case rv_workspace E of Some p \<Rightarrow> wp_destroy p w | None \<Rightarrow> ok ())))"

end
