(* ===== verification/Runner.thy ===== *)
theory Runner
  imports Actor
begin

text \<open>
  The durable job runner (\<^verbatim>\<open>vaulltcore-runner/src/runner.ts\<close>): the execution loop with its
  commit boundaries, the settlement of tool calls, the terminal transitions, and the control-plane
  operations. The state of a run is the world with the locals that the loop mutates: the checkpoint
  draft, the engine session and the set of applied inputs. The loop may not end, so it takes fuel, and
  \<open>None\<close> says that the fuel ran out.
\<close>

section \<open>The state of a run\<close>

record ('o, 'h) run_state =
  rn_world :: "'o world"
  rn_draft :: draft
  rn_session :: 'h
  rn_applied :: "nat list"

type_synonym ('o, 'h, 'a) rop = "(('o, 'h) run_state, runner_error, 'a) op"

definition in_world :: "('o, 'a) wop \<Rightarrow> ('o, 'h, 'a) rop" where
  "in_world m = (\<lambda>r. case m (rn_world r) of (x, w) \<Rightarrow> (x, r\<lparr>rn_world := w\<rparr>))"

abbreviation the_draft :: "('o, 'h, draft) rop" where
  "the_draft \<equiv> reads rn_draft"

abbreviation on_draft :: "(draft \<Rightarrow> draft) \<Rightarrow> ('o, 'h, unit) rop" where
  "on_draft f \<equiv> modifies (rn_draft_update f)"

abbreviation on_session :: "('h \<Rightarrow> 'h) \<Rightarrow> ('o, 'h, unit) rop" where
  "on_session f \<equiv> modifies (rn_session_update f)"

section \<open>Commit boundaries\<close>

definition setStatus :: "('o, 'h) runner_env \<Rightarrow> string \<Rightarrow> nat \<Rightarrow> job_status \<Rightarrow> ('o, job_record) wop" where
  "setStatus E jid attempt st = update_record E jid attempt (status_patch st)"

definition checkpoint_data :: "draft \<Rightarrow> json" where
  "checkpoint_data d = JObj [(''continuation'', continuation_json (continuation d)), (''steps'', jnat (steps (usage d))),
     (''toolCalls'', jnat (length (toolCallTable d))), (''pendingInput'', jnat (length (pendingInput d)))]"

definition committed_draft :: "nat \<Rightarrow> job_status \<Rightarrow> draft \<Rightarrow> draft" where
  "committed_draft seq st d = d\<lparr>lastEventSeq := seq, contextThroughSeq := seq, cp_status := st\<rparr>"

definition commitBoundary :: "('o, 'h) runner_env \<Rightarrow> string \<Rightarrow> job_status \<Rightarrow> ('o, 'h, unit) rop" where
  "commitBoundary E jid st = andThen the_draft (\<lambda>d.
     andThen (in_world (setStatus E jid (cp_attempt d) JCheckpointing)) (\<lambda>_.
     andThen (on_draft (\<lambda>d. d\<lparr>cp_status := JCheckpointing\<rparr>)) (\<lambda>_.
     andThen (in_world (append_one E jid EvCheckpoint (checkpoint_data d) (Some (cp_attempt d)))) (\<lambda>e.
     andThen (on_draft (committed_draft (je_seq e) st)) (\<lambda>_.
     andThen the_draft (\<lambda>d'.
     andThen (in_world (andThen (Date_now E) (\<lambda>now. in_db (saveCheckpoint (rv_hook E) jid (finalizeCheckpoint (rv_host E) d') now)))) (\<lambda>_.
     if isTerminal st then ok () else andThen (in_world (setStatus E jid (cp_attempt d) st)) (\<lambda>_. ok ()))))))))"

definition quiet_commit :: "('o, 'h) runner_env \<Rightarrow> string \<Rightarrow> job_status \<Rightarrow> ('o, 'h, unit) rop" where
  "quiet_commit E jid st = andThen (on_draft (\<lambda>d. d\<lparr>cp_status := st\<rparr>)) (\<lambda>_. catch (commitBoundary E jid st) (\<lambda>_. ok ()))"

section \<open>Terminal transitions\<close>

definition dispose :: "('o, 'h) runner_env \<Rightarrow> workspace_handle option \<Rightarrow> ('o, unit) wop" where
  "dispose E ws = quietly (destroy E ws)"

text \<open>
  The end of \<^verbatim>\<open>failJob\<close> and \<^verbatim>\<open>finalizeCancelled\<close>: the fenced status write,
  whose failure is swallowed, the disposal of the environment, and the state.
\<close>

definition settle_record :: "('o, 'h) runner_env \<Rightarrow> job_record \<Rightarrow> nat \<Rightarrow> job_patch \<Rightarrow> job_record \<Rightarrow> workspace_handle option
    \<Rightarrow> ('o, runner_state) wop" where
  "settle_record E r attempt p fallback ws =
     andThen (catch (update_record E (jr_jobId r) attempt p) (\<lambda>_. ok fallback)) (\<lambda>next.
     andThen (dispose E ws) (\<lambda>_. toState next))"

definition fail_event :: "('o, 'h) runner_env \<Rightarrow> job_record \<Rightarrow> runner_error \<Rightarrow> ('o, unit) wop" where
  "fail_event E r e = andThen (append_one E (jr_jobId r) EvError (JObj [(''terminal'', JBool True), (''message'', JStr (rv_message E e))]) None) (\<lambda>_. ok ())"

definition fail_settle :: "('o, 'h) runner_env \<Rightarrow> job_record \<Rightarrow> nat \<Rightarrow> workspace_handle option \<Rightarrow> runner_error \<Rightarrow> ('o, runner_state) wop" where
  "fail_settle E r attempt ws e = settle_record E r attempt ((unleased_patch JFailed)\<lparr>pt_error := Some (Some (rv_message E e))\<rparr>)
     (r\<lparr>jr_status := JFailed, jr_error := Some (rv_message E e)\<rparr>) ws"

text \<open>\<^verbatim>\<open>failJob\<close> without a draft, and with the draft of the run.\<close>

definition failJob_bare :: "('o, 'h) runner_env \<Rightarrow> job_record \<Rightarrow> nat \<Rightarrow> workspace_handle option \<Rightarrow> runner_error \<Rightarrow> ('o, runner_state) wop" where
  "failJob_bare E r attempt ws e = andThen (fail_event E r e) (\<lambda>_. fail_settle E r attempt ws e)"

definition failJob :: "('o, 'h) runner_env \<Rightarrow> job_record \<Rightarrow> nat \<Rightarrow> workspace_handle option \<Rightarrow> runner_error \<Rightarrow> ('o, 'h, runner_state) rop" where
  "failJob E r attempt ws e = andThen (in_world (fail_event E r e)) (\<lambda>_.
     andThen (quiet_commit E (jr_jobId r) JFailed) (\<lambda>_. in_world (fail_settle E r attempt ws e)))"

definition cancel_settle :: "('o, 'h) runner_env \<Rightarrow> job_record \<Rightarrow> workspace_handle option \<Rightarrow> ('o, runner_state) wop" where
  "cancel_settle E r ws = settle_record E r (jr_attempt r) (unleased_patch JCancelled) (r\<lparr>jr_status := JCancelled\<rparr>) ws"

definition cancel_event :: "('o, 'h) runner_env \<Rightarrow> job_record \<Rightarrow> ('o, unit) wop" where
  "cancel_event E r = andThen (append_one E (jr_jobId r) EvCancelled (JObj []) None) (\<lambda>_. ok ())"

definition finalizeCancelled_bare :: "('o, 'h) runner_env \<Rightarrow> job_record \<Rightarrow> ('o, runner_state) wop" where
  "finalizeCancelled_bare E r = andThen (cancel_event E r) (\<lambda>_. cancel_settle E r None)"

definition finalizeCancelled :: "('o, 'h) runner_env \<Rightarrow> job_record \<Rightarrow> workspace_handle option \<Rightarrow> ('o, 'h, runner_state) rop" where
  "finalizeCancelled E r ws = andThen (in_world (cancel_event E r)) (\<lambda>_.
     andThen (quiet_commit E (jr_jobId r) JCancelled) (\<lambda>_. in_world (cancel_settle E r ws)))"

definition completeJob :: "('o, 'h) runner_env \<Rightarrow> job_record \<Rightarrow> workspace_handle option \<Rightarrow> ('o, 'h, runner_state) rop" where
  "completeJob E r ws = andThen the_draft (\<lambda>d.
     andThen (in_world (append_one E (jr_jobId r) EvCompleted (JObj [(''usage'', metrics_json (usage d)), (''steps'', jnat (steps (usage d)))]) None)) (\<lambda>_.
     andThen (on_draft (\<lambda>d. d\<lparr>cp_status := JCompleted, continuation := Done\<rparr>)) (\<lambda>_.
     andThen (commitBoundary E (jr_jobId r) JCompleted) (\<lambda>_.
     andThen (in_world (update_record E (jr_jobId r) (cp_attempt d) (unleased_patch JCompleted))) (\<lambda>next.
     andThen (in_world (dispose E ws)) (\<lambda>_. in_world (toState next)))))))"

subsection \<open>Budgets\<close>

definition checkBudgets :: "('o, 'h) runner_env \<Rightarrow> draft \<Rightarrow> execution_policy \<Rightarrow> ('o, budget_exhaustion_reason option) wop" where
  "checkBudgets E d p =
     (if (case pol_maxTokens p of None \<Rightarrow> False | Some m \<Rightarrow> totalTokens (usage d) \<ge> m) then ok (Some Token_budget_exhausted)
      else (case pol_maxDurationMs p of None \<Rightarrow> ok None
        | Some m \<Rightarrow> andThen (Date_now E) (\<lambda>now. ok (if now - cp_createdAt d \<ge> m then Some Duration_budget_exhausted else None))))"

primrec exhaustion_text :: "budget_exhaustion_reason \<Rightarrow> string" where
  "exhaustion_text Token_budget_exhausted = ''token_budget_exhausted''"
| "exhaustion_text Duration_budget_exhausted = ''duration_budget_exhausted''"

definition opt_int :: "int option \<Rightarrow> json" where
  "opt_int n = (case n of None \<Rightarrow> JNull | Some i \<Rightarrow> jint i)"

definition finalizeBudgetExhausted :: "('o, 'h) runner_env \<Rightarrow> job_record \<Rightarrow> workspace_handle option \<Rightarrow> budget_exhaustion_reason
    \<Rightarrow> ('o, 'h, runner_state) rop" where
  "finalizeBudgetExhausted E r ws reason = andThen the_draft (\<lambda>d. andThen (in_world (Date_now E)) (\<lambda>now.
     andThen (in_world (append_one E (jr_jobId r) EvBudgetExhausted (JObj [(''reason'', JStr (exhaustion_text reason)),
         (''consumedTokens'', jint (totalTokens (usage d))), (''maxTokens'', opt_int (pol_maxTokens (jr_policy r))),
         (''elapsedMs'', jint (now - cp_createdAt d)), (''maxDurationMs'', opt_int (pol_maxDurationMs (jr_policy r)))]) None)) (\<lambda>_.
     andThen (quiet_commit E (jr_jobId r) JCancelled) (\<lambda>_. in_world (cancel_settle E r ws)))))"

section \<open>Admitted input\<close>

text \<open>A property of an object; of any other value it is \<^verbatim>\<open>undefined\<close>.\<close>

definition jprop :: "string \<Rightarrow> json \<Rightarrow> json" where
  "jprop k v = (case v of JObj ps \<Rightarrow> (case tget ps k of None \<Rightarrow> JUndefined | Some x \<Rightarrow> x) | _ \<Rightarrow> JUndefined)"

text \<open>The text of a user message, which the sources write as a string; an empty one is skipped.\<close>

definition user_text :: "job_event \<Rightarrow> string option" where
  "user_text e = (if je_type e = EvMessage \<and> jprop ''role'' (je_data e) = JStr ''user''
     then (case jprop ''text'' (je_data e) of JStr t \<Rightarrow> if t = [] then None else Some t | _ \<Rightarrow> None) else None)"

primrec drain :: "('o, 'h) agent_engine \<Rightarrow> job_event list \<Rightarrow> ('o, 'h) run_state \<Rightarrow> ('o, 'h) run_state" where
  "drain en [] r = r"
| "drain en (e # es) r = drain en es (case user_text e of
       Some t \<Rightarrow> if je_seq e \<in> set (rn_applied r) then r
         else r\<lparr>rn_applied := rn_applied r @ [je_seq e], rn_session := en_recordUserInput en (rn_session r) t,
                rn_draft := (rn_draft r)\<lparr>pendingInput := pendingInput (rn_draft r) @ [t]\<rparr>\<rparr>
     | None \<Rightarrow> r)"

definition drainAdmittedInput :: "string \<Rightarrow> ('o, 'h) agent_engine \<Rightarrow> ('o, 'h, unit) rop" where
  "drainAdmittedInput jid en = andThen (in_world (in_db (listEvents jid 0))) (\<lambda>es. modifies (drain en es))"

section \<open>Settling tool calls\<close>

text \<open>
  An idempotency key \<^verbatim>\<open>`${stepIndex}:${toolCallId}`\<close> and its parts. \<^verbatim>\<open>Number\<close> of
  the first part is written out for the digits that the runner puts there.
\<close>

definition call_key :: "('o, 'h) runner_env \<Rightarrow> nat \<Rightarrow> string \<Rightarrow> string" where
  "call_key E step cid = num_str (rv_host E) (of_nat step) @ '':'' @ cid"

definition key_parts :: "string \<Rightarrow> string \<times> string" where
  "key_parts k = (let a = takeWhile (\<lambda>c. c \<noteq> CHR '':'') k; rest = dropWhile (\<lambda>c. c \<noteq> CHR '':'') k
     in if rest = [] then (butlast k, k) else (a, tl rest))"

definition key_step :: "string \<Rightarrow> js_number" where
  "key_step k = (let s = fst (key_parts k) in
     if list_all is_digit s then Finite (of_nat (decimal_value s)) else NotANumber)"

definition key_call :: "string \<Rightarrow> string" where
  "key_call k = snd (key_parts k)"

text \<open>The call behind a key: of the live plan, or of the first \<^verbatim>\<open>tool_request\<close> in the log that carries the key.\<close>

definition planned_call :: "tool_call list \<Rightarrow> string \<Rightarrow> (string \<times> json) option" where
  "planned_call calls k = map_option (\<lambda>c. (tc_name c, tc_input c)) (List.find (\<lambda>c. tc_id c = key_call k) calls)"

definition requested_call :: "job_event list \<Rightarrow> string \<Rightarrow> (string \<times> json) option" where
  "requested_call es k = (case List.find (\<lambda>e. je_type e = EvToolRequest \<and> jprop ''idempotencyKey'' (je_data e) = JStr k) es of
       None \<Rightarrow> None
     | Some e \<Rightarrow> (case jprop ''toolName'' (je_data e) of JStr n \<Rightarrow> Some (n, jprop ''input'' (je_data e)) | _ \<Rightarrow> None))"

definition envForJob :: "(string, string) table \<Rightarrow> (string, string) table" where
  "envForJob explicit = fold (\<lambda>(k, v). tput k v) explicit [(''PATH'', ''/usr/local/bin:/usr/bin:/bin'')]"

record plan =
  pl_step :: nat
  pl_calls :: "tool_call list"
  pl_resume :: bool
  pl_log :: "job_event list"

definition response_data :: "string \<Rightarrow> string \<Rightarrow> json \<Rightarrow> bool \<Rightarrow> (string \<times> json) list \<Rightarrow> json" where
  "response_data k name out isError extra = JObj ([(''stepIndex'', JNum (key_step k)), (''toolCallId'', JStr (key_call k)),
     (''idempotencyKey'', JStr k), (''toolName'', JStr name), (''output'', out), (''isError'', JBool isError)] @ extra)"

definition settled :: "nat \<Rightarrow> string list \<Rightarrow> draft \<Rightarrow> draft" where
  "settled step ks d = d\<lparr>continuation := Settle_tools step ks\<rparr>"

definition record_call :: "string \<Rightarrow> tool_call_state \<Rightarrow> draft \<Rightarrow> draft" where
  "record_call k st d = d\<lparr>toolCallTable := tput k st (toolCallTable d)\<rparr>"

definition is_recorded :: "tool_call_state option \<Rightarrow> bool" where
  "is_recorded st \<longleftrightarrow> (case st of Some (TC_recorded _) \<Rightarrow> True | _ \<Rightarrow> False)"

definition is_completed :: "tool_call_state option \<Rightarrow> bool" where
  "is_completed st \<longleftrightarrow> (case st of Some (TC_completed _ _ _) \<Rightarrow> True | _ \<Rightarrow> False)"

definition interrupted :: json where
  "interrupted = JObj [(''error'', JStr ''execution_interrupted''),
     (''detail'', JStr ''tool call was recorded but its outcome is unknown after worker loss'')]"

text \<open>The execution of a call: its output and whether it is an error. Only a simulated crash escapes.\<close>

definition execute_call :: "('o, 'h) runner_env \<Rightarrow> job_record \<Rightarrow> draft \<Rightarrow> workspace_handle option \<Rightarrow> nat \<Rightarrow> string \<Rightarrow> string \<Rightarrow> json
    \<Rightarrow> ('o, json \<times> bool) wop" where
  "execute_call E r d ws sig k name input =
     (case tget (rv_tools E) name of
        Some tool \<Rightarrow>
          if name \<in> set (allowedTools (jr_policy r)) then
            catch (andThen (tl_execute tool input \<lparr>ctx_job = job_key_of r (jr_jobId r) (executionId d), ctx_idempotencyKey = k,
                ctx_workspace = ws, ctx_env = envForJob (jr_env r), ctx_signal = sig\<rparr>) (\<lambda>out. ok (out, False)))
              (\<lambda>e. if e = SimulatedCrashError then throw e
                 else ok (JObj [(''error'', JStr ''tool_execution_failed''), (''detail'', JStr (rv_message E e))], True))
          else ok (JObj [(''error'', JStr ''tool_not_allowed''), (''toolName'', JStr name)], True)
      | None \<Rightarrow> ok (JObj [(''error'', JStr ''tool_not_allowed''), (''toolName'', JStr name)], True))"

definition uncertain_call :: "('o, 'h) runner_env \<Rightarrow> job_record \<Rightarrow> plan \<Rightarrow> string \<Rightarrow> tool_call_state option \<Rightarrow> bool" where
  "uncertain_call E r p name st \<longleftrightarrow> pl_resume p \<and> is_recorded st \<and>
     (case tget (rv_tools E) name of None \<Rightarrow> False
      | Some tool \<Rightarrow> \<not> (td_idempotent (tl_definition tool) \<and> name \<in> set (idempotentTools (jr_policy r)))) \<and>
     name \<in> set (allowedTools (jr_policy r))"

text \<open>
  The loop over the pending keys. It returns early when the job is cancelled or, by policy, when an
  uncertain call fails it; otherwise the results go to the session and the continuation to the next
  step.
\<close>

primrec settle :: "('o, 'h) runner_env \<Rightarrow> job_record \<Rightarrow> ('o, 'h) agent_engine \<Rightarrow> workspace_handle option \<Rightarrow> nat \<Rightarrow> plan \<Rightarrow> string list
    \<Rightarrow> chat_message list \<Rightarrow> ('o, 'h, unit) rop" where
  "settle E r en ws sig p [] results =
     andThen (if results = [] then ok () else on_session (\<lambda>h. en_recordToolResults en h results)) (\<lambda>_.
     andThen (on_draft (\<lambda>d. d\<lparr>continuation := Provider_turn (pl_step p + 1)\<rparr>)) (\<lambda>_. commitBoundary E (jr_jobId r) JRunning))"
| "settle E r en ws sig p (k # ks) results =
     andThen (in_world (requireRecord (jr_jobId r))) (\<lambda>current. andThen (in_world (is_aborted sig)) (\<lambda>aborted.
     if cancelRequested current \<or> aborted then ok ()
     else andThen the_draft (\<lambda>d.
       let st = tget (toolCallTable d) k in
       if is_completed st then
         andThen (on_draft (settled (pl_step p) ks)) (\<lambda>_. andThen (commitBoundary E (jr_jobId r) JRunning) (\<lambda>_.
         settle E r en ws sig p ks results))
       else
         (case (if pl_resume p then requested_call (pl_log p) k else planned_call (pl_calls p) k) of
            None \<Rightarrow> throw (InvalidCheckpointError (jr_jobId r) (''pending tool call '' @ k @ '' has no recorded tool_request''))
          | Some (name, input) \<Rightarrow>
              if name = [] then throw (InvalidCheckpointError (jr_jobId r) (''pending tool call '' @ k @ '' has no recorded tool_request''))
              else if uncertain_call E r p name st then
                (if onUncertainToolCall (jr_policy r) = Fail_job then
                   andThen (in_world (requireRecord (jr_jobId r))) (\<lambda>current.
                   andThen (failJob E current (cp_attempt d) ws (VaulltcoreError ''UNCERTAIN_TOOL_CALL'')) (\<lambda>_. ok ()))
                 else
                   andThen (in_world (append_one E (jr_jobId r) EvToolResponse
                     (response_data k name interrupted True [(''uncertain'', JBool True)]) (Some (cp_attempt d)))) (\<lambda>_.
                   andThen (on_draft (\<lambda>d. settled (pl_step p) ks
                     (record_call k (TC_uncertain (recordedAtSeq (the st)) ''interrupted_before_result'') d))) (\<lambda>_.
                   andThen (commitBoundary E (jr_jobId r) JRunning) (\<lambda>_.
                   settle E r en ws sig p ks
                     (results @ [\<lparr>cm_role = ''tool'', cm_content = [Part_tool_result (key_call k) name interrupted True True]\<rparr>])))))
              else
                andThen (in_world (execute_call E r d ws sig k name input)) (\<lambda>(out, isError).
                andThen (in_world (append_one E (jr_jobId r) EvToolResponse
                  (response_data k name out isError (if pl_resume p \<and> is_recorded st then [(''reconciled'', JBool True)] else [])) (Some (cp_attempt d)))) (\<lambda>e.
                andThen (on_draft (\<lambda>d. settled (pl_step p) ks
                  (record_call k (TC_completed (if is_recorded st then recordedAtSeq (the st) else je_seq e) (je_seq e) (je_seq e)) d))) (\<lambda>_.
                andThen (commitBoundary E (jr_jobId r) JRunning) (\<lambda>_.
                settle E r en ws sig p ks
                  (results @ [\<lparr>cm_role = ''tool'', cm_content = [Part_tool_result (key_call k) name out isError False]\<rparr>])))))))))"

definition settleTools :: "('o, 'h) runner_env \<Rightarrow> job_record \<Rightarrow> ('o, 'h) agent_engine \<Rightarrow> workspace_handle option \<Rightarrow> nat \<Rightarrow> nat \<Rightarrow> string list
    \<Rightarrow> tool_call list option \<Rightarrow> ('o, 'h, unit) rop" where
  "settleTools E r en ws sig step ks calls = (case calls of
       Some cs \<Rightarrow> settle E r en ws sig \<lparr>pl_step = step, pl_calls = cs, pl_resume = False, pl_log = []\<rparr> ks []
     | None \<Rightarrow> andThen (in_world (in_db (listEvents (jr_jobId r) 0))) (\<lambda>es.
         settle E r en ws sig \<lparr>pl_step = step, pl_calls = [], pl_resume = True, pl_log = es\<rparr> ks []))"

section \<open>A provider turn\<close>

definition turn_text :: "engine_turn_event list \<Rightarrow> string list" where
  "turn_text evs = concat (map (\<lambda>e. case e of Turn_text t \<Rightarrow> [t] | _ \<Rightarrow> []) evs)"

definition turn_calls :: "engine_turn_event list \<Rightarrow> tool_call list" where
  "turn_calls evs = concat (map (\<lambda>e. case e of Turn_tool_call i n v \<Rightarrow> [\<lparr>tc_id = i, tc_name = n, tc_input = v\<rparr>] | _ \<Rightarrow> []) evs)"

definition sum_usage :: "int option \<Rightarrow> int option \<Rightarrow> int option" where
  "sum_usage a b = Some (case_option 0 id a + case_option 0 id b)"

definition turn_usage_of :: "engine_turn_event list \<Rightarrow> turn_usage" where
  "turn_usage_of evs = fold (\<lambda>e u. case e of
       Turn_usage v \<Rightarrow> \<lparr>tu_input = sum_usage (tu_input u) (tu_input v), tu_output = sum_usage (tu_output u) (tu_output v),
         tu_reasoning = sum_usage (tu_reasoning u) (tu_reasoning v)\<rparr>
     | _ \<Rightarrow> u) evs \<lparr>tu_input = None, tu_output = None, tu_reasoning = None\<rparr>"

definition turn_finish :: "engine_turn_event list \<Rightarrow> string" where
  "turn_finish evs = fold (\<lambda>e f. case e of Turn_finish reason \<Rightarrow> reason | _ \<Rightarrow> f) evs ''stop''"

definition call_json :: "tool_call \<Rightarrow> json" where
  "call_json c = JObj [(''toolCallId'', JStr (tc_id c)), (''toolName'', JStr (tc_name c)), (''input'', tc_input c)]"

definition assistant_message :: "engine_turn_event list \<Rightarrow> chat_message" where
  "assistant_message evs = \<lparr>cm_role = ''assistant'', cm_content =
     (if turn_text evs = [] then [] else [Part_text (join (turn_text evs))]) @
     map (\<lambda>c. Part_tool_call (tc_id c) (tc_name c) (tc_input c)) (turn_calls evs)\<rparr>"

definition message_data :: "nat \<Rightarrow> engine_turn_event list \<Rightarrow> json" where
  "message_data step evs = JObj [(''role'', JStr ''assistant''), (''stepIndex'', jnat step),
     (''text'', if join (turn_text evs) = [] then JUndefined else JStr (join (turn_text evs))),
     (''toolCalls'', JArr (map call_json (turn_calls evs)))]"

definition usage_counts :: "turn_usage \<Rightarrow> bool" where
  "usage_counts u \<longleftrightarrow> list_ex (\<lambda>v. case_option 0 id v > 0) [tu_input u, tu_output u, tu_reasoning u]"

definition usage_data :: "nat \<Rightarrow> turn_usage \<Rightarrow> json" where
  "usage_data step u = JObj [(''stepIndex'', jnat step), (''inputTokens'', jint (case_option 0 id (tu_input u))),
     (''outputTokens'', jint (case_option 0 id (tu_output u))), (''reasoningTokens'', jint (case_option 0 id (tu_reasoning u)))]"

definition turn_recorded :: "nat \<Rightarrow> int \<Rightarrow> engine_turn_event list \<Rightarrow> draft \<Rightarrow> draft" where
  "turn_recorded step now evs d =
     (let u = addUsage (usage d) (turn_usage_of evs)
      in d\<lparr>usage := u\<lparr>steps := steps u + 1, toolCallCount := toolCallCount u + length (turn_calls evs)\<rparr>,
           lastCompletedStep := Some (step, now), pendingInput := []\<rparr>)"

definition request_data :: "('o, 'h) runner_env \<Rightarrow> nat \<Rightarrow> tool_call \<Rightarrow> json" where
  "request_data E step c = JObj [(''stepIndex'', jnat step), (''toolCallId'', JStr (tc_id c)), (''idempotencyKey'', JStr (call_key E step (tc_id c))),
     (''toolName'', JStr (tc_name c)), (''input'', tc_input c)]"

definition tool_definitions :: "('o, 'h) runner_env \<Rightarrow> execution_policy \<Rightarrow> tool_definition list" where
  "tool_definitions E p = filter (\<lambda>d. td_name d \<in> set (allowedTools p)) (map tl_definition (tvals (rv_tools E)))"

section \<open>The loop\<close>

definition finish :: "('o, 'h, 'a) rop \<Rightarrow> ('o, 'h, 'a option) rop" where
  "finish m = andThen m (\<lambda>x. ok (Some x))"

text \<open>The turn itself; an error of the engine fails the job.\<close>

definition try_turn :: "('o, 'h) runner_env \<Rightarrow> job_record \<Rightarrow> ('o, 'h) agent_engine \<Rightarrow> workspace_handle option \<Rightarrow> nat
    \<Rightarrow> ('o, 'h, runner_state + engine_turn_event list) rop" where
  "try_turn E r en ws sig =
     catch (andThen (reads rn_session) (\<lambda>h. andThen (in_world (en_runTurn en h (tool_definitions E (jr_policy r)) sig)) (\<lambda>(evs, h').
         andThen (on_session (\<lambda>_. h')) (\<lambda>_. ok (Inr evs)))))
       (\<lambda>e. if e = SimulatedCrashError then throw e
          else andThen the_draft (\<lambda>d. andThen (failJob E r (cp_attempt d) ws e) (\<lambda>st. ok (Inl st))))"

definition commit_turn :: "('o, 'h) runner_env \<Rightarrow> string \<Rightarrow> ('o, 'h) agent_engine \<Rightarrow> nat \<Rightarrow> engine_turn_event list \<Rightarrow> ('o, 'h, unit) rop" where
  "commit_turn E jid en step evs = andThen the_draft (\<lambda>d. andThen (in_world (Date_now E)) (\<lambda>t1. andThen (in_world (Date_now E)) (\<lambda>t2.
     andThen (in_world (append_events E jid (new_event jid t1 EvMessage (message_data step evs) #
       (if usage_counts (turn_usage_of evs) then [new_event jid t2 EvUsage (usage_data step (turn_usage_of evs))] else [])) (Some (cp_attempt d)))) (\<lambda>_.
     andThen (on_session (\<lambda>h. en_recordAssistantTurn en h (assistant_message evs))) (\<lambda>_.
     andThen (in_world (Date_now E)) (\<lambda>t3. on_draft (turn_recorded step t3 evs)))))))"

primrec request_events :: "('o, 'h) runner_env \<Rightarrow> string \<Rightarrow> nat \<Rightarrow> tool_call list \<Rightarrow> ('o, new_job_event list) wop" where
  "request_events E jid step [] = ok []"
| "request_events E jid step (c # cs) = andThen (Date_now E) (\<lambda>now.
     andThen (request_events E jid step cs) (\<lambda>es. ok (new_event jid now EvToolRequest (request_data E step c) # es)))"

definition record_requests :: "('o, 'h) runner_env \<Rightarrow> string \<Rightarrow> nat \<Rightarrow> tool_call list \<Rightarrow> ('o, 'h, unit) rop" where
  "record_requests E jid step calls = andThen the_draft (\<lambda>d.
     andThen (in_world (andThen (request_events E jid step calls) (\<lambda>es. append_events E jid es (Some (cp_attempt d))))) (\<lambda>stamped.
     let keys = map (\<lambda>c. call_key E step (tc_id c)) calls in
     andThen (on_draft (\<lambda>d. fold (\<lambda>(k, e). record_call k (TC_recorded (je_seq e))) (zip keys stamped) d)) (\<lambda>_.
     andThen (on_draft (settled step keys)) (\<lambda>_. commitBoundary E jid JRunning))))"

text \<open>One step: drained input, a turn, its commit, the budgets and the tool calls. A result ends the run.\<close>

definition one_step :: "('o, 'h) runner_env \<Rightarrow> job_record \<Rightarrow> ('o, 'h) agent_engine \<Rightarrow> workspace_handle option \<Rightarrow> nat \<Rightarrow> nat
    \<Rightarrow> ('o, 'h, runner_state option) rop" where
  "one_step E r en ws sig step = (let jid = jr_jobId r; required = in_world (requireRecord jid) in
     andThen (drainAdmittedInput jid en) (\<lambda>_.
     andThen (try_turn E r en ws sig) (\<lambda>turn.
     case turn of Inl st \<Rightarrow> ok (Some st)
     | Inr evs \<Rightarrow>
         andThen (in_world (is_aborted sig)) (\<lambda>aborted.
         if aborted \<or> turn_finish evs = ''cancelled'' then andThen required (\<lambda>now. finish (finalizeCancelled E now ws))
         else
           andThen (commit_turn E jid en step evs) (\<lambda>_.
           andThen the_draft (\<lambda>d.
           andThen (in_world (checkBudgets E d (jr_policy r))) (\<lambda>hit.
           case hit of
             Some reason \<Rightarrow> andThen required (\<lambda>now. finish (finalizeBudgetExhausted E now ws reason))
           | None \<Rightarrow>
               if turn_calls evs = [] then
                 andThen (on_draft (\<lambda>d. d\<lparr>continuation := Done\<rparr>)) (\<lambda>_. andThen required (\<lambda>now. finish (completeJob E now ws)))
               else
                 andThen (record_requests E jid step (turn_calls evs)) (\<lambda>_.
                 andThen (settleTools E r en ws sig step (map (\<lambda>c. call_key E step (tc_id c)) (turn_calls evs)) (Some (turn_calls evs))) (\<lambda>_.
                 ok None)))))))))"

primrec loop :: "nat \<Rightarrow> ('o, 'h) runner_env \<Rightarrow> job_record \<Rightarrow> ('o, 'h) agent_engine \<Rightarrow> workspace_handle option \<Rightarrow> nat
    \<Rightarrow> ('o, 'h, runner_state option) rop" where
  "loop 0 E r en ws sig = ok None"
| "loop (Suc n) E r en ws sig =
     andThen (in_world (requireRecord (jr_jobId r))) (\<lambda>current. andThen (in_world (is_aborted sig)) (\<lambda>aborted.
     if cancelRequested current \<or> aborted then finish (finalizeCancelled E current ws)
     else andThen the_draft (\<lambda>d. case continuation d of
         Settle_tools step ks \<Rightarrow> andThen (settleTools E r en ws sig step ks None) (\<lambda>_. loop n E r en ws sig)
       | Done \<Rightarrow> finish (completeJob E current ws)
       | Provider_turn step \<Rightarrow>
           if int step \<ge> pol_maxSteps (jr_policy r) then finish (failJob E current (cp_attempt d) ws (VaulltcoreError ''MAX_STEPS''))
           else andThen (one_step E r en ws sig step) (\<lambda>res. case res of Some st \<Rightarrow> ok (Some st) | None \<Rightarrow> loop n E r en ws sig))))"

section \<open>Running and resuming\<close>

definition with_run :: "draft \<Rightarrow> 'h \<Rightarrow> nat list \<Rightarrow> ('o, 'h, 'a) rop \<Rightarrow> ('o, 'a) wop" where
  "with_run d h inputs m = (\<lambda>w. case m \<lparr>rn_world = w, rn_draft = d, rn_session = h, rn_applied = inputs\<rparr> of (x, r) \<Rightarrow> (x, rn_world r))"

text \<open>\<^verbatim>\<open>try { m } finally { c }\<close>.\<close>

definition always :: "('s, 'e, 'a) op \<Rightarrow> ('s, 'e, unit) op \<Rightarrow> ('s, 'e, 'a) op" where
  "always m c = (\<lambda>s. case m s of (x, t) \<Rightarrow> (case c t of (Inl e, u) \<Rightarrow> (Inl e, u) | (Inr _, u) \<Rightarrow> (x, u)))"

text \<open>A phase whose error, other than a simulated crash, fails the job and ends the run with its state.\<close>

definition or_fail :: "('o, 'h) runner_env \<Rightarrow> job_record \<Rightarrow> nat \<Rightarrow> workspace_handle option \<Rightarrow> ('o, 'a) wop \<Rightarrow> ('o, runner_state + 'a) wop" where
  "or_fail E r attempt ws m = catch (andThen m (\<lambda>x. ok (Inr x)))
     (\<lambda>e. if e = SimulatedCrashError then throw e else andThen (failJob_bare E r attempt ws e) (\<lambda>st. ok (Inl st)))"

definition phase :: "('o, runner_state + 'a) wop \<Rightarrow> ('a \<Rightarrow> ('o, runner_state option) wop) \<Rightarrow> ('o, runner_state option) wop" where
  "phase m f = andThen m (\<lambda>x. case x of Inl st \<Rightarrow> ok (Some st) | Inr y \<Rightarrow> f y)"

definition newDraft :: "('o, 'h) agent_engine \<Rightarrow> job_record \<Rightarrow> nat \<Rightarrow> string \<Rightarrow> nat \<Rightarrow> int \<Rightarrow> draft" where
  "newDraft en r attempt exe seq now = \<lparr>tenantId = tenantId r, orgId = orgId r, projectId = projectId r, cp_jobId = jr_jobId r, executionId = exe,
     cp_status = JRunning, cp_attempt = attempt, lastEventSeq = seq, lastCompletedStep = None, toolCallTable = [], pendingInput = [],
     continuation = Provider_turn 0, contextThroughSeq = seq, usage = emptyMetrics, policyVersion = pol_version (jr_policy r),
     engineVersion = en_version en, cp_createdAt = now\<rparr>"

text \<open>A fresh session and the draft that starts with it.\<close>

definition begin_execution :: "('o, 'h) runner_env \<Rightarrow> ('o, 'h) agent_engine \<Rightarrow> job_record \<Rightarrow> nat \<Rightarrow> workspace_handle option
    \<Rightarrow> (string \<times> json) list \<Rightarrow> ('o, draft \<times> 'h) wop" where
  "begin_execution E en r attempt ws extra =
     andThen (tick (rv_newExecutionId E)) (\<lambda>exe.
     andThen (en_createSession en (job_key_of r (jr_jobId r) exe) (jr_spec r) ws) (\<lambda>h.
     andThen (append_one E (jr_jobId r) EvStarted (JObj ([(''attempt'', jnat attempt), (''executionId'', JStr exe)] @ extra)) (Some attempt)) (\<lambda>e.
     andThen (Date_now E) (\<lambda>now. ok (newDraft en r attempt exe (je_seq e) now, h)))))"

text \<open>From the fresh draft to the end of the loop.\<close>

definition first_run :: "nat \<Rightarrow> ('o, 'h) runner_env \<Rightarrow> ('o, 'h) agent_engine \<Rightarrow> job_record \<Rightarrow> nat \<Rightarrow> workspace_handle option \<Rightarrow> nat
    \<Rightarrow> ('o, 'h, runner_state option) rop" where
  "first_run n E en r attempt ws sig =
     andThen (drainAdmittedInput (jr_jobId r) en) (\<lambda>_.
     andThen (in_world (setStatus E (jr_jobId r) attempt JRunning)) (\<lambda>_.
     andThen (commitBoundary E (jr_jobId r) JRunning) (\<lambda>_. loop n E r en ws sig)))"

definition new_signal :: "('o, nat) wop" where
  "new_signal = (\<lambda>w. (Inr (wsignals w), w\<lparr>wsignals := wsignals w + 1\<rparr>))"

definition activate_run :: "string \<Rightarrow> actor_handle \<Rightarrow> nat \<Rightarrow> ('o, unit) wop" where
  "activate_run jid ha sig = modifies (\<lambda>w. w\<lparr>wactive := tput jid
     \<lparr>ar_signal = sig, ar_attempt = ow_generation (ah_ownership ha), ar_leaseToken = ow_token (ah_ownership ha)\<rparr> (wactive w)\<rparr>)"

definition end_run :: "('o, 'h) runner_env \<Rightarrow> string \<Rightarrow> actor_handle \<Rightarrow> ('o, unit) wop" where
  "end_run E jid ha = andThen (modifies (\<lambda>w. w\<lparr>wactive := filter (\<lambda>e. fst e \<noteq> jid) (wactive w)\<rparr>)) (\<lambda>_. quietly (release_handle E ha))"

definition run_queued :: "nat \<Rightarrow> ('o, 'h) runner_env \<Rightarrow> job_record \<Rightarrow> ('o, runner_state option) wop" where
  "run_queued n E r = (let jid = jr_jobId r in
     andThen (engineFor E r) (\<lambda>en.
     andThen (acquire E jid) (\<lambda>ha.
     let attempt = ow_generation (ah_ownership ha) in
     andThen new_signal (\<lambda>sig. andThen (activate_run jid ha sig) (\<lambda>_.
     always
       (phase (or_fail E r attempt None (andThen (start E ha) (\<lambda>_. materializeWorkspace E jid))) (\<lambda>ws.
        phase (or_fail E r attempt ws (begin_execution E en r attempt ws [])) (\<lambda>(d, h).
        with_run d h [] (catch (first_run n E en r attempt ws sig)
          (\<lambda>e. if e = SimulatedCrashError then throw e else finish (failJob E r attempt ws e))))))
       (end_run E jid ha))))))"

definition restartFromScratch :: "nat \<Rightarrow> ('o, 'h) runner_env \<Rightarrow> ('o, 'h) agent_engine \<Rightarrow> job_record \<Rightarrow> nat \<Rightarrow> workspace_handle option \<Rightarrow> nat
    \<Rightarrow> ('o, runner_state option) wop" where
  "restartFromScratch n E en r attempt ws sig =
     phase (or_fail E r attempt ws (andThen (begin_execution E en r attempt ws [(''reason'', JStr ''no_checkpoint'')])
       (\<lambda>(d, h). with_run d h [] (first_run n E en r attempt ws sig)))) ok"

definition is_user_message :: "job_event \<Rightarrow> bool" where
  "is_user_message e \<longleftrightarrow> je_type e = EvMessage \<and> jprop ''role'' (je_data e) = JStr ''user''"

definition revived :: "job_checkpoint \<Rightarrow> nat \<Rightarrow> draft" where
  "revived cp attempt = (draft_of cp)\<lparr>cp_attempt := attempt, cp_status := JRunning\<rparr>"

definition continue_run :: "nat \<Rightarrow> ('o, 'h) runner_env \<Rightarrow> ('o, 'h) agent_engine \<Rightarrow> job_record \<Rightarrow> nat \<Rightarrow> recovery_context \<Rightarrow> job_checkpoint \<Rightarrow> nat
    \<Rightarrow> ('o, runner_state option) wop" where
  "continue_run n E en r attempt rx cp sig =
     andThen (en_restoreSession en (job_key_of r (jr_jobId r) (executionId cp)) (jr_spec r) (rx_workspace rx)
       (en_projectHistory en (rx_committedEvents rx))) (\<lambda>h.
     andThen (setStatus E (jr_jobId r) attempt JRunning) (\<lambda>_.
     with_run (revived cp attempt) h (map je_seq (filter is_user_message (rx_committedEvents rx))) (loop n E r en (rx_workspace rx) sig)))"

definition resume_unqueued :: "nat \<Rightarrow> ('o, 'h) runner_env \<Rightarrow> job_record \<Rightarrow> ('o, runner_state option) wop" where
  "resume_unqueued n E r = (let jid = jr_jobId r in
     if cancelRequested r then andThen (finalizeCancelled_bare E r) (\<lambda>st. ok (Some st))
     else
       andThen (engineFor E r) (\<lambda>en.
       andThen new_signal (\<lambda>sig.
       andThen (proceed E jid) (\<lambda>rx.
       let attempt = ow_generation (ah_ownership (rx_handle rx)) in
       andThen (activate_run jid (rx_handle rx) sig) (\<lambda>_.
       always
         (phase (or_fail E r attempt (rx_workspace rx)
            (case rx_checkpoint rx of
               None \<Rightarrow> restartFromScratch n E en r attempt (rx_workspace rx) sig
             | Some cp \<Rightarrow> continue_run n E en r attempt rx cp sig)) ok)
         (end_run E jid (rx_handle rx)))))))"

text \<open>
  \<^verbatim>\<open>runJob\<close> and \<^verbatim>\<open>resumeJob\<close> call each other on a suspended and on a queued job,
  reading the same record again.
\<close>

definition run_unsuspended :: "nat \<Rightarrow> ('o, 'h) runner_env \<Rightarrow> string \<Rightarrow> job_record \<Rightarrow> ('o, runner_state option) wop" where
  "run_unsuspended n E jid r =
     (if isTerminal (jr_status r) then andThen (toState r) (\<lambda>st. ok (Some st))
      else if jr_status r \<noteq> JQueued then throw (InvalidJobStateError jid (jr_status r) ''run'')
      else if cancelRequested r then andThen (finalizeCancelled_bare E r) (\<lambda>st. ok (Some st))
      else run_queued n E r)"

definition runJob :: "nat \<Rightarrow> ('o, 'h) runner_env \<Rightarrow> string \<Rightarrow> ('o, runner_state option) wop" where
  "runJob n E jid = andThen (requireRecord jid) (\<lambda>r.
     if jr_status r = JSuspended then andThen (requireRecord jid) (resume_unqueued n E) else run_unsuspended n E jid r)"

definition resumeJob :: "nat \<Rightarrow> ('o, 'h) runner_env \<Rightarrow> string \<Rightarrow> ('o, runner_state option) wop" where
  "resumeJob n E jid = andThen (requireRecord jid) (\<lambda>r.
     if isTerminal (jr_status r) then andThen (toState r) (\<lambda>st. ok (Some st))
     else if jr_status r = JQueued then andThen (requireRecord jid) (run_unsuspended n E jid)
     else resume_unqueued n E r)"

section \<open>The control plane's operations\<close>

record partial_policy =
  pp_version :: "string option"
  pp_maxSteps :: "int option"
  pp_onUncertainToolCall :: "uncertain_tool_call_policy option"
  pp_allowedTools :: "string list option"
  pp_idempotentTools :: "string list option"
  pp_leaseMs :: "int option"
  pp_maxTokens :: "int option option"
  pp_maxDurationMs :: "int option option"

definition merge_policy :: "partial_policy \<Rightarrow> execution_policy" where
  "merge_policy p = \<lparr>pol_version = orElse (pp_version p) (pol_version DEFAULT_EXECUTION_POLICY),
     pol_maxSteps = orElse (pp_maxSteps p) (pol_maxSteps DEFAULT_EXECUTION_POLICY),
     onUncertainToolCall = orElse (pp_onUncertainToolCall p) (onUncertainToolCall DEFAULT_EXECUTION_POLICY),
     allowedTools = orElse (pp_allowedTools p) (allowedTools DEFAULT_EXECUTION_POLICY),
     idempotentTools = orElse (pp_idempotentTools p) (idempotentTools DEFAULT_EXECUTION_POLICY),
     pol_leaseMs = orElse (pp_leaseMs p) (pol_leaseMs DEFAULT_EXECUTION_POLICY),
     pol_maxTokens = orElse (pp_maxTokens p) (pol_maxTokens DEFAULT_EXECUTION_POLICY),
     pol_maxDurationMs = orElse (pp_maxDurationMs p) (pol_maxDurationMs DEFAULT_EXECUTION_POLICY)\<rparr>"

record create_job_input = job_identity +
  ci_spec :: job_spec
  ci_policy :: partial_policy
  ci_env :: "(string, string) table"

definition new_record :: "create_job_input \<Rightarrow> string \<Rightarrow> int \<Rightarrow> job_record" where
  "new_record i jid now = \<lparr>tenantId = tenantId i, orgId = orgId i, projectId = projectId i, jr_jobId = jid, jr_spec = ci_spec i,
     jr_status = JQueued, jr_attempt = 0, leaseToken = None, leaseExpiresAt = None, cancelRequested = False, jr_error = None,
     jr_env = ci_env i, jr_policy = merge_policy (ci_policy i), latestSnapshot = None, jr_createdAt = now, jr_updatedAt = now\<rparr>"

definition createJob :: "('o, 'h) runner_env \<Rightarrow> create_job_input \<Rightarrow> ('o, job_record) wop" where
  "createJob E i = (case tget (rv_engines E) (sp_engine (ci_spec i)) of
       None \<Rightarrow> throw (EngineNotFoundError (sp_engine (ci_spec i)))
     | Some _ \<Rightarrow>
         andThen (Date_now E) (\<lambda>now. andThen (tick (rv_newJobId E)) (\<lambda>jid.
         let r = new_record i jid now in
         andThen (in_db (createJobRecord (rv_hook E) r)) (\<lambda>_.
         andThen (append_events E jid [new_event jid now EvQueued (JObj [(''engine'', JStr (sp_engine (ci_spec i))),
           (''model'', JStr (sp_model (ci_spec i)))])] None) (\<lambda>_. ok r)))))"

definition cancelJob :: "('o, 'h) runner_env \<Rightarrow> string \<Rightarrow> ('o, runner_state) wop" where
  "cancelJob E jid = andThen (requireRecord jid) (\<lambda>r.
     if isTerminal (jr_status r) then toState r
     else
       andThen (update_record E jid (jr_attempt r) (no_patch\<lparr>pt_cancelRequested := Some True\<rparr>)) (\<lambda>next.
       andThen (abort_run jid) (\<lambda>_.
       if jr_status next = JQueued \<or> jr_status next = JSuspended then finalizeCancelled_bare E next else toState next)))"

definition runner_renewLease :: "('o, 'h) runner_env \<Rightarrow> string \<Rightarrow> int \<Rightarrow> ('o, lease_renewal_result) wop" where
  "runner_renewLease E jid ms = andThen (reads (\<lambda>w. tget (wactive w) jid)) (\<lambda>run.
     case run of None \<Rightarrow> ok Renewal_not_found
     | Some a \<Rightarrow> andThen (Date_now E) (\<lambda>now. in_db (renewLease (rv_hook E) jid (ar_leaseToken a) ms now)))"

definition suspendJob :: "('o, 'h) runner_env \<Rightarrow> string \<Rightarrow> suspension_reason \<Rightarrow> ('o, runner_state) wop" where
  "suspendJob E jid reason = andThen (requireRecord jid) (\<lambda>r.
     if isTerminal (jr_status r) then toState r
     else andThen (suspend E jid reason) (\<lambda>st. andThen (abort_run jid) (\<lambda>_. ok st)))"

definition submitInput :: "('o, 'h) runner_env \<Rightarrow> string \<Rightarrow> string \<Rightarrow> ('o, runner_state) wop" where
  "submitInput E jid txt = andThen (requireRecord jid) (\<lambda>r.
     if isTerminal (jr_status r) then throw (InvalidJobStateError jid (jr_status r) ''submit input to'')
     else andThen (append_one E jid EvMessage (JObj [(''role'', JStr ''user''), (''text'', JStr txt), (''admitted'', JBool True)]) None) (\<lambda>_.
       toState r))"

definition getJobState :: "string \<Rightarrow> ('o, runner_state) wop" where
  "getJobState jid = andThen (requireRecord jid) toState"

record job_view = job_identity +
  jv_id :: string
  jv_status :: job_status
  jv_createdAt :: int
  jv_updatedAt :: int
  jv_usage :: job_metrics
  jv_pendingInput :: "string list"

definition pending_text :: "nat \<Rightarrow> job_event \<Rightarrow> string list" where
  "pending_text watermark e = (if je_seq e > watermark \<and> jprop ''admitted'' (je_data e) = JBool True
     then (case user_text e of Some t \<Rightarrow> [t] | None \<Rightarrow> []) else [])"

definition getJob :: "string \<Rightarrow> ('o, job_view option) wop" where
  "getJob jid = andThen (reads (\<lambda>w. getJobRecord jid (wdb w))) (\<lambda>found.
     case found of None \<Rightarrow> ok None
     | Some r \<Rightarrow>
         andThen (in_db (listEvents jid 0)) (\<lambda>es.
         andThen (in_db (getCheckpoint jid)) (\<lambda>cp.
         ok (Some \<lparr>tenantId = tenantId r, orgId = orgId r, projectId = projectId r, jv_id = jr_jobId r, jv_status = jr_status r,
           jv_createdAt = jr_createdAt r, jv_updatedAt = jr_updatedAt r,
           jv_usage = (case cp of None \<Rightarrow> emptyMetrics | Some c \<Rightarrow> usage c),
           jv_pendingInput = (case cp of None \<Rightarrow> [] | Some c \<Rightarrow> pendingInput c) @
             concat (map (pending_text (case cp of None \<Rightarrow> 0 | Some c \<Rightarrow> lastEventSeq c)) es)\<rparr>))))"

definition runner_listEvents :: "string \<Rightarrow> nat \<Rightarrow> ('o, job_event list) wop" where
  "runner_listEvents jid afterSeq = andThen (requireRecord jid) (\<lambda>_. in_db (listEvents jid afterSeq))"

definition collectUsage :: "string \<Rightarrow> ('o, job_metrics) wop" where
  "collectUsage jid = andThen (requireRecord jid) (\<lambda>_. andThen (in_db (getCheckpoint jid)) (\<lambda>cp.
     ok (case cp of None \<Rightarrow> emptyMetrics | Some c \<Rightarrow> usage c)))"

end
