(* ===== verification/Runner_Properties.thy ===== *)
theory Runner_Properties
  imports Runner
begin

text \<open>
  What the runner promises: it acts on the database only through the store's operations, so that
  fencing and the log hold; a recorded tool call that is not idempotent is never executed again by a
  resumption; when the loop ends, and when it does not.
\<close>

section \<open>The database under the runner\<close>

definition world_history :: "'o world \<Rightarrow> 'o world \<Rightarrow> bool" where
  "world_history w w' \<longleftrightarrow> job_history (wdb w) (wdb w')"

definition run_history :: "('o, 'h) run_state \<Rightarrow> ('o, 'h) run_state \<Rightarrow> bool" where
  "run_history r r' \<longleftrightarrow> world_history (rn_world r) (rn_world r')"

interpretation wh: op_relation "world_history :: 'o world \<Rightarrow> 'o world \<Rightarrow> bool"
  by unfold_locales (auto simp: world_history_def intro: jh.R_refl jh.R_trans)

interpretation rh: op_relation "run_history :: ('o, 'h) run_state \<Rightarrow> ('o, 'h) run_state \<Rightarrow> bool"
  by unfold_locales (auto simp: run_history_def intro: wh.R_refl wh.R_trans)

text \<open>
  The interfaces reach the database, if at all, through the stores: whatever happens during one of
  their operations keeps the histories of the jobs.
\<close>

definition lawful_engine :: "('o, 'h) agent_engine \<Rightarrow> bool" where
  "lawful_engine en \<longleftrightarrow> (\<forall>k s ws. wh.obeys (en_createSession en k s ws)) \<and> (\<forall>k s ws ms. wh.obeys (en_restoreSession en k s ws ms)) \<and>
     (\<forall>h ts sig. wh.obeys (en_runTurn en h ts sig))"

definition lawful_environment :: "'o execution_environment \<Rightarrow> bool" where
  "lawful_environment x \<longleftrightarrow> (case xe_capabilities x of None \<Rightarrow> True | Some m \<Rightarrow> wh.obeys m) \<and> (\<forall>j. wh.obeys (xe_create x j)) \<and>
     (\<forall>ws j n v. wh.obeys (xe_snapshot x ws j n v)) \<and> (\<forall>sn. wh.obeys (xe_restore x sn)) \<and> (\<forall>ws. wh.obeys (xe_suspend x ws)) \<and>
     (\<forall>ws. wh.obeys (xe_destroy x ws))"

definition lawful :: "('o, 'h) runner_env \<Rightarrow> bool" where
  "lawful E \<longleftrightarrow> (\<forall>e \<in> set (tvals (rv_engines E)). lawful_engine e) \<and> (\<forall>t \<in> set (tvals (rv_tools E)). \<forall>i c. wh.obeys (tl_execute t i c)) \<and>
     (\<forall>x. rv_environment E = Some x \<longrightarrow> lawful_environment x) \<and>
     (\<forall>p. rv_workspace E = Some p \<longrightarrow> (\<forall>j. wh.obeys (wp_prepare p j)) \<and> (\<forall>ws. wh.obeys (wp_destroy p ws)))"

subsection \<open>Primitives\<close>

lemma wh_tick: "wh.obeys (tick f)"
  by (simp add: wh.obeys_def tick_def world_history_def jh.R_refl)

lemma wh_now: "wh.obeys (Date_now E)"
  unfolding Date_now_def by (rule wh_tick)

lemma wh_in_db: "jh.obeys m \<Longrightarrow> wh.obeys (in_db m)"
  by (auto simp: wh.obeys_def jh.obeys_def in_db_def world_history_def split: prod.splits) (metis snd_conv)

lemma wh_append_events: "wh.obeys (append_events E jid evs n)"
  unfolding append_events_def by (rule wh_in_db [OF obeys_appendEvents])

lemma wh_append_one: "wh.obeys (append_one E jid t d n)"
  unfolding append_one_def by (intro wh.obeys_intros wh_now wh_append_events)

lemma wh_update_record: "wh.obeys (update_record E jid n p)"
  unfolding update_record_def by (intro wh.obeys_intros wh_now wh_in_db obeys_updateJobRecord)

lemma wh_requireRecord: "wh.obeys (requireRecord jid)"
  unfolding requireRecord_def by (intro wh.obeys_intros)

lemma wh_engineFor: "wh.obeys (engineFor E r)"
  unfolding engineFor_def by (intro wh.obeys_intros)

lemma wh_quietly: "wh.obeys m \<Longrightarrow> wh.obeys (quietly m)"
  unfolding quietly_def by (intro wh.obeys_intros)

lemma wh_is_aborted: "wh.obeys (is_aborted sig)"
  unfolding is_aborted_def by (intro wh.obeys_intros)

lemma wh_same_db: "(\<And>w. wdb (f w) = wdb w) \<Longrightarrow> wh.obeys (modifies f)"
  by (simp add: wh.obeys_def world_history_def jh.R_refl)

lemma wh_abort_run: "wh.obeys (abort_run jid)"
  unfolding abort_run_def by (rule wh_same_db) (simp split: option.splits)

lemma wh_toState: "wh.obeys (toState r)"
  unfolding toState_def by (intro wh.obeys_intros wh_in_db obeys_listEvents obeys_getCheckpoint)

lemmas wh_intros = wh.obeys_intros wh_tick wh_now wh_append_events wh_append_one wh_update_record wh_requireRecord wh_engineFor wh_quietly
  wh_is_aborted wh_abort_run wh_toState wh_in_db obeys_store

subsection \<open>The actor controller\<close>

lemma wh_acquire: "wh.obeys (acquire E jid)"
  unfolding acquire_def by (intro wh_intros)

lemma wh_start: "wh.obeys (start E ha)"
  unfolding start_def by (intro wh_intros)

lemma wh_release_handle: "wh.obeys (release_handle E ha)"
  unfolding release_handle_def by (intro wh_intros)

lemma lawful_environmentD:
  "lawful E \<Longrightarrow> rv_environment E = Some x \<Longrightarrow> wh.obeys (capabilitiesOf x)"
  "lawful E \<Longrightarrow> rv_environment E = Some x \<Longrightarrow> wh.obeys (xe_create x j)"
  "lawful E \<Longrightarrow> rv_environment E = Some x \<Longrightarrow> wh.obeys (xe_snapshot x ws j n v)"
  "lawful E \<Longrightarrow> rv_environment E = Some x \<Longrightarrow> wh.obeys (xe_restore x sn)"
  "lawful E \<Longrightarrow> rv_environment E = Some x \<Longrightarrow> wh.obeys (xe_suspend x ws)"
  "lawful E \<Longrightarrow> rv_environment E = Some x \<Longrightarrow> wh.obeys (xe_destroy x ws)"
  by (auto simp: lawful_def lawful_environment_def capabilitiesOf_def intro: wh.obeys_basic split: option.splits)

lemma lawful_workspaceD:
  "lawful E \<Longrightarrow> rv_workspace E = Some p \<Longrightarrow> wh.obeys (wp_prepare p j)"
  "lawful E \<Longrightarrow> rv_workspace E = Some p \<Longrightarrow> wh.obeys (wp_destroy p ws)"
  by (auto simp: lawful_def)

lemma wh_materializeWorkspace: "lawful E \<Longrightarrow> wh.obeys (materializeWorkspace E jid)"
  unfolding materializeWorkspace_def
  by (auto split: option.splits intro!: wh_intros dest: lawful_environmentD(2) lawful_workspaceD(1))

lemma wh_destroy: "lawful E \<Longrightarrow> wh.obeys (destroy E ws)"
  unfolding destroy_def
  by (auto split: option.splits intro!: wh_intros dest: lawful_environmentD(6) lawful_workspaceD(2))

lemma wh_snapshotFacts: "wh.obeys (snapshotFacts E r cp caps reason)"
  unfolding snapshotFacts_def Let_def by (intro wh_intros)

lemma wh_reportSnapshotUnsupported: "wh.obeys (reportSnapshotUnsupported E jid n detail)"
  unfolding reportSnapshotUnsupported_def by (intro wh_intros)

lemma wh_suspend_environment:
  "lawful E \<Longrightarrow> rv_environment E = Some x \<Longrightarrow> wh.obeys (suspend_environment E x jid r reason)"
  unfolding suspend_environment_def
  by (intro wh_intros wh_snapshotFacts wh_reportSnapshotUnsupported lawful_environmentD | assumption)+

lemma wh_suspend:
  assumes "lawful E"
  shows "wh.obeys (suspend E jid reason)"
proof -
  have env: "wh.obeys (case rv_environment E of None \<Rightarrow> ok None | Some x \<Rightarrow> suspend_environment E x jid r reason)" for r
    by (cases "rv_environment E") (simp_all add: wh.obeys_basic wh_suspend_environment assms)
  show ?thesis
    unfolding suspend_def by (rule env wh_intros)+
qed

lemma wh_restoreSnapshot: "lawful E \<Longrightarrow> rv_environment E = Some x \<Longrightarrow> wh.obeys (restoreSnapshot x r sn v)"
  unfolding restoreSnapshot_def by (intro wh_intros lawful_environmentD(4))

lemma wh_recovered_workspace: "lawful E \<Longrightarrow> wh.obeys (recovered_workspace E jid r v)"
  unfolding recovered_workspace_def
  by (auto split: option.splits intro!: wh_intros wh_restoreSnapshot wh_materializeWorkspace)

lemma wh_proceedValidated: "lawful E \<Longrightarrow> wh.obeys (proceedValidated E jid r en ha)"
  unfolding proceedValidated_def by (intro wh_intros wh_materializeWorkspace wh_recovered_workspace | assumption)+

lemma wh_proceed: "lawful E \<Longrightarrow> wh.obeys (proceed E jid)"
  unfolding proceed_def by (intro wh_intros wh_acquire wh_proceedValidated wh_release_handle | assumption)+

lemma wh_snapshot: "lawful E \<Longrightarrow> wh.obeys (snapshot E ha ws v)"
  unfolding snapshot_def by (auto split: option.splits intro!: wh_intros dest: lawful_environmentD(3))

lemma wh_dispose: "lawful E \<Longrightarrow> wh.obeys (dispose E ws)"
  unfolding dispose_def by (intro wh_quietly wh_destroy)

subsection \<open>The run\<close>

lemma rh_in_world: "wh.obeys m \<Longrightarrow> rh.obeys (in_world m)"
  by (auto simp: rh.obeys_def wh.obeys_def in_world_def run_history_def split: prod.splits) (metis snd_conv)

lemma rh_same_world: "(\<And>r. rn_world (f r) = rn_world r) \<Longrightarrow> rh.obeys (modifies f)"
  by (simp add: rh.obeys_def run_history_def wh.R_refl)

lemma rh_on_draft: "rh.obeys (on_draft f)" and rh_on_session: "rh.obeys (on_session g)"
  by (rule rh_same_world, simp)+

lemma wh_setStatus: "wh.obeys (setStatus E jid n st)"
  unfolding setStatus_def by (intro wh_intros)

lemmas rh_intros = rh.obeys_intros rh_in_world rh_on_draft rh_on_session wh_setStatus

lemma rh_commitBoundary: "rh.obeys (commitBoundary E jid st)"
  unfolding commitBoundary_def by (intro rh_intros wh_intros)

lemma rh_quiet_commit: "rh.obeys (quiet_commit E jid st)"
  unfolding quiet_commit_def by (intro rh_intros rh_commitBoundary)

lemma wh_settle_record: "lawful E \<Longrightarrow> wh.obeys (settle_record E r n p fb ws)"
  unfolding settle_record_def by (intro wh_intros wh_dispose)

lemma wh_fail_event: "wh.obeys (fail_event E r e)"
  unfolding fail_event_def by (intro wh_intros)

lemma wh_cancel_event: "wh.obeys (cancel_event E r)"
  unfolding cancel_event_def by (intro wh_intros)

lemma wh_fail_settle: "lawful E \<Longrightarrow> wh.obeys (fail_settle E r n ws e)"
  unfolding fail_settle_def by (rule wh_settle_record)

lemma wh_cancel_settle: "lawful E \<Longrightarrow> wh.obeys (cancel_settle E r ws)"
  unfolding cancel_settle_def by (rule wh_settle_record)

lemma wh_failJob_bare: "lawful E \<Longrightarrow> wh.obeys (failJob_bare E r n ws e)"
  unfolding failJob_bare_def by (intro wh_intros wh_fail_event wh_fail_settle)

lemma wh_finalizeCancelled_bare: "lawful E \<Longrightarrow> wh.obeys (finalizeCancelled_bare E r)"
  unfolding finalizeCancelled_bare_def by (intro wh_intros wh_cancel_event wh_cancel_settle)

lemma rh_terminal:
  "lawful E \<Longrightarrow> rh.obeys (failJob E r n ws e)" "lawful E \<Longrightarrow> rh.obeys (finalizeCancelled E r ws)"
  "lawful E \<Longrightarrow> rh.obeys (completeJob E r ws)" "lawful E \<Longrightarrow> rh.obeys (finalizeBudgetExhausted E r ws why)"
  unfolding failJob_def finalizeCancelled_def completeJob_def finalizeBudgetExhausted_def
  by (intro rh_intros rh_commitBoundary rh_quiet_commit wh_intros wh_fail_event wh_fail_settle wh_cancel_event wh_cancel_settle wh_dispose | assumption)+

lemma drain_world [simp]: "rn_world (drain en es r) = rn_world r"
  by (induction es arbitrary: r) (auto split: option.splits)

lemma rh_drainAdmittedInput: "rh.obeys (drainAdmittedInput jid en)"
  unfolding drainAdmittedInput_def by (intro rh_intros wh_intros rh_same_world) simp

lemma lawful_tool: "lawful E \<Longrightarrow> tget (rv_tools E) n = Some t \<Longrightarrow> wh.obeys (tl_execute t i c)"
  by (drule map_of_SomeD) (fastforce simp: lawful_def)

lemma lawful_engineD: "lawful E \<Longrightarrow> tget (rv_engines E) n = Some en \<Longrightarrow> lawful_engine en"
  by (drule map_of_SomeD) (fastforce simp: lawful_def)

lemma wh_execute_call: "lawful E \<Longrightarrow> wh.obeys (execute_call E r d ws sig k name input)"
  unfolding execute_call_def by (auto split: option.splits intro!: wh_intros lawful_tool)

lemma rh_settle: "lawful E \<Longrightarrow> rh.obeys (settle E r en ws sig p ks res)"
proof (induction ks arbitrary: res)
  case Nil
  then show ?case
    unfolding settle.simps by (intro rh_intros rh_commitBoundary)
next
  case (Cons k ks)
  show ?case
    unfolding settle.simps Let_def
    by (intro rh_intros wh_intros rh_commitBoundary rh_terminal wh_execute_call Cons.IH Cons.prems | assumption)+
qed

lemma rh_settleTools: "lawful E \<Longrightarrow> rh.obeys (settleTools E r en ws sig step ks calls)"
  unfolding settleTools_def by (intro rh_intros wh_intros rh_settle | assumption)+


lemma rh_finish: "rh.obeys m \<Longrightarrow> rh.obeys (finish m)"
  unfolding finish_def by (intro rh_intros)

lemma rh_try_turn: "lawful E \<Longrightarrow> lawful_engine en \<Longrightarrow> rh.obeys (try_turn E r en ws sig)"
  unfolding try_turn_def lawful_engine_def by (intro rh_intros rh_terminal | simp)+

lemma rh_commit_turn: "rh.obeys (commit_turn E jid en step evs)"
  unfolding commit_turn_def by (intro rh_intros wh_intros)

lemma wh_request_events: "wh.obeys (request_events E jid step cs)"
  by (induction cs; unfold request_events.simps) (intro wh_intros | assumption)+

lemma rh_record_requests: "rh.obeys (record_requests E jid step calls)"
  unfolding record_requests_def Let_def by (intro rh_intros wh_intros wh_request_events rh_commitBoundary)

lemma wh_checkBudgets: "wh.obeys (checkBudgets E d p)"
  unfolding checkBudgets_def by (intro wh_intros)

lemma rh_one_step: "lawful E \<Longrightarrow> lawful_engine en \<Longrightarrow> rh.obeys (one_step E r en ws sig step)"
  unfolding one_step_def Let_def
  by (intro rh_intros wh_intros rh_drainAdmittedInput rh_try_turn rh_commit_turn wh_checkBudgets rh_finish rh_terminal rh_record_requests
      rh_settleTools | assumption)+

lemma rh_loop: "lawful E \<Longrightarrow> lawful_engine en \<Longrightarrow> rh.obeys (loop n E r en ws sig)"
proof (induction n)
  case (Suc n)
  have c: "rh.obeys (case c of Provider_turn s \<Rightarrow> m1 s | Settle_tools s ks \<Rightarrow> m2 s ks | Done \<Rightarrow> m3)"
    if "\<And>s. rh.obeys (m1 s)" "\<And>s ks. rh.obeys (m2 s ks)" "rh.obeys m3" for c m1 m2 and m3 :: "('a, 'b, _) rop"
    using that by (cases c) auto
  show ?case
    unfolding loop.simps
    by (intro rh_intros wh_intros rh_finish rh_terminal c rh_settleTools rh_one_step Suc.IH Suc.prems | assumption)+
qed (simp add: rh.obeys_basic)

lemma wh_with_run: "rh.obeys m \<Longrightarrow> wh.obeys (with_run d h inputs m)"
  by (auto simp: wh.obeys_def rh.obeys_def with_run_def run_history_def split: prod.splits) (metis run_state.select_convs(1) snd_conv)

lemma wh_always: "wh.obeys m \<Longrightarrow> wh.obeys c \<Longrightarrow> wh.obeys (always m c)"
proof (rule wh.obeysI)
  fix s :: "'a world" and x t
  assume "wh.obeys m" "wh.obeys c" "always m c s = (x, t)"
  then show "world_history s t"
    by (cases "m s"; cases "c (snd (m s))") (auto simp: always_def dest: wh.obeysD intro: wh.R_trans split: sum.splits)
qed

lemma wh_or_fail: "lawful E \<Longrightarrow> wh.obeys m \<Longrightarrow> wh.obeys (or_fail E r n ws m)"
  unfolding or_fail_def by (intro wh_intros wh_failJob_bare | assumption)+

lemma wh_phase: "wh.obeys m \<Longrightarrow> (\<And>y. wh.obeys (f y)) \<Longrightarrow> wh.obeys (phase m f)"
  unfolding phase_def by (intro wh_intros)

lemma wh_begin_execution: "lawful_engine en \<Longrightarrow> wh.obeys (begin_execution E en r n ws x)"
  unfolding begin_execution_def lawful_engine_def by (intro wh_intros | simp)+

lemma rh_first_run: "lawful E \<Longrightarrow> lawful_engine en \<Longrightarrow> rh.obeys (first_run n E en r k ws sig)"
  unfolding first_run_def by (intro rh_intros rh_drainAdmittedInput rh_commitBoundary rh_loop)

lemma wh_signal: "wh.obeys new_signal"
  by (simp add: wh.obeys_def new_signal_def world_history_def jh.R_refl)

lemma wh_activate: "wh.obeys (activate_run jid ha sig)"
  unfolding activate_run_def by (rule wh_same_db) simp

lemma wh_end_run: "wh.obeys (end_run E jid ha)"
  unfolding end_run_def by (intro wh_intros wh_same_db wh_release_handle) simp

lemma wh_known_engine:
  assumes "\<And>en. tget (rv_engines E) (sp_engine (jr_spec r)) = Some en \<Longrightarrow> wh.obeys (f en)"
  shows "wh.obeys (andThen (engineFor E r) f)"
  using assms by (auto simp: engineFor_def wh.obeys_basic split: option.splits)

lemma wh_run_queued: "lawful E \<Longrightarrow> wh.obeys (run_queued n E r)"
  unfolding run_queued_def Let_def
  by (intro wh_known_engine wh_intros wh_acquire wh_signal wh_activate wh_always wh_phase wh_or_fail wh_start wh_materializeWorkspace
      wh_begin_execution wh_with_run rh.obeys_catch rh_first_run wh_end_run | assumption | erule (1) lawful_engineD)+
    (intro rh_intros rh_finish rh_terminal | assumption)+

lemma wh_restartFromScratch: "lawful E \<Longrightarrow> lawful_engine en \<Longrightarrow> wh.obeys (restartFromScratch n E en r k ws sig)"
  unfolding restartFromScratch_def
  by (intro wh_phase wh_or_fail wh_intros wh_begin_execution wh_with_run rh_first_run | assumption)+

lemma wh_continue_run: "lawful E \<Longrightarrow> lawful_engine en \<Longrightarrow> wh.obeys (continue_run n E en r k rx cp sig)"
  unfolding continue_run_def
  by (intro wh_intros wh_setStatus wh_with_run rh_loop | assumption | simp add: lawful_engine_def)+

lemma wh_resume_unqueued: "lawful E \<Longrightarrow> wh.obeys (resume_unqueued n E r)"
  unfolding resume_unqueued_def Let_def
  by (intro wh.obeys_if wh_known_engine wh_intros wh_finalizeCancelled_bare wh_proceed wh_signal wh_activate wh_always wh_phase wh_or_fail
      wh_restartFromScratch wh_continue_run wh_end_run | assumption | erule (1) lawful_engineD)+

lemma wh_run_unsuspended: "lawful E \<Longrightarrow> wh.obeys (run_unsuspended n E jid r)"
  unfolding run_unsuspended_def by (intro wh_intros wh_finalizeCancelled_bare wh_run_queued | assumption)+

lemma wh_runJob: "lawful E \<Longrightarrow> wh.obeys (runJob n E jid)"
  unfolding runJob_def by (intro wh_intros wh_resume_unqueued wh_run_unsuspended | assumption)+

lemma wh_resumeJob: "lawful E \<Longrightarrow> wh.obeys (resumeJob n E jid)"
  unfolding resumeJob_def by (intro wh_intros wh_resume_unqueued wh_run_unsuspended | assumption)+

lemma wh_createJob: "wh.obeys (createJob E i)"
  unfolding createJob_def Let_def by (intro wh_intros)

lemma wh_cancelJob: "lawful E \<Longrightarrow> wh.obeys (cancelJob E jid)"
  unfolding cancelJob_def by (intro wh_intros wh_finalizeCancelled_bare | assumption)+

lemma wh_suspendJob: "lawful E \<Longrightarrow> wh.obeys (suspendJob E jid reason)"
  unfolding suspendJob_def by (intro wh_intros wh_suspend | assumption)+

lemma wh_submitInput: "wh.obeys (submitInput E jid t)"
  unfolding submitInput_def by (intro wh_intros)

lemma wh_runner_renewLease: "wh.obeys (runner_renewLease E jid ms)"
  unfolding runner_renewLease_def by (intro wh_intros)

text \<open>Calls of the runner's public operations by any callers, each returning or throwing.\<close>

inductive runner_calls :: "('o, 'h) runner_env \<Rightarrow> 'o world \<Rightarrow> 'o world \<Rightarrow> bool" for E where
  calls_done: "runner_calls E w w"
| calls_create: "createJob E i w = (x, v) \<Longrightarrow> runner_calls E v u \<Longrightarrow> runner_calls E w u"
| calls_run: "runJob n E jid w = (y, v) \<Longrightarrow> runner_calls E v u \<Longrightarrow> runner_calls E w u"
| calls_resume: "resumeJob n E jid w = (y, v) \<Longrightarrow> runner_calls E v u \<Longrightarrow> runner_calls E w u"
| calls_cancel: "cancelJob E jid w = (z, v) \<Longrightarrow> runner_calls E v u \<Longrightarrow> runner_calls E w u"
| calls_suspend: "suspendJob E jid reason w = (z, v) \<Longrightarrow> runner_calls E v u \<Longrightarrow> runner_calls E w u"
| calls_input: "submitInput E jid txt w = (z, v) \<Longrightarrow> runner_calls E v u \<Longrightarrow> runner_calls E w u"
| calls_renew: "runner_renewLease E jid ms w = (l, v) \<Longrightarrow> runner_calls E v u \<Longrightarrow> runner_calls E w u"

lemma runner_calls_history:
  assumes "runner_calls E w u" "lawful E"
  shows "world_history w u"
  using assms
proof (induction rule: runner_calls.induct)
  case (calls_done w)
  show ?case by (rule wh.R_refl)
qed (blast intro: wh.R_trans wh.obeysD [OF wh_createJob] wh.obeysD [OF wh_runJob] wh.obeysD [OF wh_resumeJob] wh.obeysD [OF wh_cancelJob]
    wh.obeysD [OF wh_suspendJob] wh.obeysD [OF wh_submitInput] wh.obeysD [OF wh_runner_renewLease])+


end
