(* ===== verification/Runner_Loop.thy ===== *)
theory Runner_Loop
  imports Runner_Properties Control_Plane
begin

text \<open>
  When the execution loop of the runner ends, and when it does not; what an abort does to a run.
\<close>

section \<open>Termination\<close>

definition stopped :: "string \<Rightarrow> nat \<Rightarrow> ('o, 'h) run_state \<Rightarrow> bool" where
  "stopped jid sig s \<longleftrightarrow> sig \<in> set (waborted (rn_world s)) \<or>
     (\<exists>c. getJobRecord jid (wdb (rn_world s)) = Some c \<and> cancelRequested c)"

lemma in_world_Inr: "in_world m s = (Inr x, t) \<longleftrightarrow> (\<exists>w. m (rn_world s) = (Inr x, w) \<and> t = s\<lparr>rn_world := w\<rparr>)"
  by (auto simp: in_world_def split: prod.splits)

lemma in_world_frames:
  assumes "in_world m s = (x, t)"
  shows "rn_draft t = rn_draft s" "rn_session t = rn_session s" "rn_applied t = rn_applied s"
  using assms by (auto simp: in_world_def split: prod.splits)

lemma requireRecord_Inr [simp]: "requireRecord jid w = (Inr c, v) \<longleftrightarrow> v = w \<and> getJobRecord jid (wdb w) = Some c"
  by (auto simp: requireRecord_def split: option.splits)

lemma is_aborted_app [simp]: "is_aborted sig w = (Inr (sig \<in> set (waborted w)), w)"
  by (simp add: is_aborted_def)

lemma commit_continuation:
  assumes "commitBoundary E jid st s = (x, t)"
  shows "continuation (rn_draft t) = continuation (rn_draft s)" "cp_attempt (rn_draft t) = cp_attempt (rn_draft s)"
    "toolCallTable (rn_draft t) = toolCallTable (rn_draft s)"
proof -
  have k: "keeps (\<lambda>s. (continuation (rn_draft s), cp_attempt (rn_draft s), toolCallTable (rn_draft s)) = v) (commitBoundary E jid st)" for v
    unfolding commitBoundary_def
    by (intro keeps_intros keeps_modifies keepsI | auto simp: committed_draft_def dest: in_world_frames)+
  show "continuation (rn_draft t) = continuation (rn_draft s)" "cp_attempt (rn_draft t) = cp_attempt (rn_draft s)"
    "toolCallTable (rn_draft t) = toolCallTable (rn_draft s)"
    using keepsD [OF k [of "(continuation (rn_draft s), cp_attempt (rn_draft s), toolCallTable (rn_draft s))"] _ assms] by simp_all
qed

text \<open>Settling ends with the next step as continuation, unless the run was told to stop.\<close>

lemma settle_ends:
  assumes "settle E r en ws sig p ks results s = (Inr (), t)" "onUncertainToolCall (jr_policy r) \<noteq> Fail_job"
  shows "stopped (jr_jobId r) sig t \<or> continuation (rn_draft t) = Provider_turn (pl_step p + 1)"
  using assms
proof (induction ks arbitrary: results s)
  case Nil
  then show ?case
    by (auto simp: andThen_Inr_iff split: if_splits dest!: commit_continuation(1))
next
  case (Cons k ks)
  obtain c where c: "getJobRecord (jr_jobId r) (wdb (rn_world s)) = Some c"
    using Cons.prems(1) by (auto simp: andThen_Inr_iff in_world_Inr)
  show ?case
  proof (cases "cancelRequested c \<or> sig \<in> set (waborted (rn_world s))")
    case True
    then have "t = s"
      using Cons.prems(1) c by (auto simp: andThen_Inr_iff in_world_Inr)
    then show ?thesis using True c by (auto simp: stopped_def)
  next
    case False
    have "\<exists>results' s'. settle E r en ws sig p ks results' s' = (Inr (), t)"
      using Cons.prems c False
      by (auto simp: andThen_Inr_iff in_world_Inr Let_def split: if_splits option.splits prod.splits)
    then show ?thesis using Cons.IH Cons.prems(2) by blast
  qed
qed

lemma settleTools_ends:
  assumes "settleTools E r en ws sig step ks calls s = (Inr (), t)" "onUncertainToolCall (jr_policy r) \<noteq> Fail_job"
  shows "stopped (jr_jobId r) sig t \<or> continuation (rn_draft t) = Provider_turn (step + 1)"
  using assms settle_ends [OF _ assms(2)] by (fastforce simp: settleTools_def andThen_Inr_iff split: option.splits)

lemma finish_Inr: "finish m s = (Inr x, t) \<Longrightarrow> x \<noteq> None"
  by (auto simp: finish_def andThen_Inr_iff)

text \<open>What holds of the result and the state whenever an operation returns.\<close>

definition ensures :: "('a \<Rightarrow> 's \<Rightarrow> bool) \<Rightarrow> ('s, 'e, 'a) op \<Rightarrow> bool" where
  "ensures Q m \<longleftrightarrow> (\<forall>s x t. m s = (Inr x, t) \<longrightarrow> Q x t)"

lemma ensuresD: "ensures Q m \<Longrightarrow> m s = (Inr x, t) \<Longrightarrow> Q x t"
  by (auto simp: ensures_def)

lemma ensures_intros:
  "(\<And>x. ensures Q (f x)) \<Longrightarrow> ensures Q (andThen m f)"
  "ensures Q m' \<Longrightarrow> ensures Q n' \<Longrightarrow> ensures Q (if b then m' else n')"
  "(\<And>x. ensures Q (f1 x)) \<Longrightarrow> (\<And>y. ensures Q (f2 y)) \<Longrightarrow> ensures Q (case z of Inl x \<Rightarrow> f1 x | Inr y \<Rightarrow> f2 y)"
  "ensures Q m' \<Longrightarrow> (\<And>y. ensures Q (f y)) \<Longrightarrow> ensures Q (case u of None \<Rightarrow> m' | Some y \<Rightarrow> f y)"
  by (auto simp: ensures_def andThen_Inr_iff split: sum.splits option.splits)

lemma ensures_basic: "(\<And>s. Q x s) \<Longrightarrow> ensures Q (ok x)" "ensures Q (throw e)"
  by (simp_all add: ensures_def)

lemma ensures_atomic: "ensures Q m \<Longrightarrow> ensures Q (atomic hook name m)"
  by (auto simp: ensures_def atomic_Inr)

lemma ensures_finish: "ensures (\<lambda>res t. res = None \<longrightarrow> Q t) (finish m)"
  by (auto simp: ensures_def dest: finish_Inr)

lemma one_step_ends:
  assumes "one_step E r en ws sig step s = (Inr None, t)" "onUncertainToolCall (jr_policy r) \<noteq> Fail_job"
  shows "stopped (jr_jobId r) sig t \<or> continuation (rn_draft t) = Provider_turn (step + 1)"
proof -
  let ?Q = "\<lambda>t. stopped (jr_jobId r) sig t \<or> continuation (rn_draft t) = Provider_turn (step + 1)"
  have s: "ensures (\<lambda>res t. res = None \<longrightarrow> ?Q t) (andThen (settleTools E r en ws sig step ks calls) (\<lambda>_. ok None))" for ks calls
    using settleTools_ends assms(2) by (fastforce simp: ensures_def andThen_Inr_iff)
  have "ensures (\<lambda>res t. res = None \<longrightarrow> ?Q t) (one_step E r en ws sig step)"
    unfolding one_step_def Let_def
    by (rule s ensures_finish ensures_intros | simp add: ensures_def)+
  then show ?thesis using assms(1) by (auto dest: ensuresD)
qed

text \<open>The iterations that are left.\<close>

definition iterations :: "job_record \<Rightarrow> nat \<Rightarrow> ('o, 'h) run_state \<Rightarrow> nat" where
  "iterations r sig s = (if stopped (jr_jobId r) sig s then 1 else case continuation (rn_draft s) of
       Done \<Rightarrow> 1
     | Provider_turn step \<Rightarrow> 1 + 2 * nat (pol_maxSteps (jr_policy r) - int step)
     | Settle_tools step ks \<Rightarrow> 2 + 2 * nat (pol_maxSteps (jr_policy r) - int (step + 1)))"

lemma stopped_ends: "stopped (jr_jobId r) sig s \<Longrightarrow> loop (Suc n) E r en ws sig s \<noteq> (Inr None, t)"
  by (auto simp: stopped_def andThen_Inr_iff in_world_Inr dest!: finish_Inr)

lemma loop_ends:
  assumes "onUncertainToolCall (jr_policy r) \<noteq> Fail_job" "iterations r sig s \<le> n"
  shows "loop n E r en ws sig s \<noteq> (Inr None, t)"
  using assms(2)
proof (induction n arbitrary: s)
  case 0
  then show ?case by (auto simp: iterations_def split: if_splits continuation_point.splits)
next
  case (Suc n)
  show ?case
  proof (cases "stopped (jr_jobId r) sig s")
    case True
    then show ?thesis by (rule stopped_ends)
  next
    case False
    have next_ok: "loop n E r en ws sig s' \<noteq> (Inr None, t)"
      if "stopped (jr_jobId r) sig s' \<or> continuation (rn_draft s') = Provider_turn (step + 1)"
        "2 + 2 * nat (pol_maxSteps (jr_policy r) - int (step + 1)) \<le> Suc n" for s' step
    proof -
      have "iterations r sig s' \<le> n"
        using that by (auto simp: iterations_def split: continuation_point.splits)
      then show ?thesis by (rule Suc.IH)
    qed
    show ?thesis
    proof
      assume l: "loop (Suc n) E r en ws sig s = (Inr None, t)"
      obtain c where c: "getJobRecord (jr_jobId r) (wdb (rn_world s)) = Some c" "\<not> cancelRequested c" "sig \<notin> set (waborted (rn_world s))"
        using l False by (auto simp: andThen_Inr_iff in_world_Inr stopped_def)
      show False
      proof (cases "continuation (rn_draft s)")
        case (Settle_tools step ks)
        then obtain s' where s': "settleTools E r en ws sig step ks None s = (Inr (), s')" "loop n E r en ws sig s' = (Inr None, t)"
          using l c by (auto simp: andThen_Inr_iff in_world_Inr)
        then show False
          using settleTools_ends [OF s'(1) assms(1)] next_ok [of s' step] Suc.prems Settle_tools False by (simp add: iterations_def)
      next
        case Done
        then show False
          using l c by (auto simp: andThen_Inr_iff in_world_Inr dest!: finish_Inr)
      next
        case (Provider_turn step)
        then obtain s' where s': "one_step E r en ws sig step s = (Inr None, s')" "loop n E r en ws sig s' = (Inr None, t)"
            "int step < pol_maxSteps (jr_policy r)"
          using l c by (auto simp: andThen_Inr_iff in_world_Inr split: if_splits option.splits dest!: finish_Inr)
        moreover from this(3) have "2 + 2 * nat (pol_maxSteps (jr_policy r) - int (step + 1)) \<le> Suc n"
          using Suc.prems Provider_turn False by (simp add: iterations_def)
        ultimately show False
          using one_step_ends [OF s'(1) assms(1)] next_ok [of s' step] by blast
      qed
    qed
  qed
qed

text \<open>
  C29. The loop ends: unless the policy is to fail the job on an uncertain tool call, the run
  returns or throws after at most two iterations per step that the policy still allows and two more,
  whatever the engine, the tools, the environment and other workers do.
\<close>

theorem loop_terminates:
  assumes "onUncertainToolCall (jr_policy r) \<noteq> Fail_job" "2 + 2 * nat (pol_maxSteps (jr_policy r)) \<le> n"
  shows "fst (loop n E r en ws sig s) \<noteq> Inr None"
proof -
  have "iterations r sig s \<le> n"
    using assms(2) by (auto simp: iterations_def split: continuation_point.splits)
  then show ?thesis
    using loop_ends [OF assms(1)] by (metis prod.collapse)
qed

section \<open>The state of an undisturbed owner\<close>

text \<open>A job at generation \<open>n\<close>, not asked to cancel, in a consistent database.\<close>

definition owned :: "string \<Rightarrow> nat \<Rightarrow> dist_db \<Rightarrow> bool" where
  "owned jid n db \<longleftrightarrow> job_db_ok db \<and> (\<exists>row. find_job jid db = Some row \<and> row_attempt row = n \<and> \<not> row_cancelRequested row)"

lemma ok_step: "jh.obeys m \<Longrightarrow> job_db_ok s \<Longrightarrow> m s = (x, t) \<Longrightarrow> job_db_ok t"
  by (drule (1) jh.obeysD) (simp add: job_history_def)

lemma find_job_append: "find_job k (set_job jid (\<lambda>r. r\<lparr>last_seq := v\<rparr>) (job_events_update f s)) =
    (if k = jid then map_option (\<lambda>r. r\<lparr>last_seq := v\<rparr>) (find_job jid s) else find_job k s)"
  by (simp add: find_set_job)

lemma owned_append: "keeps (owned jid n) (appendEvents hook j evs e)"
proof (rule keepsI)
  fix s x t
  assume o: "owned jid n s" and a: "appendEvents hook j evs e s = (x, t)"
  show "owned jid n t"
  proof (cases "evs = []")
    case True
    then show ?thesis using o a by (simp add: appendEvents_def)
  next
    case False
    show ?thesis
    proof (cases x)
      case (Inl err)
      then have "t = s" using a False by (auto simp: appendEvents_def dest: atomic_Inl)
      then show ?thesis using o by simp
    next
      case (Inr st)
      have "job_db_ok t"
        using o ok_step [OF obeys_appendEvents _ a] by (simp add: owned_def)
      moreover have "\<exists>v f. t = set_job j (\<lambda>r. r\<lparr>last_seq := v\<rparr>) (job_events_update f s)"
        using o by (rule_tac appendEvents_Inr [OF _ a [unfolded Inr] False]) (simp add: owned_def, blast)
      ultimately show ?thesis
        using o by (auto simp: owned_def find_job_append)
    qed
  qed
qed

lemma update_rows:
  assumes "job_db_ok s" "updateJobRecord hook j m (\<lambda>_. p) now s = (Inr x, t)" "pt_cancelRequested p = None"
  shows "\<exists>row. find_job j s = Some row \<and> (\<forall>k. map_option (\<lambda>r. (row_attempt r, row_cancelRequested r)) (find_job k t) =
    map_option (\<lambda>r. (row_attempt r, row_cancelRequested r)) (find_job k s))"
proof -
  obtain row u where o: "find_job j s = Some row" "x = patched (toRecord row (readLease j s)) p now"
      "patch_lease j m p x now (set_job j (written_row x) s) = (Inr (), u)" "patch_snapshot j p u = (Inr (), t)"
    by (rule updateJobRecord_Inr [OF assms(1,2)]) blast
  have "find_job k u = find_job k (set_job j (written_row x) s)" for k
    using o(3) by (auto simp: patch_lease_def upsert_lease_def split: option.splits)
  moreover have "find_job k t = find_job k u" for k
    using o(4) by (auto simp: patch_snapshot_def split: option.splits)
  moreover have "cancelRequested x = row_cancelRequested row"
    using assms(3) by (simp add: o(2) patched_def toRecord_def)
  ultimately show ?thesis
    using o(1) by (auto simp: find_set_job written_row_def)
qed

lemma owned_update: "pt_cancelRequested p = None \<Longrightarrow> keeps (owned jid n) (updateJobRecord hook j m (\<lambda>_. p) now)"
proof (rule keepsI)
  fix s x t
  assume p: "pt_cancelRequested p = None" and o: "owned jid n s" and a: "updateJobRecord hook j m (\<lambda>_. p) now s = (x, t)"
  show "owned jid n t"
  proof (cases x)
    case (Inl err)
    then have "t = s" using a by (auto simp: updateJobRecord_def dest: atomic_Inl)
    then show ?thesis using o by simp
  next
    case (Inr y)
    obtain row where row: "find_job jid s = Some row" "row_attempt row = n" "\<not> row_cancelRequested row" and ok: "job_db_ok s"
      using o by (auto simp: owned_def)
    have "map_option (\<lambda>r. (row_attempt r, row_cancelRequested r)) (find_job jid t) = Some (n, False)"
      using update_rows [OF ok a [unfolded Inr] p] row by auto
    then show ?thesis
      using ok_step [OF obeys_updateJobRecord ok a] by (auto simp: owned_def)
  qed
qed

lemma owned_save: "keeps (owned jid n) (saveCheckpoint hook j cp now)"
proof (rule keepsI)
  fix s x t
  assume o: "owned jid n s" and a: "saveCheckpoint hook j cp now s = (x, t)"
  have "find_job k t = find_job k s" for k
    using a by (cases x) (auto simp: saveCheckpoint_def dest!: atomic_Inl elim!: saveCheckpoint_Inr [unfolded saveCheckpoint_def])
  then show "owned jid n t"
    using o ok_step [OF obeys_saveCheckpoint _ a] by (simp add: owned_def)
qed

section \<open>The livelock\<close>

text \<open>An operation that returns from every state with the invariant, into one with it.\<close>

definition returns :: "('s \<Rightarrow> bool) \<Rightarrow> ('s, 'e, 'a) op \<Rightarrow> bool" where
  "returns I m \<longleftrightarrow> (\<forall>s. I s \<longrightarrow> (\<exists>x t. m s = (Inr x, t) \<and> I t))"

lemma returns_intros:
  "returns I (ok x)" "returns I (reads f)" "returns I m \<Longrightarrow> (\<And>x. returns I (g x)) \<Longrightarrow> returns I (andThen m g)"
  "keeps I m \<Longrightarrow> (\<And>e. returns I (h e)) \<Longrightarrow> returns I (catch m h)"
  by (fastforce simp: returns_def keeps_def andThen_def catch_def split: prod.splits sum.splits)+

lemma returns_if: "returns I m \<Longrightarrow> returns I n \<Longrightarrow> returns I (if b then m else n)"
  by simp

lemma returnsI: "keeps I m \<Longrightarrow> (\<And>s. I s \<Longrightarrow> \<exists>x t. m s = (Inr x, t)) \<Longrightarrow> returns I m"
  by (fastforce simp: returns_def keeps_def)

text \<open>The undisturbed owner of a job whose log requests a call.\<close>

definition quiet :: "string \<Rightarrow> nat \<Rightarrow> nat \<Rightarrow> string \<Rightarrow> (string \<times> json) \<Rightarrow> 'o world \<Rightarrow> bool" where
  "quiet jid n sig k c w \<longleftrightarrow> owned jid n (wdb w) \<and> sig \<notin> set (waborted w) \<and> requested_call (job_log jid (wdb w)) k = Some c"

lemma find_append: "List.find P (xs @ ys) = (case List.find P xs of None \<Rightarrow> List.find P ys | Some x \<Rightarrow> Some x)"
  by (induction xs) auto

lemma requested_grows:
  assumes "requested_call es k = Some c"
  shows "requested_call (es @ fs) k = Some c"
  using assms by (auto simp: requested_call_def find_append split: option.splits)

lemma history_requested:
  assumes "job_history s t" "job_db_ok s" "requested_call (job_log jid s) k = Some c"
  shows "requested_call (job_log jid t) k = Some c"
  using assms(1,2) requested_grows [OF assms(3) [unfolded job_log_def]] by (auto simp: job_history_def log_extends_def job_log_def)

lemma quiet_in_db:
  assumes "keeps (owned jid n) m" "jh.obeys m"
  shows "keeps (quiet jid n sig k c) (in_db m)"
proof (rule keepsI)
  fix w x v
  assume q: "quiet jid n sig k c w" and a: "in_db m w = (x, v)"
  obtain d where d: "m (wdb w) = (x, d)" "v = w\<lparr>wdb := d\<rparr>"
    using a by (auto simp: in_db_def split: prod.splits)
  have "job_db_ok (wdb w)"
    using q by (simp add: quiet_def owned_def)
  then show "quiet jid n sig k c v"
    using q d keepsD [OF assms(1) _ d(1)] history_requested [OF jh.obeysD [OF assms(2) d(1)]] by (simp add: quiet_def)
qed

lemma quiet_tick: "returns (quiet jid n sig k c) (tick f)" "keeps (quiet jid n sig k c) (tick f)"
  by (simp_all add: returns_def keeps_def tick_def quiet_def)

lemma keeps_readonly: "(\<And>s. snd (m s) = s) \<Longrightarrow> keeps I m"
  by (simp add: keeps_def)

lemma owned_reads: "keeps (owned jid n) (getCheckpoint j)" "keeps (owned jid n) (listEvents j m)"
  unfolding getCheckpoint_def listEvents_def by (intro keeps_intros)+

lemma quiet_update: "pt_cancelRequested p = None \<Longrightarrow> keeps (quiet jid n sig k c) (update_record E j m p)"
  unfolding update_record_def Date_now_def
  by (intro keeps_intros quiet_tick quiet_in_db owned_update obeys_updateJobRecord)

lemma quiet_append: "keeps (quiet jid n sig k c) (append_one E j t d m)"
  unfolding append_one_def append_events_def Date_now_def
  by (intro keeps_intros quiet_tick quiet_in_db owned_append obeys_appendEvents)

lemma quiet_append_returns:
  assumes "rv_hook E = (\<lambda>_. None)"
  shows "returns (quiet jid n sig k c) (append_one E jid t d None)"
proof (rule returnsI [OF quiet_append])
  fix w :: "'a world"
  assume "quiet jid n sig k c w"
  then obtain row where "job_db_ok (wdb w)" "find_job jid (wdb w) = Some row"
    by (auto simp: quiet_def owned_def)
  from append_run [OF this, of "[new_event jid (rv_clock E (wticks w)) t d]" None "rv_hook E"]
  show "\<exists>x v. append_one E jid t d None w = (Inr x, v)"
    by (auto simp: append_one_def append_events_def Date_now_def tick_def in_db_def andThen_def assms)
qed

lemma quiet_toState: "jr_jobId r = jid \<Longrightarrow> returns (quiet jid n sig k c) (toState r)"
proof (rule returnsI)
  show "keeps (quiet jid n sig k c) (toState r)"
    unfolding toState_def by (intro keeps_intros keeps_let quiet_in_db owned_reads obeys_getCheckpoint obeys_listEvents)
  fix w :: "'a world"
  assume j: "jr_jobId r = jid" and q: "quiet jid n sig k c w"
  then obtain row where "find_job jid (wdb w) = Some row"
    by (auto simp: quiet_def owned_def)
  then show "\<exists>x v. toState r w = (Inr x, v)"
    by (simp add: j toState_def Let_def getCheckpoint_def listEvents_def getJobRecord_def in_db_def andThen_def)
qed


text \<open>The run that resumes at an uncertain call.\<close>

definition stuck :: "string \<Rightarrow> nat \<Rightarrow> nat \<Rightarrow> string \<Rightarrow> (string \<times> json) \<Rightarrow> nat \<Rightarrow> string list \<Rightarrow> ('o, 'h) run_state \<Rightarrow> bool" where
  "stuck jid n sig k c step ks s \<longleftrightarrow> quiet jid n sig k c (rn_world s) \<and> cp_attempt (rn_draft s) = n \<and>
     continuation (rn_draft s) = Settle_tools step (k # ks) \<and> is_recorded (tget (toolCallTable (rn_draft s)) k)"

lemma stuck_in_world:
  "keeps (quiet jid n sig k c) m \<Longrightarrow> keeps (stuck jid n sig k c step ks) (in_world m)"
  "returns (quiet jid n sig k c) m \<Longrightarrow> returns (stuck jid n sig k c step ks) (in_world m)"
  by (fastforce simp: keeps_def returns_def in_world_def stuck_def split: prod.splits)+

lemma stuck_draft:
  "(\<And>d. cp_attempt (f d) = cp_attempt d \<and> continuation (f d) = continuation d \<and> toolCallTable (f d) = toolCallTable d) \<Longrightarrow>
    keeps (stuck jid n sig k c step ks) (on_draft f) \<and> returns (stuck jid n sig k c step ks) (on_draft f)"
  by (simp add: keeps_def returns_def stuck_def)

lemma quiet_save: "keeps (quiet jid n sig k c) (andThen (Date_now E) (\<lambda>now. in_db (saveCheckpoint hook j cp now)))"
  unfolding Date_now_def by (intro keeps_intros quiet_tick quiet_in_db owned_save obeys_saveCheckpoint)

lemma status_patch_keeps [simp]: "pt_cancelRequested (status_patch st) = None" "pt_cancelRequested (unleased_patch st) = None"
  by (simp_all add: status_patch_def unleased_patch_def no_patch_def)

lemma stuck_commit: "keeps (stuck jid n sig k c step ks) (commitBoundary E j st)"
  unfolding commitBoundary_def setStatus_def
  by (intro keeps_intros stuck_in_world quiet_update quiet_append quiet_save stuck_draft [THEN conjunct1]) (auto simp: committed_draft_def)

lemma stuck_quiet_commit: "returns (stuck jid n sig k c step ks) (quiet_commit E j st)"
  unfolding quiet_commit_def
  by (intro returns_intros stuck_commit stuck_draft [THEN conjunct2]) auto

lemma returns_post:
  assumes "returns I m" "\<And>s x t. I s \<Longrightarrow> m s = (Inr x, t) \<Longrightarrow> returns I (g x)"
  shows "returns I (andThen m g)"
  unfolding returns_def
proof (intro allI impI)
  fix s
  assume s: "I s"
  obtain x t where m: "m s = (Inr x, t)" "I t"
    using assms(1) s by (auto simp: returns_def)
  then show "\<exists>x t. andThen m g s = (Inr x, t) \<and> I t"
    using assms(2) [OF s m(1)] by (auto simp: returns_def andThen_def)
qed

lemma update_record_id:
  assumes "job_db_ok (wdb w)" "pt_jobId p = None" "update_record E jid m p w = (Inr x, v)"
  shows "jr_jobId x = jid"
proof -
  obtain now t where "updateJobRecord (rv_hook E) jid m (\<lambda>_. p) now (wdb w) = (Inr x, t)"
    using assms(3) by (auto simp: update_record_def Date_now_def tick_def in_db_def andThen_Inr_iff split: prod.splits)
  then show ?thesis
    by (rule updateJobRecord_Inr [OF assms(1)]) (simp add: patched_def toRecord_def assms(2) find_job_id)
qed

lemma quiet_fail_settle:
  assumes "rv_environment E = None" "rv_workspace E = None" "jr_jobId r = jid"
  shows "returns (quiet jid n sig k c) (fail_settle E r m ws e)"
  unfolding fail_settle_def settle_record_def
proof (rule returns_post)
  let ?p = "(unleased_patch JFailed)\<lparr>pt_error := Some (Some (rv_message E e))\<rparr>"
  let ?u = "catch (update_record E (jr_jobId r) m ?p) (\<lambda>_. ok (r\<lparr>jr_status := JFailed, jr_error := Some (rv_message E e)\<rparr>))"
  show "returns (quiet jid n sig k c) ?u"
    by (intro returns_intros quiet_update) simp
  fix s :: "'a world" and x t
  assume q: "quiet jid n sig k c s" and u: "?u s = (Inr x, t)"
  have "jr_jobId x = jid"
    using u assms(3) q update_record_id [of s ?p E jid m]
    by (auto simp: catch_def quiet_def owned_def unleased_patch_def no_patch_def split: prod.splits sum.splits)
  moreover have "returns (quiet jid n sig k c) (dispose E ws)"
    by (auto simp: dispose_def quietly_def destroy_def assms intro!: returns_intros keeps_intros split: option.splits)
  ultimately show "returns (quiet jid n sig k c) (andThen (dispose E ws) (\<lambda>_. toState x))"
    by (intro returns_intros quiet_toState)
qed

lemma stuck_failJob:
  assumes "rv_hook E = (\<lambda>_. None)" "rv_environment E = None" "rv_workspace E = None" "jr_jobId r = jid"
  shows "returns (stuck jid n sig k c step ks) (failJob E r m ws e)"
  unfolding failJob_def fail_event_def assms(4)
  by (intro returns_intros stuck_in_world quiet_append_returns stuck_quiet_commit quiet_fail_settle assms)


section \<open>Aborts\<close>

lemma toState_status: "toState r w = (Inr st, v) \<Longrightarrow> rs_status st = jr_status r"
  by (auto simp: toState_def andThen_Inr_iff Let_def)

lemma in_db_Inr: "in_db m w = (Inr x, v) \<longleftrightarrow> (\<exists>d. m (wdb w) = (Inr x, d) \<and> v = w\<lparr>wdb := d\<rparr>)"
  by (auto simp: in_db_def split: prod.splits)

lemma updated_status:
  assumes "update_record E jid m p w = (Inr x, v)" "pt_status p = Some st"
  shows "jr_status x = st"
proof -
  obtain now and d t :: dist_db where u: "updateJobRecord (rv_hook E) jid m (\<lambda>_. p) now d = (Inr x, t)"
    using assms(1) by (auto simp: update_record_def in_db_Inr andThen_Inr_iff)
  have "ensures (\<lambda>x _. jr_status x = st) (updateJobRecord hook jid m (\<lambda>_. p) now :: (dist_db, _, _) op)" for hook
    unfolding updateJobRecord_def Let_def
    by (intro ensures_atomic ensures_intros ensures_basic) (simp add: patched_def assms(2))
  then show ?thesis using u by (rule ensuresD)
qed

lemma cancelled_state:
  assumes "finalizeCancelled E r ws s = (Inr st, t)"
  shows "rs_status st = JCancelled"
proof -
  obtain w v where "cancel_settle E r ws w = (Inr st, v)"
    using assms by (auto simp: finalizeCancelled_def andThen_Inr_iff in_world_Inr)
  then obtain x u u' where x: "catch (update_record E (jr_jobId r) (jr_attempt r) (unleased_patch JCancelled)) (\<lambda>_. ok (r\<lparr>jr_status := JCancelled\<rparr>)) w = (Inr x, u)"
    and st: "toState x u' = (Inr st, v)"
    by (auto simp: cancel_settle_def settle_record_def andThen_Inr_iff)
  have "jr_status x = JCancelled"
    using x updated_status [of E _ _ "unleased_patch JCancelled" _ x]
    by (auto simp: catch_def unleased_patch_def split: prod.splits sum.splits)
  then show ?thesis using toState_status [OF st] by simp
qed


section \<open>A fenced owner\<close>

text \<open>
  C32. The terminal event is not fenced: a worker that another has superseded, and that then
  completes its run, is refused the commit, but has already appended a completion to the log of the
  job that the other is running.
\<close>

theorem fenced_owner_logs_completion:
  assumes "rv_hook E = (\<lambda>_. None)" "job_db_ok (wdb (rn_world s))" "find_job (jr_jobId r) (wdb (rn_world s)) = Some row"
    and "row_attempt row \<noteq> cp_attempt (rn_draft s)"
  shows "\<exists>t e. completeJob E r ws s = (Inl (LeaseFencedError (jr_jobId r)), t) \<and>
     job_log (jr_jobId r) (wdb (rn_world t)) = job_log (jr_jobId r) (wdb (rn_world s)) @ [e] \<and> je_type e = EvCompleted"
proof -
  let ?jid = "jr_jobId r" and ?d = "JObj [(''usage'', metrics_json (usage (rn_draft s))), (''steps'', jnat (steps (usage (rn_draft s))))]"
  obtain db where db: "appendEvents (rv_hook E) ?jid [new_event ?jid (rv_clock E (wticks (rn_world s))) EvCompleted ?d] None (wdb (rn_world s)) =
        (Inr [stamp (Suc (last_seq row)) (new_event ?jid (rv_clock E (wticks (rn_world s))) EvCompleted ?d)], db)"
      "job_log ?jid db = job_log ?jid (wdb (rn_world s)) @ [event_row ?jid (Suc (last_seq row)) (new_event ?jid (rv_clock E (wticks (rn_world s))) EvCompleted ?d)]"
    using append_run [OF assms(2,3), of "[new_event ?jid (rv_clock E (wticks (rn_world s))) EvCompleted ?d]" None "rv_hook E"] assms(1) by auto
  have k: "job_db_ok db"
    by (rule ok_step [OF obeys_appendEvents assms(2) db(1)])
  have "jobs_grow (wdb (rn_world s)) db"
    using jh.obeysD [OF obeys_appendEvents db(1)] assms(2) by (simp add: job_history_def)
  obtain row' where row': "find_job ?jid db = Some row'" "row_attempt row' = row_attempt row"
    by (rule appendEvents_Inr [OF assms(2) db(1)]) (auto simp: find_job_append assms(3))
  have up: "updateJobRecord (rv_hook E) ?jid (cp_attempt (rn_draft s)) mut now db = (Inl (LeaseFencedError ?jid), db)" for mut now
    by (rule stale_update [OF row'(1)]) (use row'(2) assms(4) in simp)
  show ?thesis
    using db(2) by (simp add: completeJob_def append_one_def append_events_def Date_now_def tick_def in_db_def in_world_def andThen_def db(1)
        commitBoundary_def setStatus_def update_record_def up) (simp add: event_row_def new_event_def)
qed

section \<open>Witnesses\<close>

definition demo_engine :: "(unit, unit) agent_engine" where
  "demo_engine = \<lparr>en_id = ''e'', en_version = ''v'', en_createSession = (\<lambda>_ _ _. ok ()), en_restoreSession = (\<lambda>_ _ _ _. ok ()),
     en_runTurn = (\<lambda>_ _ _. ok ([Turn_text ''done'', Turn_finish ''stop''], ())), en_projectHistory = (\<lambda>_. []),
     en_recordAssistantTurn = (\<lambda>_ _. ()), en_recordToolResults = (\<lambda>_ _. ()), en_recordUserInput = (\<lambda>_ _. ())\<rparr>"

definition demo_tool :: "unit tool" where
  "demo_tool = \<lparr>tl_definition = \<lparr>td_name = ''t'', td_description = '''', td_parameters = JNull, td_idempotent = False\<rparr>,
     tl_execute = (\<lambda>_ _. ok JNull)\<rparr>"

definition demo_env :: "(unit, unit) runner_env" where
  "demo_env = \<lparr>rv_host = text_host, rv_clock = int, rv_newJobId = (\<lambda>_. ''j''), rv_newExecutionId = (\<lambda>_. ''x''), rv_newLeaseToken = (\<lambda>_. ''l''),
     rv_hook = (\<lambda>_. None), rv_message = (\<lambda>_. ''error''), rv_engines = [(''e'', demo_engine)], rv_tools = [(''t'', demo_tool)],
     rv_workspace = None, rv_environment = None, rv_snapshotPolicy = None\<rparr>"

definition demo_world :: "dist_db \<Rightarrow> unit world" where
  "demo_world db = \<lparr>wdb = db, wticks = 0, wsignals = 1, wactive = [(''j'', \<lparr>ar_signal = 0, ar_attempt = 1, ar_leaseToken = ''a''\<rparr>)],
     waborted = [], outside = ()\<rparr>"

definition demo_draft :: draft where
  "demo_draft = newDraft demo_engine sample_job 1 ''x'' 0 0"

definition demo_run :: "dist_db \<Rightarrow> draft \<Rightarrow> (unit, unit) run_state" where
  "demo_run db d = \<lparr>rn_world = demo_world db, rn_draft = d, rn_session = (), rn_applied = []\<rparr>"

definition demo_input :: create_job_input where
  "demo_input = \<lparr>tenantId = ''t'', orgId = ''o'', projectId = ''p'', ci_spec = jr_spec sample_job,
     ci_policy = \<lparr>pp_version = None, pp_maxSteps = None, pp_onUncertainToolCall = None, pp_allowedTools = None, pp_idempotentTools = None,
       pp_leaseMs = None, pp_maxTokens = None, pp_maxDurationMs = None\<rparr>, ci_env = []\<rparr>"

lemma demo_lawful: "lawful demo_env"
  by (auto simp: lawful_def lawful_engine_def demo_env_def demo_engine_def demo_tool_def intro: wh.obeys_basic)

lemma demo_calls: "runner_calls demo_env w (snd (runJob 9 demo_env ''j'' (snd (createJob demo_env demo_input w))))"
proof -
  obtain x v where v: "createJob demo_env demo_input w = (x, v)" by (cases "createJob demo_env demo_input w")
  obtain y u where u: "runJob 9 demo_env ''j'' v = (y, u)" by (cases "runJob 9 demo_env ''j'' v")
  show ?thesis
    using calls_create [OF v calls_run [OF u calls_done]] by (simp add: v u)
qed


theorem loop_terminates_witness: "fst (loop 52 demo_env sample_job demo_engine None 0 (demo_run db_acquired demo_draft)) \<noteq> Inr None"
  by (rule loop_terminates) (simp_all add: sample_job_def DEFAULT_EXECUTION_POLICY_def)

definition risky_job :: job_record where
  "risky_job = sample_job\<lparr>jr_policy := DEFAULT_EXECUTION_POLICY\<lparr>onUncertainToolCall := Fail_job, allowedTools := [''t'']\<rparr>\<rparr>"

definition risky_request :: new_job_event where
  "risky_request = new_event ''j'' 0 EvToolRequest (JObj [(''idempotencyKey'', JStr ''0:c''), (''toolName'', JStr ''t''), (''input'', JNull)])"

definition db_risky :: dist_db where
  "db_risky = snd (appendEvents no_hook ''j'' [risky_request] None (snd (createJobRecord no_hook risky_job empty_dist_db)))"

definition risky_draft :: draft where
  "risky_draft = demo_draft\<lparr>cp_attempt := 0, toolCallTable := [(''0:c'', TC_recorded 1)], continuation := Settle_tools 0 [''0:c'']\<rparr>"

lemma risky_stuck: "stuck ''j'' 0 0 ''0:c'' (''t'', JNull) 0 [] (demo_run db_risky risky_draft)"
proof -
  have "store_run [\<lparr>op_name = ''createJobRecord'', op_job = jr_jobId risky_job, op_time = 0\<rparr>, \<lparr>op_name = ''appendEvents'', op_job = ''j'', op_time = 0\<rparr>]
      empty_dist_db db_risky"
    unfolding db_risky_def by (rule run_step [OF _ run_one], rule step_result, erule step_create, rule step_result, erule step_append)
  then have "job_db_ok db_risky" by (rule reached_ok)
  moreover have "find_job ''j'' db_risky = Some ((row_of risky_job)\<lparr>last_seq := 1\<rparr>)" "requested_call (job_log ''j'' db_risky) ''0:c'' = Some (''t'', JNull)"
    unfolding db_risky_def by code_simp+
  ultimately show ?thesis
    by (simp add: stuck_def quiet_def owned_def demo_run_def demo_world_def risky_draft_def demo_draft_def newDraft_def is_recorded_def row_of_def
      risky_job_def sample_job_def)
qed


theorem fenced_owner_logs_completion_witness:
  "\<exists>t e. completeJob demo_env sample_job None (demo_run db_taken demo_draft) = (Inl (LeaseFencedError ''j''), t) \<and> je_type e = EvCompleted \<and>
     job_log ''j'' (wdb (rn_world t)) = job_log ''j'' db_taken @ [e]"
proof -
  have f: "find_job ''j'' db_taken = Some (granted_row 2 20 (granted_row 1 0 (row_of sample_job)))"
    unfolding db_taken_def db_acquired_def by code_simp
  have k: "job_db_ok db_taken"
    by (rule reached_ok [OF run_snoc [OF run_to_acquired db_steps(2)]])
  show ?thesis
    using fenced_owner_logs_completion [of demo_env "demo_run db_taken demo_draft" sample_job _ None] f k
    by (auto simp: demo_env_def demo_run_def demo_world_def demo_draft_def newDraft_def sample_job_id)
qed

definition suspended_world :: "unit world" where
  "suspended_world = snd (suspendJob demo_env ''j'' Worker_loss (demo_world db_acquired))"

definition suspended_run :: "(unit, unit) run_state" where
  "suspended_run = (demo_run db_acquired (demo_draft\<lparr>cp_attempt := 0\<rparr>))\<lparr>rn_world := suspended_world\<rparr>"

lemma suspended_ok:
  "map_sum (\<lambda>_. ()) rs_status (fst (suspendJob demo_env ''j'' Worker_loss (demo_world db_acquired))) = Inr JSuspended"
  by code_simp

lemma suspended_active: "tget (wactive suspended_world) ''j'' = Some \<lparr>ar_signal = 0, ar_attempt = 1, ar_leaseToken = ''a''\<rparr>"
  unfolding suspended_world_def by code_simp

lemma suspended_returns:
  "\<not> isl (fst (loop 1 demo_env sample_job demo_engine None 0 suspended_run))"
  unfolding suspended_run_def suspended_world_def by code_simp


end
