(* ===== verification/Identity_Store.thy ===== *)
theory Identity_Store
  imports Sql Contracts Json
begin

text \<open>
  Tenants, organisations, members, projects, invitations and API keys
  (\<^verbatim>\<open>vaulltcore-identity/src/contracts.ts\<close> and \<^verbatim>\<open>store.ts\<close>): the tables of
  \<^verbatim>\<open>SqlIdentityStore\<close> and one operation per method. Clock readings and the random
  identifiers are arguments, one per reading or draw. A row and the object the store makes of it have
  the same fields and are one record; an invitation row also has the hash of its token and its
  idempotency key. The theorems are in \<open>Identity_Properties\<close>.
\<close>

section \<open>Data\<close>

record tenant =
  tn_tenantId :: string
  tn_createdAt :: int
  tn_createdBy :: "string option"
  tn_displayName :: "string option"

record organization =
  og_orgId :: string
  og_tenantId :: string
  og_createdAt :: int
  og_displayName :: "string option"

record member =
  mb_tenantId :: string
  mb_orgId :: string
  mb_principalId :: string
  mb_role :: role
  mb_createdAt :: int

datatype invitation_status = Inv_pending | Inv_accepted | Inv_revoked | Inv_expired

record org_invitation =
  iv_tenantId :: string
  iv_orgId :: string
  iv_invitationId :: string
  iv_email :: string
  iv_role :: role
  iv_invitedBy :: string
  iv_status :: invitation_status
  iv_createdAt :: int
  iv_expiresAt :: int
  iv_acceptedAt :: "int option"
  iv_acceptedBy :: "string option"
  iv_revokedAt :: "int option"

record invitation_row = org_invitation +
  iv_token_hash :: string
  iv_idempotency_key :: "string option"

definition toInvitation :: "invitation_row \<Rightarrow> org_invitation" where
  "toInvitation r = org_invitation.truncate r"

record project_grant =
  gr_tenantId :: string
  gr_orgId :: string
  gr_projectId :: string
  gr_principalId :: string
  gr_role :: role

record project =
  pj_projectId :: string
  pj_tenantId :: string
  pj_orgId :: string
  pj_createdAt :: int
  pj_displayName :: "string option"

datatype principal_kind = User_principal | Service_principal

record principal_row =
  pp_principalId :: string
  pp_tenantId :: string
  pp_kind :: principal_kind
  pp_createdAt :: int

record api_key =
  ak_keyId :: string
  ak_tenantId :: string
  ak_orgId :: string
  ak_principalId :: string
  ak_name :: string
  ak_keyPrefix :: string
  ak_secretHash :: string
  ak_createdAt :: int
  ak_revokedAt :: "int option"
  ak_lastUsedAt :: "int option"
  ak_expiresAt :: "int option"
  ak_scope :: "string list option"
  ak_rotatedFrom :: "string option"
  ak_overlapExpiresAt :: "int option"

text \<open>The authenticated principal. \<^verbatim>\<open>"*"\<close> in the project scope stands for all projects.\<close>

record resolved_principal =
  pr_principalId :: string
  pr_kind :: principal_kind
  pr_tenantId :: string
  pr_orgId :: string
  pr_role :: role
  pr_projectScope :: "string list"
  pr_admin :: bool
  pr_apiKeyId :: "string option"
  pr_apiKeyScope :: "string list option"

datatype identity_error = IdentityError string | Constraint_violation

record identity_db =
  tenants :: "tenant list"
  organizations :: "organization list"
  org_members :: "member list"
  projects :: "project list"
  project_grants :: "project_grant list"
  principals :: "principal_row list"
  api_keys :: "api_key list"
  org_invitations :: "invitation_row list"

type_synonym 'a identity_op = "(identity_db, identity_error, 'a) op"

definition empty_identity_db :: identity_db where
  "empty_identity_db = \<lparr>tenants = [], organizations = [], org_members = [], projects = [], project_grants = [], principals = [],
     api_keys = [], org_invitations = []\<rparr>"

text \<open>
  The store's host, the \<^verbatim>\<open>beforeCommit\<close> option, and the ellipsis that ends a key prefix (a code
  unit that a character here does not hold).
\<close>

record identity_env =
  ie_host :: host
  ie_hook :: "string \<Rightarrow> identity_error option"
  ie_ellipsis :: string

section \<open>Constraints\<close>

definition tenant_clash :: "tenant \<Rightarrow> tenant \<Rightarrow> bool" where
  "tenant_clash a b \<longleftrightarrow> tn_tenantId a = tn_tenantId b"

definition org_clash :: "organization \<Rightarrow> organization \<Rightarrow> bool" where
  "org_clash a b \<longleftrightarrow> og_orgId a = og_orgId b \<or> (og_tenantId a = og_tenantId b \<and> og_orgId a = og_orgId b)"

definition member_clash :: "member \<Rightarrow> member \<Rightarrow> bool" where
  "member_clash a b \<longleftrightarrow> mb_tenantId a = mb_tenantId b \<and> mb_orgId a = mb_orgId b \<and> mb_principalId a = mb_principalId b"

definition project_clash :: "project \<Rightarrow> project \<Rightarrow> bool" where
  "project_clash a b \<longleftrightarrow> pj_projectId a = pj_projectId b \<or>
     (pj_tenantId a = pj_tenantId b \<and> pj_orgId a = pj_orgId b \<and> pj_projectId a = pj_projectId b)"

definition grant_clash :: "project_grant \<Rightarrow> project_grant \<Rightarrow> bool" where
  "grant_clash a b \<longleftrightarrow> gr_tenantId a = gr_tenantId b \<and> gr_orgId a = gr_orgId b \<and> gr_projectId a = gr_projectId b \<and>
     gr_principalId a = gr_principalId b"

definition principal_clash :: "principal_row \<Rightarrow> principal_row \<Rightarrow> bool" where
  "principal_clash a b \<longleftrightarrow> pp_principalId a = pp_principalId b"

definition key_clash :: "api_key \<Rightarrow> api_key \<Rightarrow> bool" where
  "key_clash a b \<longleftrightarrow> ak_keyId a = ak_keyId b"

definition same_invite :: "invitation_row \<Rightarrow> invitation_row \<Rightarrow> bool" where
  "same_invite a b \<longleftrightarrow> iv_tenantId a = iv_tenantId b \<and> iv_orgId a = iv_orgId b \<and> iv_email a = iv_email b \<and> iv_status a = iv_status b"

definition invitation_clash :: "invitation_row \<Rightarrow> invitation_row \<Rightarrow> bool" where
  "invitation_clash a b \<longleftrightarrow> iv_invitationId a = iv_invitationId b \<or> iv_token_hash a = iv_token_hash b \<or> same_invite a b"

text \<open>
  \<open>insert_row\<close> is an \<^verbatim>\<open>INSERT\<close> whose constraint violation becomes the error \<open>e\<close>.
  \<open>update_rows\<close> is an \<^verbatim>\<open>UPDATE\<close> under a constraint: the statement fails as a whole when its
  result has two rows that clash. (The updates below set the status of rows to one fixed value, so that
  a clash that shows up while rows are written is still there at the end.)
\<close>

definition insert_row :: "(identity_db \<Rightarrow> 'r list) \<Rightarrow> (('r list \<Rightarrow> 'r list) \<Rightarrow> identity_db \<Rightarrow> identity_db) \<Rightarrow> ('r \<Rightarrow> 'r \<Rightarrow> bool) \<Rightarrow> 'r
    \<Rightarrow> identity_error \<Rightarrow> unit identity_op" where
  "insert_row sel upd uq row e = andThen (reads (\<lambda>db. sql_clash uq row (sel db))) (\<lambda>clash.
     if clash then throw e else modifies (upd (\<lambda>rows. rows @ [row])))"

primrec unique_rows :: "('r \<Rightarrow> 'r \<Rightarrow> bool) \<Rightarrow> 'r list \<Rightarrow> bool" where
  "unique_rows uq [] \<longleftrightarrow> True"
| "unique_rows uq (r # rows) \<longleftrightarrow> \<not> list_ex (uq r) rows \<and> unique_rows uq rows"

definition update_rows :: "(invitation_row \<Rightarrow> bool) \<Rightarrow> (invitation_row \<Rightarrow> invitation_row) \<Rightarrow> nat identity_op" where
  "update_rows p f = andThen (reads (\<lambda>db. (sql_count p (org_invitations db), sql_update p f (org_invitations db)))) (\<lambda>(changes, rows).
     if unique_rows invitation_clash rows
     then andThen (modifies (org_invitations_update (\<lambda>_. rows))) (\<lambda>_. ok changes)
     else throw Constraint_violation)"

section \<open>Tenants and organisations\<close>

definition createTenant :: "identity_env \<Rightarrow> string \<Rightarrow> string option \<Rightarrow> string option \<Rightarrow> int \<Rightarrow> tenant identity_op" where
  "createTenant E tid creator display now =
     (let row = \<lparr>tn_tenantId = tid, tn_createdAt = now, tn_createdBy = creator, tn_displayName = display\<rparr> in
      andThen (atomic (ie_hook E) ''createTenant'' (insert_row tenants tenants_update tenant_clash row (IdentityError ''TENANT_EXISTS''))) (\<lambda>_.
      ok row))"

definition getTenant :: "string \<Rightarrow> identity_db \<Rightarrow> tenant option" where
  "getTenant tid db = sql_get (\<lambda>r. tn_tenantId r = tid) (tenants db)"

definition createOrganization :: "identity_env \<Rightarrow> string \<Rightarrow> string \<Rightarrow> string option \<Rightarrow> int \<Rightarrow> organization identity_op" where
  "createOrganization E tid oid display now = andThen (reads (getTenant tid)) (\<lambda>t.
     if t = None then throw (IdentityError ''TENANT_NOT_FOUND'')
     else
       let row = \<lparr>og_orgId = oid, og_tenantId = tid, og_createdAt = now, og_displayName = display\<rparr> in
       andThen (atomic (ie_hook E) ''createOrganization'' (insert_row organizations organizations_update org_clash row (IdentityError ''ORG_EXISTS''))) (\<lambda>_.
       ok row))"

definition getOrganization :: "string \<Rightarrow> string \<Rightarrow> identity_db \<Rightarrow> organization option" where
  "getOrganization tid oid db = sql_get (\<lambda>r. og_tenantId r = tid \<and> og_orgId r = oid) (organizations db)"

definition listOrganizations :: "string \<Rightarrow> identity_db \<Rightarrow> organization list" where
  "listOrganizations tid db = sort_key og_createdAt (filter (\<lambda>r. og_tenantId r = tid) (organizations db))"

definition needs_org :: "string \<Rightarrow> string \<Rightarrow> 'a identity_op \<Rightarrow> 'a identity_op" where
  "needs_org tid oid m = andThen (reads (getOrganization tid oid)) (\<lambda>o'.
     if o' = None then throw (IdentityError ''ORG_NOT_FOUND'') else m)"

section \<open>Members\<close>

definition is_member :: "string \<Rightarrow> string \<Rightarrow> string \<Rightarrow> member \<Rightarrow> bool" where
  "is_member tid oid pid r \<longleftrightarrow> mb_tenantId r = tid \<and> mb_orgId r = oid \<and> mb_principalId r = pid"

definition addMember :: "identity_env \<Rightarrow> string \<Rightarrow> string \<Rightarrow> string \<Rightarrow> role \<Rightarrow> int \<Rightarrow> member identity_op" where
  "addMember E tid oid pid ro now = needs_org tid oid
     (let row = \<lparr>mb_tenantId = tid, mb_orgId = oid, mb_principalId = pid, mb_role = ro, mb_createdAt = now\<rparr> in
      andThen (atomic (ie_hook E) ''addMember'' (insert_row org_members org_members_update member_clash row (IdentityError ''MEMBER_EXISTS''))) (\<lambda>_.
      ok row))"

definition getMember :: "string \<Rightarrow> string \<Rightarrow> string \<Rightarrow> identity_db \<Rightarrow> member option" where
  "getMember tid oid pid db = sql_get (is_member tid oid pid) (org_members db)"

definition countOwnersLocked :: "string \<Rightarrow> string \<Rightarrow> identity_db \<Rightarrow> nat" where
  "countOwnersLocked tid oid db = sql_count (\<lambda>r. mb_tenantId r = tid \<and> mb_orgId r = oid \<and> mb_role r = Owner) (org_members db)"

definition setMemberRole :: "identity_env \<Rightarrow> string \<Rightarrow> string \<Rightarrow> string \<Rightarrow> role \<Rightarrow> unit identity_op" where
  "setMemberRole E tid oid pid ro = atomic (ie_hook E) ''setMemberRole''
     (andThen (reads (getMember tid oid pid)) (\<lambda>row.
      case row of None \<Rightarrow> throw (IdentityError ''MEMBER_NOT_FOUND'')
      | Some r \<Rightarrow>
          let current = mb_role r in
          if ro = current then ok ()
          else andThen (reads (countOwnersLocked tid oid)) (\<lambda>owners.
            if current = Owner \<and> ro \<noteq> Owner \<and> owners < 2 then throw (IdentityError ''LAST_OWNER'')
            else modifies (org_members_update
              (sql_update (\<lambda>r. is_member tid oid pid r \<and> mb_role r = current) (\<lambda>r. r\<lparr>mb_role := ro\<rparr>))))))"

definition removeMember :: "identity_env \<Rightarrow> string \<Rightarrow> string \<Rightarrow> string \<Rightarrow> unit identity_op" where
  "removeMember E tid oid pid = atomic (ie_hook E) ''removeMember''
     (andThen (reads (getMember tid oid pid)) (\<lambda>row.
      case row of None \<Rightarrow> ok ()
      | Some r \<Rightarrow> andThen (reads (countOwnersLocked tid oid)) (\<lambda>owners.
          if mb_role r = Owner \<and> owners < 2 then throw (IdentityError ''LAST_OWNER'')
          else modifies (org_members_update (filter (\<lambda>r. \<not> is_member tid oid pid r))))))"

definition set_role :: "string \<Rightarrow> string \<Rightarrow> string \<Rightarrow> role \<Rightarrow> unit identity_op" where
  "set_role tid oid pid ro = modifies (org_members_update (sql_update (is_member tid oid pid) (\<lambda>r. r\<lparr>mb_role := ro\<rparr>)))"

definition transferOwnership :: "identity_env \<Rightarrow> string \<Rightarrow> string \<Rightarrow> string \<Rightarrow> string \<Rightarrow> (member \<times> member) identity_op" where
  "transferOwnership E tid oid from_pid to_pid =
     (if from_pid = to_pid then throw (IdentityError ''OWNER_TRANSFER_INVALID'')
      else atomic (ie_hook E) ''transferOwnership''
        (andThen (reads (getMember tid oid from_pid)) (\<lambda>from_row.
         case from_row of None \<Rightarrow> throw (IdentityError ''MEMBER_NOT_FOUND'')
         | Some f \<Rightarrow>
             if mb_role f \<noteq> Owner then throw (IdentityError ''OWNER_TRANSFER_INVALID'')
             else andThen (reads (getMember tid oid to_pid)) (\<lambda>to_row.
               case to_row of None \<Rightarrow> throw (IdentityError ''MEMBER_NOT_FOUND'')
               | Some t \<Rightarrow>
                   andThen (set_role tid oid to_pid Owner) (\<lambda>_.
                   andThen (set_role tid oid from_pid Admin) (\<lambda>_.
                   ok (\<lparr>mb_tenantId = tid, mb_orgId = oid, mb_principalId = from_pid, mb_role = Admin, mb_createdAt = mb_createdAt f\<rparr>,
                       \<lparr>mb_tenantId = tid, mb_orgId = oid, mb_principalId = to_pid, mb_role = Owner, mb_createdAt = mb_createdAt t\<rparr>)))))))"

definition listMembers :: "string \<Rightarrow> string \<Rightarrow> identity_db \<Rightarrow> member list" where
  "listMembers tid oid db = sort_key mb_createdAt (filter (\<lambda>r. mb_tenantId r = tid \<and> mb_orgId r = oid) (org_members db))"

definition listMembershipsByPrincipal :: "string \<Rightarrow> identity_db \<Rightarrow> member list" where
  "listMembershipsByPrincipal pid db = sort_key mb_createdAt (filter (\<lambda>r. mb_principalId r = pid) (org_members db))"

section \<open>Invitations\<close>

definition INVITATION_DEFAULT_TTL_MS :: int where
  "INVITATION_DEFAULT_TTL_MS = 7 * 24 * 60 * 60 * 1000"

text \<open>\<^verbatim>\<open>email.trim().toLowerCase()\<close>; the letters of the code units a character holds.\<close>

definition lower_char :: "char \<Rightarrow> char" where
  "lower_char c = (let n = of_char c :: nat in
     if 65 \<le> n \<and> n \<le> 90 \<or> 192 \<le> n \<and> n \<le> 222 \<and> n \<noteq> 215 then char_of (n + 32) else c)"

definition normalizeEmail :: "string \<Rightarrow> string" where
  "normalizeEmail s = map lower_char (rev (dropWhile is_space (rev (dropWhile is_space s))))"

definition invitationTokenHash :: "identity_env \<Rightarrow> string \<Rightarrow> string" where
  "invitationTokenHash E token = sha256 (ie_host E) token"

record invitation_input =
  ii_email :: string
  ii_role :: role
  ii_invitedBy :: string
  ii_expiresInMs :: "int option"
  ii_idempotencyKey :: "string option"

definition new_invitation :: "identity_env \<Rightarrow> string \<Rightarrow> string \<Rightarrow> invitation_input \<Rightarrow> string \<Rightarrow> string \<Rightarrow> string \<Rightarrow> int \<Rightarrow> invitation_row" where
  "new_invitation E tid oid inp email iid token now = \<lparr>iv_tenantId = tid, iv_orgId = oid, iv_invitationId = iid, iv_email = email,
     iv_role = ii_role inp, iv_invitedBy = ii_invitedBy inp, iv_status = Inv_pending, iv_createdAt = now,
     iv_expiresAt = now + (case ii_expiresInMs inp of Some ms \<Rightarrow> ms | None \<Rightarrow> INVITATION_DEFAULT_TTL_MS),
     iv_acceptedAt = None, iv_acceptedBy = None, iv_revokedAt = None,
     iv_token_hash = invitationTokenHash E token, iv_idempotency_key = ii_idempotencyKey inp\<rparr>"

text \<open>
  The result is the invitation, with its token when the call made it. An empty idempotency key is no
  key for the look-up, as its text is falsy, but is stored.
\<close>

definition pending_for :: "string \<Rightarrow> string \<Rightarrow> string \<Rightarrow> invitation_row \<Rightarrow> bool" where
  "pending_for tid oid email r \<longleftrightarrow> iv_tenantId r = tid \<and> iv_orgId r = oid \<and> iv_email r = email \<and> iv_status r = Inv_pending"

definition by_request_key :: "string \<Rightarrow> string \<Rightarrow> string option \<Rightarrow> identity_db \<Rightarrow> invitation_row option" where
  "by_request_key tid oid key db = (case key of None \<Rightarrow> None
     | Some k \<Rightarrow> if k = [] then None
         else sql_get (\<lambda>r. iv_tenantId r = tid \<and> iv_orgId r = oid \<and> iv_idempotency_key r = Some k) (org_invitations db))"

definition createInvitation :: "identity_env \<Rightarrow> string \<Rightarrow> string \<Rightarrow> invitation_input \<Rightarrow> string \<Rightarrow> string \<Rightarrow> int
    \<Rightarrow> (org_invitation \<times> string option) identity_op" where
  "createInvitation E tid oid inp iid token now = needs_org tid oid
     (let email = normalizeEmail (ii_email inp) in
      if email = [] then throw (IdentityError ''INVALID_INPUT'')
      else atomic (ie_hook E) ''createInvitation''
        (andThen (reads (by_request_key tid oid (ii_idempotencyKey inp))) (\<lambda>existing.
         case existing of
           Some r \<Rightarrow> if iv_status r = Inv_pending \<and> iv_email r = email \<and> iv_role r = ii_role inp then ok (toInvitation r, None)
                     else throw (IdentityError ''INVITATION_PENDING'')
         | None \<Rightarrow>
             andThen (reads (\<lambda>db. sql_get (\<lambda>r. pending_for tid oid email r \<and> iv_expiresAt r > now) (org_invitations db))) (\<lambda>pending.
             if pending \<noteq> None then throw (IdentityError ''INVITATION_PENDING'')
             else
               andThen (modifies (org_invitations_update (filter (\<lambda>r. \<not> (pending_for tid oid email r \<and> iv_expiresAt r \<le> now))))) (\<lambda>_.
               let row = new_invitation E tid oid inp email iid token now in
               andThen (insert_row org_invitations org_invitations_update invitation_clash row Constraint_violation) (\<lambda>_.
               ok (toInvitation row, Some token)))))))"

definition listInvitations :: "string \<Rightarrow> string \<Rightarrow> identity_db \<Rightarrow> org_invitation list" where
  "listInvitations tid oid db =
     map toInvitation (sort_key (\<lambda>r. - iv_createdAt r) (filter (\<lambda>r. iv_tenantId r = tid \<and> iv_orgId r = oid) (org_invitations db)))"

definition revokeInvitation :: "identity_env \<Rightarrow> string \<Rightarrow> string \<Rightarrow> string \<Rightarrow> int \<Rightarrow> org_invitation option identity_op" where
  "revokeInvitation E tid oid iid now =
     (let here = (\<lambda>r. iv_tenantId r = tid \<and> iv_orgId r = oid \<and> iv_invitationId r = iid) in
      andThen (atomic (ie_hook E) ''revokeInvitation''
        (update_rows (\<lambda>r. here r \<and> iv_status r = Inv_pending) (\<lambda>r. r\<lparr>iv_status := Inv_revoked, iv_revokedAt := Some now\<rparr>))) (\<lambda>changes.
      if changes = 0 then ok None
      else reads (\<lambda>db. map_option toInvitation (sql_get here (org_invitations db)))))"

definition by_token :: "identity_env \<Rightarrow> string \<Rightarrow> identity_db \<Rightarrow> invitation_row option" where
  "by_token E token db = sql_get (\<lambda>r. iv_token_hash r = invitationTokenHash E token) (org_invitations db)"

definition getInvitationByToken :: "identity_env \<Rightarrow> string \<Rightarrow> identity_db \<Rightarrow> org_invitation option" where
  "getInvitationByToken E token db = map_option toInvitation (by_token E token db)"

text \<open>The principal is registered, or known to this tenant already.\<close>

definition pin_principal :: "string \<Rightarrow> string \<Rightarrow> int \<Rightarrow> unit identity_op" where
  "pin_principal pid tid now = catch
     (insert_row principals principals_update principal_clash
        \<lparr>pp_principalId = pid, pp_tenantId = tid, pp_kind = User_principal, pp_createdAt = now\<rparr> Constraint_violation)
     (\<lambda>e. if e = Constraint_violation
          then andThen (reads (\<lambda>db. sql_get (\<lambda>r. pp_principalId r = pid) (principals db))) (\<lambda>existing.
            case existing of
              Some p \<Rightarrow> if pp_tenantId p \<noteq> tid then throw (IdentityError ''INVITATION_TENANT_MISMATCH'') else ok ()
            | None \<Rightarrow> ok ())
          else throw e)"

definition acceptInvitation :: "identity_env \<Rightarrow> string \<Rightarrow> string \<Rightarrow> string option \<Rightarrow> int \<Rightarrow> member identity_op" where
  "acceptInvitation E token pid verifiedEmail now = atomic (ie_hook E) ''acceptInvitation''
     (andThen (reads (by_token E token)) (\<lambda>found.
      case found of None \<Rightarrow> throw (IdentityError ''INVITATION_NOT_FOUND'')
      | Some r \<Rightarrow>
          if iv_status r \<noteq> Inv_pending then throw (IdentityError ''INVITATION_NOT_FOUND'')
          else if iv_expiresAt r < now then throw (IdentityError ''INVITATION_EXPIRED'')
          else if (case verifiedEmail of None \<Rightarrow> False | Some e \<Rightarrow> normalizeEmail e \<noteq> iv_email r)
          then throw (IdentityError ''INVITATION_EMAIL_MISMATCH'')
          else
            andThen (update_rows (\<lambda>x. iv_invitationId x = iv_invitationId r \<and> iv_status x = Inv_pending \<and> iv_expiresAt x \<ge> now)
              (\<lambda>x. x\<lparr>iv_status := Inv_accepted, iv_acceptedAt := Some now, iv_acceptedBy := Some pid\<rparr>)) (\<lambda>changes.
            if changes = 0 then throw (IdentityError ''INVITATION_ALREADY_CONSUMED'')
            else
              andThen (pin_principal pid (iv_tenantId r) now) (\<lambda>_.
              let row = \<lparr>mb_tenantId = iv_tenantId r, mb_orgId = iv_orgId r, mb_principalId = pid, mb_role = iv_role r, mb_createdAt = now\<rparr> in
              andThen (insert_row org_members org_members_update member_clash row (IdentityError ''MEMBER_EXISTS'')) (\<lambda>_. ok row)))))"

text \<open>Two clock readings: the time that is recorded and the time that is compared.\<close>

definition expireInvitations :: "identity_env \<Rightarrow> int \<Rightarrow> int \<Rightarrow> nat identity_op" where
  "expireInvitations E recorded now = atomic (ie_hook E) ''expireInvitations''
     (update_rows (\<lambda>r. iv_status r = Inv_pending \<and> iv_expiresAt r < now) (\<lambda>r. r\<lparr>iv_status := Inv_expired, iv_revokedAt := Some recorded\<rparr>))"

definition markInvitationExpired :: "identity_env \<Rightarrow> string \<Rightarrow> int \<Rightarrow> nat identity_op" where
  "markInvitationExpired E iid now = atomic (ie_hook E) ''markInvitationExpired''
     (update_rows (\<lambda>r. iv_invitationId r = iid \<and> iv_status r = Inv_pending) (\<lambda>r. r\<lparr>iv_status := Inv_expired, iv_revokedAt := Some now\<rparr>))"

section \<open>Projects and grants\<close>

definition grantProject :: "identity_env \<Rightarrow> string \<Rightarrow> string \<Rightarrow> string \<Rightarrow> string \<Rightarrow> role \<Rightarrow> project_grant identity_op" where
  "grantProject E tid oid prj pid ro =
     (let row = \<lparr>gr_tenantId = tid, gr_orgId = oid, gr_projectId = prj, gr_principalId = pid, gr_role = ro\<rparr> in
      andThen (atomic (ie_hook E) ''grantProject'' (insert_row project_grants project_grants_update grant_clash row (IdentityError ''GRANT_EXISTS''))) (\<lambda>_.
      ok row))"

definition createProject :: "identity_env \<Rightarrow> string \<Rightarrow> string \<Rightarrow> string \<Rightarrow> string option \<Rightarrow> int \<Rightarrow> project identity_op" where
  "createProject E tid oid prj display now = needs_org tid oid
     (let row = \<lparr>pj_projectId = prj, pj_tenantId = tid, pj_orgId = oid, pj_createdAt = now, pj_displayName = display\<rparr> in
      andThen (atomic (ie_hook E) ''createProject'' (insert_row projects projects_update project_clash row (IdentityError ''PROJECT_EXISTS''))) (\<lambda>_.
      ok row))"

definition getProject :: "string \<Rightarrow> string \<Rightarrow> string \<Rightarrow> identity_db \<Rightarrow> project option" where
  "getProject tid oid prj db = sql_get (\<lambda>r. pj_tenantId r = tid \<and> pj_orgId r = oid \<and> pj_projectId r = prj) (projects db)"

definition listProjects :: "string \<Rightarrow> string \<Rightarrow> identity_db \<Rightarrow> project list" where
  "listProjects tid oid db = sort_key pj_createdAt (filter (\<lambda>r. pj_tenantId r = tid \<and> pj_orgId r = oid) (projects db))"

section \<open>Principals and API keys\<close>

definition registerPrincipal :: "identity_env \<Rightarrow> string \<Rightarrow> string \<Rightarrow> principal_kind \<Rightarrow> int \<Rightarrow> unit identity_op" where
  "registerPrincipal E tid pid knd now = atomic (ie_hook E) ''registerPrincipal''
     (insert_row principals principals_update principal_clash
        \<lparr>pp_principalId = pid, pp_tenantId = tid, pp_kind = knd, pp_createdAt = now\<rparr> (IdentityError ''PRINCIPAL_EXISTS''))"

definition getPrincipalTenant :: "string \<Rightarrow> identity_db \<Rightarrow> string option" where
  "getPrincipalTenant pid db = map_option pp_tenantId (sql_get (\<lambda>r. pp_principalId r = pid) (principals db))"

definition hashSecret :: "identity_env \<Rightarrow> string \<Rightarrow> string" where
  "hashSecret E secret = sha256 (ie_host E) secret"

text \<open>The comparison takes constant time; its result is the equality of the two digests.\<close>

definition verifySecret :: "identity_env \<Rightarrow> string \<Rightarrow> string \<Rightarrow> bool" where
  "verifySecret E candidate hash \<longleftrightarrow> hashSecret E candidate = hash"

text \<open>The key id and the body of a secret, split at the first full stop.\<close>

definition parseSecret :: "string \<Rightarrow> (string \<times> string) option" where
  "parseSecret secret = (let kid = takeWhile (\<lambda>c. c \<noteq> CHR ''.'') secret; rest = dropWhile (\<lambda>c. c \<noteq> CHR ''.'') secret in
     if rest = [] \<or> kid = [] \<or> tl rest = [] then None else Some (kid, tl rest))"

definition make_secret :: "string \<Rightarrow> string \<Rightarrow> string" where
  "make_secret kid body = kid @ ''.'' @ body"

record key_options =
  ko_expiresAt :: "int option"
  ko_scope :: "string list option"
  ko_rotatedFrom :: "string option"
  ko_overlapExpiresAt :: "int option"

definition new_key :: "identity_env \<Rightarrow> string \<Rightarrow> string \<Rightarrow> string \<Rightarrow> string \<Rightarrow> key_options \<Rightarrow> string \<Rightarrow> string \<Rightarrow> int \<Rightarrow> api_key" where
  "new_key E tid oid pid name opts kid body now = \<lparr>ak_keyId = kid, ak_tenantId = tid, ak_orgId = oid, ak_principalId = pid, ak_name = name,
     ak_keyPrefix = take 12 kid @ ie_ellipsis E, ak_secretHash = hashSecret E (make_secret kid body), ak_createdAt = now,
     ak_revokedAt = None, ak_lastUsedAt = None, ak_expiresAt = ko_expiresAt opts, ak_scope = ko_scope opts,
     ak_rotatedFrom = ko_rotatedFrom opts, ak_overlapExpiresAt = ko_overlapExpiresAt opts\<rparr>"

definition createApiKey :: "identity_env \<Rightarrow> string \<Rightarrow> string \<Rightarrow> string \<Rightarrow> string \<Rightarrow> key_options \<Rightarrow> string \<Rightarrow> string \<Rightarrow> int
    \<Rightarrow> (api_key \<times> string) identity_op" where
  "createApiKey E tid oid pid name opts kid body now = needs_org tid oid
     (let row = new_key E tid oid pid name opts kid body now in
      andThen (atomic (ie_hook E) ''createApiKey'' (insert_row api_keys api_keys_update key_clash row Constraint_violation)) (\<lambda>_.
      ok (row, make_secret kid body)))"

definition is_key :: "string \<Rightarrow> string \<Rightarrow> api_key \<Rightarrow> bool" where
  "is_key tid kid r \<longleftrightarrow> ak_keyId r = kid \<and> ak_tenantId r = tid"

definition getApiKey :: "string \<Rightarrow> string \<Rightarrow> identity_db \<Rightarrow> api_key option" where
  "getApiKey tid kid db = sql_get (is_key tid kid) (api_keys db)"

text \<open>A conditional update of keys, with the number of rows it changed.\<close>

definition update_keys :: "(api_key \<Rightarrow> bool) \<Rightarrow> (api_key \<Rightarrow> api_key) \<Rightarrow> nat identity_op" where
  "update_keys p f = andThen (reads (\<lambda>db. sql_count p (api_keys db))) (\<lambda>changes.
     andThen (modifies (api_keys_update (sql_update p f))) (\<lambda>_. ok changes))"

definition revoke_at :: "int \<Rightarrow> api_key \<Rightarrow> api_key" where
  "revoke_at now r = r\<lparr>ak_revokedAt := Some now\<rparr>"

definition key_must_exist :: "string \<Rightarrow> string \<Rightarrow> nat \<Rightarrow> unit identity_op" where
  "key_must_exist tid kid changes = andThen (reads (getApiKey tid kid)) (\<lambda>row.
     if changes = 0 \<and> row = None then throw (IdentityError ''APIKEY_NOT_FOUND'') else ok ())"

definition revokeApiKey :: "identity_env \<Rightarrow> string \<Rightarrow> string \<Rightarrow> int \<Rightarrow> unit identity_op" where
  "revokeApiKey E tid kid now = andThen (atomic (ie_hook E) ''revokeApiKey''
     (update_keys (\<lambda>r. is_key tid kid r \<and> ak_revokedAt r = None) (revoke_at now))) (key_must_exist tid kid)"

definition expireApiKey :: "identity_env \<Rightarrow> string \<Rightarrow> string \<Rightarrow> int \<Rightarrow> unit identity_op" where
  "expireApiKey E tid kid expiry = andThen (atomic (ie_hook E) ''expireApiKey''
     (update_keys (is_key tid kid) (\<lambda>r. r\<lparr>ak_expiresAt := Some expiry\<rparr>))) (key_must_exist tid kid)"

record rotate_options =
  ro_overlapMs :: int
  ro_name :: "string option"
  ro_expiresAt :: "int option"
  ro_scope :: "string list option"

definition first_of :: "'a option \<Rightarrow> 'a option \<Rightarrow> 'a option" where
  "first_of a b = (case a of Some x \<Rightarrow> Some x | None \<Rightarrow> b)"

text \<open>The clock is read for the overlap and again for the replacement.\<close>

definition rotateApiKey :: "identity_env \<Rightarrow> string \<Rightarrow> string \<Rightarrow> rotate_options \<Rightarrow> string \<Rightarrow> string \<Rightarrow> int \<Rightarrow> int
    \<Rightarrow> ((api_key \<times> string) \<times> api_key option) identity_op" where
  "rotateApiKey E tid old_kid opts kid body now now2 = andThen (reads (getApiKey tid old_kid)) (\<lambda>found.
     case found of None \<Rightarrow> throw (IdentityError ''APIKEY_NOT_FOUND'')
     | Some old \<Rightarrow>
         if ak_revokedAt old \<noteq> None then throw (IdentityError ''APIKEY_REVOKED'')
         else andThen (atomic (ie_hook E) ''rotateApiKey_setOverlap''
             (update_keys (is_key tid old_kid) (\<lambda>r. r\<lparr>ak_overlapExpiresAt := Some (now + ro_overlapMs opts)\<rparr>))) (\<lambda>_.
           andThen (createApiKey E tid (ak_orgId old) (ak_principalId old)
             (case ro_name opts of Some n \<Rightarrow> n | None \<Rightarrow> ak_name old @ '' (rotated)'')
             \<lparr>ko_expiresAt = first_of (ro_expiresAt opts) (ak_expiresAt old), ko_scope = first_of (ro_scope opts) (ak_scope old),
              ko_rotatedFrom = Some old_kid, ko_overlapExpiresAt = None\<rparr> kid body now2) (\<lambda>replacement.
           andThen (reads (getApiKey tid old_kid)) (\<lambda>updated. ok (replacement, updated)))))"

definition reapable :: "int \<Rightarrow> api_key \<Rightarrow> bool" where
  "reapable now r \<longleftrightarrow> ak_revokedAt r = None \<and>
     ((case ak_overlapExpiresAt r of None \<Rightarrow> False | Some t \<Rightarrow> t \<le> now) \<or> (case ak_expiresAt r of None \<Rightarrow> False | Some t \<Rightarrow> t \<le> now))"

definition reapExpiredKeys :: "identity_env \<Rightarrow> int \<Rightarrow> nat identity_op" where
  "reapExpiredKeys E now = atomic (ie_hook E) ''reapExpiredKeys''
     (andThen (reads (\<lambda>db. filter (reapable now) (api_keys db))) (\<lambda>gone.
      andThen (for_each gone (\<lambda>k. andThen (update_keys (\<lambda>r. ak_keyId r = ak_keyId k \<and> ak_revokedAt r = None) (revoke_at now)) (\<lambda>_. ok ()))) (\<lambda>_.
      ok (length gone))))"

definition listApiKeys :: "string \<Rightarrow> string \<Rightarrow> identity_db \<Rightarrow> api_key list" where
  "listApiKeys tid oid db = sort_key ak_createdAt (filter (\<lambda>r. ak_tenantId r = tid \<and> ak_orgId r = oid) (api_keys db))"

section \<open>Authentication and authorisation\<close>

definition resolvePrincipal :: "string \<Rightarrow> string \<Rightarrow> role \<Rightarrow> resolved_principal identity_op" where
  "resolvePrincipal pid oid fallback = andThen (reads (\<lambda>db. (getPrincipalTenant pid db, db))) (\<lambda>(found, db).
     case found of None \<Rightarrow> throw (IdentityError ''PRINCIPAL_NOT_FOUND'')
     | Some tid \<Rightarrow>
         if tid = [] then throw (IdentityError ''PRINCIPAL_NOT_FOUND'')
         else ok \<lparr>pr_principalId = pid,
           pr_kind = (case sql_get (\<lambda>r. pp_principalId r = pid) (principals db) of Some p \<Rightarrow> pp_kind p | None \<Rightarrow> User_principal),
           pr_tenantId = tid, pr_orgId = oid,
           pr_role = (case getMember tid oid pid db of Some m \<Rightarrow> mb_role m | None \<Rightarrow> fallback),
           pr_projectScope = map gr_projectId (filter (\<lambda>g. gr_tenantId g = tid \<and> gr_orgId g = oid \<and> gr_principalId g = pid) (project_grants db)),
           pr_admin = False, pr_apiKeyId = None, pr_apiKeyScope = None\<rparr>)"

definition find_key :: "string \<Rightarrow> identity_db \<Rightarrow> api_key option" where
  "find_key kid db = sql_get (\<lambda>r. ak_keyId r = kid) (api_keys db)"

definition usable :: "identity_env \<Rightarrow> int \<Rightarrow> string \<Rightarrow> api_key \<Rightarrow> bool" where
  "usable E now secret r \<longleftrightarrow> ak_revokedAt r = None \<and> (case ak_expiresAt r of None \<Rightarrow> True | Some t \<Rightarrow> t > now) \<and>
     verifySecret E secret (ak_secretHash r)"

definition authenticateApiKey :: "identity_env \<Rightarrow> string \<Rightarrow> int \<Rightarrow> int \<Rightarrow> resolved_principal option identity_op" where
  "authenticateApiKey E secret now used = (case parseSecret secret of None \<Rightarrow> ok None
     | Some (kid, _) \<Rightarrow> andThen (reads (find_key kid)) (\<lambda>found.
         case found of None \<Rightarrow> ok None
         | Some r \<Rightarrow>
             if \<not> usable E now secret r then ok None
             else andThen (reads (getMember (ak_tenantId r) (ak_orgId r) (ak_principalId r))) (\<lambda>m.
               case m of None \<Rightarrow> ok None
               | Some mb \<Rightarrow>
                   andThen (atomic (ie_hook E) ''touchApiKey'' (update_keys (\<lambda>x. ak_keyId x = ak_keyId r) (\<lambda>x. x\<lparr>ak_lastUsedAt := Some used\<rparr>))) (\<lambda>_.
                   andThen (resolvePrincipal (ak_principalId r) (ak_orgId r) (mb_role mb)) (\<lambda>p.
                   ok (Some (p\<lparr>pr_apiKeyId := Some (ak_keyId r), pr_apiKeyScope := ak_scope r\<rparr>)))))))"

definition authorize :: "resolved_principal \<Rightarrow> string \<Rightarrow> string \<Rightarrow> (string \<times> string) identity_op" where
  "authorize p oid prj =
     (if pr_admin p then ok (oid, prj)
      else if pr_orgId p \<noteq> oid then throw (IdentityError ''FORBIDDEN_ORG'')
      else andThen
        (if prj \<noteq> ''*'' then
           needs_org (pr_tenantId p) oid (andThen (reads (getProject (pr_tenantId p) oid prj)) (\<lambda>found.
             if found = None then throw (IdentityError ''PROJECT_NOT_FOUND'')
             else if ''*'' \<in> set (pr_projectScope p) \<or> prj \<in> set (pr_projectScope p) then ok ()
             else throw (IdentityError ''FORBIDDEN_PROJECT'')))
         else ok ()) (\<lambda>_.
        case pr_apiKeyScope p of
          Some scope \<Rightarrow> if prj \<noteq> ''*'' \<and> prj \<notin> set scope then throw (IdentityError ''FORBIDDEN_APIKEY_SCOPE'') else ok (oid, prj)
        | None \<Rightarrow> ok (oid, prj)))"

definition requireRole :: "resolved_principal \<Rightarrow> role \<Rightarrow> identity_error + unit" where
  "requireRole p ro = (if ROLE_RANK (pr_role p) < ROLE_RANK ro then Inl (IdentityError ''FORBIDDEN_ROLE'') else Inr ())"

definition requireAdmin :: "resolved_principal \<Rightarrow> identity_error + unit" where
  "requireAdmin p = (if pr_role p \<notin> {Owner, Admin} then Inl (IdentityError ''FORBIDDEN_ROLE'') else Inr ())"

definition validateJobIdentity :: "job_identity \<Rightarrow> unit identity_op" where
  "validateJobIdentity i = andThen (reads (getOrganization (tenantId i) (orgId i))) (\<lambda>found.
     case found of None \<Rightarrow> throw (IdentityError ''ORG_NOT_FOUND'')
     | Some org \<Rightarrow>
         if og_tenantId org \<noteq> tenantId i then throw (IdentityError ''IDENTITY_MISMATCH'')
         else if projectId i = ''*'' then ok ()
         else andThen (reads (getProject (tenantId i) (orgId i) (projectId i))) (\<lambda>prj.
           case prj of None \<Rightarrow> throw (IdentityError ''PROJECT_NOT_FOUND'')
           | Some p \<Rightarrow> if pj_tenantId p \<noteq> tenantId i \<or> pj_orgId p \<noteq> orgId i then throw (IdentityError ''IDENTITY_MISMATCH'') else ok ()))"

end
