(* ===== verification/Identity_Properties.thy ===== *)
theory Identity_Properties
  imports Identity_Store
begin

text \<open>
  What any sequence of identity operations keeps: an organisation that has an owner has one for good, a
  revoked key stays revoked, a settled invitation stays settled; and what authorisation decides.
\<close>

section \<open>Tables under constraints\<close>

lemma unique_rows_append [simp]:
  "(\<And>a b. uq a b \<Longrightarrow> uq b a) \<Longrightarrow> unique_rows uq (rows @ [r]) \<longleftrightarrow> unique_rows uq rows \<and> \<not> sql_clash uq r rows"
  by (induction rows) (auto simp: sql_clash_def list_ex_iff)

lemma unique_rows_filter: "unique_rows uq rows \<Longrightarrow> unique_rows uq (filter p rows)"
  by (induction rows) (auto simp: list_ex_iff)

lemma unique_rows_map:
  "(\<And>a b. uq (f a) (f b) \<longleftrightarrow> uq a b) \<Longrightarrow> unique_rows uq (map f rows) \<longleftrightarrow> unique_rows uq rows"
  by (induction rows) (auto simp: list_ex_iff)

lemma unique_rows_eq:
  "unique_rows uq rows \<Longrightarrow> a \<in> set rows \<Longrightarrow> b \<in> set rows \<Longrightarrow> uq a b \<Longrightarrow> (\<And>a b. uq a b \<Longrightarrow> uq b a) \<Longrightarrow> a = b"
  by (induction rows) (auto simp: list_ex_iff)

lemma unique_rows_count:
  assumes "unique_rows uq rows" "\<And>a b. q a \<Longrightarrow> q b \<Longrightarrow> uq a b"
  shows "sql_count q rows < 2"
  using assms(1)
proof (induction rows)
  case (Cons r rows)
  have "q r \<Longrightarrow> filter q rows = []"
    using Cons.prems assms(2) by (auto simp: list_ex_iff filter_empty_conv)
  then show ?case using Cons by (auto simp: sql_count_def)
qed simp

lemma updated_mem: "r \<in> set rows \<Longrightarrow> (if p r then f r else r) \<in> set (sql_update p f rows)"
  unfolding set_sql_update by (rule imageI)

section \<open>What operations keep\<close>

definition has_owner :: "string \<Rightarrow> string \<Rightarrow> member list \<Rightarrow> bool" where
  "has_owner tid oid ms \<longleftrightarrow> (\<exists>m \<in> set ms. mb_tenantId m = tid \<and> mb_orgId m = oid \<and> mb_role m = Owner)"

definition members_grow :: "member list \<Rightarrow> member list \<Rightarrow> bool" where
  "members_grow ms ns \<longleftrightarrow> (unique_rows member_clash ms \<longrightarrow>
     unique_rows member_clash ns \<and> (\<forall>tid oid. has_owner tid oid ms \<longrightarrow> has_owner tid oid ns))"

definition key_grows :: "api_key \<Rightarrow> api_key \<Rightarrow> bool" where
  "key_grows a b \<longleftrightarrow> ak_keyId b = ak_keyId a \<and> ak_tenantId b = ak_tenantId a \<and> ak_secretHash b = ak_secretHash a \<and>
     (ak_revokedAt a \<noteq> None \<longrightarrow> ak_revokedAt b = ak_revokedAt a)"

definition keys_grow :: "api_key list \<Rightarrow> api_key list \<Rightarrow> bool" where
  "keys_grow ks ls \<longleftrightarrow> (\<forall>kid a. sql_get (\<lambda>r. ak_keyId r = kid) ks = Some a \<longrightarrow>
     (\<exists>b. sql_get (\<lambda>r. ak_keyId r = kid) ls = Some b \<and> key_grows a b))"

definition invitations_grow :: "invitation_row list \<Rightarrow> invitation_row list \<Rightarrow> bool" where
  "invitations_grow is js \<longleftrightarrow> (unique_rows invitation_clash is \<longrightarrow>
     unique_rows invitation_clash js \<and> (\<forall>r \<in> set is. iv_status r \<noteq> Inv_pending \<longrightarrow> r \<in> set js))"

definition identity_history :: "identity_db \<Rightarrow> identity_db \<Rightarrow> bool" where
  "identity_history s t \<longleftrightarrow> members_grow (org_members s) (org_members t) \<and> keys_grow (api_keys s) (api_keys t) \<and>
     invitations_grow (org_invitations s) (org_invitations t)"

lemma grow_refl [simp]: "members_grow ms ms" "keys_grow ks ks" "invitations_grow is is"
  by (simp_all add: members_grow_def keys_grow_def key_grows_def invitations_grow_def)

lemma grow_trans:
  "members_grow ms ns \<Longrightarrow> members_grow ns os \<Longrightarrow> members_grow ms os"
  "invitations_grow is js \<Longrightarrow> invitations_grow js ks \<Longrightarrow> invitations_grow is ks"
  by (auto simp: members_grow_def invitations_grow_def)

lemma keys_grow_trans: "keys_grow ks ls \<Longrightarrow> keys_grow ls ms \<Longrightarrow> keys_grow ks ms"
  unfolding keys_grow_def key_grows_def by metis

interpretation ih: op_relation identity_history
  by unfold_locales (auto simp: identity_history_def intro: grow_trans keys_grow_trans)

lemma member_clash_sym: "member_clash a b \<Longrightarrow> member_clash b a"
  by (auto simp: member_clash_def)

lemma invitation_clash_sym: "invitation_clash a b \<Longrightarrow> invitation_clash b a"
  by (auto simp: invitation_clash_def same_invite_def)

text \<open>Statements on the other tables, and on the three.\<close>

lemma untouched:
  "org_members t = org_members s \<Longrightarrow> api_keys t = api_keys s \<Longrightarrow> org_invitations t = org_invitations s \<Longrightarrow> identity_history s t"
  by (simp add: identity_history_def)

lemma obeys_insert_other:
  assumes "\<And>f s. org_members (upd f s) = org_members s" "\<And>f s. api_keys (upd f s) = api_keys s"
    "\<And>f s. org_invitations (upd f s) = org_invitations s"
  shows "ih.obeys (insert_row sel upd uq row e)"
  using assms by (auto simp: insert_row_def ih.obeys_def intro: untouched)

lemma obeys_insert_member: "ih.obeys (insert_row org_members org_members_update member_clash row e)"
  by (auto simp: insert_row_def ih.obeys_def identity_history_def members_grow_def has_owner_def member_clash_sym)

lemma obeys_insert_key: "ih.obeys (insert_row api_keys api_keys_update key_clash row e)"
  by (auto simp: insert_row_def ih.obeys_def identity_history_def keys_grow_def key_grows_def)

lemma obeys_insert_invitation: "ih.obeys (insert_row org_invitations org_invitations_update invitation_clash row e)"
  by (auto simp: insert_row_def ih.obeys_def identity_history_def invitations_grow_def invitation_clash_sym)

lemma keys_grow_update:
  assumes "\<And>r. p r \<Longrightarrow> key_grows r (f r)"
  shows "keys_grow ks (sql_update p f ks)"
proof -
  have k: "p r \<Longrightarrow> ak_keyId (f r) = ak_keyId r" for r
    using assms by (auto simp: key_grows_def)
  have "sql_get (\<lambda>r. ak_keyId r = kid) (sql_update p f ks) =
      map_option (\<lambda>r. if p r then f r else r) (sql_get (\<lambda>r. ak_keyId r = kid) ks)" for kid
    by (rule sql_get_update) (simp add: k)
  then show ?thesis
    using assms by (auto simp: keys_grow_def) (auto simp: key_grows_def)
qed

lemma obeys_update_keys: "(\<And>r. p r \<Longrightarrow> key_grows r (f r)) \<Longrightarrow> ih.obeys (update_keys p f)"
  by (auto simp: update_keys_def ih.obeys_def identity_history_def intro: keys_grow_update)

lemma obeys_update_rows: "(\<And>r. p r \<Longrightarrow> iv_status r = Inv_pending) \<Longrightarrow> ih.obeys (update_rows p f)"
  by (auto simp: update_rows_def ih.obeys_def identity_history_def invitations_grow_def set_sql_update)

lemma obeys_purge: "ih.obeys (modifies (org_invitations_update (filter (\<lambda>r. \<not> (pending_for tid oid email r \<and> q r)))))"
  by (auto simp: ih.obeys_def identity_history_def invitations_grow_def pending_for_def unique_rows_filter)

lemma obeys_identity_atomic: "ih.obeys m \<Longrightarrow> ih.obeys (atomic hook name m)"
  unfolding ih.obeys_def atomic_def by (auto simp: ih.R_refl split: prod.splits sum.splits option.splits) (metis snd_conv)

lemmas identity_intros = obeys_insert_member obeys_insert_key obeys_insert_invitation obeys_insert_other obeys_purge
  obeys_identity_atomic ih.obeys_intros

section \<open>The last owner\<close>

definition owner_of :: "string \<Rightarrow> string \<Rightarrow> member \<Rightarrow> bool" where
  "owner_of tid oid m \<longleftrightarrow> mb_tenantId m = tid \<and> mb_orgId m = oid \<and> mb_role m = Owner"

lemma other_owner:
  assumes "unique_rows member_clash ms" "2 \<le> sql_count (owner_of tid oid) ms"
  shows "\<exists>m \<in> set ms. owner_of tid oid m \<and> mb_principalId m \<noteq> pid"
proof (rule ccontr)
  assume "\<not> ?thesis"
  then have "sql_count (owner_of tid oid) ms = sql_count (\<lambda>m. owner_of tid oid m \<and> mb_principalId m = pid) ms"
    by (auto simp: sql_count_def intro: arg_cong [where f = length] filter_cong)
  moreover have "sql_count (\<lambda>m. owner_of tid oid m \<and> mb_principalId m = pid) ms < 2"
    by (rule unique_rows_count [OF assms(1)]) (auto simp: owner_of_def member_clash_def)
  ultimately show False using assms(2) by simp
qed

lemma unique_set_role: "unique_rows member_clash (sql_update p (\<lambda>r. r\<lparr>mb_role := ro\<rparr>) ms) \<longleftrightarrow> unique_rows member_clash ms"
  unfolding sql_update_def by (rule unique_rows_map) (auto simp: member_clash_def)

lemma has_owner_update: "has_owner tid oid (sql_update p f ms) \<longleftrightarrow> (\<exists>m \<in> set ms. owner_of tid oid (if p m then f m else m))"
  by (simp only: has_owner_def owner_of_def set_sql_update bex_simps)

lemma set_role_grows:
  assumes "ro = Owner \<or> (\<forall>m \<in> set ms. p m \<longrightarrow> mb_role m \<noteq> Owner) \<or>
      ((\<forall>m \<in> set ms. p m \<longrightarrow> is_member tid oid pid m) \<and> 2 \<le> sql_count (owner_of tid oid) ms)"
  shows "members_grow ms (sql_update p (\<lambda>r. r\<lparr>mb_role := ro\<rparr>) ms)"
  unfolding members_grow_def unique_set_role
proof (intro impI conjI allI)
  fix tid' oid'
  assume u: "unique_rows member_clash ms" and "has_owner tid' oid' ms"
  then obtain m where m: "m \<in> set ms" "owner_of tid' oid' m"
    by (auto simp: has_owner_def owner_of_def)
  show "has_owner tid' oid' (sql_update p (\<lambda>r. r\<lparr>mb_role := ro\<rparr>) ms)"
  proof (cases "ro = Owner \<or> \<not> p m")
    case True
    then show ?thesis
      using m by (auto simp: has_owner_update owner_of_def intro!: bexI [of _ m])
  next
    case False
    then have c: "\<forall>m \<in> set ms. p m \<longrightarrow> is_member tid oid pid m" "2 \<le> sql_count (owner_of tid oid) ms"
      using assms m by (auto simp: owner_of_def)
    have "tid' = tid" "oid' = oid"
      using c(1) m False by (auto simp: is_member_def owner_of_def)
    moreover obtain n where "n \<in> set ms" "owner_of tid oid n" "mb_principalId n \<noteq> pid"
      using other_owner [OF u c(2)] by blast
    moreover from this have "\<not> p n" using c(1) by (auto simp: is_member_def)
    ultimately show ?thesis
      by (auto simp: has_owner_update owner_of_def intro!: bexI [of _ n])
  qed
qed

lemma owners_locked: "countOwnersLocked tid oid s = sql_count (owner_of tid oid) (org_members s)"
  by (simp add: countOwnersLocked_def owner_of_def [abs_def])

lemma members_only:
  "members_grow (org_members s) (f (org_members s)) \<Longrightarrow> identity_history s (org_members_update f s)"
  by (simp add: identity_history_def)

lemma obeys_setMemberRole: "ih.obeys (setMemberRole E tid oid pid ro)"
  unfolding setMemberRole_def
proof (rule obeys_identity_atomic, rule ih.obeysI)
  fix s r t
  assume m: "andThen (reads (getMember tid oid pid)) (\<lambda>row.
      case row of None \<Rightarrow> throw (IdentityError ''MEMBER_NOT_FOUND'')
      | Some r \<Rightarrow> let current = mb_role r in if ro = current then ok ()
          else andThen (reads (countOwnersLocked tid oid)) (\<lambda>owners.
            if current = Owner \<and> ro \<noteq> Owner \<and> owners < 2 then throw (IdentityError ''LAST_OWNER'')
            else modifies (org_members_update
              (sql_update (\<lambda>r. is_member tid oid pid r \<and> mb_role r = current) (\<lambda>r. r\<lparr>mb_role := ro\<rparr>))))) s = (r, t)"
  show "identity_history s t"
  proof (cases "getMember tid oid pid s")
    case None
    then show ?thesis using m by (simp add: ih.R_refl)
  next
    case (Some x)
    have g: "members_grow (org_members s) (sql_update (\<lambda>r. is_member tid oid pid r \<and> mb_role r = mb_role x) (\<lambda>r. r\<lparr>mb_role := ro\<rparr>) (org_members s))"
      if "\<not> (mb_role x = Owner \<and> ro \<noteq> Owner \<and> countOwnersLocked tid oid s < 2)"
      by (rule set_role_grows [where tid = tid and oid = oid and pid = pid]) (use that in \<open>auto simp: owners_locked\<close>)
    show ?thesis
      using m Some g by (auto simp: Let_def ih.R_refl intro: members_only split: if_splits)
  qed
qed

lemma remove_grows:
  assumes "2 \<le> sql_count (owner_of tid oid) ms \<or> (\<forall>m \<in> set ms. is_member tid oid pid m \<longrightarrow> mb_role m \<noteq> Owner)"
  shows "members_grow ms (filter (\<lambda>r. \<not> is_member tid oid pid r) ms)"
  unfolding members_grow_def
proof (intro impI conjI allI)
  fix tid' oid'
  assume u: "unique_rows member_clash ms" and "has_owner tid' oid' ms"
  then obtain m where m: "m \<in> set ms" "owner_of tid' oid' m"
    by (auto simp: has_owner_def owner_of_def)
  show "has_owner tid' oid' (filter (\<lambda>r. \<not> is_member tid oid pid r) ms)"
  proof (cases "is_member tid oid pid m")
    case False
    then show ?thesis using m by (auto simp: has_owner_def owner_of_def)
  next
    case True
    then have "2 \<le> sql_count (owner_of tid oid) ms" "tid' = tid" "oid' = oid"
      using assms m by (auto simp: owner_of_def is_member_def)
    then show ?thesis
      using other_owner [OF u, of tid oid pid] by (auto simp: has_owner_def owner_of_def is_member_def)
  qed
qed (rule unique_rows_filter)

lemma getMember_unique:
  "unique_rows member_clash (org_members s) \<Longrightarrow> getMember tid oid pid s = Some x \<Longrightarrow> m \<in> set (org_members s) \<Longrightarrow> is_member tid oid pid m \<Longrightarrow> m = x"
  unfolding getMember_def
  by (drule sql_get_Some) (auto intro: unique_rows_eq [where uq = member_clash] simp: member_clash_sym member_clash_def is_member_def)

lemma members_grow_if: "(unique_rows member_clash ms \<Longrightarrow> members_grow ms ns) \<Longrightarrow> members_grow ms ns"
  by (auto simp: members_grow_def)

lemma obeys_removeMember: "ih.obeys (removeMember E tid oid pid)"
  unfolding removeMember_def
proof (rule obeys_identity_atomic, rule ih.obeysI)
  fix s r t
  assume m: "andThen (reads (getMember tid oid pid)) (\<lambda>row.
      case row of None \<Rightarrow> ok ()
      | Some r \<Rightarrow> andThen (reads (countOwnersLocked tid oid)) (\<lambda>owners.
          if mb_role r = Owner \<and> owners < 2 then throw (IdentityError ''LAST_OWNER'')
          else modifies (org_members_update (filter (\<lambda>r. \<not> is_member tid oid pid r))))) s = (r, t)"
  show "identity_history s t"
  proof (cases "getMember tid oid pid s")
    case None
    then show ?thesis using m by (simp add: ih.R_refl)
  next
    case (Some x)
    have g: "members_grow (org_members s) (filter (\<lambda>r. \<not> is_member tid oid pid r) (org_members s))"
      if "\<not> (mb_role x = Owner \<and> countOwnersLocked tid oid s < 2)"
      by (rule members_grow_if, rule remove_grows) (use that getMember_unique [OF _ Some] in \<open>auto simp: owners_locked\<close>)
    show ?thesis
      using m Some g by (auto simp: ih.R_refl intro: members_only split: if_splits)
  qed
qed

text \<open>A transfer makes the new owner before it demotes the old.\<close>

lemma transfer_grows:
  assumes "\<exists>m \<in> set ms. is_member tid oid to_pid m" "from_pid \<noteq> to_pid"
  shows "members_grow ms (sql_update (is_member tid oid from_pid) (\<lambda>r. r\<lparr>mb_role := Admin\<rparr>)
    (sql_update (is_member tid oid to_pid) (\<lambda>r. r\<lparr>mb_role := Owner\<rparr>) ms))"
  unfolding members_grow_def unique_set_role
proof (intro impI conjI allI)
  fix tid' oid'
  assume u: "unique_rows member_clash ms" and "has_owner tid' oid' ms"
  then obtain m where m: "m \<in> set ms" "owner_of tid' oid' m"
    by (auto simp: has_owner_def owner_of_def)
  obtain n where n: "n \<in> set ms" "is_member tid oid to_pid n"
    using assms(1) by blast
  have step: "has_owner tid' oid' (sql_update q g (sql_update p f ms))" if "x \<in> set ms"
    "owner_of tid' oid' (let y = if p x then f x else x in if q y then g y else y)" for x p f q g
  proof -
    have "(if p x then f x else x) \<in> set (sql_update p f ms)"
      by (rule updated_mem [OF that(1)])
    then show ?thesis
      unfolding has_owner_update using that(2) by (intro bexI [of _ "if p x then f x else x"]) (simp_all add: Let_def)
  qed
  show "has_owner tid' oid' (sql_update (is_member tid oid from_pid) (\<lambda>r. r\<lparr>mb_role := Admin\<rparr>)
      (sql_update (is_member tid oid to_pid) (\<lambda>r. r\<lparr>mb_role := Owner\<rparr>) ms))"
  proof (cases "is_member tid oid from_pid m")
    case True
    then show ?thesis
      using n m assms(2) by (intro step [of n]) (auto simp: owner_of_def is_member_def)
  next
    case False
    then show ?thesis
      using m by (intro step [of m]) (auto simp: owner_of_def is_member_def)
  qed
qed

lemma obeys_transferOwnership: "ih.obeys (transferOwnership E tid oid from_pid to_pid)"
proof (cases "from_pid = to_pid")
  case True
  then show ?thesis by (simp add: transferOwnership_def ih.obeys_basic)
next
  case False
  show ?thesis
    unfolding transferOwnership_def if_not_P [OF False]
  proof (rule obeys_identity_atomic, rule ih.obeysI)
    fix s r t
    assume m: "andThen (reads (getMember tid oid from_pid)) (\<lambda>from_row.
         case from_row of None \<Rightarrow> throw (IdentityError ''MEMBER_NOT_FOUND'')
         | Some f \<Rightarrow>
             if mb_role f \<noteq> Owner then throw (IdentityError ''OWNER_TRANSFER_INVALID'')
             else andThen (reads (getMember tid oid to_pid)) (\<lambda>to_row.
               case to_row of None \<Rightarrow> throw (IdentityError ''MEMBER_NOT_FOUND'')
               | Some t \<Rightarrow>
                   andThen (set_role tid oid to_pid Owner) (\<lambda>_.
                   andThen (set_role tid oid from_pid Admin) (\<lambda>_.
                   ok (\<lparr>mb_tenantId = tid, mb_orgId = oid, mb_principalId = from_pid, mb_role = Admin, mb_createdAt = mb_createdAt f\<rparr>,
                       \<lparr>mb_tenantId = tid, mb_orgId = oid, mb_principalId = to_pid, mb_role = Owner, mb_createdAt = mb_createdAt t\<rparr>))))) s = (r, t)"
    show "identity_history s t"
    proof (cases "getMember tid oid to_pid s")
      case None
      then show ?thesis using m by (auto simp: ih.R_refl split: option.splits if_splits)
    next
      case (Some x)
      then have "\<exists>m \<in> set (org_members s). is_member tid oid to_pid m"
        by (auto simp: getMember_def dest!: sql_get_Some)
      note g = transfer_grows [OF this False]
      show ?thesis
        using m Some g by (auto simp: set_role_def ih.R_refl identity_history_def split: option.splits if_splits)
    qed
  qed
qed

section \<open>All operations\<close>

lemma obeys_needs_org: "ih.obeys m \<Longrightarrow> ih.obeys (needs_org tid oid m)"
  unfolding needs_org_def by (intro ih.obeys_intros)

lemma obeys_creations:
  "ih.obeys (createTenant E tid creator display now)"
  "ih.obeys (createOrganization E tid oid display now)"
  "ih.obeys (addMember E tid oid pid ro now)"
  "ih.obeys (grantProject E tid oid prj pid ro)"
  "ih.obeys (createProject E tid oid prj display now)"
  "ih.obeys (registerPrincipal E tid pid knd now)"
  "ih.obeys (createApiKey E tid oid pid name opts kid body now)"
  unfolding createTenant_def createOrganization_def addMember_def grantProject_def createProject_def registerPrincipal_def
    createApiKey_def Let_def
  by (intro obeys_needs_org identity_intros; simp)+

lemma obeys_createInvitation: "ih.obeys (createInvitation E tid oid inp iid token now)"
  unfolding createInvitation_def Let_def by (intro obeys_needs_org obeys_insert_invitation obeys_purge obeys_identity_atomic ih.obeys_intros)

lemma obeys_settle_invitations:
  "ih.obeys (revokeInvitation E tid oid iid now)"
  "ih.obeys (expireInvitations E recorded now)"
  "ih.obeys (markInvitationExpired E iid now)"
  unfolding revokeInvitation_def expireInvitations_def markInvitationExpired_def Let_def
  by (intro obeys_update_rows identity_intros; simp)+

lemma obeys_pin: "ih.obeys (pin_principal pid tid now)"
  unfolding pin_principal_def by (intro obeys_insert_other ih.obeys_intros; simp)

lemma obeys_acceptInvitation: "ih.obeys (acceptInvitation E token pid verified now)"
  unfolding acceptInvitation_def Let_def
  by (intro obeys_pin obeys_insert_member obeys_update_rows obeys_identity_atomic ih.obeys_intros) auto

lemma obeys_keys:
  "ih.obeys (revokeApiKey E tid kid now)"
  "ih.obeys (expireApiKey E tid kid expiry)"
  "ih.obeys (reapExpiredKeys E now)"
  unfolding revokeApiKey_def expireApiKey_def reapExpiredKeys_def key_must_exist_def
  by (intro obeys_update_keys obeys_identity_atomic ih.obeys_intros; auto simp: key_grows_def revoke_at_def)+

lemma obeys_rotateApiKey: "ih.obeys (rotateApiKey E tid old_kid opts kid body now now2)"
  unfolding rotateApiKey_def
  by (intro obeys_creations obeys_update_keys obeys_identity_atomic ih.obeys_intros) (auto simp: key_grows_def)

lemma obeys_authenticateApiKey: "ih.obeys (authenticateApiKey E secret now used)"
  unfolding authenticateApiKey_def resolvePrincipal_def
  by (intro obeys_update_keys obeys_identity_atomic ih.obeys_intros) (auto simp: key_grows_def)

text \<open>A call on the store, by any caller, with its result or error.\<close>

inductive identity_step :: "host \<Rightarrow> identity_db \<Rightarrow> identity_db \<Rightarrow> bool" for h where
  step_tenant: "createTenant E tid creator display now s = (x, t) \<Longrightarrow> identity_step h s t"
| step_org: "createOrganization E tid oid display now s = (x, t) \<Longrightarrow> identity_step h s t"
| step_member: "addMember E tid oid pid ro now s = (x, t) \<Longrightarrow> identity_step h s t"
| step_role: "setMemberRole E tid oid pid ro s = (x, t) \<Longrightarrow> identity_step h s t"
| step_remove: "removeMember E tid oid pid s = (x, t) \<Longrightarrow> identity_step h s t"
| step_transfer: "transferOwnership E tid oid from_pid to_pid s = (x, t) \<Longrightarrow> identity_step h s t"
| step_invite: "createInvitation E tid oid inp iid token now s = (x, t) \<Longrightarrow> ie_host E = h \<Longrightarrow> identity_step h s t"
| step_uninvite: "revokeInvitation E tid oid iid now s = (x, t) \<Longrightarrow> identity_step h s t"
| step_accept: "acceptInvitation E token pid verified now s = (x, t) \<Longrightarrow> ie_host E = h \<Longrightarrow> identity_step h s t"
| step_expireInvitations: "expireInvitations E recorded now s = (x, t) \<Longrightarrow> identity_step h s t"
| step_markExpired: "markInvitationExpired E iid now s = (x, t) \<Longrightarrow> identity_step h s t"
| step_grant: "grantProject E tid oid prj pid ro s = (x, t) \<Longrightarrow> identity_step h s t"
| step_project: "createProject E tid oid prj display now s = (x, t) \<Longrightarrow> identity_step h s t"
| step_principal: "registerPrincipal E tid pid knd now s = (x, t) \<Longrightarrow> identity_step h s t"
| step_key: "createApiKey E tid oid pid name opts kid body now s = (x, t) \<Longrightarrow> ie_host E = h \<Longrightarrow> identity_step h s t"
| step_revokeKey: "revokeApiKey E tid kid now s = (x, t) \<Longrightarrow> identity_step h s t"
| step_expireKey: "expireApiKey E tid kid expiry s = (x, t) \<Longrightarrow> identity_step h s t"
| step_rotateKey: "rotateApiKey E tid old_kid opts kid body now now2 s = (x, t) \<Longrightarrow> ie_host E = h \<Longrightarrow> identity_step h s t"
| step_reapKeys: "reapExpiredKeys E now s = (x, t) \<Longrightarrow> identity_step h s t"
| step_authenticate: "authenticateApiKey E secret now used s = (x, t) \<Longrightarrow> ie_host E = h \<Longrightarrow> identity_step h s t"

inductive identity_run :: "host \<Rightarrow> identity_db \<Rightarrow> identity_db \<Rightarrow> bool" for h where
  identity_done: "identity_run h s s"
| identity_more: "identity_step h s t \<Longrightarrow> identity_run h t u \<Longrightarrow> identity_run h s u"

lemma identity_step_history: "identity_step h s t \<Longrightarrow> identity_history s t"
  by (induction rule: identity_step.induct)
    (erule obeys_creations [THEN ih.obeysD] obeys_setMemberRole [THEN ih.obeysD] obeys_removeMember [THEN ih.obeysD]
      obeys_transferOwnership [THEN ih.obeysD] obeys_createInvitation [THEN ih.obeysD] obeys_settle_invitations [THEN ih.obeysD]
      obeys_acceptInvitation [THEN ih.obeysD] obeys_keys [THEN ih.obeysD] obeys_rotateApiKey [THEN ih.obeysD]
      obeys_authenticateApiKey [THEN ih.obeysD])+

lemma identity_run_history: "identity_run h s t \<Longrightarrow> identity_history s t"
  by (induction rule: identity_run.induct) (auto intro: ih.R_refl ih.R_trans identity_step_history)

lemma identity_run_one: "identity_step h s t \<Longrightarrow> identity_run h s t"
  by (rule identity_more [OF _ identity_done])

definition identity_ok :: "identity_db \<Rightarrow> bool" where
  "identity_ok db \<longleftrightarrow> unique_rows member_clash (org_members db) \<and> unique_rows invitation_clash (org_invitations db)"

lemma identity_reached: "identity_run h empty_identity_db s \<Longrightarrow> identity_ok s"
  by (drule identity_run_history)
    (simp add: identity_ok_def identity_history_def members_grow_def invitations_grow_def empty_identity_db_def)

section \<open>Theorems\<close>

text \<open>
  C33. An organisation is never left without an owner: once it has one, it has one after any sequence
  of operations of any callers, demotions, removals and transfers included.
\<close>

theorem last_owner_kept:
  assumes "identity_run h empty_identity_db s" "has_owner tid oid (org_members s)" "identity_run h s t"
  shows "has_owner tid oid (org_members t)"
  using identity_reached [OF assms(1)] identity_run_history [OF assms(3)] assms(2)
  by (simp add: identity_ok_def identity_history_def members_grow_def)

text \<open>
  C34. A revoked key is dead: whatever runs after the revocation, no secret with its key id
  authenticates, and the attempt changes nothing.
\<close>

theorem revoked_key_dead:
  assumes "find_key kid s = Some r" "ak_revokedAt r = Some since" "identity_run h s t" "parseSecret secret = Some (kid, body)"
  shows "authenticateApiKey E secret now used t = (Inr None, t)"
proof -
  obtain q where "find_key kid t = Some q" "key_grows r q"
    using identity_run_history [OF assms(3)] assms(1) unfolding identity_history_def keys_grow_def find_key_def by metis
  then show ?thesis
    using assms(2,4) by (simp add: authenticateApiKey_def usable_def key_grows_def)
qed

lemma update_rows_Inr: "update_rows p f s = (Inr n, t) \<longleftrightarrow> n = sql_count p (org_invitations s) \<and>
    unique_rows invitation_clash (sql_update p f (org_invitations s)) \<and> t = s\<lparr>org_invitations := sql_update p f (org_invitations s)\<rparr>"
  by (auto simp: update_rows_def)

lemma insert_row_Inr: "insert_row sel upd uq row e s = (Inr u, t) \<longleftrightarrow> \<not> sql_clash uq row (sel s) \<and> t = upd (\<lambda>rows. rows @ [row]) s"
  by (auto simp: insert_row_def)

lemma pin_invitations: "pin_principal pid tid now s = (x, t) \<Longrightarrow> org_invitations t = org_invitations s"
  by (auto simp: pin_principal_def catch_def insert_row_def split: option.splits if_splits)

lemma accepted_row:
  assumes "acceptInvitation E token pid verified now s = (Inr m, t)"
  shows "\<exists>r \<in> set (org_invitations t). iv_token_hash r = invitationTokenHash E token \<and> iv_status r = Inv_accepted \<and> iv_acceptedBy r = Some pid"
proof -
  obtain r u where r: "by_token E token s = Some r" "iv_status r = Inv_pending" "\<not> iv_expiresAt r < now"
    and t: "org_invitations t = sql_update (\<lambda>x. iv_invitationId x = iv_invitationId r \<and> iv_status x = Inv_pending \<and> iv_expiresAt x \<ge> now)
      (\<lambda>x. x\<lparr>iv_status := Inv_accepted, iv_acceptedAt := Some now, iv_acceptedBy := Some pid\<rparr>) (org_invitations s)"
    using assms unfolding acceptInvitation_def atomic_Inr Let_def
    by (auto simp: andThen_Inr_iff update_rows_Inr insert_row_Inr dest!: pin_invitations split: option.splits if_splits)
  have "r \<in> set (org_invitations s)" "iv_token_hash r = invitationTokenHash E token"
    using r(1) by (auto simp: by_token_def dest!: sql_get_Some)
  moreover have "(if iv_invitationId r = iv_invitationId r \<and> iv_status r = Inv_pending \<and> iv_expiresAt r \<ge> now
      then r\<lparr>iv_status := Inv_accepted, iv_acceptedAt := Some now, iv_acceptedBy := Some pid\<rparr> else r) \<in> set (org_invitations t)"
    unfolding t by (rule updated_mem [OF calculation(1)])
  ultimately show ?thesis
    using r(2,3) by (intro bexI [of _ "r\<lparr>iv_status := Inv_accepted, iv_acceptedAt := Some now, iv_acceptedBy := Some pid\<rparr>"]) simp_all
qed

text \<open>
  C35. An invitation is accepted once: whoever presents its token later, after any sequence of
  operations, is told that it is not there, and the invitation still names the principal that accepted it.
\<close>

theorem invitation_accepted_once:
  assumes "identity_run h empty_identity_db s" "acceptInvitation E token pid verified now s = (Inr m, t)" "identity_run h t u"
    and "ie_host E = h" "ie_host E' = h"
  shows "acceptInvitation E' token pid' verified' now' u = (Inl (IdentityError ''INVITATION_NOT_FOUND''), u) \<and>
     (\<exists>r. by_token E' token u = Some r \<and> iv_acceptedBy r = Some pid)"
proof -
  have ok: "unique_rows invitation_clash (org_invitations t)"
    using identity_reached [OF assms(1)] identity_step_history [OF step_accept [OF assms(2,4)]]
    by (simp add: identity_ok_def identity_history_def invitations_grow_def)
  obtain r where r: "r \<in> set (org_invitations t)" "iv_token_hash r = invitationTokenHash E token" "iv_status r = Inv_accepted" "iv_acceptedBy r = Some pid"
    using accepted_row [OF assms(2)] by blast
  have u: "unique_rows invitation_clash (org_invitations u)" "r \<in> set (org_invitations u)"
    using identity_run_history [OF assms(3)] ok r by (simp_all add: identity_history_def invitations_grow_def)
  have h: "invitationTokenHash E' token = iv_token_hash r"
    using r(2) assms(4,5) by (simp add: invitationTokenHash_def)
  obtain q where q: "by_token E' token u = Some q"
    using u(2) h by (cases "by_token E' token u") (auto simp: by_token_def sql_get_None)
  have "q = r"
    using q u h unfolding by_token_def
    by (drule_tac sql_get_Some) (auto intro: unique_rows_eq [where uq = invitation_clash] invitation_clash_sym simp: invitation_clash_def)
  then show ?thesis
    using q r by (simp add: acceptInvitation_def atomic_def)
qed

text \<open>
  What authorisation decides: a principal may act on a project exactly when it is an operator
  across tenants, or when it acts in its own organisation and the project exists there, is granted to it
  and in the scope of its key. The project \<^verbatim>\<open>"*"\<close> needs neither grant nor scope.
\<close>

theorem authorize_decides:
  "authorize p oid prj s = (Inr (oid, prj), s) \<longleftrightarrow> pr_admin p \<or> pr_orgId p = oid \<and> (prj = ''*'' \<or>
     getOrganization (pr_tenantId p) oid s \<noteq> None \<and> getProject (pr_tenantId p) oid prj s \<noteq> None \<and>
     (''*'' \<in> set (pr_projectScope p) \<or> prj \<in> set (pr_projectScope p)) \<and>
     (case pr_apiKeyScope p of None \<Rightarrow> True | Some scope \<Rightarrow> prj \<in> set scope))"
  by (auto simp: authorize_def needs_org_def andThen_Inr_iff split: option.splits if_splits)

lemma clashing_rows: "unique_rows uq rows \<Longrightarrow> a \<in> set rows \<Longrightarrow> b \<in> set rows \<Longrightarrow> a \<noteq> b \<Longrightarrow> (\<And>a b. uq a b \<Longrightarrow> uq b a) \<Longrightarrow> \<not> uq a b"
  using unique_rows_eq by metis

text \<open>
  C36. The expiry sweep jams: when an address whose invitation has expired is invited again and that
  invitation runs out too, the sweep violates a constraint and changes nothing, for any organisation,
  from then on.
\<close>

theorem expiry_sweep_jams:
  assumes "identity_run h empty_identity_db s" "r \<in> set (org_invitations s)" "q \<in> set (org_invitations s)"
    and "iv_tenantId q = iv_tenantId r" "iv_orgId q = iv_orgId r" "iv_email q = iv_email r"
    and "iv_status r = Inv_expired" "iv_status q = Inv_pending" "iv_expiresAt q < now"
  shows "expireInvitations E recorded now s = (Inl Constraint_violation, s)"
proof -
  let ?p = "\<lambda>r. iv_status r = Inv_pending \<and> iv_expiresAt r < now"
  let ?f = "\<lambda>r :: invitation_row. r\<lparr>iv_status := Inv_expired, iv_revokedAt := Some recorded\<rparr>"
  let ?rows = "sql_update ?p ?f (org_invitations s)"
  have m: "(if ?p r then ?f r else r) \<in> set ?rows" "(if ?p q then ?f q else q) \<in> set ?rows"
    by (rule updated_mem [OF assms(2)], rule updated_mem [OF assms(3)])
  have "q \<noteq> r" using assms(7,8) by auto
  then have "iv_invitationId q \<noteq> iv_invitationId r"
    using clashing_rows [of invitation_clash "org_invitations s" q r] identity_reached [OF assms(1)] assms invitation_clash_sym
    by (auto simp: identity_ok_def invitation_clash_def)
  then have "r \<noteq> ?f q" by auto
  moreover have "invitation_clash r (?f q)"
    using assms by (simp add: invitation_clash_def same_invite_def)
  ultimately have "\<not> unique_rows invitation_clash ?rows"
    using clashing_rows [of invitation_clash ?rows r "?f q"] m assms(7-9) invitation_clash_sym by auto
  then show ?thesis
    by (simp add: expireInvitations_def update_rows_def atomic_def)
qed

section \<open>Witnesses\<close>

definition id_env :: identity_env where
  "id_env = \<lparr>ie_host = \<lparr>sha256 = (\<lambda>s. s), num_str = (\<lambda>_. ''0'')\<rparr>, ie_hook = (\<lambda>_. None), ie_ellipsis = ''...''\<rparr>"

lemma identity_run_snoc: "identity_run h s t \<Longrightarrow> identity_step h t u \<Longrightarrow> identity_run h s u"
  by (induction rule: identity_run.induct) (auto intro: identity_more identity_done)

definition owned_org :: identity_db where
  "owned_org = snd (addMember id_env ''t'' ''o'' ''a'' Owner 0 (snd (createOrganization id_env ''t'' ''o'' None 0
     (snd (createTenant id_env ''t'' None None 0 empty_identity_db)))))"

lemma run_to_owner: "identity_run (ie_host id_env) empty_identity_db owned_org"
  unfolding owned_org_def
  by (rule identity_run_snoc, rule identity_run_snoc, rule identity_run_one)
    (rule step_tenant step_org step_member, rule prod.collapse [symmetric])+

theorem last_owner_kept_witness: "has_owner ''t'' ''o'' (org_members (snd (removeMember id_env ''t'' ''o'' ''a'' owned_org)))"
proof -
  have "has_owner ''t'' ''o'' (org_members owned_org)"
    unfolding has_owner_def by code_simp
  then show ?thesis
    by (rule last_owner_kept [OF run_to_owner]) (rule identity_run_one, rule step_remove, rule prod.collapse [symmetric])
qed

definition keyed :: identity_db where
  "keyed = snd (createApiKey id_env ''t'' ''o'' ''a'' ''n'' \<lparr>ko_expiresAt = None, ko_scope = None, ko_rotatedFrom = None, ko_overlapExpiresAt = None\<rparr>
     ''k'' ''b'' 1 owned_org)"

theorem revoked_key_dead_witness:
  "authenticateApiKey id_env ''k.b'' 9 9 (snd (revokeApiKey id_env ''t'' ''k'' 5 keyed)) = (Inr None, snd (revokeApiKey id_env ''t'' ''k'' 5 keyed))"
proof -
  have "map_option ak_revokedAt (find_key ''k'' (snd (revokeApiKey id_env ''t'' ''k'' 5 keyed))) = Some (Some 5)"
    unfolding keyed_def owned_org_def by code_simp
  then obtain r where "find_key ''k'' (snd (revokeApiKey id_env ''t'' ''k'' 5 keyed)) = Some r" "ak_revokedAt r = Some 5"
    by auto
  then show ?thesis
    by (rule revoked_key_dead [OF _ _ identity_done [of undefined], where kid = "''k''" and body = "''b''"]) code_simp
qed

definition invite :: invitation_input where
  "invite = \<lparr>ii_email = ''X@y.z '', ii_role = Developer, ii_invitedBy = ''a'', ii_expiresInMs = Some 10, ii_idempotencyKey = None\<rparr>"

definition invited :: identity_db where
  "invited = snd (createInvitation id_env ''t'' ''o'' invite ''i'' ''s'' 0 owned_org)"

definition joined :: identity_db where
  "joined = snd (acceptInvitation id_env ''s'' ''b'' (Some ''x@Y.z'') 5 invited)"

lemma run_to_invited: "identity_run (ie_host id_env) empty_identity_db invited"
  unfolding invited_def by (rule identity_run_snoc [OF run_to_owner], rule step_invite, rule prod.collapse [symmetric]) simp

lemma accepted: "\<exists>m. acceptInvitation id_env ''s'' ''b'' (Some ''x@Y.z'') 5 invited = (Inr m, joined)"
proof -
  have "\<not> isl (fst (acceptInvitation id_env ''s'' ''b'' (Some ''x@Y.z'') 5 invited))"
    unfolding invited_def owned_org_def by code_simp
  then show ?thesis
    unfolding joined_def by (cases "acceptInvitation id_env ''s'' ''b'' (Some ''x@Y.z'') 5 invited"; cases "fst (acceptInvitation id_env ''s'' ''b'' (Some ''x@Y.z'') 5 invited)") auto
qed

theorem invitation_accepted_once_witness:
  "acceptInvitation id_env ''s'' ''c'' None 6 joined = (Inl (IdentityError ''INVITATION_NOT_FOUND''), joined)"
proof -
  obtain m where "acceptInvitation id_env ''s'' ''b'' (Some ''x@Y.z'') 5 invited = (Inr m, joined)"
    using accepted by blast
  then show ?thesis
    using invitation_accepted_once [OF run_to_invited _ identity_done refl refl] by simp
qed

definition invited_again :: identity_db where
  "invited_again = snd (createInvitation id_env ''t'' ''o'' invite ''j'' ''u'' 21 (snd (expireInvitations id_env 20 20 invited)))"

lemma run_to_again: "identity_run (ie_host id_env) empty_identity_db invited_again"
  unfolding invited_again_def
  by (rule identity_run_snoc [OF identity_run_snoc [OF run_to_invited]], rule step_expireInvitations, rule prod.collapse [symmetric],
      rule step_invite, rule prod.collapse [symmetric]) simp

theorem expiry_sweep_jams_witness: "expireInvitations id_env 40 40 invited_again = (Inl Constraint_violation, invited_again)"
proof -
  have "map (\<lambda>r. (iv_tenantId r, iv_orgId r, iv_email r, iv_status r, iv_expiresAt r)) (org_invitations invited_again) =
      [(''t'', ''o'', ''x@y.z'', Inv_expired, 10), (''t'', ''o'', ''x@y.z'', Inv_pending, 31)]"
    unfolding invited_again_def invited_def owned_org_def by code_simp
  then obtain r q where "org_invitations invited_again = [r, q]" "iv_tenantId q = iv_tenantId r" "iv_orgId q = iv_orgId r" "iv_email q = iv_email r"
      "iv_status r = Inv_expired" "iv_status q = Inv_pending" "iv_expiresAt q < 40"
    by (auto simp: map_eq_Cons_conv)
  then show ?thesis
    by (intro expiry_sweep_jams [OF run_to_again]) auto
qed

end
