(* ===== verification/Policy_Store.thy ===== *)
theory Policy_Store
  imports Sql Contracts
begin

text \<open>
  Admission policies (\<^verbatim>\<open>vaulltcore-policy/src/contracts.ts\<close> and \<^verbatim>\<open>store.ts\<close>): the versioned
  policies of a scope and the decision they give on a request. The text of a definition is the record it was
  made of.
\<close>

section \<open>Data\<close>

record admission_policy =
  ap_policyId :: string
  ap_policyVersion :: string
  ap_maxSteps :: int
  ap_maxTokens :: int
  ap_maxDurationMs :: int
  ap_maxConcurrentJobs :: int
  ap_jobsPerPeriod :: int
  ap_periodMs :: int
  ap_allowedTools :: "string list"
  ap_egressAllowlist :: "string list"
  ap_allowSnapshots :: bool
  ap_createdAt :: int

definition DEFAULT_ADMISSION_POLICY :: admission_policy where
  "DEFAULT_ADMISSION_POLICY = \<lparr>ap_policyId = ''default'', ap_policyVersion = ''1'', ap_maxSteps = 25, ap_maxTokens = 250000,
     ap_maxDurationMs = 3600000, ap_maxConcurrentJobs = 5, ap_jobsPerPeriod = 100, ap_periodMs = 3600000, ap_allowedTools = [],
     ap_egressAllowlist = [], ap_allowSnapshots = True, ap_createdAt = 0\<rparr>"

record admission_decision =
  ad_allowed :: bool
  ad_reasonCode :: string
  ad_policyId :: string
  ad_policyVersion :: string
  ad_maxSteps :: int
  ad_maxTokens :: int
  ad_maxDurationMs :: int
  ad_maxConcurrentJobs :: int
  ad_allowedTools :: "string list"
  ad_egressAllowlist :: "string list"
  ad_allowSnapshots :: bool

record policy_request =
  rq_requestedTools :: "string list"
  rq_requestedMaxSteps :: "int option"
  rq_requestedAllowSnapshots :: "bool option"

datatype policy_error = PolicyError string | Policy_hook

record policy_row = job_identity +
  pw_policyId :: string
  pw_policyVersion :: string
  pw_definition :: admission_policy
  pw_createdAt :: int
  pw_active :: bool

type_synonym 'a policy_op = "(policy_row list, policy_error, 'a) op"

section \<open>The store\<close>

definition of_scope :: "job_identity \<Rightarrow> policy_row \<Rightarrow> bool" where
  "of_scope sc r \<longleftrightarrow> tenantId r = tenantId sc \<and> orgId r = orgId sc \<and> projectId r = projectId sc"

text \<open>The primary key, and the unique index on the active policies.\<close>

definition policy_clash :: "policy_row \<Rightarrow> policy_row \<Rightarrow> bool" where
  "policy_clash a b \<longleftrightarrow> tenantId a = tenantId b \<and> orgId a = orgId b \<and> projectId a = projectId b \<and>
     (pw_policyId a = pw_policyId b \<or> pw_active a \<and> pw_active b)"

definition new_policy :: "job_identity \<Rightarrow> admission_policy \<Rightarrow> bool \<Rightarrow> int \<Rightarrow> policy_row" where
  "new_policy sc p active now = \<lparr>tenantId = tenantId sc, orgId = orgId sc, projectId = projectId sc, pw_policyId = ap_policyId p,
     pw_policyVersion = ap_policyVersion p, pw_definition = p, pw_createdAt = now, pw_active = active\<rparr>"

definition createPolicy :: "(string \<Rightarrow> policy_error option) \<Rightarrow> job_identity \<Rightarrow> admission_policy \<Rightarrow> bool \<Rightarrow> int \<Rightarrow> admission_policy policy_op" where
  "createPolicy hook sc p active now = andThen (atomic hook ''createPolicy''
     (andThen (if active then modifies (sql_update (\<lambda>r. of_scope sc r \<and> pw_active r) (\<lambda>r. r\<lparr>pw_active := False\<rparr>)) else ok ()) (\<lambda>_.
      andThen (reads (sql_clash policy_clash (new_policy sc p active now))) (\<lambda>clash.
      if clash then throw (PolicyError ''POLICY_EXISTS'') else modifies (\<lambda>rows. rows @ [new_policy sc p active now]))))) (\<lambda>_. ok p)"

definition getActivePolicy :: "job_identity \<Rightarrow> policy_row list \<Rightarrow> admission_policy" where
  "getActivePolicy sc rows = (case sql_get (\<lambda>r. of_scope sc r \<and> pw_active r) rows of
     Some r \<Rightarrow> pw_definition r | None \<Rightarrow> DEFAULT_ADMISSION_POLICY)"

definition getPolicy :: "job_identity \<Rightarrow> string \<Rightarrow> policy_row list \<Rightarrow> admission_policy option" where
  "getPolicy sc pid rows = map_option pw_definition (sql_get (\<lambda>r. of_scope sc r \<and> pw_policyId r = pid) rows)"

section \<open>Decisions\<close>

definition decision_of :: "admission_policy \<Rightarrow> bool \<Rightarrow> string \<Rightarrow> admission_decision" where
  "decision_of p allowed reason = \<lparr>ad_allowed = allowed, ad_reasonCode = reason, ad_policyId = ap_policyId p,
     ad_policyVersion = ap_policyVersion p, ad_maxSteps = ap_maxSteps p, ad_maxTokens = ap_maxTokens p,
     ad_maxDurationMs = ap_maxDurationMs p, ad_maxConcurrentJobs = ap_maxConcurrentJobs p, ad_allowedTools = ap_allowedTools p,
     ad_egressAllowlist = ap_egressAllowlist p, ad_allowSnapshots = ap_allowSnapshots p\<rparr>"

definition allow :: "admission_policy \<Rightarrow> admission_decision" where
  "allow p = decision_of p True ''OK''"

definition deny :: "admission_policy \<Rightarrow> string \<Rightarrow> admission_decision" where
  "deny p reason = decision_of p False reason"

definition evaluateWith :: "admission_policy \<Rightarrow> policy_request \<Rightarrow> admission_decision" where
  "evaluateWith p rq =
     (if filter (\<lambda>tool. tool \<notin> set (ap_allowedTools p)) (rq_requestedTools rq) \<noteq> [] then deny p ''POLICY_TOOL_NOT_ALLOWED''
      else if ap_maxSteps p \<le> 0 then deny p ''POLICY_MAX_STEPS_ZERO''
      else if (case rq_requestedMaxSteps rq of None \<Rightarrow> False | Some n \<Rightarrow> n > ap_maxSteps p) then deny p ''POLICY_MAX_STEPS_EXCEEDED''
      else if rq_requestedAllowSnapshots rq = Some True \<and> \<not> ap_allowSnapshots p then deny p ''POLICY_SNAPSHOTS_FORBIDDEN''
      else allow p)"

definition evaluate :: "job_identity \<Rightarrow> policy_request \<Rightarrow> policy_row list \<Rightarrow> admission_decision" where
  "evaluate sc rq rows = evaluateWith (getActivePolicy sc rows) rq"

section \<open>What changes of policies keep\<close>

text \<open>A scope has at most one active policy, and one is replaced only by the next.\<close>

definition policies_ok :: "policy_row list \<Rightarrow> bool" where
  "policies_ok rows \<longleftrightarrow> distinct (map (\<lambda>r. (tenantId r, orgId r, projectId r, pw_policyId r)) rows) \<and>
     distinct (map (\<lambda>r. (tenantId r, orgId r, projectId r)) (filter pw_active rows))"

lemma deactivated: "filter pw_active (sql_update (\<lambda>r. of_scope sc r \<and> pw_active r) (\<lambda>r. r\<lparr>pw_active := False\<rparr>) rows) =
    filter (\<lambda>r. pw_active r \<and> \<not> of_scope sc r) rows"
  by (induction rows) (auto simp: sql_update_def)

lemma distinct_map_filter_conj: "distinct (map f (filter p rows)) \<Longrightarrow> distinct (map f (filter (\<lambda>r. p r \<and> q r) rows))"
  by (metis distinct_map_filter filter_filter)

lemma deactivated_ok:
  assumes "policies_ok rows"
  shows "policies_ok (sql_update (\<lambda>r. of_scope sc r \<and> pw_active r) (\<lambda>r. r\<lparr>pw_active := False\<rparr>) rows)"
  using assms unfolding policies_ok_def deactivated
  by (simp add: map_sql_update distinct_map_filter_conj)

lemma inserted_ok: "policies_ok rows \<Longrightarrow> \<not> sql_clash policy_clash row rows \<Longrightarrow> policies_ok (rows @ [row])"
  by (auto simp: policies_ok_def sql_clash_iff policy_clash_def)

lemma createPolicy_ok:
  assumes "policies_ok rows" "createPolicy hook sc p active now rows = (x, rows')"
  shows "policies_ok rows'"
proof (cases x)
  case (Inl e)
  then show ?thesis
    using assms by (auto simp: createPolicy_def andThen_Inl_iff dest: atomic_Inl)
next
  case (Inr y)
  then show ?thesis
    using assms deactivated_ok [OF assms(1), of sc]
    by (auto simp: createPolicy_def andThen_Inr_iff atomic_Inr intro: inserted_ok split: if_splits)
qed

text \<open>A policy that cannot be stored leaves the active one in force; one that is stored as active is in force.\<close>

lemma createPolicy_activates:
  assumes "createPolicy hook sc p True now rows = (x, rows')"
  shows "getActivePolicy sc rows' = (if isl x then getActivePolicy sc rows else p)"
proof (cases x)
  case (Inl e)
  then show ?thesis
    using assms by (auto simp: createPolicy_def andThen_Inl_iff dest: atomic_Inl)
next
  case (Inr y)
  have none: "sql_get (\<lambda>r. of_scope sc r \<and> pw_active r) (sql_update (\<lambda>r. of_scope sc r \<and> pw_active r) (\<lambda>r. r\<lparr>pw_active := False\<rparr>) rows) = None"
    by (auto simp: sql_get_None set_sql_update)
  show ?thesis
    using assms Inr none by (auto simp: createPolicy_def andThen_Inr_iff atomic_Inr getActivePolicy_def new_policy_def of_scope_def split: if_splits)
qed

lemma evaluate_allowed:
  "ad_allowed (evaluate sc rq rows) \<longleftrightarrow> (let p = getActivePolicy sc rows in
     set (rq_requestedTools rq) \<subseteq> set (ap_allowedTools p) \<and> 0 < ap_maxSteps p \<and>
     (\<forall>n. rq_requestedMaxSteps rq = Some n \<longrightarrow> n \<le> ap_maxSteps p) \<and> (rq_requestedAllowSnapshots rq = Some True \<longrightarrow> ap_allowSnapshots p))"
  by (auto simp: evaluate_def evaluateWith_def Let_def allow_def deny_def decision_of_def filter_empty_conv split: option.splits)

end
