(* ===== verification/Audit_Store.thy ===== *)
theory Audit_Store
  imports Audit_Log Sql
begin

text \<open>
  The durable audit log (\<^verbatim>\<open>vaulltcore-audit/src/store.ts\<close>): its one mutation, an append of an
  event with sanitized metadata, and its scoped reads. There is nothing that changes or removes an event.
\<close>

datatype audit_error = Audit_constraint | Audit_hook

text \<open>A scope for reading: the tenant, and an organisation and a project when they are given and not empty.\<close>

record audit_scope =
  as_tenantId :: string
  as_orgId :: "string option"
  as_projectId :: "string option"

definition appendAudit :: "(string \<Rightarrow> audit_error option) \<Rightarrow> string \<Rightarrow> int \<Rightarrow> audit_actor option \<Rightarrow> job_identity option \<Rightarrow> string \<Rightarrow> json
    \<Rightarrow> (audit_event list, audit_error, audit_event) op" where
  "appendAudit hook eid now act scope typ meta =
     (let row = last (audit_append eid now act scope typ meta []) in
      andThen (atomic hook ''appendAudit''
        (andThen (reads (sql_clash (\<lambda>a b. eventId a = eventId b) row)) (\<lambda>clash.
         if clash then throw Audit_constraint else modifies (audit_append eid now act scope typ meta)))) (\<lambda>_. ok row))"

definition narrows :: "string option \<Rightarrow> string option \<Rightarrow> bool" where
  "narrows want have' \<longleftrightarrow> (case want of None \<Rightarrow> True | Some w \<Rightarrow> w = [] \<or> have' = Some w)"

definition audit_list :: "audit_scope \<Rightarrow> nat \<Rightarrow> audit_event list \<Rightarrow> audit_event list" where
  "audit_list sc n evs = take n (sort_key a_timestamp (sort_key eventId
     (filter (\<lambda>e. a_tenantId e = Some (as_tenantId sc) \<and> narrows (as_orgId sc) (a_orgId e) \<and> narrows (as_projectId sc) (a_projectId e)) evs)))"

definition audit_count :: "string option \<Rightarrow> audit_event list \<Rightarrow> nat" where
  "audit_count tenant evs = (case tenant of None \<Rightarrow> length evs | Some t \<Rightarrow> sql_count (\<lambda>e. a_tenantId e = Some t) evs)"

lemma appendAudit_prefix: "appendAudit hook eid now act scope typ meta evs = (x, evs') \<Longrightarrow> \<exists>es. evs' = evs @ es"
  by (cases x) (auto simp: appendAudit_def Let_def andThen_Inr_iff andThen_Inl_iff atomic_Inr audit_append_def split: if_splits dest!: atomic_Inl)

lemma appendAudit_quiet:
  "hook ''appendAudit'' = None \<Longrightarrow> eid \<notin> eventId ` set evs \<Longrightarrow>
    appendAudit hook eid now act scope typ meta evs =
      (Inr (last (audit_append eid now act scope typ meta [])), audit_append eid now act scope typ meta evs)"
  by (auto simp: appendAudit_def Let_def andThen_def atomic_def sql_clash_iff audit_append_def)

text \<open>A tenant reads its own events only.\<close>

lemma audit_list_scoped: "e \<in> set (audit_list sc n evs) \<Longrightarrow> a_tenantId e = Some (as_tenantId sc) \<and> e \<in> set evs"
  unfolding audit_list_def by (auto dest: in_set_takeD)

end
