(* ===== verification/Admission.thy ===== *)
theory Admission
  imports Sql
begin

text \<open>
  Idempotent admission (\<^verbatim>\<open>vaulltcore-store-sql/src/admission-idempotency.ts\<close>): the registry
  through which the control plane admits a request once. A slot is keyed by tenant and key, carries the
  fingerprint of its request, and moves from pending to completed or failed. Clock readings are
  arguments.
\<close>

section \<open>The registry\<close>

datatype admission_state = Adm_pending | Adm_completed | Adm_failed_retriable | Adm_failed_terminal

record admission_row =
  ad_tenantId :: string
  ad_key :: string
  ad_fingerprint :: string
  ad_state :: admission_state
  ad_jobId :: "string option"
  ad_reservationId :: "string option"
  ad_failureCode :: "string option"
  ad_failureDetail :: "string option"
  ad_createdAt :: int
  ad_updatedAt :: int
  ad_expiresAt :: "int option"

datatype admission_claim_result =
    Adm_new admission_row
  | Adm_is_completed admission_row
  | Adm_is_pending admission_row
  | Adm_conflict admission_row

record 'e admission_env =
  adm_hook :: "string \<Rightarrow> 'e option"
  unique_violation :: 'e

type_synonym ('e, 'a) admission_op = "(admission_row list, 'e, 'a) op"

definition is_slot :: "string \<Rightarrow> string \<Rightarrow> admission_row \<Rightarrow> bool" where
  "is_slot tenant key r \<longleftrightarrow> ad_tenantId r = tenant \<and> ad_key r = key"

definition slot_clash :: "admission_row \<Rightarrow> admission_row \<Rightarrow> bool" where
  "slot_clash a b \<longleftrightarrow> ad_tenantId a = ad_tenantId b \<and> ad_key a = ad_key b"

definition fresh_slot :: "string \<Rightarrow> string \<Rightarrow> string \<Rightarrow> int \<Rightarrow> admission_row" where
  "fresh_slot tenant key fp now = \<lparr>ad_tenantId = tenant, ad_key = key, ad_fingerprint = fp, ad_state = Adm_pending, ad_jobId = None,
     ad_reservationId = None, ad_failureCode = None, ad_failureDetail = None, ad_createdAt = now, ad_updatedAt = now, ad_expiresAt = None\<rparr>"

definition reclaimable :: "int \<Rightarrow> admission_row \<Rightarrow> bool" where
  "reclaimable now r \<longleftrightarrow> ad_state r = Adm_failed_retriable \<or> (case ad_expiresAt r of None \<Rightarrow> False | Some t \<Rightarrow> t < now)"

definition reclaim :: "string \<Rightarrow> int \<Rightarrow> admission_row \<Rightarrow> admission_row" where
  "reclaim fp now r = r\<lparr>ad_fingerprint := fp, ad_state := Adm_pending, ad_jobId := None, ad_reservationId := None, ad_failureCode := None,
     ad_failureDetail := None, ad_createdAt := now, ad_updatedAt := now, ad_expiresAt := None\<rparr>"

definition claim_slot :: "'e admission_env \<Rightarrow> string \<Rightarrow> string \<Rightarrow> string \<Rightarrow> int \<Rightarrow> ('e, admission_claim_result) admission_op" where
  "claim_slot E tenant key fp now = atomic (adm_hook E) ''admission_idem_claim''
     (andThen (reads (sql_get (is_slot tenant key))) (\<lambda>row.
      case row of
        Some r \<Rightarrow>
          if \<not> reclaimable now r then
            (if ad_fingerprint r \<noteq> fp then ok (Adm_conflict r)
             else if ad_state r = Adm_completed then ok (Adm_is_completed r)
             else ok (Adm_is_pending r))
          else
            andThen (modifies (sql_update (is_slot tenant key) (reclaim fp now))) (\<lambda>_. ok (Adm_new (fresh_slot tenant key fp now)))
      | None \<Rightarrow>
          let slot = fresh_slot tenant key fp now in
          andThen (reads (sql_clash slot_clash slot)) (\<lambda>clash.
          if clash then throw (unique_violation E)
          else andThen (modifies (\<lambda>rows. rows @ [slot])) (\<lambda>_. ok (Adm_new slot)))))"

definition completed_slot :: "string \<Rightarrow> string \<Rightarrow> int \<Rightarrow> admission_row \<Rightarrow> admission_row" where
  "completed_slot job reservation now r = r\<lparr>ad_state := Adm_completed, ad_jobId := Some job, ad_reservationId := Some reservation,
     ad_failureCode := None, ad_failureDetail := None, ad_updatedAt := now\<rparr>"

definition complete_slot :: "'e admission_env \<Rightarrow> string \<Rightarrow> string \<Rightarrow> string \<Rightarrow> string \<Rightarrow> int \<Rightarrow> ('e, admission_row option) admission_op" where
  "complete_slot E tenant key job reservation now = atomic (adm_hook E) ''admission_idem_complete''
     (andThen (reads (sql_get (is_slot tenant key))) (\<lambda>row.
      case row of
        None \<Rightarrow> ok None
      | Some r \<Rightarrow>
          if ad_state r = Adm_failed_terminal then ok (Some r)
          else andThen (modifies (sql_update (is_slot tenant key) (completed_slot job reservation now))) (\<lambda>_.
            ok (Some (completed_slot job reservation now r)))))"

definition failed_slot :: "bool \<Rightarrow> string \<Rightarrow> string \<Rightarrow> int \<Rightarrow> admission_row \<Rightarrow> admission_row" where
  "failed_slot retriable c detail now r = r\<lparr>ad_state := (if retriable then Adm_failed_retriable else Adm_failed_terminal),
     ad_failureCode := Some c, ad_failureDetail := Some detail, ad_updatedAt := now\<rparr>"

definition fail_slot :: "'e admission_env \<Rightarrow> string \<Rightarrow> string \<Rightarrow> string \<Rightarrow> string \<Rightarrow> bool \<Rightarrow> int \<Rightarrow> ('e, admission_row option) admission_op" where
  "fail_slot E tenant key c detail retriable now = atomic (adm_hook E) ''admission_idem_fail''
     (andThen (reads (sql_get (is_slot tenant key))) (\<lambda>row.
      case row of
        None \<Rightarrow> ok None
      | Some r \<Rightarrow>
          if ad_state r = Adm_completed then ok (Some r)
          else andThen (modifies (sql_update (is_slot tenant key) (failed_slot retriable c detail now))) (\<lambda>_.
            ok (Some (failed_slot retriable c detail now r)))))"

definition lookup_slot :: "string \<Rightarrow> string \<Rightarrow> admission_row list \<Rightarrow> admission_row option" where
  "lookup_slot tenant key rows = sql_get (is_slot tenant key) rows"

section \<open>The state machine\<close>

text \<open>A call on the slot of a key, by any caller.\<close>

inductive slot_step :: "'e admission_env \<Rightarrow> string \<Rightarrow> admission_row list \<Rightarrow> admission_row list \<Rightarrow> bool" for E where
  step_claim: "claim_slot E tenant key fp now s = (x, t) \<Longrightarrow> slot_step E ''claim'' s t"
| step_complete: "complete_slot E tenant key job reservation now s = (x, t) \<Longrightarrow> slot_step E ''complete'' s t"
| step_fail: "fail_slot E tenant key c detail retriable now s = (x, t) \<Longrightarrow> slot_step E ''fail'' s t"

inductive slot_run :: "'e admission_env \<Rightarrow> string list \<Rightarrow> admission_row list \<Rightarrow> admission_row list \<Rightarrow> bool" for E where
  slot_done: "slot_run E [] s s"
| slot_more: "slot_step E l s t \<Longrightarrow> slot_run E ls t u \<Longrightarrow> slot_run E (l # ls) s u"

definition slots_ok :: "admission_row list \<Rightarrow> bool" where
  "slots_ok rows \<longleftrightarrow> distinct (map (\<lambda>r. (ad_tenantId r, ad_key r)) rows) \<and> (\<forall>r \<in> set rows. ad_expiresAt r = None)"

lemma lookup_Some: "lookup_slot tn k rows = Some r \<Longrightarrow> r \<in> set rows \<and> ad_tenantId r = tn \<and> ad_key r = k"
  by (auto simp: lookup_slot_def is_slot_def dest: sql_get_Some)

lemma updated_slot:
  assumes "\<And>r. ad_tenantId (f r) = ad_tenantId r \<and> ad_key (f r) = ad_key r"
  shows "lookup_slot tn k (sql_update (is_slot tenant key) f rows) =
    map_option (\<lambda>r. if tn = tenant \<and> k = key then f r else r) (lookup_slot tn k rows)"
proof -
  have "lookup_slot tn k (sql_update (is_slot tenant key) f rows) =
      map_option (\<lambda>r. if is_slot tenant key r then f r else r) (lookup_slot tn k rows)"
    unfolding lookup_slot_def by (rule sql_get_update) (simp add: is_slot_def assms)
  then show ?thesis
    using lookup_Some [of tn k rows] by (cases "lookup_slot tn k rows") (auto simp: is_slot_def)
qed

lemma slots_ok_update:
  "slots_ok rows \<Longrightarrow> (\<And>r. ad_tenantId (f r) = ad_tenantId r \<and> ad_key (f r) = ad_key r \<and> (ad_expiresAt r = None \<longrightarrow> ad_expiresAt (f r) = None)) \<Longrightarrow>
    slots_ok (sql_update p f rows)"
  by (auto simp: slots_ok_def map_sql_update set_sql_update)

lemma slot_functions [simp]:
  "ad_tenantId (reclaim fp now r) = ad_tenantId r" "ad_key (reclaim fp now r) = ad_key r" "ad_expiresAt (reclaim fp now r) = None"
  "ad_fingerprint (reclaim fp now r) = fp" "ad_state (reclaim fp now r) = Adm_pending"
  "ad_tenantId (completed_slot j v now r) = ad_tenantId r" "ad_key (completed_slot j v now r) = ad_key r"
  "ad_expiresAt (completed_slot j v now r) = ad_expiresAt r" "ad_fingerprint (completed_slot j v now r) = ad_fingerprint r"
  "ad_state (completed_slot j v now r) = Adm_completed" "ad_jobId (completed_slot j v now r) = Some j"
  "ad_tenantId (failed_slot b c d now r) = ad_tenantId r" "ad_key (failed_slot b c d now r) = ad_key r"
  "ad_expiresAt (failed_slot b c d now r) = ad_expiresAt r" "ad_fingerprint (failed_slot b c d now r) = ad_fingerprint r"
  "ad_state (failed_slot b c d now r) = (if b then Adm_failed_retriable else Adm_failed_terminal)"
  "ad_tenantId (fresh_slot tenant key fp now) = tenant" "ad_key (fresh_slot tenant key fp now) = key"
  "ad_fingerprint (fresh_slot tenant key fp now) = fp" "ad_state (fresh_slot tenant key fp now) = Adm_pending"
  "ad_expiresAt (fresh_slot tenant key fp now) = None"
  by (simp_all add: reclaim_def completed_slot_def failed_slot_def fresh_slot_def)

text \<open>What a call does to the slot of a key.\<close>

definition slot_moves :: "string \<Rightarrow> admission_row \<Rightarrow> admission_row \<Rightarrow> bool" where
  "slot_moves l r r' \<longleftrightarrow> r' = r \<or>
     l = ''claim'' \<and> ad_state r = Adm_failed_retriable \<and> ad_state r' = Adm_pending \<or>
     l = ''complete'' \<and> ad_state r \<noteq> Adm_failed_terminal \<and> ad_state r' = Adm_completed \<and> ad_fingerprint r' = ad_fingerprint r \<or>
     l = ''fail'' \<and> ad_state r \<noteq> Adm_completed \<and> ad_state r' \<in> {Adm_failed_retriable, Adm_failed_terminal} \<and> ad_fingerprint r' = ad_fingerprint r"

lemma not_reclaimable: "slots_ok s \<Longrightarrow> lookup_slot tn k s = Some r \<Longrightarrow> reclaimable now r \<longleftrightarrow> ad_state r = Adm_failed_retriable"
  using lookup_Some [of tn k s r] by (auto simp: slots_ok_def reclaimable_def)

lemma atomic_state: "atomic hook name m s = (x, t) \<Longrightarrow> t = s \<or> (\<exists>y. m s = (Inr y, t))"
  by (cases x) (auto dest: atomic_Inl simp: atomic_Inr)

lemma claim_slot_state:
  assumes "claim_slot E tenant key fp now s = (x, t)"
  shows "t = s \<or> (lookup_slot tenant key s = None \<and> t = s @ [fresh_slot tenant key fp now]) \<or>
     (\<exists>r. lookup_slot tenant key s = Some r \<and> reclaimable now r \<and> t = sql_update (is_slot tenant key) (reclaim fp now) s)"
  using atomic_state [OF assms [unfolded claim_slot_def]] by (auto simp: lookup_slot_def Let_def split: option.splits if_splits)

lemma complete_slot_state:
  assumes "complete_slot E tenant key job reservation now s = (x, t)"
  shows "t = s \<or> (\<exists>r. lookup_slot tenant key s = Some r \<and> ad_state r \<noteq> Adm_failed_terminal \<and>
     t = sql_update (is_slot tenant key) (completed_slot job reservation now) s)"
  using atomic_state [OF assms [unfolded complete_slot_def]] by (auto simp: lookup_slot_def split: option.splits if_splits)

lemma fail_slot_state:
  assumes "fail_slot E tenant key c detail retriable now s = (x, t)"
  shows "t = s \<or> (\<exists>r. lookup_slot tenant key s = Some r \<and> ad_state r \<noteq> Adm_completed \<and>
     t = sql_update (is_slot tenant key) (failed_slot retriable c detail now) s)"
  using atomic_state [OF assms [unfolded fail_slot_def]] by (auto simp: lookup_slot_def split: option.splits if_splits)

lemma lookup_append: "lookup_slot tn k (s @ [r]) = (case lookup_slot tn k s of Some x \<Rightarrow> Some x | None \<Rightarrow> if is_slot tn k r then Some r else None)"
  by (simp add: lookup_slot_def)

lemma step_slots_ok:
  assumes "slot_step E l s t" "slots_ok s"
  shows "slots_ok t"
  using assms(1)
proof cases
  case (step_claim tenant key fp now x)
  then show ?thesis
    using claim_slot_state [OF step_claim(2)] assms(2) slots_ok_update [OF assms(2), of "reclaim fp now"]
    by (auto simp: slots_ok_def lookup_slot_def sql_get_None is_slot_def)
next
  case (step_complete tenant key job reservation now x)
  then show ?thesis
    using complete_slot_state [OF step_complete(2)] assms(2) slots_ok_update [OF assms(2), of "completed_slot job reservation now"] by auto
next
  case (step_fail tenant key c detail retriable now x)
  then show ?thesis
    using fail_slot_state [OF step_fail(2)] assms(2) slots_ok_update [OF assms(2), of "failed_slot retriable c detail now"] by auto
qed

lemma run_slots_ok: "slot_run E ls s t \<Longrightarrow> slots_ok s \<Longrightarrow> slots_ok t"
  by (induction rule: slot_run.induct) (auto intro: step_slots_ok)

lemma step_slot_moves:
  assumes "slot_step E l s t" "slots_ok s" "lookup_slot tn k s = Some r"
  shows "\<exists>r'. lookup_slot tn k t = Some r' \<and> slot_moves l r r'"
  using assms(1)
proof cases
  case (step_claim tenant key fp now x)
  then show ?thesis
    using claim_slot_state [OF step_claim(2)] assms(3) not_reclaimable [OF assms(2,3), of now]
    by (auto simp: updated_slot lookup_append slot_moves_def)
next
  case (step_complete tenant key job reservation now x)
  then show ?thesis
    using complete_slot_state [OF step_complete(2)] assms(3) by (auto simp: updated_slot slot_moves_def)
next
  case (step_fail tenant key c detail retriable now x)
  then show ?thesis
    using fail_slot_state [OF step_fail(2)] assms(3) by (auto simp: updated_slot slot_moves_def)
qed

text \<open>An invariant of the slot of a key under calls of some names.\<close>

lemma run_slot:
  assumes "slot_run E ls s t" "slots_ok s" "lookup_slot tn k s = Some r" "P r"
    and "\<And>l r r'. l \<in> set ls \<Longrightarrow> P r \<Longrightarrow> slot_moves l r r' \<Longrightarrow> P r'"
  shows "\<exists>r'. lookup_slot tn k t = Some r' \<and> P r'"
  using assms
proof (induction arbitrary: r rule: slot_run.induct)
  case (slot_more l s t ls u)
  obtain r' where r': "lookup_slot tn k t = Some r'" "slot_moves l r r'"
    using step_slot_moves [OF slot_more.hyps(1) slot_more.prems(1,2)] by blast
  show ?case
    by (rule slot_more.IH [OF step_slots_ok [OF slot_more.hyps(1) slot_more.prems(1)] r'(1)])
      (use slot_more.prems(3,4) r'(2) in auto)
qed blast

lemma claim_answer:
  assumes "lookup_slot tenant key s = Some r" "\<not> reclaimable now r"
  shows "claim_slot E tenant key fp now s = (case adm_hook E ''admission_idem_claim'' of Some e \<Rightarrow> (Inl e, s)
     | None \<Rightarrow> (Inr (if ad_fingerprint r \<noteq> fp then Adm_conflict r else if ad_state r = Adm_completed then Adm_is_completed r else Adm_is_pending r), s))"
  using assms by (auto simp: claim_slot_def atomic_def lookup_slot_def split: option.splits)

lemma slots_ok_Nil [simp]: "slots_ok []"
  by (simp add: slots_ok_def)

lemma is_slot_fresh: "is_slot tn k (fresh_slot tn k fp now)"
  by (simp add: is_slot_def)

text \<open>
  A completed admission is final: once a slot is completed, no later call reopens it, changes
  its fingerprint or fails it, whoever calls; every claim of the key reports it completed to the same
  request and as a conflict to any other.
\<close>

theorem admission_completed_final:
  assumes "slot_run E ls0 [] s" "lookup_slot tn k s = Some r" "ad_state r = Adm_completed" "slot_run E ls s t"
    and "adm_hook E ''admission_idem_claim'' = None"
  shows "\<exists>r'. lookup_slot tn k t = Some r' \<and> ad_state r' = Adm_completed \<and> ad_fingerprint r' = ad_fingerprint r \<and>
     claim_slot E tn k fp now t = (Inr (if fp = ad_fingerprint r then Adm_is_completed r' else Adm_conflict r'), t)"
proof -
  have ok: "slots_ok s" using run_slots_ok [OF assms(1)] by simp
  obtain r' where r': "lookup_slot tn k t = Some r'" "ad_state r' = Adm_completed \<and> ad_fingerprint r' = ad_fingerprint r"
    using run_slot [OF assms(4) ok assms(2), of "\<lambda>x. ad_state x = Adm_completed \<and> ad_fingerprint x = ad_fingerprint r"] assms(3)
    by (auto simp: slot_moves_def)
  moreover have "\<not> reclaimable now r'"
    using not_reclaimable [OF run_slots_ok [OF assms(4) ok] r'(1)] r'(2) by simp
  ultimately show ?thesis
    using claim_answer [of tn k t r' now E fp] assms(5) by auto
qed


text \<open>
  A terminal failure does not hold: a later report of a retriable failure for the same key moves
  the slot on, and the next claim of the key is told that it is new.
\<close>

theorem terminal_failure_reopens:
  assumes "slot_run E ls [] s" "lookup_slot tn k s = Some r" "ad_state r = Adm_failed_terminal" "\<forall>name. adm_hook E name = None"
  shows "\<exists>r' t u slot. fail_slot E tn k c detail True now s = (Inr (Some r'), t) \<and> claim_slot E tn k fp now' t = (Inr (Adm_new slot), u)"
proof -
  have ok: "slots_ok s" using run_slots_ok [OF assms(1)] by simp
  let ?t = "sql_update (is_slot tn k) (failed_slot True c detail now) s"
  have f: "fail_slot E tn k c detail True now s = (Inr (Some (failed_slot True c detail now r)), ?t)"
    using assms(2-4) by (simp add: fail_slot_def atomic_def lookup_slot_def)
  have "lookup_slot tn k ?t = Some (failed_slot True c detail now r)"
    using assms(2) by (simp add: updated_slot)
  then have "claim_slot E tn k fp now' ?t = (Inr (Adm_new (fresh_slot tn k fp now')), sql_update (is_slot tn k) (reclaim fp now') ?t)"
    using assms(4) by (simp add: claim_slot_def atomic_def lookup_slot_def reclaimable_def)
  then show ?thesis using f by blast
qed

section \<open>Witnesses\<close>

definition calm :: "string admission_env" where
  "calm = \<lparr>adm_hook = (\<lambda>_. None), unique_violation = ''UNIQUE constraint failed''\<rparr>"

definition slot_p :: admission_row where
  "slot_p = fresh_slot ''t'' ''k'' ''f'' 0"

lemma claim_p: "claim_slot calm ''t'' ''k'' ''f'' 0 [] = (Inr (Adm_new slot_p), [slot_p])"
  unfolding slot_p_def by code_simp

lemma run_p: "slot_run calm [''claim''] [] [slot_p]"
  by (rule slot_more [OF _ slot_done], rule slot_step.step_claim, rule claim_p)

lemma complete_p: "complete_slot calm ''t'' ''k'' ''j'' ''v'' 1 [slot_p] = (Inr (Some (completed_slot ''j'' ''v'' 1 slot_p)), [completed_slot ''j'' ''v'' 1 slot_p])"
  by code_simp

lemma fail_p: "fail_slot calm ''t'' ''k'' ''c'' ''d'' False 1 [slot_p] = (Inr (Some (failed_slot False ''c'' ''d'' 1 slot_p)), [failed_slot False ''c'' ''d'' 1 slot_p])"
  by code_simp

lemma run_c: "slot_run calm [''complete''] [slot_p] [completed_slot ''j'' ''v'' 1 slot_p]"
  by (rule slot_more [OF _ slot_done], rule slot_step.step_complete, rule complete_p)

lemma run_pc: "slot_run calm [''claim'', ''complete''] [] [completed_slot ''j'' ''v'' 1 slot_p]"
  by (rule slot_more, rule slot_step.step_claim, rule claim_p, rule run_c)

lemma run_f: "slot_run calm [''claim'', ''fail''] [] [failed_slot False ''c'' ''d'' 1 slot_p]"
  by (rule slot_more, rule slot_step.step_claim, rule claim_p, rule slot_more [OF _ slot_done], rule slot_step.step_fail, rule fail_p)

theorem admission_completed_final_witness:
  "\<exists>r. claim_slot calm ''t'' ''k'' ''g'' 5 [completed_slot ''j'' ''v'' 1 slot_p] = (Inr (Adm_conflict r), [completed_slot ''j'' ''v'' 1 slot_p])"
proof -
  have "lookup_slot ''t'' ''k'' [completed_slot ''j'' ''v'' 1 slot_p] = Some (completed_slot ''j'' ''v'' 1 slot_p)"
    by code_simp
  from admission_completed_final [OF run_pc this _ slot_done, of "''g''" 5] show ?thesis
    by (auto simp: calm_def slot_p_def)
qed


theorem terminal_failure_reopens_witness:
  "\<exists>r' t u slot. fail_slot calm ''t'' ''k'' ''c'' ''d'' True 2 [failed_slot False ''c'' ''d'' 1 slot_p] = (Inr (Some r'), t) \<and>
     claim_slot calm ''t'' ''k'' ''f'' 3 t = (Inr (Adm_new slot), u)"
proof -
  have "lookup_slot ''t'' ''k'' [failed_slot False ''c'' ''d'' 1 slot_p] = Some (failed_slot False ''c'' ''d'' 1 slot_p)"
    by code_simp
  from terminal_failure_reopens [OF run_f this] show ?thesis
    by (simp add: calm_def)
qed

end
