(* ===== verification/Admission_Pipeline.thy ===== *)
theory Admission_Pipeline
  imports Policy_Store Audit_Store Identity_Properties Quota_Properties Admission Runner_Loop
begin

text \<open>
  The admission of a job (\<^verbatim>\<open>vaulltcore-control/src/admission.ts\<close>): the pipeline that authorises a
  request, claims its idempotency key, evaluates the policy, reserves quota and creates the job, over the
  stores of the packages it calls. The state is the product of their states; each call acts on its part.
\<close>

section \<open>The control plane\<close>

record 'o plane =
  pn_identity :: identity_db
  pn_policies :: "policy_row list"
  pn_quota :: quota_db
  pn_slots :: "admission_row list"
  pn_audit :: "audit_event list"
  pn_runner :: "'o world"

datatype plane_error =
    AdmissionError string int
  | IdentityThrown identity_error
  | QuotaThrown quota_error
  | AuditThrown audit_error
  | RunnerThrown runner_error
  | SlotThrown

type_synonym ('o, 'a) pop = "('o plane, plane_error, 'a) op"

text \<open>
  The stores' options, the runner, the sources of ids (the clock is the runner's), and
  \<^verbatim>\<open>error.message\<close>.
\<close>

record ('o, 'h) admission_deps =
  dp_runner :: "('o, 'h) runner_env"
  dp_quota :: quota_options
  dp_slots :: "plane_error admission_env"
  dp_auditHook :: "string \<Rightarrow> audit_error option"
  dp_newReservationId :: "nat \<Rightarrow> string"
  dp_newEventId :: "nat \<Rightarrow> string"
  dp_message :: "plane_error \<Rightarrow> string"

text \<open>An operation of a store acts on its part of the plane; what it throws is wrapped.\<close>

definition part :: "('s \<Rightarrow> 't) \<Rightarrow> (('t \<Rightarrow> 't) \<Rightarrow> 's \<Rightarrow> 's) \<Rightarrow> ('e \<Rightarrow> 'f) \<Rightarrow> ('t, 'e, 'a) op \<Rightarrow> ('s, 'f, 'a) op" where
  "part sel upd wrap m = (\<lambda>s. case m (sel s) of
       (Inl e, t) \<Rightarrow> (Inl (wrap e), upd (\<lambda>_. t) s)
     | (Inr x, t) \<Rightarrow> (Inr x, upd (\<lambda>_. t) s))"

abbreviation on_runner :: "('o, 'a) wop \<Rightarrow> ('o, 'a) pop" where
  "on_runner \<equiv> part pn_runner pn_runner_update RunnerThrown"

abbreviation on_quota :: "'a quota_op \<Rightarrow> ('o, 'a) pop" where
  "on_quota \<equiv> part pn_quota pn_quota_update QuotaThrown"

abbreviation on_slots :: "(plane_error, 'a) admission_op \<Rightarrow> ('o, 'a) pop" where
  "on_slots \<equiv> part pn_slots pn_slots_update id"

abbreviation on_identity :: "'a identity_op \<Rightarrow> ('o, 'a) pop" where
  "on_identity \<equiv> part pn_identity pn_identity_update IdentityThrown"

definition pnow :: "('o, 'h) admission_deps \<Rightarrow> ('o, int) pop" where
  "pnow D = on_runner (Date_now (dp_runner D))"

definition draw_id :: "(nat \<Rightarrow> string) \<Rightarrow> ('o, string) pop" where
  "draw_id f = on_runner (tick f)"

section \<open>Requests\<close>

record admission_request =
  aq_principal :: resolved_principal
  aq_idempotencyKey :: string
  aq_orgId :: string
  aq_projectId :: string
  aq_spec :: job_spec
  aq_requestedTools :: "string list"
  aq_requestedMaxSteps :: "int option"
  aq_leaseMs :: "int option"

record admission_result =
  an_jobId :: string
  an_reservationId :: string
  an_decision :: admission_decision
  an_status :: job_status
  an_replayed :: bool

definition request_scope :: "admission_request \<Rightarrow> job_identity" where
  "request_scope q = \<lparr>tenantId = pr_tenantId (aq_principal q), orgId = aq_orgId q, projectId = aq_projectId q\<rparr>"

definition defaultLeaseMs :: "admission_decision \<Rightarrow> int" where
  "defaultLeaseMs d = min (ad_maxDurationMs d) 60000"

definition admissionFingerprint :: "host \<Rightarrow> job_identity \<Rightarrow> job_spec \<Rightarrow> string" where
  "admissionFingerprint h i sp = sha256 h (stableString h (JObj [(''tenantId'', JStr (tenantId i)), (''orgId'', JStr (orgId i)),
     (''projectId'', JStr (projectId i)),
     (''spec'', JObj [(''engine'', JStr (sp_engine sp)), (''model'', JStr (sp_model sp)), (''input'', JStr (sp_input sp))])]))"

definition request_fingerprint :: "('o, 'h) admission_deps \<Rightarrow> admission_request \<Rightarrow> string" where
  "request_fingerprint D q = admissionFingerprint (rv_host (dp_runner D)) (request_scope q) (aq_spec q)"

text \<open>\<^verbatim>\<open>toExecutionPolicy\<close>, the same as \<^verbatim>\<open>projectExecutionPolicy\<close> of the policy package.\<close>

definition toExecutionPolicy :: "admission_decision \<Rightarrow> int \<Rightarrow> partial_policy" where
  "toExecutionPolicy d ms = \<lparr>pp_version = Some (ad_policyVersion d), pp_maxSteps = Some (ad_maxSteps d),
     pp_onUncertainToolCall = Some Mark_uncertain, pp_allowedTools = Some (ad_allowedTools d), pp_idempotentTools = Some [],
     pp_leaseMs = Some ms, pp_maxTokens = None, pp_maxDurationMs = None\<rparr>"

definition quotaLimitsFromDecision :: "admission_decision \<Rightarrow> int \<Rightarrow> quota_limits" where
  "quotaLimitsFromDecision d n = \<lparr>maxConcurrentJobs = n, jobsPerPeriod = ad_maxConcurrentJobs d * 10, periodMs = 3600000,
     maxTokens = ad_maxTokens d, maxDurationMs = ad_maxDurationMs d\<rparr>"

definition auditActor :: "resolved_principal \<Rightarrow> audit_actor" where
  "auditActor p = \<lparr>aa_principalId = pr_principalId p,
     aa_kind = (case pr_kind p of User_principal \<Rightarrow> ''user'' | Service_principal \<Rightarrow> ''service_account''), aa_tenantId = pr_tenantId p\<rparr>"

definition toPolicyRequest :: "admission_request \<Rightarrow> policy_request" where
  "toPolicyRequest q = \<lparr>rq_requestedTools = aq_requestedTools q, rq_requestedMaxSteps = aq_requestedMaxSteps q, rq_requestedAllowSnapshots = None\<rparr>"

section \<open>The steps\<close>

definition audit :: "('o, 'h) admission_deps \<Rightarrow> resolved_principal \<Rightarrow> job_identity \<Rightarrow> string \<Rightarrow> json \<Rightarrow> ('o, unit) pop" where
  "audit D p i typ meta = andThen (pnow D) (\<lambda>now. andThen (draw_id (dp_newEventId D)) (\<lambda>eid.
     andThen (part pn_audit pn_audit_update AuditThrown (appendAudit (dp_auditHook D) eid now (Some (auditActor p)) (Some i) typ meta)) (\<lambda>_.
     ok ())))"

definition reason_meta :: "string \<Rightarrow> json" where
  "reason_meta r = JObj [(''reason'', JStr r)]"

text \<open>\<^verbatim>\<open>idempotency.fail(...).catch(() => {})\<close>.\<close>

definition fail_quietly :: "('o, 'h) admission_deps \<Rightarrow> admission_request \<Rightarrow> string \<Rightarrow> string \<Rightarrow> bool \<Rightarrow> ('o, unit) pop" where
  "fail_quietly D q c detail retriable = catch
     (andThen (pnow D) (\<lambda>now. andThen (on_slots (fail_slot (dp_slots D) (pr_tenantId (aq_principal q)) (aq_idempotencyKey q) c detail retriable now)) (\<lambda>_.
      ok ()))) (\<lambda>_. ok ())"

definition identity_status :: "string \<Rightarrow> int" where
  "identity_status c = (if c = ''FORBIDDEN_ORG'' \<or> take 9 c = ''FORBIDDEN'' \<or> c = ''IDENTITY_MISMATCH'' then 403 else 404)"

definition authorized :: "('o, 'h) admission_deps \<Rightarrow> admission_request \<Rightarrow> ('o, unit) pop" where
  "authorized D q = catch
     (on_identity (andThen (authorize (aq_principal q) (aq_orgId q) (aq_projectId q)) (\<lambda>_. validateJobIdentity (request_scope q))))
     (\<lambda>e. case e of
        IdentityThrown (IdentityError c) \<Rightarrow>
          andThen (audit D (aq_principal q) (request_scope q) ''job_rejected'' (JObj [(''reason'', JStr c), (''message'', JStr (dp_message D e))])) (\<lambda>_.
          throw (AdmissionError c (identity_status c)))
      | _ \<Rightarrow> throw e)"

definition claim_key :: "('o, 'h) admission_deps \<Rightarrow> admission_request \<Rightarrow> ('o, admission_claim_result) pop" where
  "claim_key D q = andThen (pnow D) (\<lambda>now.
     on_slots (claim_slot (dp_slots D) (pr_tenantId (aq_principal q)) (aq_idempotencyKey q) (request_fingerprint D q) now))"

definition reserve_quota :: "('o, 'h) admission_deps \<Rightarrow> admission_request \<Rightarrow> quota_limits \<Rightarrow> ('o, quota_reservation) pop" where
  "reserve_quota D q lims = catch
     (andThen (pnow D) (\<lambda>now. andThen (draw_id (dp_newReservationId D)) (\<lambda>rid.
      on_quota (reserve (dp_quota D) now rid (quotaScope (request_scope q)) (aq_idempotencyKey q) None lims))))
     (\<lambda>e. andThen (fail_quietly D q ''QUOTA_REJECTED'' (case e of QuotaThrown (QuotaError c) \<Rightarrow> c | _ \<Rightarrow> ''unknown'') True) (\<lambda>_.
        case e of
          QuotaThrown (QuotaError c) \<Rightarrow>
            andThen (audit D (aq_principal q) (request_scope q) ''quota_rejected'' (JObj [(''reason'', JStr c), (''requestKey'', JStr (aq_idempotencyKey q))])) (\<lambda>_.
            throw (AdmissionError c 429))
        | _ \<Rightarrow> throw e))"

definition job_input :: "admission_request \<Rightarrow> admission_decision \<Rightarrow> create_job_input" where
  "job_input q d = \<lparr>tenantId = pr_tenantId (aq_principal q), orgId = aq_orgId q, projectId = aq_projectId q, ci_spec = aq_spec q,
     ci_policy = toExecutionPolicy d (case aq_leaseMs q of Some ms \<Rightarrow> ms | None \<Rightarrow> defaultLeaseMs d), ci_env = []\<rparr>"

text \<open>The creation of the job, with its compensation.\<close>

definition release_quietly :: "('o, 'h) admission_deps \<Rightarrow> quota_reservation \<Rightarrow> ('o, unit) pop" where
  "release_quietly D res = catch
     (andThen (pnow D) (\<lambda>now. andThen (on_quota (Quota.release (dp_quota D) now (reservationId res) (res_version res))) (\<lambda>_. ok ()))) (\<lambda>_. ok ())"

definition create_or_compensate :: "('o, 'h) admission_deps \<Rightarrow> admission_request \<Rightarrow> admission_decision \<Rightarrow> quota_reservation \<Rightarrow> ('o, job_record) pop" where
  "create_or_compensate D q d res = catch (on_runner (createJob (dp_runner D) (job_input q d)))
     (\<lambda>e. andThen (release_quietly D res) (\<lambda>_.
        andThen (fail_quietly D q ''JOB_CREATION_FAILED'' (dp_message D e) True) (\<lambda>_.
        andThen (audit D (aq_principal q) (request_scope q) ''job_rejected''
          (JObj [(''reason'', JStr ''JOB_CREATION_FAILED''), (''message'', JStr (dp_message D e))])) (\<lambda>_.
        throw e))))"

definition state_text :: "reservation_state \<Rightarrow> string" where
  "state_text st = (case st of R_pending \<Rightarrow> ''pending'' | R_active \<Rightarrow> ''active'' | R_settled \<Rightarrow> ''settled'' | R_released \<Rightarrow> ''released''
     | R_expired \<Rightarrow> ''expired'' | R_rejected \<Rightarrow> ''rejected'')"

definition link_job :: "('o, 'h) admission_deps \<Rightarrow> admission_request \<Rightarrow> admission_decision \<Rightarrow> quota_reservation \<Rightarrow> job_record \<Rightarrow> ('o, unit) pop" where
  "link_job D q d res r = andThen (on_quota (attachJob (dp_quota D) (reservationId res) (jr_jobId r))) (\<lambda>_.
     andThen (pnow D) (\<lambda>now.
     andThen (on_slots (complete_slot (dp_slots D) (pr_tenantId (aq_principal q)) (aq_idempotencyKey q) (jr_jobId r) (reservationId res) now)) (\<lambda>_.
     audit D (aq_principal q) (request_scope q) ''job_admitted''
       (JObj [(''jobId'', JStr (jr_jobId r)), (''reservationId'', JStr (reservationId res)), (''policyVersion'', JStr (ad_policyVersion d))]))))"

text \<open>Steps 3 to 6, for the owner of the key's slot.\<close>

definition admit_new :: "('o, 'h) admission_deps \<Rightarrow> admission_request \<Rightarrow> ('o, admission_result) pop" where
  "admit_new D q = andThen (reads (\<lambda>s. evaluate (request_scope q) (toPolicyRequest q) (pn_policies s))) (\<lambda>d.
     andThen (audit D (aq_principal q) (request_scope q) ''policy_decision'' (JObj [(''allowed'', JBool (ad_allowed d)),
       (''reasonCode'', JStr (ad_reasonCode d)), (''policyId'', JStr (ad_policyId d)), (''policyVersion'', JStr (ad_policyVersion d))])) (\<lambda>_.
     if \<not> ad_allowed d then
       andThen (fail_quietly D q ''POLICY_DENIED'' (ad_reasonCode d) False) (\<lambda>_.
       andThen (audit D (aq_principal q) (request_scope q) ''job_rejected'' (reason_meta (ad_reasonCode d))) (\<lambda>_.
       throw (AdmissionError ''POLICY_DENIED'' 403)))
     else
       let lims = quotaLimitsFromDecision d (ad_maxConcurrentJobs d) in
       andThen (on_quota (setLimits (dp_quota D) (quotaScope (request_scope q)) lims)) (\<lambda>_.
       andThen (reserve_quota D q lims) (\<lambda>res.
       andThen (audit D (aq_principal q) (request_scope q) ''quota_reserved''
         (JObj [(''reservationId'', JStr (reservationId res)), (''state'', JStr (state_text (res_state res)))])) (\<lambda>_.
       andThen (create_or_compensate D q d res) (\<lambda>r.
       andThen (link_job D q d res r) (\<lambda>_.
       ok \<lparr>an_jobId = jr_jobId r, an_reservationId = reservationId res, an_decision = d, an_status = jr_status r, an_replayed = False\<rparr>)))))))"

definition replay :: "('o, 'h) admission_deps \<Rightarrow> admission_request \<Rightarrow> admission_row \<Rightarrow> ('o, admission_result) pop" where
  "replay D q slot = (case ad_jobId slot of
       None \<Rightarrow> andThen (fail_quietly D q ''INCONSISTENT_SLOT'' ''completed slot missing jobId'' True) (\<lambda>_.
         throw (AdmissionError ''IDEMPOTENCY_INCONSISTENT'' 500))
     | Some jid \<Rightarrow> andThen (on_runner (getJob jid)) (\<lambda>found.
         case found of
           Some job \<Rightarrow>
             if tenantId job \<noteq> pr_tenantId (aq_principal q) \<and> \<not> pr_admin (aq_principal q) then throw (AdmissionError ''JOB_NOT_FOUND'' 404)
             else andThen (reads (\<lambda>s. evaluate (request_scope q) (toPolicyRequest q) (pn_policies s))) (\<lambda>d.
               ok \<lparr>an_jobId = jid, an_reservationId = (case ad_reservationId slot of Some r \<Rightarrow> r | None \<Rightarrow> ''''), an_decision = d,
                   an_status = jv_status job, an_replayed = True\<rparr>)
         | None \<Rightarrow> andThen (fail_quietly D q ''STALE_JOB'' ''completed slot referenced a missing job'' True) (\<lambda>_. admit_new D q)))"

definition admit :: "('o, 'h) admission_deps \<Rightarrow> admission_request \<Rightarrow> ('o, admission_result) pop" where
  "admit D q = (if aq_idempotencyKey q = [] then throw (AdmissionError ''BAD_REQUEST'' 400)
     else andThen (authorized D q) (\<lambda>_. andThen (claim_key D q) (\<lambda>c. case c of
       Adm_is_completed slot \<Rightarrow> replay D q slot
     | Adm_conflict slot \<Rightarrow> throw (AdmissionError ''IDEMPOTENCY_CONFLICT'' 409)
     | Adm_is_pending slot \<Rightarrow> throw (AdmissionError ''IDEMPOTENCY_INFLIGHT'' 425)
     | Adm_new slot \<Rightarrow> admit_new D q)))"

definition settleAndBill :: "('o, 'h) admission_deps \<Rightarrow> resolved_principal \<Rightarrow> string \<Rightarrow> string \<Rightarrow> nat \<Rightarrow> job_metrics \<Rightarrow> int
    \<Rightarrow> ('o, quota_reservation) pop" where
  "settleAndBill D p jid rid v spent ms = andThen (on_runner (getJob jid)) (\<lambda>found.
     case found of None \<Rightarrow> throw (AdmissionError ''JOB_NOT_FOUND'' 404)
     | Some job \<Rightarrow>
         if tenantId job \<noteq> pr_tenantId p \<and> \<not> pr_admin p then throw (AdmissionError ''JOB_NOT_FOUND'' 404)
         else andThen (pnow D) (\<lambda>now. andThen (on_quota (Quota.settle (dp_quota D) now rid v (totalTokens spent) ms)) (\<lambda>settled.
           andThen (audit D p \<lparr>tenantId = pr_tenantId p, orgId = orgId job, projectId = projectId job\<rparr> ''quota_settled''
             (JObj [(''reservationId'', JStr rid), (''tokens'', jint (totalTokens spent)), (''durationMs'', jint ms)])) (\<lambda>_. ok settled))))"

section \<open>The in-memory registry\<close>

text \<open>Its map is keyed by the text of tenant and key, joined with a bar.\<close>

type_synonym memory_slots = "(string, admission_row) table"

definition memory_key :: "string \<Rightarrow> string \<Rightarrow> string" where
  "memory_key tenant key = tenant @ ''|'' @ key"

definition memory_claim :: "string \<Rightarrow> string \<Rightarrow> string \<Rightarrow> int \<Rightarrow> (memory_slots, plane_error, admission_claim_result) op" where
  "memory_claim tenant key fp now = andThen (reads (\<lambda>t. tget t (memory_key tenant key))) (\<lambda>existing.
     let slot = fresh_slot tenant key fp now;
         make = andThen (modifies (tput (memory_key tenant key) slot)) (\<lambda>_. ok (Adm_new slot)) in
     case existing of None \<Rightarrow> make
     | Some r \<Rightarrow>
         if reclaimable now r then make
         else if ad_fingerprint r \<noteq> fp then ok (Adm_conflict r)
         else if ad_state r = Adm_completed then ok (Adm_is_completed r)
         else ok (Adm_is_pending r))"

definition memory_update :: "string \<Rightarrow> string \<Rightarrow> (admission_row \<Rightarrow> admission_row) \<Rightarrow> (memory_slots, plane_error, admission_row option) op" where
  "memory_update tenant key f = andThen (reads (\<lambda>t. tget t (memory_key tenant key))) (\<lambda>existing.
     case existing of None \<Rightarrow> ok None
     | Some r \<Rightarrow> andThen (modifies (tput (memory_key tenant key) (f r))) (\<lambda>_. ok (Some (f r))))"

definition memory_complete :: "string \<Rightarrow> string \<Rightarrow> string \<Rightarrow> string \<Rightarrow> int \<Rightarrow> (memory_slots, plane_error, admission_row option) op" where
  "memory_complete tenant key job reservation now = memory_update tenant key (completed_slot job reservation now)"

definition memory_fail :: "string \<Rightarrow> string \<Rightarrow> string \<Rightarrow> string \<Rightarrow> bool \<Rightarrow> int \<Rightarrow> (memory_slots, plane_error, admission_row option) op" where
  "memory_fail tenant key c detail retriable now = memory_update tenant key (failed_slot retriable c detail now)"

definition memory_lookup :: "string \<Rightarrow> string \<Rightarrow> memory_slots \<Rightarrow> admission_row option" where
  "memory_lookup tenant key t = tget t (memory_key tenant key)"

end
