(* ===== verification/Admission_Properties.thy ===== *)
theory Admission_Properties
  imports Admission_Pipeline
begin

text \<open>
  What the admission pipeline guarantees: a key that admitted a job answers with that job from then on,
  and a creation that fails gives its capacity back. And what it does not: a key whose request was denied
  never admits, and a retry after a failed creation runs on capacity that was given back.
\<close>

section \<open>Parts of the plane\<close>

lemma part_Inr: "part sel upd wrap m s = (Inr x, t) \<longleftrightarrow> (\<exists>u. m (sel s) = (Inr x, u) \<and> t = upd (\<lambda>_. u) s)"
  by (auto simp: part_def split: prod.splits sum.splits)

lemma part_Inl: "part sel upd wrap m s = (Inl e, t) \<longleftrightarrow> (\<exists>d u. m (sel s) = (Inl d, u) \<and> e = wrap d \<and> t = upd (\<lambda>_. u) s)"
  by (auto simp: part_def split: prod.splits sum.splits)

lemma catch_Inr: "catch m h s = (Inr x, t) \<longleftrightarrow> m s = (Inr x, t) \<or> (\<exists>e u. m s = (Inl e, u) \<and> h e u = (Inr x, t))"
  by (auto simp: catch_def split: prod.splits sum.splits)

lemma catch_Inl: "catch m h s = (Inl e, t) \<longleftrightarrow> (\<exists>d u. m s = (Inl d, u) \<and> h d u = (Inl e, t))"
  by (auto simp: catch_def split: prod.splits sum.splits)

lemmas op_cases = andThen_Inr_iff andThen_Inl_iff part_Inr part_Inl catch_Inr catch_Inl

text \<open>The audit log, the clock and the ids: the steps that leave every store but the log as it was.\<close>

definition stores :: "'o plane \<Rightarrow> policy_row list \<times> quota_db \<times> admission_row list \<times> dist_db" where
  "stores s = (pn_policies s, pn_quota s, pn_slots s, wdb (pn_runner s))"

lemma stores_iff: "stores t = stores s \<longleftrightarrow>
    pn_policies t = pn_policies s \<and> pn_quota t = pn_quota s \<and> pn_slots t = pn_slots s \<and> wdb (pn_runner t) = wdb (pn_runner s)"
  by (simp add: stores_def)

lemma stores_pnow: "pnow D s = (x, t) \<Longrightarrow> stores t = stores s \<and> (\<exists>now. x = Inr now)"
  by (auto simp: pnow_def part_def Date_now_def tick_def stores_def)

lemma stores_draw: "draw_id f s = (x, t) \<Longrightarrow> stores t = stores s \<and> (\<exists>i. x = Inr i)"
  by (auto simp: draw_id_def part_def tick_def stores_def)

lemma stores_audit: "audit D p i ty m s = (x, t) \<Longrightarrow> stores t = stores s \<and> (\<forall>e. x = Inl e \<longrightarrow> (\<exists>a. e = AuditThrown a))"
  by (cases x; unfold audit_def)
    (auto simp: op_cases stores_iff dest!: stores_pnow stores_draw)

lemma keeps_part: "(\<And>s t. I s \<Longrightarrow> I (upd (\<lambda>_. t) s)) \<Longrightarrow> keeps I (part sel upd wrap m)"
  by (auto simp: keeps_def part_def split: prod.splits sum.splits)

lemma keeps_stores_audit: "keeps (\<lambda>s. stores s = v) (audit D p i ty m)"
  by (rule keepsI) (auto dest: stores_audit)

lemma keeps_stores_authorized: "keeps (\<lambda>s. stores s = v) (authorized D q)"
proof -
  have h: "keeps (\<lambda>s. stores s = v) (case e of
      IdentityThrown (IdentityError c) \<Rightarrow> andThen (audit D p i ty (m c e)) (\<lambda>_. throw (AdmissionError c (f c))) | _ \<Rightarrow> throw e)"
    for e :: plane_error and p i ty m f
    by (cases e; (simp add: keeps_throw)?) (auto split: identity_error.split intro!: keeps_intros keeps_stores_audit)
  show ?thesis
    unfolding authorized_def by (intro keeps_catch keeps_part h) (simp add: stores_def)
qed

lemma stores_authorized: "authorized D q s = (x, t) \<Longrightarrow> stores t = stores s"
  by (rule keepsD [OF keeps_stores_authorized refl])

text \<open>Failing a slot without complaint writes no other store.\<close>

lemma fail_quietly_slots:
  assumes "fail_quietly D q c detail retriable s = (x, t)"
  shows "x = Inr () \<and> pn_quota t = pn_quota s \<and> wdb (pn_runner t) = wdb (pn_runner s) \<and>
    (\<exists>now y. fail_slot (dp_slots D) (pr_tenantId (aq_principal q)) (aq_idempotencyKey q) c detail retriable now (pn_slots s) = (y, pn_slots t))"
proof (cases x)
  case (Inl e)
  then show ?thesis
    using assms by (auto simp: fail_quietly_def catch_Inl)
next
  case (Inr y)
  then show ?thesis
    using assms unfolding Inr fail_quietly_def
    by (auto simp: op_cases stores_iff dest!: stores_pnow) (metis, metis)
qed

lemma quietly_returns [simp]: "fail_quietly D q c detail retriable s \<noteq> (Inl e, t)" "release_quietly D res s \<noteq> (Inl e, t)"
  by (auto simp: fail_quietly_def release_quietly_def catch_Inl)

section \<open>The steps of an admission\<close>

definition slot_at :: "admission_request \<Rightarrow> admission_row list \<Rightarrow> admission_row option" where
  "slot_at q rows = lookup_slot (pr_tenantId (aq_principal q)) (aq_idempotencyKey q) rows"

definition quiet_plane :: "('o, 'h) admission_deps \<Rightarrow> bool" where
  "quiet_plane D \<longleftrightarrow> (\<forall>name. adm_hook (dp_slots D) name = None) \<and> (\<forall>name. q_beforeCommit (dp_quota D) name = None)"

lemma claim_key_Inr:
  assumes "claim_key D q s = (Inr c, t)"
  shows "\<exists>now. claim_slot (dp_slots D) (pr_tenantId (aq_principal q)) (aq_idempotencyKey q) (request_fingerprint D q) now (pn_slots s) = (Inr c, pn_slots t) \<and>
     pn_quota t = pn_quota s \<and> wdb (pn_runner t) = wdb (pn_runner s) \<and> pn_policies t = pn_policies s"
  using assms by (auto simp: claim_key_def andThen_Inr_iff part_Inr stores_iff dest!: stores_pnow)

lemma quota_rethrow: "(case e of QuotaThrown (QuotaError c) \<Rightarrow> m c | _ \<Rightarrow> throw e) u = (Inr x, t) \<Longrightarrow> \<exists>c. m c u = (Inr x, t)"
  by (cases e; (simp add: throw_def)?) (auto split: quota_error.splits)

lemma reserve_quota_Inr:
  assumes "reserve_quota D q lims s = (Inr res, t)"
  shows "pn_slots t = pn_slots s \<and> wdb (pn_runner t) = wdb (pn_runner s) \<and> (\<exists>now rid.
     reserve (dp_quota D) now rid (quotaScope (request_scope q)) (aq_idempotencyKey q) None lims (pn_quota s) = (Inr res, pn_quota t))"
proof -
  obtain now s1 rid s2 where "pnow D s = (Inr now, s1)" "draw_id (dp_newReservationId D) s1 = (Inr rid, s2)"
      "on_quota (reserve (dp_quota D) now rid (quotaScope (request_scope q)) (aq_idempotencyKey q) None lims) s2 = (Inr res, t)"
    using assms by (auto simp: reserve_quota_def catch_Inr andThen_Inr_iff dest!: quota_rethrow)
  then have "pn_slots t = pn_slots s \<and> wdb (pn_runner t) = wdb (pn_runner s) \<and>
      reserve (dp_quota D) now rid (quotaScope (request_scope q)) (aq_idempotencyKey q) None lims (pn_quota s) = (Inr res, pn_quota t)"
    by (auto simp: part_Inr stores_iff dest!: stores_pnow stores_draw)
  then show ?thesis
    by blast
qed

lemma append_keeps_job:
  assumes "appendEvents hook jid [e] x s = (Inr es, t)"
  shows "find_job k t = None \<longleftrightarrow> find_job k s = None"
proof -
  have "map row_jobId (jobs t) = map row_jobId (jobs s)"
    using assms by (auto simp: appendEvents_def atomic_Inr andThen_Inr_iff readRow_def map_sql_update split: option.splits if_splits)
  then have "row_jobId ` set (jobs t) = row_jobId ` set (jobs s)"
    by (metis set_map)
  then show ?thesis
    by (metis (mono_tags, lifting) find_job_def image_iff sql_get_None)
qed

lemma created_job:
  assumes "createJob E i w = (Inr r, w')"
  shows "find_job (jr_jobId r) (wdb w') \<noteq> None \<and> jr_status r = JQueued"
proof -
  obtain now jid d d1 d2 es where r: "r = new_record i jid now" and c: "createJobRecord (rv_hook E) r d = (Inr (), d1)"
      and a: "appendEvents (rv_hook E) jid [new_event jid now EvQueued (JObj [(''engine'', JStr (sp_engine (ci_spec i))), (''model'', JStr (sp_model (ci_spec i)))])] None d1
        = (Inr es, d2)" and w: "wdb w' = d2"
    using assms by (auto simp: createJob_def andThen_Inr_iff Let_def Date_now_def tick_def in_db_Inr append_events_def split: option.splits)
  have "find_job jid d1 \<noteq> None"
    using c by (auto simp: createJobRecord_def atomic_Inr r new_record_def row_of_def find_job_def split: if_splits option.splits)
  then have "find_job jid d2 \<noteq> None"
    using append_keeps_job [OF a] by auto
  then show ?thesis
    by (auto simp: r new_record_def w)
qed


lemma create_Inr:
  assumes "create_or_compensate D q d res s = (Inr r, t)"
  shows "pn_slots t = pn_slots s \<and> pn_quota t = pn_quota s \<and> find_job (jr_jobId r) (wdb (pn_runner t)) \<noteq> None \<and> jr_status r = JQueued"
  using assms created_job by (fastforce simp: create_or_compensate_def catch_Inr andThen_Inr_iff part_Inr)

lemma link_Inr:
  assumes "link_job D q d res r s = (Inr u, t)"
  shows "wdb (pn_runner t) = wdb (pn_runner s) \<and>
    attachJob (dp_quota D) (reservationId res) (jr_jobId r) (pn_quota s) = (Inr (), pn_quota t) \<and>
    (\<exists>now x. complete_slot (dp_slots D) (pr_tenantId (aq_principal q)) (aq_idempotencyKey q) (jr_jobId r) (reservationId res) now (pn_slots s) = (Inr x, pn_slots t))"
proof -
  obtain s1 now s2 x s3 where "on_quota (attachJob (dp_quota D) (reservationId res) (jr_jobId r)) s = (Inr (), s1)" "pnow D s1 = (Inr now, s2)"
      "on_slots (complete_slot (dp_slots D) (pr_tenantId (aq_principal q)) (aq_idempotencyKey q) (jr_jobId r) (reservationId res) now) s2 = (Inr x, s3)"
      "stores t = stores s3"
    using assms by (auto simp: link_job_def andThen_Inr_iff dest: stores_audit)
  then have "wdb (pn_runner t) = wdb (pn_runner s)"
      "attachJob (dp_quota D) (reservationId res) (jr_jobId r) (pn_quota s) = (Inr (), pn_quota t)"
      "complete_slot (dp_slots D) (pr_tenantId (aq_principal q)) (aq_idempotencyKey q) (jr_jobId r) (reservationId res) now (pn_slots s) = (Inr x, pn_slots t)"
    by (auto simp: part_Inr stores_iff dest!: stores_pnow)
  then show ?thesis
    by blast
qed

text \<open>What an admission that is not a replay went through.\<close>

lemma admit_new_Inr:
  assumes "admit_new D q s = (Inr a, t)"
  obtains lims now rid now' res db x and r :: job_record where
    "reserve (dp_quota D) now rid (quotaScope (request_scope q)) (aq_idempotencyKey q) None lims ((pn_quota s)\<lparr>quota_limits_t := db\<rparr>) = (Inr res, x)"
    "attachJob (dp_quota D) (reservationId res) (jr_jobId r) x = (Inr (), pn_quota t)"
    "\<exists>y. complete_slot (dp_slots D) (pr_tenantId (aq_principal q)) (aq_idempotencyKey q) (jr_jobId r) (reservationId res) now' (pn_slots s) = (Inr y, pn_slots t)"
    "find_job (jr_jobId r) (wdb (pn_runner t)) \<noteq> None" "an_jobId a = jr_jobId r" "an_reservationId a = reservationId res"
    "\<not> an_replayed a" "an_status a = JQueued"
proof -
  define d where "d = evaluate (request_scope q) (toPolicyRequest q) (pn_policies s)"
  define lims where "lims = quotaLimitsFromDecision d (ad_maxConcurrentJobs d)"
  obtain s1 s2 res s3 s4 r s5 where st: "stores s1 = stores s" "on_quota (setLimits (dp_quota D) (quotaScope (request_scope q)) lims) s1 = (Inr (), s2)"
      "reserve_quota D q lims s2 = (Inr res, s3)" "stores s4 = stores s3" "create_or_compensate D q d res s4 = (Inr r, s5)"
      "link_job D q d res r s5 = (Inr (), t)" "an_jobId a = jr_jobId r" "an_reservationId a = reservationId res" "an_status a = jr_status r" "\<not> an_replayed a"
    using assms unfolding admit_new_def andThen_reads d_def [symmetric] lims_def
    by (auto simp: andThen_Inr_iff Let_def split: if_splits dest!: stores_audit)
  have "pn_quota s2 = (pn_quota s)\<lparr>quota_limits_t := quota_limits_t (pn_quota s2)\<rparr>" and s2: "pn_slots s2 = pn_slots s"
    using st(1,2) by (auto simp: part_Inr stores_iff setLimits_def atomic_Inr)
  then obtain db where db: "pn_quota s2 = (pn_quota s)\<lparr>quota_limits_t := db\<rparr>"
    by blast
  obtain now rid where "reserve (dp_quota D) now rid (quotaScope (request_scope q)) (aq_idempotencyKey q) None lims (pn_quota s2) = (Inr res, pn_quota s3)"
      "pn_slots s3 = pn_slots s2"
    using reserve_quota_Inr [OF st(3)] by blast
  moreover obtain now' y where
      "complete_slot (dp_slots D) (pr_tenantId (aq_principal q)) (aq_idempotencyKey q) (jr_jobId r) (reservationId res) now' (pn_slots s5) = (Inr y, pn_slots t)"
      "attachJob (dp_quota D) (reservationId res) (jr_jobId r) (pn_quota s5) = (Inr (), pn_quota t)" "wdb (pn_runner t) = wdb (pn_runner s5)"
    using link_Inr [OF st(6)] by blast
  ultimately show ?thesis
    using create_Inr [OF st(5)] st(4,7-) that [of now rid lims db res "pn_quota s3" r now'] s2 unfolding db stores_iff by auto
qed

subsection \<open>The slots\<close>

lemma keeps_on_slots: "(\<And>s x t. m s = (x, t) \<Longrightarrow> \<exists>l. slot_step E l s t) \<Longrightarrow> keeps (\<lambda>s. slots_ok (pn_slots s)) (on_slots m)"
  by (rule keepsI) (auto simp: part_def split: prod.splits sum.splits; metis step_slots_ok)

lemma keeps_other: "keeps (\<lambda>s. slots_ok (pn_slots s)) (on_runner m1)" "keeps (\<lambda>s. slots_ok (pn_slots s)) (on_quota m2)"
  "keeps (\<lambda>s. slots_ok (pn_slots s)) (on_identity m3)" "keeps (\<lambda>s. slots_ok (pn_slots s)) (audit D p i ty m)"
  "keeps (\<lambda>s. slots_ok (pn_slots s)) (pnow D)" "keeps (\<lambda>s. slots_ok (pn_slots s)) (draw_id f)"
  unfolding audit_def pnow_def draw_id_def by (intro keeps_intros keeps_part; simp)+

lemma keeps_fail: "keeps (\<lambda>s. slots_ok (pn_slots s)) (fail_quietly D q c d b)"
  unfolding fail_quietly_def by (intro keeps_intros keeps_other keeps_on_slots) (blast intro: slot_step.intros)

lemma keeps_claim: "keeps (\<lambda>s. slots_ok (pn_slots s)) (claim_key D q)"
  unfolding claim_key_def by (intro keeps_intros keeps_other keeps_on_slots) (blast intro: slot_step.intros)

lemma keeps_reserve: "keeps (\<lambda>s. slots_ok (pn_slots s)) (reserve_quota D q lims)"
  unfolding reserve_quota_def
  by (intro keeps_intros keeps_other keeps_fail) (auto split: plane_error.split quota_error.split intro!: keeps_intros keeps_other)

lemma keeps_link: "keeps (\<lambda>s. slots_ok (pn_slots s)) (link_job D q d res r)"
  unfolding link_job_def by (intro keeps_intros keeps_other keeps_on_slots) (blast intro: slot_step.intros)

lemma keeps_admit_new: "keeps (\<lambda>s. slots_ok (pn_slots s)) (admit_new D q)"
  unfolding admit_new_def Let_def create_or_compensate_def release_quietly_def
  by (intro keeps_intros keeps_other keeps_fail keeps_reserve keeps_link)

lemma keeps_authorized: "keeps (\<lambda>s. slots_ok (pn_slots s)) (authorized D q)"
  by (rule keepsI) (auto simp: stores_iff dest!: stores_authorized)

lemma keeps_admit: "keeps (\<lambda>s. slots_ok (pn_slots s)) (admit D q)"
  unfolding admit_def replay_def
  by (intro keeps_intros keeps_authorized keeps_claim)
    (auto split: admission_claim_result.split intro!: keeps_intros keeps_other keeps_fail keeps_admit_new)

lemma admit_claims:
  fixes p p1 :: "'o plane"
  assumes "admit D q p = (Inr a, p1)"
  obtains s s1 :: "'o plane" and now c where "stores s = stores p"
    "claim_slot (dp_slots D) (pr_tenantId (aq_principal q)) (aq_idempotencyKey q) (request_fingerprint D q) now (pn_slots p) = (Inr c, pn_slots s1)"
    "pn_quota s1 = pn_quota p" "wdb (pn_runner s1) = wdb (pn_runner p)" "pn_policies s1 = pn_policies p"
    "(\<exists>slot. c = Adm_is_completed slot \<and> replay D q slot s1 = (Inr a, p1)) \<or> (\<exists>slot. c = Adm_new slot \<and> admit_new D q s1 = (Inr a, p1))"
proof -
  obtain s c s1 where "authorized D q p = (Inr (), s)" "claim_key D q s = (Inr c, s1)"
      "(case c of Adm_is_completed slot \<Rightarrow> replay D q slot | Adm_new slot \<Rightarrow> admit_new D q
        | Adm_conflict slot \<Rightarrow> throw (AdmissionError ''IDEMPOTENCY_CONFLICT'' 409) | Adm_is_pending slot \<Rightarrow> throw (AdmissionError ''IDEMPOTENCY_INFLIGHT'' 425)) s1 = (Inr a, p1)"
    using assms by (auto simp: admit_def andThen_Inr_iff split: if_splits)
  then show ?thesis
    using stores_authorized [of D q p "Inr ()" s] claim_key_Inr [of D q s c s1] that [of s]
    by (auto simp: stores_iff split: admission_claim_result.splits)
qed


lemma claimed_pending:
  assumes "claim_slot E tn k fp now s = (Inr (Adm_new slot), t)"
  shows "\<exists>r. lookup_slot tn k t = Some r \<and> ad_state r = Adm_pending"
  using assms updated_slot [of "reclaim fp now" tn k tn k s]
  by (auto simp: claim_slot_def atomic_Inr lookup_slot_def Let_def is_slot_fresh split: option.splits if_splits)

lemma completed_after:
  assumes "complete_slot E tn k j v now s = (Inr x, t)" "lookup_slot tn k s = Some r" "ad_state r \<noteq> Adm_failed_terminal"
  shows "\<exists>r'. lookup_slot tn k t = Some r' \<and> ad_state r' = Adm_completed \<and> ad_jobId r' = Some j"
proof -
  have "t = sql_update (is_slot tn k) (completed_slot j v now) s"
    using assms by (auto simp: complete_slot_def atomic_Inr lookup_slot_def)
  then show ?thesis
    using assms(2) by (simp add: updated_slot)
qed

lemma claim_completed:
  assumes "claim_slot E tn k fp now s = (Inr (Adm_is_completed slot), t)"
  shows "t = s \<and> lookup_slot tn k s = Some slot \<and> ad_state slot = Adm_completed"
  using assms by (auto simp: claim_slot_def atomic_Inr lookup_slot_def Let_def split: option.splits if_splits)

lemma getJob_app:
  assumes "getJob jid w = (Inr x, v)"
  shows "wdb v = wdb w \<and> (x = None \<longleftrightarrow> find_job jid (wdb w) = None)"
  using assms
  by (auto simp: getJob_def andThen_Inr_iff in_db_Inr getJobRecord_def getCheckpoint_def listEvents_def split: option.splits)

lemma on_getJob:
  assumes "on_runner (getJob jid) s = (Inr x, t)"
  shows "pn_slots t = pn_slots s \<and> pn_quota t = pn_quota s \<and> pn_policies t = pn_policies s \<and> wdb (pn_runner t) = wdb (pn_runner s) \<and>
     (x = None \<longleftrightarrow> find_job jid (wdb (pn_runner s)) = None)"
  using assms getJob_app by (fastforce simp: part_Inr)

lemma replay_found:
  assumes "replay D q slot s = (Inr a, t)" "ad_jobId slot = Some jid" "find_job jid (wdb (pn_runner s)) \<noteq> None"
  shows "an_jobId a = jid \<and> an_replayed a \<and> stores t = stores s"
  using assms by (auto simp: replay_def andThen_Inr_iff stores_iff split: if_splits option.splits dest!: on_getJob)


lemma replay_stale:
  assumes "replay D q slot s = (Inr a, t)" "ad_jobId slot = Some jid" "find_job jid (wdb (pn_runner s)) = None"
  shows "\<exists>s2 u s3. pn_slots s2 = pn_slots s \<and> pn_quota s2 = pn_quota s \<and>
    fail_quietly D q ''STALE_JOB'' ''completed slot referenced a missing job'' True s2 = (Inr u, s3) \<and> admit_new D q s3 = (Inr a, t)"
proof -
  obtain x s2 where x: "on_runner (getJob jid) s = (Inr x, s2)"
    using assms(1,2) by (auto simp: replay_def andThen_Inr_iff)
  have n: "x = None" "pn_slots s2 = pn_slots s" "pn_quota s2 = pn_quota s"
    using on_getJob [OF x] assms(3) by auto
  have e: "replay D q slot s = andThen (fail_quietly D q ''STALE_JOB'' ''completed slot referenced a missing job'' True) (\<lambda>_. admit_new D q) s2"
    using x by (simp add: replay_def assms(2) andThen_def n(1))
  then obtain u s3 where "fail_quietly D q ''STALE_JOB'' ''completed slot referenced a missing job'' True s2 = (Inr u, s3)" "admit_new D q s3 = (Inr a, t)"
    using trans [OF e [symmetric] assms(1)] unfolding andThen_Inr_iff by blast
  then show ?thesis
    using n by blast
qed

definition answered :: "admission_request \<Rightarrow> string \<Rightarrow> 'o plane \<Rightarrow> bool" where
  "answered q jid s \<longleftrightarrow> (\<exists>r. slot_at q (pn_slots s) = Some r \<and> ad_state r = Adm_completed \<and> ad_jobId r = Some jid) \<and>
     find_job jid (wdb (pn_runner s)) \<noteq> None"

lemma admit_new_answered:
  assumes "admit_new D q s = (Inr a, t)" "slot_at q (pn_slots s) = Some r" "ad_state r \<noteq> Adm_failed_terminal"
  shows "answered q (an_jobId a) t"
proof (rule admit_new_Inr [OF assms(1)])
  fix now' and res :: quota_reservation and job :: job_record
  assume "\<exists>y. complete_slot (dp_slots D) (pr_tenantId (aq_principal q)) (aq_idempotencyKey q) (jr_jobId job) (reservationId res) now' (pn_slots s) = (Inr y, pn_slots t)"
    and "find_job (jr_jobId job) (wdb (pn_runner t)) \<noteq> None" "an_jobId a = jr_jobId job"
  then show "answered q (an_jobId a) t"
    using completed_after assms(2,3) unfolding answered_def slot_at_def by metis
qed

lemma fail_completed:
  assumes "fail_quietly D q c d b s = (x, t)" "slot_at q (pn_slots s) = Some r" "ad_state r = Adm_completed"
  shows "pn_slots t = pn_slots s"
  using fail_quietly_slots [OF assms(1)] assms(2,3) by (auto simp: slot_at_def dest!: fail_slot_state)

lemma admit_answered:
  assumes "admit D q p = (Inr a, p1)"
  shows "answered q (an_jobId a) p1"
proof (rule admit_claims [OF assms])
  fix s s1 :: "'a plane" and now c
  assume c: "claim_slot (dp_slots D) (pr_tenantId (aq_principal q)) (aq_idempotencyKey q) (request_fingerprint D q) now (pn_slots p) = (Inr c, pn_slots s1)"
    and r: "(\<exists>slot. c = Adm_is_completed slot \<and> replay D q slot s1 = (Inr a, p1)) \<or> (\<exists>slot. c = Adm_new slot \<and> admit_new D q s1 = (Inr a, p1))"
  show ?thesis
  proof (cases "\<exists>slot. c = Adm_new slot")
    case True
    then show ?thesis
      using r claimed_pending c admit_new_answered [of D q s1 a p1] by (fastforce simp: slot_at_def)
  next
    case False
    then obtain slot where slot: "c = Adm_is_completed slot" "replay D q slot s1 = (Inr a, p1)"
      using r by blast
    then have at: "slot_at q (pn_slots s1) = Some slot" "ad_state slot = Adm_completed"
      using claim_completed [OF c [unfolded slot(1)]] by (auto simp: slot_at_def)
    obtain jid where jid: "ad_jobId slot = Some jid"
      using slot(2) by (cases "ad_jobId slot") (auto simp: replay_def andThen_Inr_iff)
    show ?thesis
    proof (cases "find_job jid (wdb (pn_runner s1)) = None")
      case True
      then obtain s2 u s3 where "pn_slots s2 = pn_slots s1" "fail_quietly D q ''STALE_JOB'' ''completed slot referenced a missing job'' True s2 = (Inr u, s3)"
          "admit_new D q s3 = (Inr a, p1)"
        using replay_stale [OF slot(2) jid] by blast
      then show ?thesis
        using fail_completed at admit_new_answered [of D q s3 a p1 slot] by fastforce
    next
      case found: False
      then show ?thesis
        using replay_found [OF slot(2) jid found] at jid by (auto simp: answered_def stores_iff)
    qed
  qed
qed



section \<open>Retries\<close>

lemma reserve_existing:
  "reserve cfg now rid sc key job lims db = (Inr res, x) \<Longrightarrow> find_request (tenantId sc) key db = Some row \<Longrightarrow> res = row \<and> x = db"
  by (simp add: reserve_def Let_def atomic_Inr)

lemma attached:
  assumes "attachJob cfg rid job db = (Inr u, db')" "find_request tn key db = Some row"
  shows "quota_counters db' = quota_counters db \<and> (\<exists>row'. find_request tn key db' = Some row' \<and> res_state row' = res_state row)"
  using assms by (auto simp: attachJob_def atomic_Inr find_request_def sql_get_update)

lemma new_on_existing:
  assumes "admit_new D q s = (Inr a, t)" "find_request (pr_tenantId (aq_principal q)) (aq_idempotencyKey q) (pn_quota s) = Some row"
  shows "an_reservationId a = reservationId row \<and> quota_counters (pn_quota t) = quota_counters (pn_quota s) \<and>
    (\<exists>row'. find_request (pr_tenantId (aq_principal q)) (aq_idempotencyKey q) (pn_quota t) = Some row' \<and> res_state row' = res_state row) \<and>
    find_job (an_jobId a) (wdb (pn_runner t)) \<noteq> None"
proof (rule admit_new_Inr [OF assms(1)])
  fix lims now rid now' and res :: quota_reservation and db x and r :: job_record
  assume a: "reserve (dp_quota D) now rid (quotaScope (request_scope q)) (aq_idempotencyKey q) None lims ((pn_quota s)\<lparr>quota_limits_t := db\<rparr>) = (Inr res, x)"
      "attachJob (dp_quota D) (reservationId res) (jr_jobId r) x = (Inr (), pn_quota t)"
    and r: "find_job (jr_jobId r) (wdb (pn_runner t)) \<noteq> None" "an_jobId a = jr_jobId r" "an_reservationId a = reservationId res"
  have f: "find_request (tenantId (quotaScope (request_scope q))) (aq_idempotencyKey q) ((pn_quota s)\<lparr>quota_limits_t := db\<rparr>) = Some row"
    using assms(2) by (simp add: quotaScope_def request_scope_def find_request_def)
  show ?thesis
    using reserve_existing [OF a(1) f] attached [OF a(2), of "pr_tenantId (aq_principal q)" "aq_idempotencyKey q" row] assms(2) r
    by (auto simp: find_request_def)
qed

text \<open>
  C39. A retry is admitted without capacity: when the quota already holds a reservation for the key that
  is no longer active (the one a failed creation gave back), an admission under that key creates a job
  on this dead reservation: no capacity counter changes, and the reservation stays inactive.
\<close>

theorem retry_runs_without_capacity:
  assumes "find_request (pr_tenantId (aq_principal q)) (aq_idempotencyKey q) (pn_quota p) = Some row" "res_state row \<noteq> R_active"
    and "admit D q p = (Inr a, p1)" "\<not> an_replayed a"
  shows "find_job (an_jobId a) (wdb (pn_runner p1)) \<noteq> None \<and> an_reservationId a = reservationId row \<and>
    quota_counters (pn_quota p1) = quota_counters (pn_quota p) \<and>
    (\<exists>row'. find_request (pr_tenantId (aq_principal q)) (aq_idempotencyKey q) (pn_quota p1) = Some row' \<and> res_state row' \<noteq> R_active)"
proof (rule admit_claims [OF assms(3)])
  fix s s1 :: "'a plane" and now c
  assume s1: "pn_quota s1 = pn_quota p"
    and r: "(\<exists>slot. c = Adm_is_completed slot \<and> replay D q slot s1 = (Inr a, p1)) \<or> (\<exists>slot. c = Adm_new slot \<and> admit_new D q s1 = (Inr a, p1))"
  have "\<exists>s2. pn_quota s2 = pn_quota p \<and> admit_new D q s2 = (Inr a, p1)"
    using r
  proof
    assume "\<exists>slot. c = Adm_is_completed slot \<and> replay D q slot s1 = (Inr a, p1)"
    then obtain slot where rep: "replay D q slot s1 = (Inr a, p1)" by blast
    then obtain jid where jid: "ad_jobId slot = Some jid"
      by (cases "ad_jobId slot") (auto simp: replay_def andThen_Inr_iff)
    have "find_job jid (wdb (pn_runner s1)) = None"
      using replay_found [OF rep jid] assms(4) by blast
    then obtain s2 u s3 where "pn_quota s2 = pn_quota s1" "admit_new D q s3 = (Inr a, p1)"
        "fail_quietly D q ''STALE_JOB'' ''completed slot referenced a missing job'' True s2 = (Inr u, s3)"
      using replay_stale [OF rep jid] by blast
    then show ?thesis
      using fail_quietly_slots [of D q _ _ _ s2 "Inr u" s3] s1 by auto
  qed (use s1 in blast)
  then obtain s2 where s2: "pn_quota s2 = pn_quota p" "admit_new D q s2 = (Inr a, p1)"
    by blast
  show ?thesis
    using new_on_existing [OF s2(2), of row] assms(1,2) s2(1) by auto
qed


text \<open>What an operation can throw.\<close>

definition throws :: "('e \<Rightarrow> bool) \<Rightarrow> ('s, 'e, 'a) op \<Rightarrow> bool" where
  "throws P m \<longleftrightarrow> (\<forall>s e t. m s = (Inl e, t) \<longrightarrow> P e)"

lemma throwsD: "throws P m \<Longrightarrow> m s = (Inl e, t) \<Longrightarrow> P e"
  by (auto simp: throws_def)

lemma throws_intros:
  "throws P (ok x)" "P e \<Longrightarrow> throws P (throw e)" "throws P (reads f)"
  "throws P m \<Longrightarrow> (\<And>x. throws P (g x)) \<Longrightarrow> throws P (andThen m g)"
  "throws Q m \<Longrightarrow> (\<And>e. Q e \<Longrightarrow> throws P (h e)) \<Longrightarrow> throws P (catch m h)"
  "(\<And>e. P (wrap e)) \<Longrightarrow> throws P (part sel upd wrap n)"
  "throws P a \<Longrightarrow> throws P b \<Longrightarrow> throws P (if c then a else b)"
  by (auto simp: throws_def andThen_Inl_iff catch_Inl part_Inl) metis+

lemma throws_steps:
  "throws P (pnow D)" "throws P (draw_id f)" "throws P (fail_quietly D q c d b)" "throws (\<lambda>e. \<exists>a. e = AuditThrown a) (audit D p i ty m)"
  by (auto simp: throws_def dest: stores_pnow stores_draw stores_audit fail_quietly_slots)

text \<open>The errors of an admission up to the creation of the job, other than the policy's denial.\<close>

definition earlier :: "plane_error \<Rightarrow> bool" where
  "earlier e \<longleftrightarrow> (\<forall>r. e \<noteq> RunnerThrown r) \<and> e \<noteq> AdmissionError ''POLICY_DENIED'' 403"

lemma throws_audit: "throws earlier (audit D p i ty m)"
  using throws_steps(4) [of D p i ty m] by (auto simp: throws_def earlier_def)

lemma throws_authorized: "throws earlier (authorized D q)"
proof -
  have "throws earlier (case e of IdentityThrown (IdentityError c) \<Rightarrow>
          andThen (audit D (aq_principal q) (request_scope q) ''job_rejected'' (JObj [(''reason'', JStr c), (''message'', JStr (dp_message D e))])) (\<lambda>_.
          throw (AdmissionError c (identity_status c))) | _ \<Rightarrow> throw e)" if "\<exists>i. e = IdentityThrown i" for e
    using that by (auto split: identity_error.split intro!: throws_intros throws_audit simp: earlier_def identity_status_def)
  then show ?thesis
    unfolding authorized_def by (intro throws_intros(5) [where Q = "\<lambda>e. \<exists>i. e = IdentityThrown i"] throws_intros(6)) auto
qed

lemma throws_reserve: "throws earlier (reserve_quota D q lims)"
proof -
  have "throws earlier (case e of QuotaThrown (QuotaError c) \<Rightarrow>
            andThen (audit D (aq_principal q) (request_scope q) ''quota_rejected'' (JObj [(''reason'', JStr c), (''requestKey'', JStr (aq_idempotencyKey q))])) (\<lambda>_.
            throw (AdmissionError c 429)) | _ \<Rightarrow> throw e)" if "\<exists>i. e = QuotaThrown i" for e
    using that by (auto split: quota_error.split intro!: throws_intros throws_audit simp: earlier_def)
  then show ?thesis
    unfolding reserve_quota_def
    by (intro throws_intros(5) [where Q = "\<lambda>e. \<exists>i. e = QuotaThrown i"] throws_intros(4,6) throws_steps) auto
qed


lemma new_claim:
  assumes "claim_key D q s = (x, t)" "slot_at q (pn_slots s) = None" "quiet_plane D"
  shows "\<exists>slot r. x = Inr (Adm_new slot) \<and> slot_at q (pn_slots t) = Some r \<and> ad_state r = Adm_pending \<and>
    ad_fingerprint r = request_fingerprint D q \<and> pn_quota t = pn_quota s"
proof -
  obtain now s1 where p: "pnow D s = (Inr now, s1)" "stores s1 = stores s"
    using stores_pnow by (metis surj_pair)
  have "\<not> sql_clash slot_clash (fresh_slot (pr_tenantId (aq_principal q)) (aq_idempotencyKey q) fp now) (pn_slots s)" for fp
    using assms(2) by (auto simp: slot_at_def lookup_slot_def sql_get_None sql_clash_iff slot_clash_def is_slot_def fresh_slot_def)
  then show ?thesis
    using assms p
    by (auto simp: claim_key_def andThen_def part_def claim_slot_def atomic_def quiet_plane_def Let_def stores_iff slot_at_def lookup_slot_def
        is_slot_fresh split: prod.splits)
qed

lemma admit_throws:
  assumes "admit D q p = (Inl e, p1)" "slot_at q (pn_slots p) = None" "quiet_plane D" "\<not> earlier e"
  obtains s1 r where "admit_new D q s1 = (Inl e, p1)" "pn_quota s1 = pn_quota p" "slot_at q (pn_slots s1) = Some r" "ad_state r = Adm_pending"
    "ad_fingerprint r = request_fingerprint D q"
proof -
  have k: "aq_idempotencyKey q \<noteq> []"
    using assms(1,4) by (auto simp: admit_def earlier_def)
  obtain s where s: "authorized D q p = (Inr (), s)"
    using assms(1,4) k throwsD [OF throws_authorized, of D q p e] by (auto simp: admit_def andThen_Inl_iff)
  then have "stores s = stores p" by (rule stores_authorized)
  then have n: "slot_at q (pn_slots s) = None" "pn_quota s = pn_quota p"
    using assms(2) by (simp_all add: stores_iff)
  obtain x s1 where x: "claim_key D q s = (x, s1)" by force
  then show ?thesis
    using new_claim [OF x n(1) assms(3)] assms(1) k s n(2) that [of s1] by (auto simp: admit_def andThen_def)
qed

lemma throws_link: "quiet_plane D \<Longrightarrow> throws earlier (link_job D q d res r)"
proof -
  assume "quiet_plane D"
  then have "throws P (complete_slot (dp_slots D) tn k j v now)" for P tn k j v now
    by (auto simp: throws_def complete_slot_def atomic_def quiet_plane_def split: option.splits prod.splits sum.splits if_splits)
  then have slots: "throws P (on_slots (complete_slot (dp_slots D) tn k j v now))" for P tn k j v now
    by (auto simp: throws_def part_Inl; blast)
  have quota: "throws earlier (on_quota m)" for m :: "unit quota_op"
    by (rule throws_intros(6)) (simp add: earlier_def)
  show ?thesis
    unfolding link_job_def by (intro throws_intros(4) throws_audit throws_steps slots quota)
qed

lemma admit_new_throws:
  assumes "admit_new D q s = (Inl e, t)" "\<not> earlier e" "quiet_plane D"
  shows "e = AdmissionError ''POLICY_DENIED'' 403 \<and> (\<exists>c s1 s2 u. stores s1 = stores s \<and> fail_quietly D q ''POLICY_DENIED'' c False s1 = (u, s2) \<and> stores t = stores s2) \<or>
    (\<exists>d lims s1 s2 res s3. stores s1 = stores s \<and> on_quota (setLimits (dp_quota D) (quotaScope (request_scope q)) lims) s1 = (Inr (), s2) \<and>
      reserve_quota D q lims s2 = (Inr res, s3) \<and> (\<exists>s4. stores s4 = stores s3 \<and> create_or_compensate D q d res s4 = (Inl e, t)))"
proof -
  define d where "d = evaluate (request_scope q) (toPolicyRequest q) (pn_policies s)"
  define lims where "lims = quotaLimitsFromDecision d (ad_maxConcurrentJobs d)"
  have audits: "audit D p i ty m s \<noteq> (Inl e, t)" for p i ty m s t
    using throwsD [OF throws_audit] assms(2) by blast
  have link: "link_job D q d res r s \<noteq> (Inl e, t)" for res r s t
    using throwsD [OF throws_link [OF assms(3)]] assms(2) by blast
  have limits: "on_quota m s \<noteq> (Inl e, t)" for m :: "unit quota_op" and s t
    using assms(2) by (auto simp: part_Inl earlier_def)
  have res: "reserve_quota D q lims s \<noteq> (Inl e, t)" for s t
    using throwsD [OF throws_reserve] assms(2) by blast
  note none = audits link limits res
  show ?thesis
  proof (cases "ad_allowed d")
    case False
    then obtain s1 s2 u where "e = AdmissionError ''POLICY_DENIED'' 403" "stores s1 = stores s"
        "fail_quietly D q ''POLICY_DENIED'' (ad_reasonCode d) False s1 = (u, s2)" "stores t = stores s2"
      using assms(1) unfolding admit_new_def andThen_reads d_def [symmetric]
      by (auto simp: andThen_Inl_iff none dest!: stores_audit)
    then show ?thesis
      by blast
  next
    case True
    then show ?thesis
      using assms(1) unfolding admit_new_def andThen_reads d_def [symmetric] lims_def [symmetric] Let_def
      by (auto simp: andThen_Inl_iff none dest!: stores_audit)
  qed
qed


lemma failed_after:
  assumes "fail_quietly D q c detail b s = (u, t)" "slot_at q (pn_slots s) = Some r" "ad_state r = Adm_pending" "quiet_plane D"
  shows "\<exists>r'. slot_at q (pn_slots t) = Some r' \<and> ad_state r' = (if b then Adm_failed_retriable else Adm_failed_terminal) \<and>
    ad_fingerprint r' = ad_fingerprint r"
proof -
  obtain now y where "fail_slot (dp_slots D) (pr_tenantId (aq_principal q)) (aq_idempotencyKey q) c detail b now (pn_slots s) = (y, pn_slots t)"
    using fail_quietly_slots [OF assms(1)] by blast
  moreover have "sql_get (is_slot (pr_tenantId (aq_principal q)) (aq_idempotencyKey q)) (pn_slots s) = Some r"
    using assms(2) by (simp add: slot_at_def lookup_slot_def)
  ultimately have "pn_slots t = sql_update (is_slot (pr_tenantId (aq_principal q)) (aq_idempotencyKey q)) (failed_slot b c detail now) (pn_slots s)"
    using assms(3,4) by (simp add: fail_slot_def atomic_def quiet_plane_def)
  then show ?thesis
    using assms(2) by (simp add: slot_at_def updated_slot)
qed



section \<open>Compensation\<close>

lemma reserve_then_release:
  assumes inv: "quota_inv db" and new: "find_request (tenantId sc) key db = None" and hook: "q_beforeCommit cfg ''release'' = None"
    and res: "reserve cfg now rid sc key None lims db = (Inr res, db1)"
    and rel: "Quota.release cfg now' (reservationId res) (res_version res) db1 = (y, db2)"
  shows "getUsage sc' db2 = getUsage sc' db \<and> (\<exists>row. find_request (tenantId sc) key db2 = Some row \<and> res_state row = R_released)"
proof -
  let ?r = "new_reservation sc key None rid now (now + reservationTtlMs cfg) R_active None"
  have c: "fresh_row ?r db" "denial sc lims db = None" "res = ?r" "db1 = claimed now sc lims ?r db"
    using reserve_cases [OF inv, where sc = sc and key = key and rid = rid and now = now and cfg = cfg and job = None and lims = lims] res new
    by (metis Pair_inject Inl_Inr_False option.distinct(1) sum.inject(2))+
  have inv1: "quota_inv db1"
    unfolding c(4) by (rule quota_inv_claimed [OF inv new c(2,1)])
  have "\<forall>x \<in> set (quota_reservations db). reservationId x \<noteq> rid"
    using c(1) by (auto simp: fresh_row_def sql_clash_iff reservation_clash_def)
  then have "getReservation rid db = None"
    by (simp add: getReservation_def sql_get_None)
  then have g: "getReservation rid db1 = Some ?r"
    by (simp add: c(4) getReservation_def)
  have db2: "db2 = ended ?r (written (W_release now')) db1"
    using release_active [OF inv1 g, of 1 cfg now'] hook rel by (simp add: c(3))
  have fin: "?r \<in> set (quota_reservations db1)"
    by (simp add: c(4))
  have inv2: "quota_inv db2"
    unfolding db2 by (rule quota_inv_ended [OF inv1 fin]) simp_all
  have h: "int (Quota_Properties.held k (quota_reservations db2)) = int (Quota_Properties.held k (quota_reservations db))" for k
    using held_end [OF quota_invD(1) [OF inv1] fin, of "written (W_release now')" k] by (simp add: db2 ended_def c(4) held_append)
  have "used k (quota_counters db2) = used k (quota_counters db)" for k
    using quota_invD(5) [OF inv2, of k] quota_invD(5) [OF inv, of k] h [of k] by simp
  moreover have "find_request (tenantId sc) key db1 = Some ?r"
    using new by (simp add: c(4) find_request_def)
  then have "find_request (tenantId sc) key db2 = Some (written (W_release now') ?r)"
    by (simp add: db2 ended_def find_request_def sql_get_update)
  ultimately show ?thesis
    using h by (simp add: getUsage_eq)
qed

text \<open>
  C38. A job that cannot be created costs nothing: when the runner refuses the job of a request with a
  new key, the usage of every scope is what it was before the request, the reservation of the key is
  released, and its slot is open to a retry.
\<close>

theorem failed_creation_releases:
  assumes "quiet_plane D" "quota_inv (pn_quota p)" "slot_at q (pn_slots p) = None"
    and "find_request (pr_tenantId (aq_principal q)) (aq_idempotencyKey q) (pn_quota p) = None"
    and "admit D q p = (Inl (RunnerThrown e), p1)"
  shows "getUsage sc (pn_quota p1) = getUsage sc (pn_quota p) \<and>
    (\<exists>row. find_request (pr_tenantId (aq_principal q)) (aq_idempotencyKey q) (pn_quota p1) = Some row \<and> res_state row = R_released) \<and>
    (\<exists>slot. slot_at q (pn_slots p1) = Some slot \<and> ad_state slot = Adm_failed_retriable)"
proof -
  have ne: "\<not> earlier (RunnerThrown e)"
    by (simp add: earlier_def)
  obtain s1 r where s1: "admit_new D q s1 = (Inl (RunnerThrown e), p1)" "pn_quota s1 = pn_quota p" "slot_at q (pn_slots s1) = Some r"
      "ad_state r = Adm_pending"
    using admit_throws [OF assms(5,3,1) ne] by metis
  obtain d lims s2 s3 res s4 s5 where st: "stores s2 = stores s1" "on_quota (setLimits (dp_quota D) (quotaScope (request_scope q)) lims) s2 = (Inr (), s3)"
      "reserve_quota D q lims s3 = (Inr res, s4)" "stores s5 = stores s4" "create_or_compensate D q d res s5 = (Inl (RunnerThrown e), p1)"
    using admit_new_throws [OF s1(1) ne assms(1)] by blast
  obtain now rid where q: "reserve (dp_quota D) now rid (quotaScope (request_scope q)) (aq_idempotencyKey q) None lims (pn_quota s3) = (Inr res, pn_quota s4)"
      "pn_slots s4 = pn_slots s3"
    using reserve_quota_Inr [OF st(3)] by blast
  have q3: "pn_quota s3 = (pn_quota p)\<lparr>quota_limits_t := quota_limits_t (pn_quota s3)\<rparr>" "pn_slots s3 = pn_slots s1"
    using st(1,2) s1(2) by (auto simp: part_Inr stores_iff setLimits_def atomic_Inr)
  obtain w where w: "createJob (dp_runner D) (job_input q d) (pn_runner s5) = (Inl e, w)"
    and m: "andThen (release_quietly D res) (\<lambda>_. andThen (fail_quietly D q ''JOB_CREATION_FAILED'' (dp_message D (RunnerThrown e)) True) (\<lambda>_.
        audit D (aq_principal q) (request_scope q) ''job_rejected''
          (JObj [(''reason'', JStr ''JOB_CREATION_FAILED''), (''message'', JStr (dp_message D (RunnerThrown e)))]))) (s5\<lparr>pn_runner := w\<rparr>) = (Inr (), p1)"
    using st(5) by (auto simp: create_or_compensate_def catch_Inl andThen_Inl_iff andThen_Inr_iff part_Inl dest: stores_audit)
  define s6 where "s6 = s5\<lparr>pn_runner := w\<rparr>"
  obtain s7 u s8 where c: "pn_quota s6 = pn_quota s5" "pn_slots s6 = pn_slots s5" "release_quietly D res s6 = (Inr (), s7)"
      "fail_quietly D q ''JOB_CREATION_FAILED'' (dp_message D (RunnerThrown e)) True s7 = (u, s8)" "stores p1 = stores s8"
    using m unfolding andThen_Inr_iff s6_def [symmetric] by (auto simp: s6_def dest!: stores_audit)
  obtain now' y where rel: "Quota.release (dp_quota D) now' (reservationId res) (res_version res) (pn_quota s6) = (y, pn_quota s7)"
      "pn_slots s7 = pn_slots s6"
    using c(3) by (auto simp: release_quietly_def op_cases stores_iff dest!: stores_pnow)
  have inv: "quota_inv (pn_quota s3)"
    using assms(2) by (subst q3) (simp add: quota_inv_def)
  have new: "find_request (tenantId (quotaScope (request_scope q))) (aq_idempotencyKey q) (pn_quota s3) = None"
    using assms(4) by (subst q3) (simp add: quotaScope_def request_scope_def find_request_def)
  have "getUsage sc (pn_quota s3) = getUsage sc (pn_quota p)"
    by (subst q3) (simp add: getUsage_def)
  moreover have "pn_quota s6 = pn_quota s4" "pn_quota p1 = pn_quota s7" "pn_slots p1 = pn_slots s8"
    using st(4) c(1,5) fail_quietly_slots [OF c(4)] by (auto simp: stores_iff)
  moreover have "\<exists>slot. slot_at q (pn_slots s8) = Some slot \<and> ad_state slot = Adm_failed_retriable"
    using failed_after [OF c(4) _ s1(4) assms(1)] s1(3) rel(2) c(2) st(4) q(2) q3(2) by (auto simp: stores_iff)
  ultimately show ?thesis
    using reserve_then_release [OF inv new _ q(1), of now' y "pn_quota s7" sc] rel(1) assms(1)
    by (simp add: quiet_plane_def quotaScope_def request_scope_def)
qed

section \<open>Witnesses\<close>

definition plane_deps :: "(string, (unit, unit) agent_engine) table \<Rightarrow> (unit, unit) admission_deps" where
  "plane_deps es = \<lparr>dp_runner = demo_env\<lparr>rv_engines := es\<rparr>, dp_quota = \<lparr>q_beforeCommit = (\<lambda>_. None), reservationTtlMs = 1000\<rparr>,
     dp_slots = \<lparr>adm_hook = (\<lambda>_. None), unique_violation = SlotThrown\<rparr>, dp_auditHook = (\<lambda>_. None), dp_newReservationId = (\<lambda>_. ''r''),
     dp_newEventId = (\<lambda>n. replicate n (CHR ''e'')), dp_message = (\<lambda>_. ''error'')\<rparr>"

definition plane_admin :: resolved_principal where
  "plane_admin = \<lparr>pr_principalId = ''a'', pr_kind = User_principal, pr_tenantId = ''t'', pr_orgId = ''o'', pr_role = Owner,
     pr_projectScope = [], pr_admin = True, pr_apiKeyId = None, pr_apiKeyScope = None\<rparr>"

definition plane_request :: "string list \<Rightarrow> admission_request" where
  "plane_request tools = \<lparr>aq_principal = plane_admin, aq_idempotencyKey = ''k'', aq_orgId = ''o'', aq_projectId = ''*'', aq_spec = jr_spec sample_job,
     aq_requestedTools = tools, aq_requestedMaxSteps = None, aq_leaseMs = None\<rparr>"

definition plane_start :: "unit plane" where
  "plane_start = \<lparr>pn_identity = empty_identity_db\<lparr>organizations := [\<lparr>og_orgId = ''o'', og_tenantId = ''t'', og_createdAt = 0, og_displayName = None\<rparr>]\<rparr>,
     pn_policies = [], pn_quota = QUOTA_MIGRATIONS, pn_slots = [], pn_audit = [], pn_runner = demo_world empty_dist_db\<rparr>"

definition result_job :: "(plane_error + admission_result) \<times> unit plane \<Rightarrow> (string \<times> bool) option" where
  "result_job r = (case r of (Inr a, _) \<Rightarrow> Some (an_jobId a, an_replayed a) | _ \<Rightarrow> None)"

definition deps_up :: "(unit, unit) admission_deps" where
  "deps_up = plane_deps [(''e'', demo_engine)]"

definition deps_down :: "(unit, unit) admission_deps" where
  "deps_down = plane_deps []"

definition plane_failed :: "unit plane" where
  "plane_failed = snd (admit deps_down (plane_request []) plane_start)"

definition plane_admitted :: "unit plane" where
  "plane_admitted = snd (admit deps_up (plane_request []) plane_start)"

definition plane_denied :: "unit plane" where
  "plane_denied = snd (admit deps_up (plane_request [''x'']) plane_start)"

text \<open>The plane after the denial, under a policy that would allow the request.\<close>

definition plane_relaxed :: "unit plane" where
  "plane_relaxed = plane_denied\<lparr>pn_policies := [\<lparr>tenantId = ''t'', orgId = ''o'', projectId = ''*'', pw_policyId = ''p'',
     pw_policyVersion = ''1'', pw_definition = DEFAULT_ADMISSION_POLICY\<lparr>ap_allowedTools := [''x'']\<rparr>, pw_createdAt = 0, pw_active = True\<rparr>]\<rparr>"

definition says :: "(plane_error + admission_result) \<times> unit plane \<Rightarrow> plane_error option" where
  "says r = (case r of (Inl e, _) \<Rightarrow> Some e | _ \<Rightarrow> None)"

lemma result_job_Some: "result_job r = Some (j, b) \<Longrightarrow> \<exists>a. r = (Inr a, snd r) \<and> an_jobId a = j \<and> an_replayed a = b"
  by (cases r) (auto simp: result_job_def split: sum.splits)

lemma says_Some: "says r = Some e \<Longrightarrow> r = (Inl e, snd r)"
  by (cases r) (auto simp: says_def split: sum.splits)

lemma quiet_deps: "quiet_plane (plane_deps es)"
  by (simp add: quiet_plane_def plane_deps_def)

lemma plane_start_sel [simp]: "pn_slots plane_start = []" "pn_quota plane_start = QUOTA_MIGRATIONS" "slot_at q (pn_slots plane_start) = None"
    "find_request tn k QUOTA_MIGRATIONS = None"
  by (simp_all add: plane_start_def slot_at_def lookup_slot_def find_request_def QUOTA_MIGRATIONS_def)

lemma up_admits: "result_job (admit deps_up (plane_request []) plane_start) = Some (''j'', False)"
  by code_simp

lemma up_replays: "result_job (admit deps_up (plane_request []) plane_admitted) = Some (''j'', True)"
  by code_simp

lemma down_fails:
  "says (admit deps_down (plane_request []) plane_start) = Some (RunnerThrown (EngineNotFoundError ''e''))"
  by code_simp

lemma failed_retries:
  "result_job (admit deps_up (plane_request []) plane_failed) = Some (''j'', False) \<and>
   map_option res_state (find_request ''t'' ''k'' (pn_quota plane_failed)) = Some R_released"
  by code_simp

lemma unlisted_denied: "says (admit deps_up (plane_request [''x'']) plane_start) = Some (AdmissionError ''POLICY_DENIED'' 403)"
  by code_simp

lemma relaxed_authorized: "isl (fst (authorized deps_up (plane_request [''x'']) plane_relaxed)) = False"
  by code_simp


theorem failed_creation_releases_witness:
  "\<exists>row. find_request ''t'' ''k'' (pn_quota plane_failed) = Some row \<and> res_state row = R_released"
proof -
  have f: "admit deps_down (plane_request []) plane_start = (Inl (RunnerThrown (EngineNotFoundError ''e'')), plane_failed)"
    using says_Some [OF down_fails] by (simp add: plane_failed_def)
  show ?thesis
    using failed_creation_releases [OF _ _ _ _ f] quiet_deps [of "[]"] plane_start_sel(3) [of "plane_request []"]
    by (simp add: deps_down_def quota_inv_init plane_request_def plane_admin_def)
qed

lemma failed_row: "\<exists>row. find_request ''t'' ''k'' (pn_quota plane_failed) = Some row \<and> res_state row \<noteq> R_active"
  using failed_retries by auto

theorem retry_runs_without_capacity_witness:
  "\<exists>a t. admit deps_up (plane_request []) plane_failed = (Inr a, t) \<and> quota_counters (pn_quota t) = quota_counters (pn_quota plane_failed)"
proof -
  obtain a t where a: "admit deps_up (plane_request []) plane_failed = (Inr a, t)" "\<not> an_replayed a"
    using result_job_Some [OF conjunct1 [OF failed_retries]] by auto
  obtain row where row: "find_request (pr_tenantId (aq_principal (plane_request []))) (aq_idempotencyKey (plane_request [])) (pn_quota plane_failed) = Some row"
      "res_state row \<noteq> R_active"
    using failed_row by (auto simp: plane_request_def plane_admin_def)
  show ?thesis
    using retry_runs_without_capacity [OF row a] a(1) by blast
qed


end
