(* ===== verification/Spec2Isabelle.thy ===== *)
theory Spec2Isabelle
  imports Service_Properties Quota_Properties Scheduler Delivery_Providers Control_Plane Runner_Loop Identity_Properties
    Admission_Properties
begin

text \<open>
  A model of the Vaulltcore automation core, translated from the TypeScript packages under
  \<^verbatim>\<open>src/packages\<close>.

  \<^bold>\<open>The program.\<close> Teams publish immutable versions of automations (input contract, step graph,
  artifacts, approval gate, delivery). A run is created against a version with an input that is checked and frozen,
  is admitted, has its steps dispatched to a job runner in dependency order, has its artifacts collected,
  waits for a human decision and is delivered to a destination once. Around this core the repository has
  a quota store that admits work within limits, a scheduler that turns cron expressions into run
  requests, and delivery providers that carry results to webhooks, mail and Slack.

  \<^bold>\<open>Theories.\<close>
  \<^item> \<^verbatim>\<open>Prelude\<close>: tables (insertion-ordered maps, as \<^verbatim>\<open>Map\<close> is), operations with errors and state
    (\<open>op\<close>), text helpers, and the interfaces of the library as locales: \<open>fenced\<close> and \<open>fencing\<close> for
    records guarded by a version number, \<open>op_relation\<close> for operations that stay inside a relation.
  \<^item> \<^verbatim>\<open>Json\<close>: JavaScript values, \<^verbatim>\<open>JSON.stringify\<close>, and the canonical text behind checksums (\<^verbatim>\<open>version.ts\<close>).
  \<^item> \<^verbatim>\<open>Contracts\<close>, \<^verbatim>\<open>Runs\<close>, \<^verbatim>\<open>Versions\<close> with \<^verbatim>\<open>Kahn\<close>, \<^verbatim>\<open>Inputs\<close>, \<^verbatim>\<open>Approvals\<close>, \<^verbatim>\<open>Deliveries\<close>, \<^verbatim>\<open>Artifacts\<close>,
    \<^verbatim>\<open>Projection\<close>, \<^verbatim>\<open>Memory_Store\<close>, \<^verbatim>\<open>Prompts\<close>, \<^verbatim>\<open>Automation_Service\<close>, \<^verbatim>\<open>Service_Properties\<close>:
    package \<^verbatim>\<open>vaulltcore-automation\<close>, file by file (\<^verbatim>\<open>contracts.ts\<close>, \<^verbatim>\<open>run.ts\<close>,
    \<^verbatim>\<open>version.ts\<close>, \<^verbatim>\<open>input.ts\<close>, \<^verbatim>\<open>approval.ts\<close>, \<^verbatim>\<open>delivery.ts\<close>, \<^verbatim>\<open>artifact.ts\<close>, \<^verbatim>\<open>projection.ts\<close>,
    \<^verbatim>\<open>store-memory.ts\<close>, \<^verbatim>\<open>service.ts\<close>).
  \<^item> \<^verbatim>\<open>Audit_Log\<close>, \<^verbatim>\<open>Audit_Store\<close>: \<^verbatim>\<open>vaulltcore-audit\<close>, the metadata sanitizer, the append and the queries.
  \<^item> \<^verbatim>\<open>Sql\<close>: the statements the SQL stores use, over lists of rows: count, conditional update, insert
    with a uniqueness rule, upsert, and transactions that restore the tables when the body throws.
  \<^item> \<^verbatim>\<open>Quota\<close>, \<^verbatim>\<open>Quota_Properties\<close>: \<^verbatim>\<open>vaulltcore-quota\<close>, the whole \<^verbatim>\<open>SqlQuotaStore\<close>.
  \<^item> \<^verbatim>\<open>Cron\<close>, \<^verbatim>\<open>Schedule_Store\<close>, \<^verbatim>\<open>Scheduler\<close>: \<^verbatim>\<open>vaulltcore-scheduler\<close>: expressions, the store, the tick.
  \<^item> \<^verbatim>\<open>Delivery_Guard\<close>, \<^verbatim>\<open>Delivery_Providers\<close>: \<^verbatim>\<open>vaulltcore-delivery\<close>: retry policy and error
    classes, destination guard, the three providers.
  \<^item> \<^verbatim>\<open>Job_Contracts\<close>, \<^verbatim>\<open>Job_Store\<close>, \<^verbatim>\<open>Job_Store_Properties\<close>: the records of a job, its checkpoint and
    their validation (\<^verbatim>\<open>vaulltcore-runner\<close>: \<^verbatim>\<open>contracts.ts\<close>, \<^verbatim>\<open>checkpoint.ts\<close>, \<^verbatim>\<open>store.ts\<close>), and the SQL
    store of jobs, leases, events and checkpoints (\<^verbatim>\<open>vaulltcore-store-sql/sql-store.ts\<close>).
  \<^item> \<^verbatim>\<open>Distributed_Store\<close>, \<^verbatim>\<open>Distributed_Properties\<close>, \<^verbatim>\<open>Control_Plane\<close>: the tables many processes
    share (\<^verbatim>\<open>distributed-store.ts\<close>, \<^verbatim>\<open>registries.ts\<close>): request keys, workers, claims on jobs, recovery,
    snapshots; the step relation of all their operations and what holds under any interleaving.
  \<^item> \<^verbatim>\<open>Admission\<close>: \<^verbatim>\<open>admission-idempotency.ts\<close>, the slots through which a request is admitted once.
  \<^item> \<^verbatim>\<open>Runner_World\<close>, \<^verbatim>\<open>Actor\<close>, \<^verbatim>\<open>Runner\<close>, \<^verbatim>\<open>Runner_Properties\<close>, \<^verbatim>\<open>Runner_Loop\<close>: the job runner
    (\<^verbatim>\<open>actor.ts\<close>, \<^verbatim>\<open>runner.ts\<close>) over a world that holds the shared database, the active runs of the
    process and whatever the engine, the tools and the environment keep outside.
  \<^item> \<^verbatim>\<open>Identity_Store\<close>, \<^verbatim>\<open>Identity_Properties\<close>: \<^verbatim>\<open>vaulltcore-identity\<close>: tenants, organisations,
    members, invitations, projects, API keys and the authorization of a request.
  \<^item> \<^verbatim>\<open>Policy_Store\<close>: \<^verbatim>\<open>vaulltcore-policy\<close>, the policy in force for a scope and its decision.
  \<^item> \<^verbatim>\<open>Admission_Pipeline\<close>, \<^verbatim>\<open>Admission_Properties\<close>: \<^verbatim>\<open>vaulltcore-control/admission.ts\<close>, which admits a
    job over the product of the identity, policy, quota, slot, audit and runner states, each call acting on its part.

  \<^bold>\<open>What the theorems show.\<close> The run record is a state machine whose accepted transitions
  are those of its table; every service operation acts on the store as a sequence of store calls,
  whether it returns or throws, so the store invariant and the fencing results (one winner per
  version, decisions and deliveries settled once, tenants isolated) hold of every history of the
  service, terminal runs are frozen, admission is all or nothing and idempotent, and a completed run has
  a delivered record. The checkers for graphs, definitions and inputs decide their specifications,
  the execution order is topological, and frozen versions and inputs verify after storage. The quota
  counters are exact and bounded under any sequence of transactions. The scheduler admits an
  occurrence once; \<^verbatim>\<open>nextRun\<close> is the earliest match within its cap. Deliveries contact cleared
  destinations only. The control plane keeps its tables consistent under any interleaving, fences
  older owners of a job, assigns a job to one worker, keeps logs append-only and a recoverable snapshot
  per job; the runner acts on those tables only through the store, and its loop ends. An organisation keeps
  an owner, a revoked key stays dead, an invitation is used once; a request key admits one job, and a
  job that cannot be created gives its capacity back. Where the code departs from its documentation the departure is a
  theorem about the code as it is.

  \<^bold>\<open>Conventions and bounds.\<close> Strings are lists of characters, one per UTF-16 code unit below 256;
  objects have own properties only. Numbers are unbounded integers or exact rationals. Errors
  are values of a sum type; texts of messages are kept only where the code reads them. Concurrency is
  interleaving of transactions, or of store calls: every definition of a history is an arbitrary
  sequence of them. Rows without \<^verbatim>\<open>ORDER BY\<close> come in insertion order. Loops of the code that are bounded by a constant
  keep the constant as their fuel: the cron scan its 366 days of minutes, the due times of a
  schedule their 1000, redirects their maximum. The runner's loop, which has no bound of its own, takes
  fuel and reports its end as None; twice the allowed steps and two are enough unless the policy fails
  jobs on uncertain calls, when no fuel is. All other functions terminate structurally or by a
  measure. \<^verbatim>\<open>completeRun\<close> is returned without \<^verbatim>\<open>await\<close> inside a \<^verbatim>\<open>try\<close>, so its errors are not caught
  there; the model follows this. The \<^verbatim>\<open>runId\<close> argument of the private event helper is the id of the run it is
  called with.

  \<^bold>\<open>Parameters.\<close> The clock, fresh ids, SHA-256 and the text of numbers, \<^verbatim>\<open>JSON.parse\<close>, the wall
  clock of a time zone (\<^verbatim>\<open>Intl\<close>), URL parsing, name resolution, HTTP and mail transports, the
  job runner behind the dispatcher, the engine, tools and environments of the job runner, the hook the SQL stores call before a commit, and the admitter of the scheduler
  are arguments of the definitions. Laws about them are premises of the theorems that use
  them, each with a witness.

  \<^bold>\<open>Not modelled.\<close> The SQL twin of the automation store and the trigger stores, the live
  event stream of the job runner (its subscribers), credentials, billing, metering, governance, webhooks ingestion, recovery
  and reliability packages, which are to follow; HTTP servers, adapters of external products, process
  wiring and the web console, which are I/O.
\<close>

end
